(* ===== verification/TB_Prelude.thy ===== *)
theory TB_Prelude
  imports Main "HOL-Library.Char_ord" "HOL-Library.List_Lexorder" "HOL-Library.Product_Lexorder"
    "HOL-Library.Sublist" "HOL-Library.Multiset"
begin

text \<open>
  Shared vocabulary of the development: Go strings as byte strings with the functions of the
  packages \<open>strings\<close> and \<open>strconv\<close> that the code calls, time stamps, the identifier
  helpers that several packages duplicate, look-ups by identifier, and list lemmas.

  Strings are lists of bytes (\<^typ>\<open>string\<close>) ordered bytewise, which is Go's string order
  and \<open>strings.Compare\<close>. \<open>strings.TrimSpace\<close>, \<open>strings.ToLower\<close> and the
  like are modelled on ASCII: multi-byte white space and case pairs are left alone.
\<close>

named_theorems tb_defs \<open>small definitions that proofs unfold together\<close>
named_theorems tb_intro \<open>preservation facts used as introduction rules\<close>

type_synonym ident = string

text \<open>Time stamps are nanoseconds since Go's zero time; \<open>IsZero\<close> is equality with 0.\<close>

type_synonym time = int

abbreviation zero_time :: time where "zero_time \<equiv> 0"

definition time_after :: "time \<Rightarrow> time \<Rightarrow> bool" where
  [tb_defs]: "time_after t u \<longleftrightarrow> u < t"

definition microsecond :: time where
  "microsecond = 1000"

definition truncate_us :: "time \<Rightarrow> time" where
  "truncate_us t = t - t mod microsecond"

lemma truncate_us_le: "truncate_us t \<le> t"
  by (simp add: truncate_us_def microsecond_def)

lemma truncate_us_gt: "t - microsecond < truncate_us t"
  using pos_mod_bound [of 1000 t] by (simp add: truncate_us_def microsecond_def)

lemma truncate_us_idem [simp]: "truncate_us (truncate_us t) = truncate_us t"
  by (simp add: truncate_us_def microsecond_def mod_diff_eq)

lemma truncate_us_add [simp]:
  "truncate_us (truncate_us t + microsecond) = truncate_us t + microsecond"
  by (simp add: truncate_us_def microsecond_def)

text \<open>A connection may fail before a statement takes effect, or after it did.\<close>

datatype outage = Before_Statement | After_Statement

section \<open>White space and trimming\<close>

definition is_space :: "char \<Rightarrow> bool" where
  "is_space c \<longleftrightarrow> c = CHR 0x20 \<or> c = CHR 0x09 \<or> c = CHR 0x0A \<or> c = CHR 0x0B \<or>
     c = CHR 0x0C \<or> c = CHR 0x0D"

definition trim_left :: "string \<Rightarrow> string" where
  "trim_left s = dropWhile is_space s"

definition trim_space :: "string \<Rightarrow> string" where
  "trim_space s = rev (trim_left (rev (trim_left s)))"

definition blank :: "string \<Rightarrow> bool" where
  "blank s \<longleftrightarrow> trim_space s = []"

lemma trim_space_Nil [simp]: "trim_space [] = []"
  by (simp add: trim_space_def trim_left_def)

lemma blank_Nil [simp]: "blank []"
  by (simp add: blank_def)

lemma trim_left_Nil_iff: "trim_left s = [] \<longleftrightarrow> (\<forall>c \<in> set s. is_space c)"
  by (simp add: trim_left_def dropWhile_eq_Nil_conv)

lemma ball_trim_left: "(\<forall>c \<in> set (trim_left s). is_space c) \<longleftrightarrow> (\<forall>c \<in> set s. is_space c)"
  by (induction s) (auto simp: trim_left_def)

lemma trim_left_Nil_trim_left: "trim_left (rev (trim_left s)) = [] \<longleftrightarrow> trim_left s = []"
  by (simp only: trim_left_Nil_iff set_rev ball_trim_left)

lemma blank_iff_all_space: "blank s \<longleftrightarrow> (\<forall>c \<in> set s. is_space c)"
  unfolding blank_def trim_space_def rev_is_Nil_conv trim_left_Nil_trim_left
  by (rule trim_left_Nil_iff)

lemma trim_left_idem [simp]: "trim_left (trim_left s) = trim_left s"
  by (simp add: trim_left_def)

lemma trim_space_trimmed:
  assumes "s = [] \<or> (\<not> is_space (hd s) \<and> \<not> is_space (last s))"
  shows "trim_space s = s"
proof (cases "s = []")
  case False
  then have l: "trim_left s = s"
    using assms by (cases s) (auto simp: trim_left_def)
  moreover have "trim_left (rev s) = rev s"
    using assms False by (cases s rule: rev_cases) (auto simp: trim_left_def)
  ultimately show ?thesis by (simp add: trim_space_def)
qed simp

lemma trim_space_ends:
  assumes "trim_space s \<noteq> []"
  shows "\<not> is_space (hd (trim_space s)) \<and> \<not> is_space (last (trim_space s))"
proof -
  let ?l = "dropWhile is_space s"
  let ?r = "dropWhile is_space (rev ?l)"
  have r: "?r \<noteq> []" using assms by (simp add: trim_space_def trim_left_def)
  then have lst: "\<not> is_space (last (trim_space s))"
    by (simp add: trim_space_def trim_left_def last_rev hd_dropWhile)
  have l: "?l \<noteq> []"
  proof
    assume "?l = []"
    with r show False by simp
  qed
  obtain p where p: "rev ?l = p @ ?r"
    by (metis takeWhile_dropWhile_id)
  then have "?l = rev ?r @ rev p"
    by (metis rev_append rev_rev_ident)
  then have "hd ?l = hd (rev ?r)" using r by (metis hd_append2 rev_is_Nil_conv)
  moreover have "\<not> is_space (hd ?l)" using l by (rule hd_dropWhile)
  ultimately show ?thesis using lst by (simp add: trim_space_def trim_left_def)
qed

lemma trim_space_idem [simp]: "trim_space (trim_space s) = trim_space s"
  using trim_space_ends [of s] by (intro trim_space_trimmed) auto

lemma blank_trim_space [simp]: "blank (trim_space s) = blank s"
  by (simp add: blank_def)

section \<open>Go's string functions\<close>

definition to_lower_char :: "char \<Rightarrow> char" where
  "to_lower_char c = (let n = (of_char c :: nat) in
     if 65 \<le> n \<and> n \<le> 90 then char_of (n + 32) else c)"

definition to_lower :: "string \<Rightarrow> string" where
  "to_lower s = map to_lower_char s"

definition equal_fold :: "string \<Rightarrow> string \<Rightarrow> bool" where
  "equal_fold s t \<longleftrightarrow> to_lower s = to_lower t"

fun str_contains :: "string \<Rightarrow> string \<Rightarrow> bool" where
  "str_contains [] pat \<longleftrightarrow> pat = []"
| "str_contains (c # s) pat \<longleftrightarrow> prefix pat (c # s) \<or> str_contains s pat"

lemma str_contains_sublist: "str_contains s pat \<longleftrightarrow> sublist pat s"
  by (induction s) (auto simp: sublist_Cons_right)

fun str_join :: "string \<Rightarrow> string list \<Rightarrow> string" where
  "str_join sep [] = []"
| "str_join sep [x] = x"
| "str_join sep (x # y # xs) = x @ sep @ str_join sep (y # xs)"

definition trim_prefix :: "string \<Rightarrow> string \<Rightarrow> string" where
  "trim_prefix pre s = (if prefix pre s then drop (length pre) s else s)"

definition trim_suffix :: "string \<Rightarrow> string \<Rightarrow> string" where
  "trim_suffix suf s = (if suffix suf s then take (length s - length suf) s else s)"

fun split_on :: "char \<Rightarrow> string \<Rightarrow> string list" where
  "split_on d [] = [[]]"
| "split_on d (c # s) =
     (if c = d then [] # split_on d s
      else case split_on d s of [] \<Rightarrow> [[c]] | x # xs \<Rightarrow> (c # x) # xs)"

lemma split_on_not_Nil [simp]: "split_on d s \<noteq> []"
  by (induction s) (auto split: list.splits)

definition is_digit :: "char \<Rightarrow> bool" where
  "is_digit c \<longleftrightarrow> 48 \<le> (of_char c :: nat) \<and> (of_char c :: nat) \<le> 57"

definition is_alnum :: "char \<Rightarrow> bool" where
  "is_alnum c \<longleftrightarrow> (let n = (of_char c :: nat) in
     (97 \<le> n \<and> n \<le> 122) \<or> (65 \<le> n \<and> n \<le> 90) \<or> (48 \<le> n \<and> n \<le> 57))"

text \<open>Decimal rendering of counters (\<open>%d\<close> and \<open>%03d\<close>).\<close>

definition digit_char :: "nat \<Rightarrow> char" where
  "digit_char d = char_of (48 + d)"

fun string_of_nat :: "nat \<Rightarrow> string" where
  "string_of_nat n = (if n < 10 then [digit_char n] else string_of_nat (n div 10) @ [digit_char (n mod 10)])"

declare string_of_nat.simps [simp del]

definition pad3 :: "nat \<Rightarrow> string" where
  "pad3 n = (let s = string_of_nat n in replicate (3 - length s) (CHR ''0'') @ s)"

definition nat_of_digits :: "string \<Rightarrow> nat" where
  "nat_of_digits s = foldl (\<lambda>acc c. 10 * acc + (of_char c - 48)) 0 s"

lemma foldl_digits_append:
  "nat_of_digits (s @ [c]) = 10 * nat_of_digits s + (of_char c - 48)"
  by (simp add: nat_of_digits_def)

lemma of_char_digit_char: "d < 10 \<Longrightarrow> (of_char (digit_char d) :: nat) = 48 + d"
  by (simp add: digit_char_def)

lemma nat_of_digits_string_of_nat [simp]: "nat_of_digits (string_of_nat n) = n"
proof (induction n rule: string_of_nat.induct)
  case (1 n)
  show ?case
  proof (cases "n < 10")
    case True
    then show ?thesis
      by (subst string_of_nat.simps) (simp add: nat_of_digits_def of_char_digit_char)
  next
    case False
    have "nat_of_digits (string_of_nat n) =
        10 * nat_of_digits (string_of_nat (n div 10)) + (of_char (digit_char (n mod 10)) - 48)"
      using False by (subst string_of_nat.simps) (simp add: foldl_digits_append)
    then show ?thesis using 1 False by (simp add: of_char_digit_char)
  qed
qed

lemma is_digit_digit_char: "d < 10 \<Longrightarrow> is_digit (digit_char d)"
  by (simp add: is_digit_def of_char_digit_char)

lemma string_of_nat_digits: "\<forall>c \<in> set (string_of_nat n). is_digit c"
proof (induction n rule: string_of_nat.induct)
  case (1 n)
  then show ?case
    by (subst string_of_nat.simps) (auto simp: is_digit_digit_char)
qed

lemma string_of_nat_not_Nil [simp]: "string_of_nat n \<noteq> []"
  by (subst string_of_nat.simps) simp

section \<open>Identifier helpers\<close>

fun first_non_empty :: "string list \<Rightarrow> string" where
  "first_non_empty [] = []"
| "first_non_empty (v # vs) = (if \<not> blank v then v else first_non_empty vs)"

lemma first_non_empty_set:
  "first_non_empty vs \<noteq> [] \<Longrightarrow> first_non_empty vs \<in> set vs \<and> \<not> blank (first_non_empty vs)"
  by (induction vs) auto

lemma first_non_empty_blank: "\<forall>v \<in> set vs. blank v \<Longrightarrow> first_non_empty vs = []"
  by (induction vs) auto

lemma blank_first_non_empty [simp]: "blank (first_non_empty vs) \<longleftrightarrow> (\<forall>v \<in> set vs. blank v)"
  by (induction vs) auto

definition string_default :: "string \<Rightarrow> string \<Rightarrow> string" where
  "string_default v d = (if blank v then d else v)"

section \<open>Look-ups and lists\<close>

text \<open>
  A Go map filled by a loop \<open>for _, x := range xs { m[key(x)] = x }\<close>: the last writer wins.
\<close>

definition index_by :: "('a \<Rightarrow> ident) \<Rightarrow> 'a list \<Rightarrow> ident \<rightharpoonup> 'a" where
  "index_by key xs = fold (\<lambda>x m. m(key x \<mapsto> x)) xs Map.empty"

lemma index_by_append [simp]:
  "index_by key (xs @ [x]) = (index_by key xs)(key x \<mapsto> x)"
  by (simp add: index_by_def)

lemma index_by_Nil [simp]: "index_by key [] = Map.empty"
  by (simp add: index_by_def)

lemma index_by_SomeD: "index_by key xs k = Some x \<Longrightarrow> x \<in> set xs \<and> key x = k"
  by (induction xs rule: rev_induct) (auto split: if_splits)

lemma dom_index_by: "dom (index_by key xs) = key ` set xs"
proof (induction xs rule: rev_induct)
  case (snoc x xs)
  then show ?case by (simp only: index_by_append dom_fun_upd set_append image_Un) simp
qed simp

lemma index_by_None_iff: "index_by key xs k = None \<longleftrightarrow> k \<notin> key ` set xs"
  by (metis domIff dom_index_by)

lemma index_by_distinct:
  "distinct (map key xs) \<Longrightarrow> x \<in> set xs \<Longrightarrow> index_by key xs (key x) = Some x"
  by (induction xs rule: rev_induct) (auto simp: image_iff)

fun take_through :: "('a \<Rightarrow> bool) \<Rightarrow> 'a list \<Rightarrow> 'a list option" where
  "take_through P [] = None"
| "take_through P (x # xs) = (if P x then Some [x] else map_option ((#) x) (take_through P xs))"

lemma take_through_None: "take_through P xs = None \<longleftrightarrow> (\<forall>x \<in> set xs. \<not> P x)"
  by (induction xs) auto

lemma take_through_Some:
  assumes "take_through P xs = Some ys"
  shows "prefix ys xs \<and> ys \<noteq> [] \<and> P (last ys) \<and> (\<forall>y \<in> set (butlast ys). \<not> P y)"
  using assms
proof (induction xs arbitrary: ys)
  case (Cons x xs)
  show ?case
  proof (cases "P x")
    case False
    with Cons.prems obtain zs where zs: "take_through P xs = Some zs" "ys = x # zs" by auto
    with Cons.IH [OF zs(1)] False show ?thesis by auto
  qed (use Cons.prems in auto)
qed simp

fun find_first :: "('a \<Rightarrow> bool) \<Rightarrow> 'a list \<Rightarrow> 'a option" where
  "find_first P [] = None"
| "find_first P (x # xs) = (if P x then Some x else find_first P xs)"

lemma find_first_SomeD: "find_first P xs = Some x \<Longrightarrow> x \<in> set xs \<and> P x"
  by (induction xs) (auto split: if_splits)

lemma find_first_None_iff: "find_first P xs = None \<longleftrightarrow> (\<forall>x \<in> set xs. \<not> P x)"
  by (induction xs) auto

lemma distinct_fst_map_of:
  "distinct (map fst xs) \<Longrightarrow> (k, v) \<in> set xs \<Longrightarrow> map_of xs k = Some v"
  by (rule map_of_is_SomeI)

end
