(* ===== verification/Json.thy ===== *)
theory Json
  imports TB_Prelude
begin

text \<open>
  The values and the text form of \<open>encoding/json\<close> that the program stores in its
  \<open>...JSON\<close> columns: \<open>any\<close> values, \<open>json.Marshal\<close>,
  \<open>json.Unmarshal\<close>, and the accessors the code applies to decoded values.
  A \<open>map[string]any\<close> is an association list in the key order that
  \<open>Marshal\<close> prints, without duplicates (\<open>obj_wf\<close>); numbers keep their literal.
  Surrogate escapes are not combined, as no text the program writes has any.
\<close>

datatype json =
    JNull
  | JBool bool
  | JNum string
  | JStr string
  | JArr "json list"
  | JObj "(string \<times> json) list"

type_synonym obj = "(string \<times> json) list"

section \<open>Objects\<close>

fun obj_put :: "string \<Rightarrow> 'v \<Rightarrow> (string \<times> 'v) list \<Rightarrow> (string \<times> 'v) list" where
  "obj_put k v [] = [(k, v)]"
| "obj_put k v ((k', v') # kvs) =
     (if k = k' then (k, v) # kvs
      else if k < k' then (k, v) # (k', v') # kvs
      else (k', v') # obj_put k v kvs)"

definition obj_of :: "(string \<times> 'v) list \<Rightarrow> (string \<times> 'v) list" where
  "obj_of kvs = fold (\<lambda>(k, v). obj_put k v) kvs []"

text \<open>Reading a missing key of a Go map gives \<open>nil\<close>.\<close>

definition obj_get :: "obj \<Rightarrow> string \<Rightarrow> json" where
  "obj_get kvs k = (case map_of kvs k of Some v \<Rightarrow> v | None \<Rightarrow> JNull)"

definition obj_has :: "(string \<times> 'v) list \<Rightarrow> string \<Rightarrow> bool" where
  "obj_has kvs k \<longleftrightarrow> map_of kvs k \<noteq> None"

definition obj_wf :: "(string \<times> 'v) list \<Rightarrow> bool" where
  "obj_wf kvs \<longleftrightarrow> sorted_wrt (<) (map fst kvs)"

lemma map_of_obj_put [simp]: "map_of (obj_put k v kvs) = (map_of kvs)(k \<mapsto> v)"
  by (induction k v kvs rule: obj_put.induct) (auto simp: fun_eq_iff)

lemma set_fst_obj_put: "fst ` set (obj_put k v kvs) = insert k (fst ` set kvs)"
  by (induction k v kvs rule: obj_put.induct) auto

lemma obj_wf_Nil [simp]: "obj_wf []"
  by (simp add: obj_wf_def)

lemma obj_wf_put [simp]: "obj_wf kvs \<Longrightarrow> obj_wf (obj_put k v kvs)"
proof (induction k v kvs rule: obj_put.induct)
  case (2 k v k' v' kvs)
  consider "k = k'" | "k < k'" | "k' < k" by (metis linorder_neqE)
  then show ?case
    using 2 set_fst_obj_put [of k v kvs] by cases (auto simp: obj_wf_def)
qed (simp add: obj_wf_def)

lemma obj_put_snoc: "\<forall>k' \<in> fst ` set kvs. k' < k \<Longrightarrow> obj_put k v kvs = kvs @ [(k, v)]"
  by (induction kvs) auto

lemma obj_wf_of [simp]: "obj_wf (obj_of kvs)"
proof -
  have "obj_wf acc \<Longrightarrow> obj_wf (fold (\<lambda>(k, v). obj_put k v) kvs acc)" for acc
    by (induction kvs arbitrary: acc) auto
  then show ?thesis by (simp add: obj_of_def)
qed

lemma obj_of_wf: "obj_wf kvs \<Longrightarrow> obj_of kvs = kvs"
proof (induction kvs rule: rev_induct)
  case (snoc kv kvs)
  obtain k v where kv: "kv = (k, v)" by fastforce
  from snoc.prems have "obj_wf kvs" and "\<forall>k' \<in> fst ` set kvs. k' < k"
    by (auto simp: obj_wf_def sorted_wrt_append kv)
  then show ?case using snoc.IH kv by (simp add: obj_of_def obj_put_snoc)
qed (simp add: obj_of_def)

lemma map_of_obj_of: "map_of (obj_of kvs) = map_of (rev kvs)"
proof -
  have "map_of (fold (\<lambda>(k, v). obj_put k v) kvs acc) = map_of acc ++ map_of (rev kvs)" for acc
    by (induction kvs arbitrary: acc) (auto simp: map_add_def fun_eq_iff split: option.splits)
  then show ?thesis by (simp add: obj_of_def)
qed

lemma obj_get_put [simp]: "obj_get (obj_put k v kvs) k' = (if k' = k then v else obj_get kvs k')"
  by (simp add: obj_get_def)

lemma obj_has_put [simp]: "obj_has (obj_put k v kvs) k' \<longleftrightarrow> k' = k \<or> obj_has kvs k'"
  by (simp add: obj_has_def)

lemma obj_has_Nil [simp]: "\<not> obj_has [] k"
  by (simp add: obj_has_def)

lemma obj_get_Nil [simp]: "obj_get [] k = JNull"
  by (simp add: obj_get_def)

section \<open>Marshal\<close>

definition hex_char :: "nat \<Rightarrow> char" where
  "hex_char d = (if d < 10 then char_of (48 + d) else char_of (87 + d))"

definition esc_char :: "char \<Rightarrow> string" where
  "esc_char c = (let n = (of_char c :: nat) in
     if c = CHR 0x22 \<or> c = CHR 0x5C then [CHR 0x5C, c]
     else if c = CHR 0x08 then [CHR 0x5C, CHR ''b'']
     else if c = CHR 0x0C then [CHR 0x5C, CHR ''f'']
     else if c = CHR 0x0A then [CHR 0x5C, CHR ''n'']
     else if c = CHR 0x0D then [CHR 0x5C, CHR ''r'']
     else if c = CHR 0x09 then [CHR 0x5C, CHR ''t'']
     else if n < 32 \<or> c = CHR ''<'' \<or> c = CHR ''>'' \<or> c = CHR ''&''
       then [CHR 0x5C, CHR ''u'', CHR ''0'', CHR ''0'', hex_char (n div 16), hex_char (n mod 16)]
     else [c])"

definition json_quote :: "string \<Rightarrow> string" where
  "json_quote s = CHR 0x22 # concat (map esc_char s) @ [CHR 0x22]"

fun json_marshal :: "json \<Rightarrow> string" where
  "json_marshal JNull = ''null''"
| "json_marshal (JBool b) = (if b then ''true'' else ''false'')"
| "json_marshal (JNum l) = l"
| "json_marshal (JStr s) = json_quote s"
| "json_marshal (JArr xs) = ''['' @ str_join '','' (map json_marshal xs) @ '']''"
| "json_marshal (JObj kvs) =
     ''{'' @ str_join '','' (map (\<lambda>(k, v). json_quote k @ '':'' @ json_marshal v) kvs) @ ''}''"

section \<open>Unmarshal\<close>

definition is_json_space :: "char \<Rightarrow> bool" where
  "is_json_space c \<longleftrightarrow> c = CHR 0x20 \<or> c = CHR 0x09 \<or> c = CHR 0x0A \<or> c = CHR 0x0D"

abbreviation skip_ws :: "string \<Rightarrow> string" where
  "skip_ws \<equiv> dropWhile is_json_space"

definition hex_val :: "char \<Rightarrow> nat option" where
  "hex_val c = (let n = (of_char c :: nat) in
     if 48 \<le> n \<and> n \<le> 57 then Some (n - 48)
     else if 97 \<le> n \<and> n \<le> 102 then Some (n - 87)
     else if 65 \<le> n \<and> n \<le> 70 then Some (n - 55) else None)"

definition hex4 :: "char \<Rightarrow> char \<Rightarrow> char \<Rightarrow> char \<Rightarrow> nat option" where
  "hex4 a b c d = (case (hex_val a, hex_val b, hex_val c, hex_val d) of
     (Some w, Some x, Some y, Some z) \<Rightarrow> Some (4096 * w + 256 * x + 16 * y + z)
   | _ \<Rightarrow> None)"

definition byte :: "nat \<Rightarrow> char" where
  "byte n = char_of n"

definition utf8_encode :: "nat \<Rightarrow> string" where
  "utf8_encode n =
     (if n < 128 then [byte n]
      else if n < 2048 then [byte (192 + n div 64), byte (128 + n mod 64)]
      else if 55296 \<le> n \<and> n < 57344 then [byte 239, byte 191, byte 189]
      else [byte (224 + n div 4096), byte (128 + n div 64 mod 64), byte (128 + n mod 64)])"

definition simple_escape :: "char \<Rightarrow> char option" where
  "simple_escape c =
     (if c = CHR 0x22 \<or> c = CHR 0x5C \<or> c = CHR ''/'' then Some c
      else if c = CHR ''b'' then Some (CHR 0x08)
      else if c = CHR ''f'' then Some (CHR 0x0C)
      else if c = CHR ''n'' then Some (CHR 0x0A)
      else if c = CHR ''r'' then Some (CHR 0x0D)
      else if c = CHR ''t'' then Some (CHR 0x09)
      else None)"

text \<open>The body of a string literal, after its opening quote.\<close>

function parse_str :: "string \<Rightarrow> (string \<times> string) option" where
  "parse_str s =
     (case s of
        [] \<Rightarrow> None
      | c # cs \<Rightarrow>
          if c = CHR 0x22 then Some ([], cs)
          else if c = CHR 0x5C then
            (case cs of
               [] \<Rightarrow> None
             | e # es \<Rightarrow>
                 if e = CHR ''u'' then
                   (case es of
                      h1 # h2 # h3 # h4 # rest \<Rightarrow>
                        (case hex4 h1 h2 h3 h4 of
                           None \<Rightarrow> None
                         | Some n \<Rightarrow> map_option (apfst ((@) (utf8_encode n))) (parse_str rest))
                    | _ \<Rightarrow> None)
                 else
                   (case simple_escape e of
                      None \<Rightarrow> None
                    | Some x \<Rightarrow> map_option (apfst ((#) x)) (parse_str es)))
          else if (of_char c :: nat) < 32 then None
          else map_option (apfst ((#) c)) (parse_str cs))"
  by pat_completeness auto
termination
  by (relation "measure length") auto

declare parse_str.simps [simp del]

definition is_num_char :: "char \<Rightarrow> bool" where
  "is_num_char c \<longleftrightarrow> is_digit c \<or> c \<in> {CHR ''-'', CHR ''+'', CHR ''.'', CHR ''e'', CHR ''E''}"

text \<open>The number grammar of JSON, as a check on a maximal run of number characters.\<close>

definition valid_exp :: "string \<Rightarrow> bool" where
  "valid_exp s = (case s of
     [] \<Rightarrow> True
   | c # cs \<Rightarrow> (c = CHR ''e'' \<or> c = CHR ''E'') \<and>
       (let ds = (case cs of d # r \<Rightarrow> if d = CHR ''+'' \<or> d = CHR ''-'' then r else cs | [] \<Rightarrow> cs)
        in ds \<noteq> [] \<and> list_all is_digit ds))"

definition valid_frac :: "string \<Rightarrow> bool" where
  "valid_frac s = (case s of
     [] \<Rightarrow> True
   | c # cs \<Rightarrow> if c = CHR ''.'' then takeWhile is_digit cs \<noteq> [] \<and> valid_exp (dropWhile is_digit cs)
       else valid_exp s)"

definition valid_num :: "string \<Rightarrow> bool" where
  "valid_num s =
     (let u = (case s of c # cs \<Rightarrow> if c = CHR ''-'' then cs else s | [] \<Rightarrow> s)
      in case u of
           [] \<Rightarrow> False
         | d # r \<Rightarrow> is_digit d \<and>
             (if d = CHR ''0'' then valid_frac r else valid_frac (dropWhile is_digit r)))"

fun parse_value :: "nat \<Rightarrow> string \<Rightarrow> (json \<times> string) option"
and parse_elems :: "nat \<Rightarrow> string \<Rightarrow> (json list \<times> string) option"
and parse_members :: "nat \<Rightarrow> string \<Rightarrow> ((string \<times> json) list \<times> string) option" where
  "parse_value 0 s = None"
| "parse_value (Suc f) s0 =
     (let s = skip_ws s0 in
      case s of
        [] \<Rightarrow> None
      | c # cs \<Rightarrow>
          if c = CHR 0x22 then map_option (apfst JStr) (parse_str cs)
          else if c = CHR ''['' then
            (case skip_ws cs of
               [] \<Rightarrow> None
             | d # ds \<Rightarrow> if d = CHR '']'' then Some (JArr [], ds)
                 else map_option (apfst JArr) (parse_elems f cs))
          else if c = CHR ''{'' then
            (case skip_ws cs of
               [] \<Rightarrow> None
             | d # ds \<Rightarrow> if d = CHR ''}'' then Some (JObj [], ds)
                 else map_option (apfst (JObj \<circ> obj_of)) (parse_members f cs))
          else if prefix ''null'' s then Some (JNull, drop 4 s)
          else if prefix ''true'' s then Some (JBool True, drop 4 s)
          else if prefix ''false'' s then Some (JBool False, drop 5 s)
          else if valid_num (takeWhile is_num_char s)
            then Some (JNum (takeWhile is_num_char s), dropWhile is_num_char s)
          else None)"
| "parse_elems 0 s = None"
| "parse_elems (Suc f) s =
     (case parse_value f s of
        None \<Rightarrow> None
      | Some (v, r) \<Rightarrow>
          (case skip_ws r of
             [] \<Rightarrow> None
           | c # cs \<Rightarrow>
               if c = CHR '']'' then Some ([v], cs)
               else if c = CHR '','' then map_option (apfst ((#) v)) (parse_elems f cs)
               else None))"
| "parse_members 0 s = None"
| "parse_members (Suc f) s =
     (case skip_ws s of
        [] \<Rightarrow> None
      | q # qs \<Rightarrow>
          if q \<noteq> CHR 0x22 then None
          else (case parse_str qs of
             None \<Rightarrow> None
           | Some (k, r) \<Rightarrow>
               (case skip_ws r of
                  [] \<Rightarrow> None
                | c # cs \<Rightarrow>
                    if c \<noteq> CHR '':'' then None
                    else (case parse_value f cs of
                       None \<Rightarrow> None
                     | Some (v, r') \<Rightarrow>
                         (case skip_ws r' of
                            [] \<Rightarrow> None
                          | d # ds \<Rightarrow>
                              if d = CHR ''}'' then Some ([(k, v)], ds)
                              else if d = CHR '','' then
                                map_option (apfst ((#) (k, v))) (parse_members f ds)
                              else None)))))"

text \<open>Each call consumes fuel; the length of the text bounds the calls on a printed value.\<close>

definition json_unmarshal :: "string \<Rightarrow> json option" where
  "json_unmarshal s = (case parse_value (Suc (length s)) s of
     Some (v, r) \<Rightarrow> if skip_ws r = [] then Some v else None
   | None \<Rightarrow> None)"

section \<open>Marshal then Unmarshal\<close>

fun json_wf :: "json \<Rightarrow> bool" where
  "json_wf (JNum l) \<longleftrightarrow> valid_num l \<and> list_all is_num_char l"
| "json_wf (JArr xs) \<longleftrightarrow> (\<forall>x \<in> set xs. json_wf x)"
| "json_wf (JObj kvs) \<longleftrightarrow> obj_wf kvs \<and> (\<forall>kv \<in> set kvs. json_wf (snd kv))"
| "json_wf _ \<longleftrightarrow> True"

text \<open>
  A struct prints its fields in the order of its declaration; decoded again they are a map.
  \<open>json_ok\<close> asks only that the numbers are numbers, and \<open>canon\<close> is what decoding gives.
\<close>

fun json_ok :: "json \<Rightarrow> bool" where
  "json_ok (JNum l) \<longleftrightarrow> valid_num l \<and> list_all is_num_char l"
| "json_ok (JArr xs) \<longleftrightarrow> (\<forall>x \<in> set xs. json_ok x)"
| "json_ok (JObj kvs) \<longleftrightarrow> (\<forall>kv \<in> set kvs. json_ok (snd kv))"
| "json_ok _ \<longleftrightarrow> True"

fun canon :: "json \<Rightarrow> json" where
  "canon (JArr xs) = JArr (map canon xs)"
| "canon (JObj kvs) = JObj (obj_of (map (\<lambda>kv. (fst kv, canon (snd kv))) kvs))"
| "canon v = v"

lemma json_wf_ok: "json_wf v \<Longrightarrow> json_ok v"
  by (induction v rule: json_wf.induct) auto

lemma json_wf_canon [simp]: "json_wf v \<Longrightarrow> canon v = v"
proof (induction v rule: canon.induct)
  case (1 xs)
  then show ?case by (simp add: map_idI)
next
  case (2 kvs)
  have "map (\<lambda>kv. (fst kv, canon (snd kv))) kvs = kvs"
    using 2 by (intro map_idI) (auto simp: prod_eq_iff)
  then show ?case using 2(2) by (simp add: obj_of_wf)
qed simp_all

lemma hex_val_hex_char: "d < 16 \<Longrightarrow> hex_val (hex_char d) = Some d"
  by (auto simp: hex_val_def hex_char_def Let_def)

lemma hex4_byte:
  assumes "n < 256"
  shows "hex4 (CHR ''0'') (CHR ''0'') (hex_char (n div 16)) (hex_char (n mod 16)) = Some n"
proof -
  have "n div 16 < 16" using assms by simp
  moreover have "hex_val (CHR ''0'') = Some 0" by (simp add: hex_val_def)
  ultimately show ?thesis by (simp add: hex4_def hex_val_hex_char)
qed

lemma append_single: "(@) [c] = (#) c"
  by (simp add: fun_eq_iff)

lemma esc_char_cases:
  obtains (u) "esc_char c = [CHR 0x5C, CHR ''u'', CHR ''0'', CHR ''0'',
        hex_char (of_char c div 16), hex_char (of_char c mod 16)]" "(of_char c :: nat) < 128"
    | (e) e where "esc_char c = [CHR 0x5C, e]" "simple_escape e = Some c" "e \<noteq> CHR ''u''"
    | (p) "esc_char c = [c]" "c \<noteq> CHR 0x22" "c \<noteq> CHR 0x5C" "\<not> (of_char c :: nat) < 32"
proof -
  let ?simple = "{CHR 0x22, CHR 0x5C, CHR 0x08, CHR 0x0C, CHR 0x0A, CHR 0x0D, CHR 0x09}"
  let ?u = "(of_char c :: nat) < 32 \<or> c = CHR ''<'' \<or> c = CHR ''>'' \<or> c = CHR ''&''"
  show ?thesis
  proof (cases "c \<in> ?simple")
    case True
    then have "\<exists>e. esc_char c = [CHR 0x5C, e] \<and> simple_escape e = Some c \<and> e \<noteq> CHR ''u''"
      by (elim insertE) (simp_all add: esc_char_def simple_escape_def)
    then show ?thesis using e by blast
  next
    case False
    show ?thesis
    proof (cases ?u)
      case True
      then have "(of_char c :: nat) < 128" by auto
      then show ?thesis using u True False by (simp add: esc_char_def Let_def)
    next
      case f: False
      then show ?thesis using p False by (simp add: esc_char_def Let_def)
    qed
  qed
qed

lemma parse_str_esc_char:
  "parse_str (esc_char c @ t) = map_option (apfst ((#) c)) (parse_str t)"
proof -
  have lt: "(of_char c :: nat) < 256" by (rule nat_of_char_less_256)
  show ?thesis
  proof (cases c rule: esc_char_cases)
    case u
    then show ?thesis
      by (simp add: parse_str.simps [of "CHR 0x5C # _"] hex4_byte lt utf8_encode_def byte_def append_single)
  next
    case e
    then show ?thesis by (simp add: parse_str.simps [of "CHR 0x5C # _"])
  next
    case p
    then show ?thesis by (simp add: parse_str.simps [of "c # _"])
  qed
qed

lemma parse_str_quote: "parse_str (concat (map esc_char s) @ CHR 0x22 # r) = Some (s, r)"
  by (induction s) (simp_all add: parse_str_esc_char parse_str.simps [of "CHR 0x22 # _"])

lemma valid_num_Cons: "valid_num l \<Longrightarrow> \<exists>c cs. l = c # cs \<and> (is_digit c \<or> c = CHR ''-'')"
  by (auto simp: valid_num_def Let_def split: list.splits if_splits)

definition value_start :: "char \<Rightarrow> bool" where
  "value_start c \<longleftrightarrow> c \<noteq> CHR '']'' \<and> c \<noteq> CHR ''}'' \<and> \<not> is_json_space c"

lemma is_digit_neq:
  assumes "is_digit c"
  shows "value_start c" "c \<noteq> CHR 0x22" "c \<noteq> CHR ''[''" "c \<noteq> CHR ''{''"
    "c \<noteq> CHR ''n''" "c \<noteq> CHR ''t''" "c \<noteq> CHR ''f''"
  using assms by (auto simp: is_digit_def value_start_def is_json_space_def)

lemma json_marshal_start:
  "json_ok v \<Longrightarrow> \<exists>c cs. json_marshal v = c # cs \<and> value_start c"
proof (cases v)
  case (JNum l)
  assume "json_ok v"
  with JNum obtain c cs where "l = c # cs" "is_digit c \<or> c = CHR ''-''"
    using valid_num_Cons [of l] by auto
  with JNum show ?thesis
    using is_digit_neq(1) [of c] by (auto simp: value_start_def is_json_space_def)
qed (auto simp: value_start_def is_json_space_def json_quote_def)

lemma json_marshal_pos: "json_ok v \<Longrightarrow> 0 < length (json_marshal v)"
  using json_marshal_start [of v] by auto

definition ends_number :: "string \<Rightarrow> bool" where
  "ends_number r \<longleftrightarrow> (case r of [] \<Rightarrow> True | c # _ \<Rightarrow> \<not> is_num_char c)"

lemma ends_number_Cons: "ends_number (c # r) \<longleftrightarrow> \<not> is_num_char c"
  by (simp add: ends_number_def)

lemma not_num_char [simp]:
  "\<not> is_num_char (CHR '','')" "\<not> is_num_char (CHR '']'')" "\<not> is_num_char (CHR ''}'')"
  by (auto simp: is_num_char_def is_digit_def)

lemma takeWhile_num:
  assumes "list_all is_num_char l" and "ends_number r"
  shows "takeWhile is_num_char (l @ r) = l" "dropWhile is_num_char (l @ r) = r"
  using assms by (induction l) (auto simp: ends_number_def split: list.splits)

lemma parse_value_num:
  assumes "valid_num l" "list_all is_num_char l" "ends_number r"
  shows "parse_value (Suc f) (l @ r) = Some (JNum l, r)"
proof -
  obtain c cs where l: "l = c # cs" and c: "is_digit c \<or> c = CHR ''-''"
    using valid_num_Cons [OF assms(1)] by blast
  have w: "skip_ws (l @ r) = c # cs @ r"
    using c is_digit_neq(1) [of c] l by (auto simp: value_start_def is_json_space_def)
  have n: "c \<noteq> CHR 0x22" "c \<noteq> CHR ''[''" "c \<noteq> CHR ''{''" "c \<noteq> CHR ''n''" "c \<noteq> CHR ''t''" "c \<noteq> CHR ''f''"
    using c is_digit_neq [of c] by auto
  have t: "takeWhile is_num_char (c # cs @ r) = l" "dropWhile is_num_char (c # cs @ r) = r"
    using takeWhile_num [OF assms(2,3)] l by simp_all
  show ?thesis
    unfolding parse_value.simps(2) Let_def w list.case using n t assms(1) by (simp del: takeWhile.simps dropWhile.simps)
qed

lemma str_join_Cons:
  "str_join sep (x # xs) = x @ (if xs = [] then [] else sep @ str_join sep xs)"
  by (cases xs) auto

lemma skip_ws_start: "value_start c \<Longrightarrow> skip_ws (c # s) = c # s"
  by (simp add: value_start_def)

definition parses_back :: "json \<Rightarrow> bool" where
  "parses_back v \<longleftrightarrow> (\<forall>f r. length (json_marshal v) \<le> f \<longrightarrow> ends_number r \<longrightarrow>
     parse_value f (json_marshal v @ r) = Some (canon v, r))"

lemma parses_backD:
  "parses_back v \<Longrightarrow> length (json_marshal v) \<le> f \<Longrightarrow> ends_number r \<Longrightarrow>
     parse_value f (json_marshal v @ r) = Some (canon v, r)"
  by (simp add: parses_back_def)

lemma parses_backI:
  assumes "json_marshal v \<noteq> []"
    and "\<And>g r. ends_number r \<Longrightarrow> parse_value (Suc g) (json_marshal v @ r) = Some (canon v, r)"
  shows "parses_back v"
  unfolding parses_back_def
proof (intro allI impI)
  fix f r
  assume "length (json_marshal v) \<le> f" and r: "ends_number r"
  then obtain g where "f = Suc g" using assms(1) by (cases f) auto
  then show "parse_value f (json_marshal v @ r) = Some (canon v, r)" using assms(2) [OF r] by simp
qed

lemma not_json_space [simp]:
  "\<not> is_json_space (CHR ''['')" "\<not> is_json_space (CHR ''{'')" "\<not> is_json_space (CHR 0x22)"
  "\<not> is_json_space (CHR '']'')" "\<not> is_json_space (CHR ''}'')" "\<not> is_json_space (CHR '','')"
  "\<not> is_json_space (CHR '':'')" "\<not> is_json_space (CHR ''n'')" "\<not> is_json_space (CHR ''t'')"
  "\<not> is_json_space (CHR ''f'')"
  by (auto simp: is_json_space_def)

lemma parse_elems_join:
  assumes "xs \<noteq> []" "\<forall>x \<in> set xs. parses_back x"
    and "length (str_join '','' (map json_marshal xs)) < f"
  shows "parse_elems f (str_join '','' (map json_marshal xs) @ CHR '']'' # r) = Some (map canon xs, r)"
  using assms
proof (induction xs arbitrary: f)
  case (Cons x xs)
  obtain g where f: "f = Suc g" using Cons.prems(3) by (cases f) auto
  show ?case
  proof (cases "xs = []")
    case True
    with Cons.prems f have "parse_value g (json_marshal x @ CHR '']'' # r) = Some (canon x, CHR '']'' # r)"
      by (intro parses_backD) (auto simp: ends_number_Cons)
    with True f show ?thesis by (simp add: is_json_space_def)
  next
    case False
    let ?t = "str_join '','' (map json_marshal xs) @ CHR '']'' # r"
    have len: "length (json_marshal x) \<le> g" "length (str_join '','' (map json_marshal xs)) < g"
      using Cons.prems(3) f False by (auto simp: str_join_Cons)
    have "parse_value g (json_marshal x @ CHR '','' # ?t) = Some (canon x, CHR '','' # ?t)"
      using Cons.prems(2) len(1) by (intro parses_backD) (auto simp: ends_number_Cons)
    moreover have "parse_elems g ?t = Some (map canon xs, r)"
      using Cons.IH [OF False _ len(2)] Cons.prems(2) by simp
    ultimately show ?thesis
      using f False by (simp add: str_join_Cons is_json_space_def)
  qed
qed simp

definition member_text :: "string \<times> json \<Rightarrow> string" where
  "member_text kv = json_quote (fst kv) @ '':'' @ json_marshal (snd kv)"

lemma json_marshal_JObj: "json_marshal (JObj kvs) = ''{'' @ str_join '','' (map member_text kvs) @ ''}''"
  by (simp add: member_text_def [abs_def] case_prod_unfold)

abbreviation canon_members :: "(string \<times> json) list \<Rightarrow> (string \<times> json) list" where
  "canon_members kvs \<equiv> map (\<lambda>kv. (fst kv, canon (snd kv))) kvs"

lemma parse_members_join:
  assumes "kvs \<noteq> []" "\<forall>kv \<in> set kvs. parses_back (snd kv)"
    and "length (str_join '','' (map member_text kvs)) < f"
  shows "parse_members f (str_join '','' (map member_text kvs) @ CHR ''}'' # r) = Some (canon_members kvs, r)"
  using assms
proof (induction kvs arbitrary: f)
  case (Cons kv kvs)
  obtain g where f: "f = Suc g" using Cons.prems(3) by (cases f) auto
  obtain k v where kv: "kv = (k, v)" by fastforce
  define u where "u = (if kvs = [] then CHR ''}'' # r
     else CHR '','' # str_join '','' (map member_text kvs) @ CHR ''}'' # r)"
  have txt_eq: "str_join '','' (map member_text (kv # kvs)) @ CHR ''}'' # r =
      CHR 0x22 # concat (map esc_char k) @ CHR 0x22 # CHR '':'' # json_marshal v @ u"
    by (simp add: str_join_Cons u_def member_text_def json_quote_def kv)
  have "length (json_marshal v) \<le> g"
    using Cons.prems(3) f kv by (auto simp: str_join_Cons member_text_def)
  then have "parse_value g (json_marshal v @ u) = Some (canon v, u)"
    using Cons.prems(2) by (intro parses_backD) (auto simp: u_def ends_number_Cons kv)
  note step = this parse_str_quote [of k]
  show ?case
  proof (cases "kvs = []")
    case True
    then show ?thesis unfolding txt_eq f
      using step by (simp add: u_def is_json_space_def kv)
  next
    case False
    have "length (str_join '','' (map member_text kvs)) < g"
      using Cons.prems(3) f False by (auto simp: str_join_Cons)
    then have "parse_members g (str_join '','' (map member_text kvs) @ CHR ''}'' # r) = Some (canon_members kvs, r)"
      using Cons.IH [OF False] Cons.prems(2) by simp
    then show ?thesis unfolding txt_eq f
      using step False by (simp add: u_def is_json_space_def kv)
  qed
qed simp

lemma parse_value_arr:
  assumes "\<forall>x \<in> set xs. json_ok x \<and> parses_back x"
  shows "parses_back (JArr xs)"
  unfolding parses_back_def
proof (intro allI impI)
  fix f r
  assume len: "length (json_marshal (JArr xs)) \<le> f"
  then obtain g where f: "f = Suc g" by (cases f) auto
  let ?j = "str_join '','' (map json_marshal xs)"
  show "parse_value f (json_marshal (JArr xs) @ r) = Some (canon (JArr xs), r)"
  proof (cases xs)
    case Nil
    then show ?thesis by (simp add: f is_json_space_def)
  next
    case (Cons x ys)
    then obtain c cs where c: "json_marshal x = c # cs" "value_start c"
      using json_marshal_start [of x] assms by auto
    have start: "?j @ CHR '']'' # r = c # tl (?j @ CHR '']'' # r)"
      using Cons c by (simp add: str_join_Cons)
    have "parse_elems g (?j @ CHR '']'' # r) = Some (map canon xs, r)"
      using assms len f Cons by (intro parse_elems_join) auto
    then have "parse_elems g (c # tl (?j @ CHR '']'' # r)) = Some (map canon xs, r)"
      using start by simp
    moreover have "c \<noteq> CHR '']''" "\<not> is_json_space c" using c(2) by (simp_all add: value_start_def)
    moreover have "json_marshal (JArr xs) @ r = CHR ''['' # c # tl (?j @ CHR '']'' # r)"
      using start by simp
    ultimately show ?thesis
      unfolding f by (simp del: json_marshal.simps)
  qed
qed

lemma parse_value_obj:
  assumes "\<forall>kv \<in> set kvs. parses_back (snd kv)"
  shows "parses_back (JObj kvs)"
  unfolding parses_back_def
proof (intro allI impI)
  fix f r
  assume len: "length (json_marshal (JObj kvs)) \<le> f"
  then obtain g where f: "f = Suc g" by (cases f) auto
  let ?j = "str_join '','' (map member_text kvs)"
  show "parse_value f (json_marshal (JObj kvs) @ r) = Some (canon (JObj kvs), r)"
  proof (cases kvs)
    case Nil
    then show ?thesis by (simp add: f is_json_space_def obj_of_def)
  next
    case (Cons kv ys)
    have start: "?j @ CHR ''}'' # r = CHR 0x22 # tl (?j @ CHR ''}'' # r)"
      using Cons by (simp add: str_join_Cons member_text_def json_quote_def)
    have "parse_members g (?j @ CHR ''}'' # r) = Some (canon_members kvs, r)"
      using assms len f Cons unfolding json_marshal_JObj by (intro parse_members_join) auto
    then have "parse_members g (CHR 0x22 # tl (?j @ CHR ''}'' # r)) = Some (canon_members kvs, r)"
      using start by simp
    moreover have "json_marshal (JObj kvs) @ r = CHR ''{'' # CHR 0x22 # tl (?j @ CHR ''}'' # r)"
      using start by (simp add: json_marshal_JObj del: json_marshal.simps)
    ultimately show ?thesis
      unfolding f by (simp add: is_json_space_def del: json_marshal.simps)
  qed
qed

lemma json_ok_parses_back: "json_ok v \<Longrightarrow> parses_back v"
proof (induction v)
  case (JNum l)
  then show ?case
    using json_marshal_pos [OF JNum] parse_value_num [of l] by (intro parses_backI) auto
next
  case (JStr t)
  show ?case by (rule parses_backI) (simp_all add: json_quote_def parse_str_quote)
next
  case (JArr xs)
  then show ?case by (intro parse_value_arr) auto
next
  case (JObj kvs)
  then show ?case by (intro parse_value_obj) (auto simp: snds.simps)
qed (auto intro!: parses_backI split: if_splits)

theorem json_unmarshal_marshal_canon:
  assumes "json_ok v"
  shows "json_unmarshal (json_marshal v) = Some (canon v)"
  using parses_backD [OF json_ok_parses_back [OF assms], of "Suc (length (json_marshal v))" "[]"]
  by (simp add: json_unmarshal_def ends_number_def)

theorem json_unmarshal_marshal: "json_wf v \<Longrightarrow> json_unmarshal (json_marshal v) = Some v"
  by (simp add: json_unmarshal_marshal_canon json_wf_ok)

text \<open>What was decoded is a value without duplicate members, with members in order.\<close>

definition yields :: "('a \<Rightarrow> bool) \<Rightarrow> ('a \<times> string) option \<Rightarrow> bool" where
  "yields P x \<longleftrightarrow> (\<forall>v r. x = Some (v, r) \<longrightarrow> P v)"

lemma yields_simps [simp]:
  "yields P None" "yields P (Some (v, r)) \<longleftrightarrow> P v"
  "yields P (map_option (apfst f) x) \<longleftrightarrow> yields (P \<circ> f) x"
  "yields (\<lambda>_. True) x" "yields ((\<lambda>_. True) \<circ> f) x"
  by (auto simp: yields_def)

lemma yields_cases:
  "(b \<Longrightarrow> yields P x) \<Longrightarrow> (\<not> b \<Longrightarrow> yields P y) \<Longrightarrow> yields P (if b then x else y)"
  "(\<And>a as. xs = a # as \<Longrightarrow> yields P (g a as)) \<Longrightarrow> yields P (case xs of [] \<Rightarrow> None | a # as \<Rightarrow> g a as)"
  "(\<And>u r. z = Some (u, r) \<Longrightarrow> yields P (h u r)) \<Longrightarrow> yields P (case z of None \<Rightarrow> None | Some (u, r) \<Rightarrow> h u r)"
  by (auto split: list.split option.split prod.split)

lemma in_obj_put: "kv \<in> set (obj_put k v kvs) \<Longrightarrow> kv = (k, v) \<or> kv \<in> set kvs"
  by (induction k v kvs rule: obj_put.induct) (auto split: if_splits)

lemma in_obj_of: "kv \<in> set (obj_of kvs) \<Longrightarrow> kv \<in> set kvs"
proof (induction kvs rule: rev_induct)
  case (snoc x xs)
  then show ?case by (cases x) (auto simp: obj_of_def dest: in_obj_put)
qed (simp add: obj_of_def)

lemma json_wf_obj_of: "\<forall>kv \<in> set kvs. json_wf (snd kv) \<Longrightarrow> json_wf (JObj (obj_of kvs))"
  by (auto dest: in_obj_of)

lemma takeWhile_list_all: "list_all P (takeWhile P xs)"
  by (induction xs) auto

lemma parse_wf:
  "yields json_wf (parse_value f s) \<and> yields (\<lambda>xs. \<forall>x \<in> set xs. json_wf x) (parse_elems f s) \<and>
   yields (\<lambda>kvs. \<forall>kv \<in> set kvs. json_wf (snd kv)) (parse_members f s)"
proof (induction f arbitrary: s)
  case (Suc f)
  note vals = Suc.IH [THEN conjunct1] and elems = Suc.IH [THEN conjunct2, THEN conjunct1]
    and members = Suc.IH [THEN conjunct2, THEN conjunct2]
  have parsed: "json_wf v" if "parse_value f t = Some (v, r)" for t v r
    using vals [of t] that by (simp add: yields_def)
  have str: "yields (json_wf \<circ> JStr) x" for x by (auto simp: yields_def)
  have arr: "yields (json_wf \<circ> JArr) (parse_elems f t)" for t
    using elems [of t] by (auto simp: yields_def)
  have obj: "yields (json_wf \<circ> (JObj \<circ> obj_of)) (parse_members f t)" for t
    using members [of t] by (auto simp: yields_def dest: in_obj_of)
  have more: "yields ((\<lambda>xs. \<forall>x \<in> set xs. json_wf x) \<circ> (#) v) (parse_elems f t)" if "json_wf v" for v t
    using elems [of t] that by (auto simp: yields_def)
  have more_members: "yields ((\<lambda>kvs. \<forall>kv \<in> set kvs. json_wf (snd kv)) \<circ> (#) (k, v)) (parse_members f t)" if "json_wf v" for k v t
    using members [of t] that by (auto simp: yields_def)
  have "yields json_wf (parse_value (Suc f) s)"
    unfolding parse_value.simps Let_def
    by (intro yields_cases) (use str arr obj in \<open>simp_all add: takeWhile_list_all\<close>)
  moreover have "yields (\<lambda>xs. \<forall>x \<in> set xs. json_wf x) (parse_elems (Suc f) s)"
    unfolding parse_elems.simps
    by (intro yields_cases) (use parsed more in \<open>simp_all\<close>)
  moreover have "yields (\<lambda>kvs. \<forall>kv \<in> set kvs. json_wf (snd kv)) (parse_members (Suc f) s)"
    unfolding parse_members.simps
    by (intro yields_cases) (use parsed more_members in \<open>simp_all\<close>)
  ultimately show ?case by blast
qed simp

lemma json_unmarshal_wf: "json_unmarshal s = Some v \<Longrightarrow> json_wf v"
  using parse_wf [of "Suc (length s)" s]
  by (auto simp: json_unmarshal_def yields_def simp del: parse_value.simps split: option.splits prod.splits if_splits)

section \<open>Accessors on decoded values\<close>

text \<open>\<open>fmt.Sprint\<close> on decoded values.\<close>

fun go_sprint :: "json \<Rightarrow> string" where
  "go_sprint JNull = ''<nil>''"
| "go_sprint (JBool b) = (if b then ''true'' else ''false'')"
| "go_sprint (JNum l) = l"
| "go_sprint (JStr s) = s"
| "go_sprint (JArr xs) = ''['' @ str_join '' '' (map go_sprint xs) @ '']''"
| "go_sprint (JObj kvs) =
     ''map['' @ str_join '' '' (map (\<lambda>(k, v). k @ '':'' @ go_sprint v) kvs) @ '']''"

definition value_string :: "json \<Rightarrow> string" where
  "value_string v = (case v of JNull \<Rightarrow> [] | JStr s \<Rightarrow> s | _ \<Rightarrow> go_sprint v)"

definition map_from_any :: "json \<Rightarrow> obj" where
  "map_from_any v = (case v of JObj kvs \<Rightarrow> kvs | _ \<Rightarrow> [])"

definition list_from_any :: "json \<Rightarrow> json list" where
  "list_from_any v = (case v of JArr xs \<Rightarrow> xs | _ \<Rightarrow> [])"

text \<open>
  \<open>json.Unmarshal\<close> into a \<open>map[string]any\<close>: \<open>null\<close> leaves the map nil, which reads
  as empty; anything but an object is an error.
\<close>

definition unmarshal_map :: "string \<Rightarrow> obj option" where
  "unmarshal_map raw = (case json_unmarshal raw of
     Some (JObj kvs) \<Rightarrow> Some kvs | Some JNull \<Rightarrow> Some [] | _ \<Rightarrow> None)"

definition json_object_string :: "string \<Rightarrow> obj" where
  "json_object_string raw =
     (case unmarshal_map (string_default raw ''{}'') of Some kvs \<Rightarrow> kvs | None \<Rightarrow> [])"

lemma value_string_simps [simp]:
  "value_string JNull = []" "value_string (JStr s) = s"
  by (simp_all add: value_string_def)

definition obj_text :: "obj \<Rightarrow> string" where
  "obj_text kvs = json_marshal (JObj kvs)"

lemma obj_text_not_blank [simp]: "\<not> blank (obj_text kvs)"
  by (simp add: obj_text_def blank_iff_all_space is_space_def)

lemma unmarshal_map_obj_text: "json_wf (JObj kvs) \<Longrightarrow> unmarshal_map (obj_text kvs) = Some kvs"
  by (simp add: unmarshal_map_def obj_text_def json_unmarshal_marshal del: json_marshal.simps)

lemma json_object_string_text [simp]:
  "json_wf (JObj kvs) \<Longrightarrow> json_object_string (obj_text kvs) = kvs"
  by (simp add: json_object_string_def string_default_def unmarshal_map_obj_text del: json_wf.simps)

lemma json_wf_obj_put [simp]:
  assumes "json_wf (JObj kvs)" "json_wf v"
  shows "json_wf (JObj (obj_put k v kvs))"
proof -
  have "\<forall>kv \<in> set (obj_put k v kvs). json_wf (snd kv)"
    using assms by (induction k v kvs rule: obj_put.induct) (auto simp: obj_wf_def)
  then show ?thesis using assms by simp
qed

end
