(* ===== verification/Plan_Graph.thy ===== *)
theory Plan_Graph
  imports Json
begin

text \<open>
  The package \<open>internal/domain/plangraph\<close>: the test map as a graph of interface nodes,
  edges, workflow paths and materializations (\<open>types.go\<close>), the cycle check
  (\<open>validate.go\<close>), the validation family of a node (\<open>node_metadata.go\<close>) and the
  choice of a replay prefix for one case (\<open>explain.go\<close>).
  Fields keep Go's names behind a prefix per struct.
\<close>

section \<open>Data\<close>

definition "NodeRolePrimary = ''primary''"
definition "NodeRoleValidation = ''validation''"
definition "StateEffectAdvance = ''advance''"
definition "StateEffectUnchanged = ''unchanged''"
definition "EdgeKindControl = ''control''"
definition "EdgeKindFixture = ''fixture''"
definition "OperationRunPathPrefix = ''run_path_prefix''"
definition "OperationRunCase = ''run_case''"

record plan_map =
  mp_ID :: ident
  mp_ProfileID :: ident
  mp_DisplayName :: string
  mp_Description :: string
  mp_Status :: string
  mp_SummaryJSON :: string
  mp_CreatedAt :: time
  mp_UpdatedAt :: time

record node =
  nd_MapID :: ident
  nd_ID :: ident
  nd_CaseID :: ident
  nd_InterfaceNodeID :: ident
  nd_RequestTemplateID :: ident
  nd_BaseCaseID :: ident
  nd_AnchorNodeID :: ident
  nd_Role :: string
  nd_StateEffect :: string
  nd_RenderMode :: string
  nd_PatchJSON :: string
  nd_ExpectedJSON :: string
  nd_RequiredPropertyJSON :: string
  nd_ProvidedPropertyJSON :: string
  nd_SummaryJSON :: string
  nd_SortOrder :: int

record edge =
  ed_MapID :: ident
  ed_ID :: ident
  ed_FromNodeID :: ident
  ed_ToNodeID :: ident
  ed_Kind :: string
  ed_PathID :: ident
  ed_MaterializationID :: ident
  ed_Required :: bool
  ed_MappingsJSON :: string
  ed_SummaryJSON :: string
  ed_SortOrder :: int

record plan_path =
  pa_MapID :: ident
  pa_ID :: ident
  pa_WorkflowID :: ident
  pa_DisplayName :: string
  pa_Status :: string
  pa_RequiredPropertyJSON :: string
  pa_ProvidedPropertyJSON :: string
  pa_SummaryJSON :: string
  pa_SortOrder :: int

record path_step =
  ps_MapID :: ident
  ps_PathID :: ident
  ps_StepIndex :: int
  ps_StepID :: ident
  ps_NodeID :: ident
  ps_CaseID :: ident
  ps_Required :: bool
  ps_MaterializeAfter :: bool
  ps_SummaryJSON :: string

record materialization =
  mz_MapID :: ident
  mz_ID :: ident
  mz_FixtureID :: ident
  mz_SourcePathID :: ident
  mz_SourceWorkflowID :: ident
  mz_SourceUntilStep :: ident
  mz_SourceUntilNodeID :: ident
  mz_SnapshotKind :: string
  mz_TTLSeconds :: int
  mz_Status :: string
  mz_SummaryJSON :: string
  mz_SortOrder :: int

record graph =
  gr_Map :: plan_map
  gr_Nodes :: "node list"
  gr_Edges :: "edge list"
  gr_Paths :: "plan_path list"
  gr_PathSteps :: "path_step list"
  gr_Materializations :: "materialization list"

record explain_options =
  eo_CaseID :: ident
  eo_NodeID :: ident

record candidate_path =
  cp_PathID :: ident
  cp_WorkflowID :: ident
  cp_Selected :: bool
  cp_Reason :: string

record rejected_reason =
  rr_PathID :: ident
  rr_Reason :: string

record physical_operation =
  op_Kind :: string
  op_PathID :: ident
  op_UntilNodeID :: ident
  op_NodeID :: ident
  op_CaseID :: ident
  op_MaterializationID :: ident
  op_Reason :: string
  op_PatchJSON :: string
  op_RequiredPropertyJSON :: string
  op_ProvidedPropertyJSON :: string

record explanation =
  ex_MapID :: ident
  ex_TargetNodeID :: ident
  ex_TargetCaseID :: ident
  ex_RequiredPropertyJSON :: string
  ex_ProvidedPropertyJSON :: string
  ex_PathID :: ident
  ex_LogicalPath :: "path_step list"
  ex_PathSteps :: "path_step list"
  ex_CandidatePaths :: "candidate_path list"
  ex_RejectedReasons :: "rejected_reason list"
  ex_Operations :: "physical_operation list"

datatype graph_error =
    Cycle_At ident
  | Visit_Out_Of_Fuel
  | Node_Not_Found ident
  | Target_Not_Reachable
  | Profile_ID_Required
  | No_Bindings_Matched "ident list"
  | Missing_Required_Case ident ident ident

section \<open>Cycle check\<close>

text \<open>
  \<open>outgoing\<close> is a Go map from node to successor list. Its keys are kept in insertion order
  here; the order in which \<open>range\<close> visits them is a parameter of the check.
\<close>

type_synonym adjacency = "(ident \<times> ident list) list"

definition adj_touch :: "ident \<Rightarrow> adjacency \<Rightarrow> adjacency" where
  "adj_touch n m = (if n \<in> fst ` set m then m else m @ [(n, [])])"

fun adj_append :: "ident \<Rightarrow> ident \<Rightarrow> adjacency \<Rightarrow> adjacency" where
  "adj_append a b [] = [(a, [b])]"
| "adj_append a b ((k, ns) # m) = (if k = a then (k, ns @ [b]) # m else (k, ns) # adj_append a b m)"

definition adj_add_edge :: "edge \<Rightarrow> adjacency \<Rightarrow> adjacency" where
  "adj_add_edge e m =
     (if ed_FromNodeID e = [] \<or> ed_ToNodeID e = [] then m
      else adj_touch (ed_ToNodeID e) (adj_append (ed_FromNodeID e) (ed_ToNodeID e) m))"

definition outgoing :: "graph \<Rightarrow> adjacency" where
  "outgoing g = fold adj_add_edge (gr_Edges g) (fold (\<lambda>n. adj_touch (nd_ID n)) (gr_Nodes g) [])"

definition succs :: "adjacency \<Rightarrow> ident \<Rightarrow> ident list" where
  "succs m n = (case map_of m n of Some ns \<Rightarrow> ns | None \<Rightarrow> [])"

text \<open>
  The recursive closure \<open>visit\<close>: 0 is unseen, 1 on the stack, 2 done. The fuel bounds the
  depth of the recursion.
\<close>

fun visit :: "nat \<Rightarrow> (ident \<Rightarrow> ident list) \<Rightarrow> ident \<Rightarrow> (ident \<Rightarrow> nat) \<Rightarrow> graph_error + (ident \<Rightarrow> nat)"
and visit_all :: "nat \<Rightarrow> (ident \<Rightarrow> ident list) \<Rightarrow> ident list \<Rightarrow> (ident \<Rightarrow> nat) \<Rightarrow> graph_error + (ident \<Rightarrow> nat)"
where
  "visit 0 out n st = Inl Visit_Out_Of_Fuel"
| "visit (Suc f) out n st =
     (if st n = 1 then Inl (Cycle_At n)
      else if st n = 2 then Inr st
      else (case visit_all f out (out n) (st(n := 1)) of
              Inl e \<Rightarrow> Inl e
            | Inr st' \<Rightarrow> Inr (st'(n := 2))))"
| "visit_all f out [] st = Inr st"
| "visit_all f out (n # ns) st =
     (case visit f out n st of Inl e \<Rightarrow> Inl e | Inr st' \<Rightarrow> visit_all f out ns st')"

definition validate_dag :: "(ident list \<Rightarrow> ident list) \<Rightarrow> graph \<Rightarrow> graph_error + unit" where
  "validate_dag range_order g =
     (let m = outgoing g; keys = range_order (map fst m)
      in case visit_all (Suc (length m)) (succs m) keys (\<lambda>_. 0) of
           Inl e \<Rightarrow> Inl e
         | Inr _ \<Rightarrow> Inr ())"

text \<open>The edges the check follows, as a relation.\<close>

definition graph_rel :: "graph \<Rightarrow> (ident \<times> ident) set" where
  "graph_rel g = {(ed_FromNodeID e, ed_ToNodeID e) | e.
     e \<in> set (gr_Edges g) \<and> ed_FromNodeID e \<noteq> [] \<and> ed_ToNodeID e \<noteq> []}"

definition succ_rel :: "(ident \<Rightarrow> ident list) \<Rightarrow> (ident \<times> ident) set" where
  "succ_rel out = {(a, b). b \<in> set (out a)}"

lemma succs_append: "succs (adj_append a b m) n = succs m n @ (if n = a then [b] else [])"
  by (induction a b m rule: adj_append.induct) (auto simp: succs_def)

lemma succs_touch [simp]: "succs (adj_touch k m) n = succs m n"
  by (auto simp: adj_touch_def succs_def map_add_def image_iff split: option.splits dest: map_of_SomeD)

lemma keys_touch [simp]: "fst ` set (adj_touch k m) = insert k (fst ` set m)"
  by (auto simp: adj_touch_def)

lemma keys_append [simp]: "fst ` set (adj_append a b m) = insert a (fst ` set m)"
  by (induction a b m rule: adj_append.induct) auto

lemma succ_rel_add_edge:
  "succ_rel (succs (adj_add_edge e m)) = succ_rel (succs m) \<union>
     (if ed_FromNodeID e = [] \<or> ed_ToNodeID e = [] then {} else {(ed_FromNodeID e, ed_ToNodeID e)})"
  by (auto simp: succ_rel_def adj_add_edge_def succs_append split: if_splits)

lemma succ_rel_nodes: "succ_rel (succs (fold (\<lambda>n. adj_touch (nd_ID n)) ns m)) = succ_rel (succs m)"
  by (induction ns arbitrary: m) (auto simp: succ_rel_def)

lemma succ_rel_outgoing: "succ_rel (succs (outgoing g)) = graph_rel g"
proof -
  have "succ_rel (succs (fold adj_add_edge es m)) = succ_rel (succs m) \<union>
      {(ed_FromNodeID e, ed_ToNodeID e) | e. e \<in> set es \<and> ed_FromNodeID e \<noteq> [] \<and> ed_ToNodeID e \<noteq> []}"
    for es m
    by (induction es arbitrary: m) (auto simp: succ_rel_add_edge)
  moreover have "succ_rel (succs []) = {}" by (simp add: succ_rel_def succs_def)
  ultimately show ?thesis
    by (simp add: outgoing_def graph_rel_def succ_rel_nodes)
qed

lemma keys_add_edges:
  "fst ` set m \<subseteq> fst ` set (fold adj_add_edge es m)"
  by (induction es arbitrary: m) (force simp: adj_add_edge_def)+

lemma outgoing_closed: "(a, b) \<in> graph_rel g \<Longrightarrow> a \<in> fst ` set (outgoing g) \<and> b \<in> fst ` set (outgoing g)"
proof -
  have "e \<in> set es \<Longrightarrow> ed_FromNodeID e \<noteq> [] \<Longrightarrow> ed_ToNodeID e \<noteq> [] \<Longrightarrow>
      ed_FromNodeID e \<in> fst ` set (fold adj_add_edge es m) \<and>
      ed_ToNodeID e \<in> fst ` set (fold adj_add_edge es m)" for e es m
  proof (induction es arbitrary: m)
    case (Cons x es)
    show ?case
    proof (cases "e = x")
      case True
      then have "{ed_FromNodeID e, ed_ToNodeID e} \<subseteq> fst ` set (adj_add_edge x m)"
        using Cons.prems by (auto simp: adj_add_edge_def)
      then show ?thesis using keys_add_edges [of "adj_add_edge x m" es] by auto
    qed (use Cons in auto)
  qed simp
  then show "(a, b) \<in> graph_rel g \<Longrightarrow> ?thesis" by (auto simp: graph_rel_def outgoing_def)
qed

text \<open>
  What a run of \<open>visit\<close> keeps: a done node has only done successors and lies on no cycle; a
  node on the stack reaches the node being visited.
\<close>

definition done_ok :: "(ident \<Rightarrow> ident list) \<Rightarrow> (ident \<Rightarrow> nat) \<Rightarrow> bool" where
  "done_ok out st \<longleftrightarrow> (\<forall>n. st n = 2 \<longrightarrow> (\<forall>m \<in> set (out n). st m = 2) \<and> (n, n) \<notin> (succ_rel out)\<^sup>+)"

definition visit_frame :: "(ident \<Rightarrow> nat) \<Rightarrow> (ident \<Rightarrow> nat) \<Rightarrow> bool" where
  "visit_frame st st' \<longleftrightarrow> (\<forall>m. st' m = 1 \<longleftrightarrow> st m = 1) \<and> (\<forall>m. st m = 2 \<longrightarrow> st' m = 2)"

lemma visit_frame_refl [simp]: "visit_frame st st"
  by (simp add: visit_frame_def)

lemma visit_frame_trans: "visit_frame a b \<Longrightarrow> visit_frame b c \<Longrightarrow> visit_frame a c"
  by (simp add: visit_frame_def)

lemma done_closed:
  assumes "done_ok out st" "(n, m) \<in> (succ_rel out)\<^sup>*" "st n = 2"
  shows "st m = 2"
  using assms(2,3) by (induction rule: rtrancl_induct) (use assms(1) in \<open>auto simp: done_ok_def succ_rel_def\<close>)

lemma done_ok_finish:
  assumes "done_ok out st" "st n = 1" "\<forall>m \<in> set (out n). st m = 2"
  shows "done_ok out (st(n := 2))"
proof -
  have "(n, n) \<notin> (succ_rel out)\<^sup>+"
  proof
    assume "(n, n) \<in> (succ_rel out)\<^sup>+"
    then obtain m where "(n, m) \<in> succ_rel out" "(m, n) \<in> (succ_rel out)\<^sup>*"
      by (meson tranclD)
    then have "st n = 2" using assms(3) done_closed [OF assms(1)] by (auto simp: succ_rel_def)
    with assms(2) show False by simp
  qed
  with assms show ?thesis by (auto simp: done_ok_def)
qed

lemma done_ok_start: "done_ok out st \<Longrightarrow> st n \<noteq> 2 \<Longrightarrow> done_ok out (st(n := 1))"
  by (auto simp: done_ok_def)

lemma visit_frames:
  "visit f out n st = Inr st' \<Longrightarrow> visit_frame st st' \<and> st' n = 2"
  "visit_all f out ns st = Inr st' \<Longrightarrow> visit_frame st st' \<and> (\<forall>n \<in> set ns. st' n = 2)"
proof (induction f out n st and f out ns st arbitrary: st' and st' rule: visit_visit_all.induct)
  case (2 f out n st)
  show ?case
  proof (cases "st n = 2")
    case True
    with 2 show ?thesis by simp
  next
    case False
    with "2.prems" obtain st1 where st1: "visit_all f out (out n) (st(n := 1)) = Inr st1"
      and st': "st' = st1(n := 2)" and n1: "st n \<noteq> 1"
      by (auto split: if_splits sum.splits)
    have "visit_frame (st(n := 1)) st1" using "2.IH" [OF n1 False st1] by blast
    with n1 st' show ?thesis by (auto simp: visit_frame_def)
  qed
next
  case (4 f out n ns st)
  then obtain st1 where st1: "visit f out n st = Inr st1" "visit_all f out ns st1 = Inr st'"
    by (auto split: sum.splits)
  then show ?case
    using "4.IH"(1) [OF st1(1)] "4.IH"(2) [OF st1(1) st1(2)] by (auto simp: visit_frame_def)
qed auto

lemma visit_sound:
  "visit f out n st = Inr st' \<Longrightarrow> done_ok out st \<Longrightarrow> done_ok out st'"
  "visit_all f out ns st = Inr st' \<Longrightarrow> done_ok out st \<Longrightarrow> done_ok out st'"
proof (induction f out n st and f out ns st arbitrary: st' and st' rule: visit_visit_all.induct)
  case (2 f out n st)
  show ?case
  proof (cases "st n = 2")
    case True
    with 2 show ?thesis by simp
  next
    case False
    with "2.prems" obtain st1 where st1: "visit_all f out (out n) (st(n := 1)) = Inr st1"
      and st': "st' = st1(n := 2)" and n1: "st n \<noteq> 1"
      by (auto split: if_splits sum.splits)
    have "done_ok out st1"
      using "2.IH" [OF n1 False st1 done_ok_start [OF "2.prems"(2) False]] .
    moreover have "visit_frame (st(n := 1)) st1" and two: "\<forall>m \<in> set (out n). st1 m = 2"
      using visit_frames(2) [OF st1] by blast+
    then have "st1 n = 1" by (simp add: visit_frame_def)
    ultimately show ?thesis unfolding st' using done_ok_finish two by blast
  qed
qed (auto split: sum.splits)

lemma visit_cycle:
  "visit f out n st = Inl (Cycle_At c) \<Longrightarrow> (\<And>m. st m = 1 \<Longrightarrow> (m, n) \<in> (succ_rel out)\<^sup>+) \<Longrightarrow>
     (c, c) \<in> (succ_rel out)\<^sup>+"
  "visit_all f out ns st = Inl (Cycle_At c) \<Longrightarrow>
     (\<And>m n. st m = 1 \<Longrightarrow> n \<in> set ns \<Longrightarrow> (m, n) \<in> (succ_rel out)\<^sup>+) \<Longrightarrow> (c, c) \<in> (succ_rel out)\<^sup>+"
proof (induction f out n st and f out ns st rule: visit_visit_all.induct)
  case (2 f out n st)
  show ?case
  proof (cases "st n = 1")
    case True
    with 2 show ?thesis by auto
  next
    case False
    with "2.prems"(1) have st1: "visit_all f out (out n) (st(n := 1)) = Inl (Cycle_At c)"
      and n2: "st n \<noteq> 2"
      by (auto split: if_splits sum.splits)
    have "(m, k) \<in> (succ_rel out)\<^sup>+" if "(st(n := 1)) m = 1" "k \<in> set (out n)" for m k
    proof -
      have "(n, k) \<in> succ_rel out" using that by (simp add: succ_rel_def)
      moreover have "m = n \<or> (m, n) \<in> (succ_rel out)\<^sup>+"
        using that "2.prems"(2) by (auto split: if_splits)
      ultimately show ?thesis by auto
    qed
    then show ?thesis using "2.IH" [OF False n2 st1] by blast
  qed
next
  case (4 f out n ns st)
  show ?case
  proof (cases "visit f out n st")
    case (Inl e)
    then show ?thesis using 4 by auto
  next
    case (Inr st1)
    then have "visit_frame st st1" using visit_frames(1) by blast
    then show ?thesis
      using "4.IH"(2) [OF Inr] "4.prems" Inr by (auto simp: visit_frame_def)
  qed
qed auto

text \<open>The depth of the recursion is bounded by the number of unseen nodes.\<close>

definition unseen :: "ident set \<Rightarrow> (ident \<Rightarrow> nat) \<Rightarrow> ident set" where
  "unseen K st = {n \<in> K. st n \<noteq> 1 \<and> st n \<noteq> 2}"

lemma unseen_mono: "visit_frame st st' \<Longrightarrow> finite K \<Longrightarrow> card (unseen K st') \<le> card (unseen K st)"
  by (rule card_mono) (auto simp: unseen_def visit_frame_def)

lemma visit_fuel:
  "finite K \<Longrightarrow> (\<And>k. k \<in> K \<Longrightarrow> set (out k) \<subseteq> K) \<Longrightarrow> n \<in> K \<Longrightarrow> card (unseen K st) < f \<Longrightarrow>
     visit f out n st \<noteq> Inl Visit_Out_Of_Fuel"
  "finite K \<Longrightarrow> (\<And>k. k \<in> K \<Longrightarrow> set (out k) \<subseteq> K) \<Longrightarrow> set ns \<subseteq> K \<Longrightarrow> card (unseen K st) < f \<Longrightarrow>
     visit_all f out ns st \<noteq> Inl Visit_Out_Of_Fuel"
proof (induction f out n st and f out ns st rule: visit_visit_all.induct)
  case (2 f out n st)
  show ?case
  proof (cases "st n = 1 \<or> st n = 2")
    case False
    then have "unseen K (st(n := 1)) \<subset> unseen K st"
      using "2.prems"(3) by (auto simp: unseen_def)
    then have "card (unseen K (st(n := 1))) < card (unseen K st)"
      using "2.prems"(1) by (intro psubset_card_mono) (auto simp: unseen_def)
    with "2.prems"(4) have lt: "card (unseen K (st(n := 1))) < f" by linarith
    have "visit_all f out (out n) (st(n := 1)) \<noteq> Inl Visit_Out_Of_Fuel"
      by (rule "2.IH" [OF _ _ "2.prems"(1) "2.prems"(2) "2.prems"(2) [OF "2.prems"(3)] lt])
        (use False in auto)
    with False show ?thesis by (auto split: sum.splits)
  qed auto
next
  case (4 f out n ns st)
  have n: "visit f out n st \<noteq> Inl Visit_Out_Of_Fuel" using "4.prems" by (intro "4.IH"(1)) auto
  show ?case
  proof (cases "visit f out n st")
    case (Inr st1)
    then have "card (unseen K st1) < f"
      using unseen_mono visit_frames(1) "4.prems"(1,4) by (meson le_less_trans)
    then show ?thesis using "4.IH"(2) [OF Inr] "4.prems" Inr by auto
  qed (use n in auto)
qed auto

lemma visit_errors:
  "visit f out n st = Inl e \<Longrightarrow> e = Visit_Out_Of_Fuel \<or> (\<exists>c. e = Cycle_At c)"
  "visit_all f out ns st = Inl e \<Longrightarrow> e = Visit_Out_Of_Fuel \<or> (\<exists>c. e = Cycle_At c)"
  by (induction f out n st and f out ns st rule: visit_visit_all.induct)
    (auto split: if_splits sum.splits)

text \<open>The iteration order of a Go map is some arrangement of its keys.\<close>

definition is_range_order :: "(ident list \<Rightarrow> ident list) \<Rightarrow> bool" where
  "is_range_order ord \<longleftrightarrow> (\<forall>ks. set (ord ks) = set ks)"

lemma visit_all_initial: "done_ok out (\<lambda>_. 0)"
  by (simp add: done_ok_def)

lemma validate_dag_total:
  assumes "is_range_order ord"
  shows "validate_dag ord g \<noteq> Inl Visit_Out_Of_Fuel"
proof -
  let ?m = "outgoing g" and ?K = "fst ` set (outgoing g)"
  have "visit_all (Suc (length ?m)) (succs ?m) (ord (map fst ?m)) (\<lambda>_. 0) \<noteq> Inl Visit_Out_Of_Fuel"
  proof (rule visit_fuel(2) [where K = ?K])
    show "set (succs ?m k) \<subseteq> ?K" for k
    proof
      fix x assume "x \<in> set (succs ?m k)"
      then have "(k, x) \<in> graph_rel g" by (simp add: succ_rel_def flip: succ_rel_outgoing)
      then show "x \<in> ?K" using outgoing_closed by blast
    qed
    have "card (unseen ?K (\<lambda>_. 0)) \<le> card ?K" by (rule card_mono) (auto simp: unseen_def)
    also have "\<dots> \<le> length ?m" by (metis card_length length_map set_map)
    finally show "card (unseen ?K (\<lambda>_. 0)) < Suc (length ?m)" by simp
    show "set (ord (map fst ?m)) \<subseteq> ?K" using assms by (simp add: is_range_order_def)
  qed simp
  then show ?thesis by (auto simp: validate_dag_def Let_def split: sum.splits)
qed

lemma validate_dag_Inl:
  assumes "is_range_order ord" "validate_dag ord g = Inl e"
  shows "\<exists>c. e = Cycle_At c \<and> (c, c) \<in> (graph_rel g)\<^sup>+"
proof -
  let ?m = "outgoing g"
  have v: "visit_all (Suc (length ?m)) (succs ?m) (ord (map fst ?m)) (\<lambda>_. 0) = Inl e"
    using assms(2) by (auto simp: validate_dag_def Let_def split: sum.splits)
  have "e \<noteq> Visit_Out_Of_Fuel" using validate_dag_total [OF assms(1)] assms(2) by auto
  then obtain c where "e = Cycle_At c" using visit_errors(2) [OF v] by blast
  then show ?thesis using visit_cycle(2) v by (auto simp flip: succ_rel_outgoing)
qed

lemma validate_dag_Inr:
  assumes "is_range_order ord" "validate_dag ord g = Inr u"
  shows "acyclic (graph_rel g)"
proof -
  let ?m = "outgoing g"
  obtain st where v: "visit_all (Suc (length ?m)) (succs ?m) (ord (map fst ?m)) (\<lambda>_. 0) = Inr st"
    using assms(2) by (auto simp: validate_dag_def Let_def split: sum.splits)
  have "done_ok (succs ?m) st" by (rule visit_sound(2) [OF v visit_all_initial])
  moreover have "st n = 2" if "n \<in> fst ` set ?m" for n
  proof -
    have "n \<in> set (ord (map fst ?m))" using assms(1) that by (simp add: is_range_order_def)
    then show ?thesis using visit_frames(2) [OF v] by blast
  qed
  ultimately have "(n, n) \<notin> (graph_rel g)\<^sup>+" if "n \<in> fst ` set ?m" for n
    using that by (auto simp: done_ok_def simp flip: succ_rel_outgoing)
  moreover have "n \<in> fst ` set ?m" if "(n, n) \<in> (graph_rel g)\<^sup>+" for n
    using that outgoing_closed by (meson tranclD)
  ultimately show ?thesis unfolding acyclic_def by blast
qed

section \<open>Validation family\<close>

definition node_summary :: "string \<Rightarrow> obj" where
  "node_summary raw = (case unmarshal_map (trim_space raw) of Some kvs \<Rightarrow> kvs | None \<Rightarrow> [])"

definition node_display_name :: "node \<Rightarrow> string" where
  "node_display_name n =
     (case obj_get (node_summary (nd_SummaryJSON n)) ''displayName'' of
        JStr v \<Rightarrow> if \<not> blank v then trim_space v
          else if \<not> blank (nd_CaseID n) then trim_space (nd_CaseID n) else trim_space (nd_ID n)
      | _ \<Rightarrow> if \<not> blank (nd_CaseID n) then trim_space (nd_CaseID n) else trim_space (nd_ID n))"

text \<open>The first group of words with a member in the text decides the family.\<close>

definition family_of_text :: "string \<Rightarrow> string" where
  "family_of_text t =
     (if str_contains t ''length'' \<or> str_contains t ''too-long'' \<or> str_contains t ''long'' \<or> str_contains t ''max''
        then ''length''
      else if str_contains t ''blank'' \<or> str_contains t ''empty'' \<or> str_contains t ''null'' \<or>
        str_contains t ''required'' \<or> str_contains t ''missing'' then ''empty/null''
      else if str_contains t ''type'' \<or> str_contains t ''numeric'' \<or> str_contains t ''number'' then ''type''
      else if str_contains t ''enum'' then ''enum''
      else if str_contains t ''boundary'' \<or> str_contains t ''min'' then ''boundary''
      else if str_contains t ''state'' \<or> str_contains t ''status'' then ''state''
      else ''contract'')"

definition validation_family_for_node :: "node \<Rightarrow> string" where
  "validation_family_for_node n = family_of_text (to_lower (str_join '' ''
     [nd_ID n, nd_CaseID n, node_display_name n, nd_PatchJSON n, nd_ExpectedJSON n]))"

definition validation_families :: "string list" where
  "validation_families = [''length'', ''empty/null'', ''type'', ''enum'', ''boundary'', ''state'', ''contract'']"

lemma validation_family_range: "validation_family_for_node n \<in> set validation_families"
  by (simp add: validation_family_for_node_def family_of_text_def validation_families_def)

section \<open>Explaining one case\<close>

definition path_steps :: "graph \<Rightarrow> ident \<Rightarrow> path_step list" where
  "path_steps g pid = filter (\<lambda>s. ps_PathID s = pid) (gr_PathSteps g)"

definition path_prefix_until_node :: "graph \<Rightarrow> ident \<Rightarrow> ident \<Rightarrow> path_step list" where
  "path_prefix_until_node g pid nid =
     (if nid = [] then path_steps g pid
      else case take_through (\<lambda>s. ps_NodeID s = nid) (path_steps g pid) of Some ss \<Rightarrow> ss | None \<Rightarrow> [])"

fun path_prefix_to_node_loop :: "graph \<Rightarrow> ident \<Rightarrow> plan_path list \<Rightarrow> ident \<times> path_step list" where
  "path_prefix_to_node_loop g nid [] = ([], [])"
| "path_prefix_to_node_loop g nid (p # ps) =
     (let steps = path_prefix_until_node g (pa_ID p) nid in
      if steps \<noteq> [] \<and> ps_NodeID (last steps) = nid then (pa_ID p, steps)
      else path_prefix_to_node_loop g nid ps)"

definition path_prefix_to_node :: "graph \<Rightarrow> ident \<Rightarrow> ident \<times> path_step list" where
  "path_prefix_to_node g nid = path_prefix_to_node_loop g nid (gr_Paths g)"

fun path_prefix_before_node_loop :: "graph \<Rightarrow> ident \<Rightarrow> plan_path list \<Rightarrow> ident \<times> path_step list" where
  "path_prefix_before_node_loop g nid [] = ([], [])"
| "path_prefix_before_node_loop g nid (p # ps) =
     (case take_through (\<lambda>s. ps_NodeID s = nid) (path_steps g (pa_ID p)) of
        Some ss \<Rightarrow> (pa_ID p, butlast ss)
      | None \<Rightarrow> path_prefix_before_node_loop g nid ps)"

definition path_prefix_before_node :: "graph \<Rightarrow> ident \<Rightarrow> ident \<times> path_step list" where
  "path_prefix_before_node g nid = path_prefix_before_node_loop g nid (gr_Paths g)"

definition path_contains_node :: "graph \<Rightarrow> ident \<Rightarrow> ident \<Rightarrow> bool" where
  "path_contains_node g pid nid \<longleftrightarrow> list_ex (\<lambda>s. ps_NodeID s = nid) (path_steps g pid)"

definition find_explain_target :: "graph \<Rightarrow> explain_options \<Rightarrow> node option" where
  "find_explain_target g opts =
     (let nid = trim_space (eo_NodeID opts); cid = trim_space (eo_CaseID opts) in
      find_first (\<lambda>n. (nid \<noteq> [] \<and> nd_ID n = nid) \<or> (cid \<noteq> [] \<and> nd_CaseID n = cid)) (gr_Nodes g))"

fun materialization_loop :: "(ident \<rightharpoonup> materialization) \<Rightarrow> ident \<Rightarrow> edge list \<Rightarrow> materialization option" where
  "materialization_loop byid nid [] = None"
| "materialization_loop byid nid (e # es) =
     (if ed_ToNodeID e \<noteq> nid \<or> ed_Kind e \<noteq> EdgeKindFixture \<or> \<not> ed_Required e
        then materialization_loop byid nid es
      else case byid (ed_MaterializationID e) of
             Some m \<Rightarrow> Some m
           | None \<Rightarrow> materialization_loop byid nid es)"

definition materialization_for_target :: "graph \<Rightarrow> ident \<Rightarrow> materialization option" where
  "materialization_for_target g nid =
     materialization_loop (index_by mz_ID (gr_Materializations g)) nid (gr_Edges g)"

definition selected_candidate :: "plan_path \<Rightarrow> string \<Rightarrow> candidate_path" where
  "selected_candidate p why =
     \<lparr>cp_PathID = pa_ID p, cp_WorkflowID = pa_WorkflowID p, cp_Selected = True, cp_Reason = why\<rparr>"

definition other_candidate :: "plan_path \<Rightarrow> string \<Rightarrow> candidate_path" where
  "other_candidate p why =
     \<lparr>cp_PathID = pa_ID p, cp_WorkflowID = pa_WorkflowID p, cp_Selected = False, cp_Reason = why\<rparr>"

definition "reason_alternative = ''target node is also reachable on this mapped path''"
definition "reason_rejected = ''path does not satisfy selected target precondition''"

fun explain_path_selection_loop ::
  "graph \<Rightarrow> ident \<Rightarrow> ident \<Rightarrow> string \<Rightarrow> plan_path list \<Rightarrow>
     candidate_path list \<times> candidate_path list \<times> candidate_path list \<times> rejected_reason list \<Rightarrow>
     candidate_path list \<times> candidate_path list \<times> candidate_path list \<times> rejected_reason list" where
  "explain_path_selection_loop g spid tnid why [] acc = acc"
| "explain_path_selection_loop g spid tnid why (p # ps) (sel, alt, rej, reasons) =
     (if pa_ID p = spid \<and> spid \<noteq> []
        then explain_path_selection_loop g spid tnid why ps
          (sel @ [selected_candidate p why], alt, rej, reasons)
      else if tnid \<noteq> [] \<and> path_contains_node g (pa_ID p) tnid
        then explain_path_selection_loop g spid tnid why ps
          (sel, alt @ [other_candidate p reason_alternative], rej, reasons)
      else explain_path_selection_loop g spid tnid why ps
          (sel, alt, rej @ [other_candidate p reason_rejected],
           reasons @ [\<lparr>rr_PathID = pa_ID p, rr_Reason = reason_rejected\<rparr>]))"

definition explain_path_selection :: "graph \<Rightarrow> explanation \<Rightarrow> ident \<Rightarrow> ident \<Rightarrow> string \<Rightarrow> explanation" where
  "explain_path_selection g ex spid tnid why =
     (let (sel, alt, rej, reasons) =
        explain_path_selection_loop g spid tnid why (gr_Paths g) ([], [], [], ex_RejectedReasons ex)
      in ex\<lparr>ex_CandidatePaths := (sel @ alt) @ rej, ex_RejectedReasons := reasons\<rparr>)"

definition empty_operation :: physical_operation where
  "empty_operation = \<lparr>op_Kind = [], op_PathID = [], op_UntilNodeID = [], op_NodeID = [], op_CaseID = [],
     op_MaterializationID = [], op_Reason = [], op_PatchJSON = [], op_RequiredPropertyJSON = [],
     op_ProvidedPropertyJSON = []\<rparr>"

definition materialized_prefix_operation :: "materialization \<Rightarrow> node \<Rightarrow> string \<Rightarrow> physical_operation" where
  "materialized_prefix_operation m n why = empty_operation\<lparr>op_Kind := OperationRunPathPrefix,
     op_PathID := mz_SourcePathID m, op_UntilNodeID := mz_SourceUntilNodeID m,
     op_MaterializationID := mz_ID m, op_Reason := why,
     op_RequiredPropertyJSON := nd_RequiredPropertyJSON n\<rparr>"

definition run_case_operation :: "node \<Rightarrow> string \<Rightarrow> physical_operation" where
  "run_case_operation n why = empty_operation\<lparr>op_Kind := OperationRunCase, op_NodeID := nd_ID n,
     op_CaseID := nd_CaseID n, op_Reason := why, op_PatchJSON := nd_PatchJSON n,
     op_RequiredPropertyJSON := nd_RequiredPropertyJSON n,
     op_ProvidedPropertyJSON := nd_ProvidedPropertyJSON n\<rparr>"

definition "reason_selected_replay = ''selected replay path for target case precondition''"

definition explain_fixture_backed_case_node ::
  "graph \<Rightarrow> node \<Rightarrow> explanation \<Rightarrow> materialization \<Rightarrow> explanation" where
  "explain_fixture_backed_case_node g n ex m =
     (let steps = path_prefix_until_node g (mz_SourcePathID m) (mz_SourceUntilNodeID m);
          ex1 = ex\<lparr>ex_PathID := mz_SourcePathID m, ex_PathSteps := steps, ex_LogicalPath := steps,
            ex_Operations := ex_Operations ex @
              [materialized_prefix_operation m n ''replay workflow prefix required by case fixture'',
               run_case_operation n ''run fixture-backed case as a single request'']\<rparr>
      in explain_path_selection g ex1 (mz_SourcePathID m) (nd_ID n) reason_selected_replay)"

definition anchor_prefix_operation :: "ident \<Rightarrow> path_step list \<Rightarrow> node \<Rightarrow> physical_operation" where
  "anchor_prefix_operation pid steps n = empty_operation\<lparr>op_Kind := OperationRunPathPrefix,
     op_PathID := pid, op_UntilNodeID := (if steps \<noteq> [] then ps_NodeID (last steps) else []),
     op_Reason := ''replay path prefix before validation anchor'',
     op_RequiredPropertyJSON := nd_RequiredPropertyJSON n\<rparr>"

definition explain_validation_node :: "graph \<Rightarrow> node \<Rightarrow> explanation \<Rightarrow> explanation" where
  "explain_validation_node g n ex =
     (let ex1 =
        (case materialization_for_target g (nd_ID n) of
           Some m \<Rightarrow>
             (let steps = path_prefix_until_node g (mz_SourcePathID m) (mz_SourceUntilNodeID m)
              in ex\<lparr>ex_PathID := mz_SourcePathID m, ex_PathSteps := steps, ex_LogicalPath := steps,
                   ex_Operations := ex_Operations ex @ [materialized_prefix_operation m n
                     ''replay workflow prefix required by validation case fixture'']\<rparr>)
         | None \<Rightarrow>
             if nd_AnchorNodeID n \<noteq> [] then
               (case path_prefix_before_node g (nd_AnchorNodeID n) of (pid, steps) \<Rightarrow>
                  if pid \<noteq> [] then
                    ex\<lparr>ex_PathID := pid, ex_PathSteps := steps, ex_LogicalPath := steps,
                      ex_Operations := ex_Operations ex @ [anchor_prefix_operation pid steps n]\<rparr>
                  else ex)
             else ex);
        ex2 = ex1\<lparr>ex_Operations := ex_Operations ex1 @
          [run_case_operation n ''run validation case as a patched single request'']\<rparr>
      in explain_path_selection g ex2 (ex_PathID ex2) (nd_ID n) reason_selected_replay)"

definition base_explanation :: "graph \<Rightarrow> node \<Rightarrow> explanation" where
  "base_explanation g n = \<lparr>ex_MapID = mp_ID (gr_Map g), ex_TargetNodeID = nd_ID n,
     ex_TargetCaseID = nd_CaseID n, ex_RequiredPropertyJSON = nd_RequiredPropertyJSON n,
     ex_ProvidedPropertyJSON = nd_ProvidedPropertyJSON n, ex_PathID = [], ex_LogicalPath = [],
     ex_PathSteps = [], ex_CandidatePaths = [], ex_RejectedReasons = [], ex_Operations = []\<rparr>"

definition needs_validation :: "node \<Rightarrow> bool" where
  "needs_validation n \<longleftrightarrow> nd_Role n = NodeRoleValidation \<or> nd_StateEffect n = StateEffectUnchanged"

definition explain_case :: "graph \<Rightarrow> explain_options \<Rightarrow> graph_error + explanation" where
  "explain_case g opts =
     (case find_explain_target g opts of
        None \<Rightarrow> Inl (Node_Not_Found
          (if trim_space (eo_CaseID opts) = [] then trim_space (eo_NodeID opts) else trim_space (eo_CaseID opts)))
      | Some n \<Rightarrow>
          (let ex = base_explanation g n in
           if needs_validation n then Inr (explain_validation_node g n ex)
           else (case path_prefix_to_node g (nd_ID n) of (pid, steps) \<Rightarrow>
             if pid = [] then
               (case materialization_for_target g (nd_ID n) of
                  Some m \<Rightarrow> Inr (explain_fixture_backed_case_node g n ex m)
                | None \<Rightarrow> Inl Target_Not_Reachable)
             else
               (let ex1 = ex\<lparr>ex_PathID := pid, ex_PathSteps := steps, ex_LogicalPath := steps\<rparr>;
                    ex2 = explain_path_selection g ex1 pid (nd_ID n)
                      ''target node is reachable on this mapped path''
                in Inr (ex2\<lparr>ex_Operations := ex_Operations ex2 @
                     [empty_operation\<lparr>op_Kind := OperationRunPathPrefix, op_PathID := pid,
                        op_UntilNodeID := nd_ID n,
                        op_Reason := ''run mapped workflow path until target node'',
                        op_RequiredPropertyJSON := nd_RequiredPropertyJSON n,
                        op_ProvidedPropertyJSON := nd_ProvidedPropertyJSON n\<rparr>]\<rparr>)))))"

section \<open>What an explanation guarantees\<close>

lemma take_through_path_steps:
  assumes "take_through (\<lambda>s. ps_NodeID s = nid) (path_steps g pid) = Some ss"
  shows "prefix ss (path_steps g pid) \<and> ss \<noteq> [] \<and> ps_NodeID (last ss) = nid \<and>
     (\<forall>s \<in> set (butlast ss). ps_NodeID s \<noteq> nid)"
  using take_through_Some [OF assms] by simp

lemma path_prefix_to_node_loop_Some:
  assumes "path_prefix_to_node_loop g nid ps = (pid, steps)" "steps \<noteq> []"
  shows "\<exists>p \<in> set ps. pid = pa_ID p \<and> steps = path_prefix_until_node g (pa_ID p) nid \<and> ps_NodeID (last steps) = nid"
  using assms by (induction ps) (auto simp: Let_def split: if_splits)

lemma path_prefix_to_node_loop_cases:
  assumes "path_prefix_to_node_loop g nid ps = (pid, steps)"
  shows "pid = [] \<or> steps \<noteq> []"
  using assms by (induction ps) (auto simp: Let_def split: if_splits)

lemma path_prefix_until_node_first:
  assumes "path_prefix_until_node g pid nid = steps" "steps \<noteq> []" "nid \<noteq> []"
  shows "prefix steps (path_steps g pid) \<and> ps_NodeID (last steps) = nid \<and>
     (\<forall>s \<in> set (butlast steps). ps_NodeID s \<noteq> nid)"
  using assms take_through_path_steps [of nid g pid]
  by (auto simp: path_prefix_until_node_def split: option.splits)

lemma path_prefix_before_node_loop_Some:
  assumes "path_prefix_before_node_loop g nid ps = (pid, steps)" "pid \<noteq> []"
  shows "\<exists>p \<in> set ps. \<exists>s. pid = pa_ID p \<and> ps_NodeID s = nid \<and> prefix (steps @ [s]) (path_steps g pid) \<and>
     (\<forall>t \<in> set steps. ps_NodeID t \<noteq> nid)"
  using assms
proof (induction ps)
  case (Cons p ps)
  show ?case
  proof (cases "take_through (\<lambda>s. ps_NodeID s = nid) (path_steps g (pa_ID p))")
    case (Some ss)
    note ss = take_through_path_steps [OF Some]
    from Cons.prems Some ss have "pid = pa_ID p" "steps = butlast ss" "butlast ss @ [last ss] = ss" by auto
    with ss show ?thesis
      by (intro bexI [of _ p] exI [of _ "last ss"]) simp_all
  qed (use Cons in auto)
qed simp

abbreviation is_selected_path :: "ident \<Rightarrow> plan_path \<Rightarrow> bool" where
  "is_selected_path spid p \<equiv> pa_ID p = spid \<and> spid \<noteq> []"

abbreviation is_alternative_path :: "graph \<Rightarrow> ident \<Rightarrow> plan_path \<Rightarrow> bool" where
  "is_alternative_path g tnid p \<equiv> tnid \<noteq> [] \<and> path_contains_node g (pa_ID p) tnid"

lemma explain_path_selection_loop_filter:
  "explain_path_selection_loop g spid tnid why ps (sel, alt, rej, reasons) =
     (sel @ map (\<lambda>p. selected_candidate p why) (filter (is_selected_path spid) ps),
      alt @ map (\<lambda>p. other_candidate p reason_alternative)
        (filter (\<lambda>p. \<not> is_selected_path spid p \<and> is_alternative_path g tnid p) ps),
      rej @ map (\<lambda>p. other_candidate p reason_rejected)
        (filter (\<lambda>p. \<not> is_selected_path spid p \<and> \<not> is_alternative_path g tnid p) ps),
      reasons @ map (\<lambda>p. \<lparr>rr_PathID = pa_ID p, rr_Reason = reason_rejected\<rparr>)
        (filter (\<lambda>p. \<not> is_selected_path spid p \<and> \<not> is_alternative_path g tnid p) ps))"
  by (induction ps arbitrary: sel alt rej reasons) auto

lemma mset_three_way:
  "mset (filter P xs) + mset (filter (\<lambda>x. \<not> P x \<and> Q x) xs) + mset (filter (\<lambda>x. \<not> P x \<and> \<not> Q x) xs) = mset xs"
  by (induction xs) auto

lemma candidate_fields [simp]:
  "cp_PathID (selected_candidate p why) = pa_ID p" "cp_Selected (selected_candidate p why)"
  "cp_PathID (other_candidate p why) = pa_ID p" "\<not> cp_Selected (other_candidate p why)"
  by (simp_all add: selected_candidate_def other_candidate_def)

lemma path_selection_candidates:
  assumes "explain_path_selection g ex spid tnid why = ex'"
  shows "mset (map cp_PathID (ex_CandidatePaths ex')) = mset (map pa_ID (gr_Paths g))"
    and "\<forall>c \<in> set (ex_CandidatePaths ex'). cp_Selected c \<longleftrightarrow> cp_PathID c = spid \<and> spid \<noteq> []"
    and "map rr_PathID (ex_RejectedReasons ex') = map rr_PathID (ex_RejectedReasons ex) @
      map pa_ID (filter (\<lambda>p. \<not> is_selected_path spid p \<and> \<not> is_alternative_path g tnid p) (gr_Paths g))"
proof -
  let ?P = "is_selected_path spid" and ?Q = "is_alternative_path g tnid"
  have "mset (map cp_PathID (ex_CandidatePaths ex')) =
      image_mset pa_ID (mset (filter ?P (gr_Paths g)) + mset (filter (\<lambda>x. \<not> ?P x \<and> ?Q x) (gr_Paths g)) +
        mset (filter (\<lambda>x. \<not> ?P x \<and> \<not> ?Q x) (gr_Paths g)))"
    unfolding assms [symmetric]
    by (simp add: explain_path_selection_def explain_path_selection_loop_filter comp_def add.assoc
        del: mset_filter)
  then show "mset (map cp_PathID (ex_CandidatePaths ex')) = mset (map pa_ID (gr_Paths g))"
    unfolding mset_three_way by simp
qed (unfold assms [symmetric],
  auto simp: explain_path_selection_def explain_path_selection_loop_filter comp_def)

lemma explain_path_selection_fields [simp]:
  "ex_PathID (explain_path_selection g ex spid tnid why) = ex_PathID ex"
  "ex_PathSteps (explain_path_selection g ex spid tnid why) = ex_PathSteps ex"
  "ex_Operations (explain_path_selection g ex spid tnid why) = ex_Operations ex"
  "ex_TargetNodeID (explain_path_selection g ex spid tnid why) = ex_TargetNodeID ex"
  "ex_TargetCaseID (explain_path_selection g ex spid tnid why) = ex_TargetCaseID ex"
  by (simp_all add: explain_path_selection_def explain_path_selection_loop_filter)

lemma base_explanation_fields [simp]:
  "ex_Operations (base_explanation g n) = []" "ex_PathID (base_explanation g n) = []"
  "ex_PathSteps (base_explanation g n) = []" "ex_RejectedReasons (base_explanation g n) = []"
  "ex_TargetNodeID (base_explanation g n) = nd_ID n" "ex_TargetCaseID (base_explanation g n) = nd_CaseID n"
  by (simp_all add: base_explanation_def)

text \<open>Every successful explanation ends in a path selection for its own path.\<close>

lemma explain_case_selection:
  assumes "explain_case g opts = Inr ex"
  obtains n ex0 why where "find_explain_target g opts = Some n"
    "ex_RejectedReasons ex0 = []"
    "ex_CandidatePaths ex = ex_CandidatePaths (explain_path_selection g ex0 (ex_PathID ex) (nd_ID n) why)"
    "ex_RejectedReasons ex = ex_RejectedReasons (explain_path_selection g ex0 (ex_PathID ex) (nd_ID n) why)"
  using assms
  by (force simp: explain_case_def explain_validation_node_def explain_fixture_backed_case_node_def
      Let_def split: option.splits if_splits prod.splits)

section \<open>A small map for the witnesses\<close>

text \<open>
  One path \<open>flow\<close> over the nodes \<open>a\<close>, \<open>b\<close>, \<open>c\<close>, and a validation case
  \<open>v\<close> anchored at \<open>c\<close>.
\<close>

definition demo_node :: "ident \<Rightarrow> string \<Rightarrow> ident \<Rightarrow> node" where
  "demo_node i role anchor = \<lparr>nd_MapID = ''m'', nd_ID = i, nd_CaseID = i, nd_InterfaceNodeID = ''i'',
     nd_RequestTemplateID = [], nd_BaseCaseID = anchor, nd_AnchorNodeID = anchor, nd_Role = role,
     nd_StateEffect = (if role = NodeRoleValidation then StateEffectUnchanged else StateEffectAdvance),
     nd_RenderMode = [], nd_PatchJSON = [], nd_ExpectedJSON = [], nd_RequiredPropertyJSON = [],
     nd_ProvidedPropertyJSON = [], nd_SummaryJSON = [], nd_SortOrder = 0\<rparr>"

definition demo_edge :: "ident \<Rightarrow> ident \<Rightarrow> edge" where
  "demo_edge a b = \<lparr>ed_MapID = ''m'', ed_ID = a @ b, ed_FromNodeID = a, ed_ToNodeID = b,
     ed_Kind = EdgeKindControl, ed_PathID = ''flow'', ed_MaterializationID = [], ed_Required = True,
     ed_MappingsJSON = [], ed_SummaryJSON = [], ed_SortOrder = 0\<rparr>"

definition demo_path :: "ident \<Rightarrow> plan_path" where
  "demo_path p = \<lparr>pa_MapID = ''m'', pa_ID = p, pa_WorkflowID = p, pa_DisplayName = p,
     pa_Status = ''active'', pa_RequiredPropertyJSON = [], pa_ProvidedPropertyJSON = [],
     pa_SummaryJSON = [], pa_SortOrder = 1\<rparr>"

definition demo_step :: "ident \<Rightarrow> int \<Rightarrow> ident \<Rightarrow> path_step" where
  "demo_step p i n = \<lparr>ps_MapID = ''m'', ps_PathID = p, ps_StepIndex = i, ps_StepID = n, ps_NodeID = n,
     ps_CaseID = n, ps_Required = True, ps_MaterializeAfter = False, ps_SummaryJSON = []\<rparr>"

definition demo_map :: plan_map where
  "demo_map = \<lparr>mp_ID = ''m'', mp_ProfileID = ''p'', mp_DisplayName = [], mp_Description = [],
     mp_Status = ''active'', mp_SummaryJSON = [], mp_CreatedAt = 1, mp_UpdatedAt = 1\<rparr>"

definition demo_graph :: graph where
  "demo_graph = \<lparr>gr_Map = demo_map,
     gr_Nodes = [demo_node ''a'' NodeRolePrimary [], demo_node ''b'' NodeRolePrimary [],
       demo_node ''c'' NodeRolePrimary [], demo_node ''v'' NodeRoleValidation ''c''],
     gr_Edges = [demo_edge ''a'' ''b'', demo_edge ''b'' ''c''],
     gr_Paths = [demo_path ''flow''],
     gr_PathSteps = [demo_step ''flow'' 1 ''a'', demo_step ''flow'' 2 ''b'', demo_step ''flow'' 3 ''c''],
     gr_Materializations = []\<rparr>"

lemmas demo_defs = demo_graph_def demo_map_def demo_node_def demo_edge_def demo_path_def demo_step_def
  NodeRolePrimary_def NodeRoleValidation_def StateEffectUnchanged_def StateEffectAdvance_def
  EdgeKindControl_def EdgeKindFixture_def OperationRunPathPrefix_def OperationRunCase_def

section \<open>Properties\<close>

text \<open>
  C3. \<open>ValidateDAG\<close> accepts a graph exactly when the edges with both end points form an acyclic
  relation, whatever order the runtime iterates the node map in; the recursion depth allotted by
  the model is always enough; and when it reports a cycle, the node it names lies on one.
\<close>

theorem validate_dag_correct:
  assumes "is_range_order ord"
  shows "(validate_dag ord g = Inr () \<longleftrightarrow> acyclic (graph_rel g)) \<and>
     (\<forall>e. validate_dag ord g = Inl e \<longrightarrow> (\<exists>c. e = Cycle_At c \<and> (c, c) \<in> (graph_rel g)\<^sup>+))"
proof (cases "validate_dag ord g")
  case (Inl e)
  then show ?thesis using validate_dag_Inl [OF assms Inl] by (auto simp: acyclic_def)
next
  case (Inr u)
  then show ?thesis using validate_dag_Inr [OF assms Inr] by simp
qed

lemma is_range_order_rev: "is_range_order rev"
  by (simp add: is_range_order_def)

theorem validate_dag_correct_witness:
  "validate_dag rev demo_graph = Inr () \<and> acyclic (graph_rel demo_graph) \<and>
   validate_dag rev (demo_graph\<lparr>gr_Edges := [demo_edge ''a'' ''b'', demo_edge ''b'' ''a'']\<rparr>) =
     Inl (Cycle_At ''b'') \<and>
   (''b'', ''b'') \<in> (graph_rel (demo_graph\<lparr>gr_Edges := [demo_edge ''a'' ''b'', demo_edge ''b'' ''a'']\<rparr>))\<^sup>+"
proof -
  have ok: "validate_dag rev demo_graph = Inr ()" by code_simp
  have bad: "validate_dag rev (demo_graph\<lparr>gr_Edges := [demo_edge ''a'' ''b'', demo_edge ''b'' ''a'']\<rparr>) =
      Inl (Cycle_At ''b'')" by code_simp
  show ?thesis
    using ok bad validate_dag_correct [OF is_range_order_rev] by blast
qed

text \<open>
  A validation case is planned as at most one replay prefix followed by the case itself as a
  single request. The prefix comes from the fixture bound to the case when there is one;
  otherwise it is the part of the first path through the anchor that lies strictly before the
  anchor, so the anchor's own request is never sent.
\<close>

theorem explain_validation_operations:
  assumes "find_explain_target g opts = Some n" "needs_validation n"
    and "explain_case g opts = Inr ex"
  shows "op_Kind (last (ex_Operations ex)) = OperationRunCase \<and>
     op_NodeID (last (ex_Operations ex)) = nd_ID n \<and>
     (case materialization_for_target g (nd_ID n) of
        Some m \<Rightarrow> map op_MaterializationID (butlast (ex_Operations ex)) = [mz_ID m]
      | None \<Rightarrow>
          (butlast (ex_Operations ex) = [] \<and> ex_PathSteps ex = []) \<or>
          (\<exists>p \<in> set (gr_Paths g). \<exists>s o1. butlast (ex_Operations ex) = [o1] \<and>
             op_Kind o1 = OperationRunPathPrefix \<and> op_PathID o1 = pa_ID p \<and>
             ps_NodeID s = nd_AnchorNodeID n \<and>
             prefix (ex_PathSteps ex @ [s]) (path_steps g (pa_ID p)) \<and>
             (\<forall>t \<in> set (ex_PathSteps ex). ps_NodeID t \<noteq> nd_AnchorNodeID n)))"
proof -
  let ?ex = "explain_validation_node g n (base_explanation g n)"
  have ex: "ex = ?ex" using assms by (simp add: explain_case_def)
  show ?thesis
  proof (cases "materialization_for_target g (nd_ID n)")
    case (Some m)
    then show ?thesis
      by (simp add: ex explain_validation_node_def Let_def run_case_operation_def
          materialized_prefix_operation_def)
  next
    case None
    obtain pid steps where pre: "path_prefix_before_node g (nd_AnchorNodeID n) = (pid, steps)" by fastforce
    show ?thesis
    proof (cases "nd_AnchorNodeID n \<noteq> [] \<and> pid \<noteq> []")
      case True
      then have "ex_PathSteps ex = steps" "butlast (ex_Operations ex) = [anchor_prefix_operation pid steps n]"
        "last (ex_Operations ex) = run_case_operation n ''run validation case as a patched single request''"
        by (simp_all add: ex explain_validation_node_def Let_def None pre)
      with path_prefix_before_node_loop_Some [of g "nd_AnchorNodeID n" "gr_Paths g" pid steps] True None pre
      show ?thesis
        by (fastforce simp: path_prefix_before_node_def anchor_prefix_operation_def run_case_operation_def)
    next
      case False
      then have "ex_PathSteps ex = []" "butlast (ex_Operations ex) = []"
        "last (ex_Operations ex) = run_case_operation n ''run validation case as a patched single request''"
        by (auto simp: ex explain_validation_node_def Let_def None pre)
      with None show ?thesis by (simp add: run_case_operation_def)
    qed
  qed
qed

theorem explain_validation_operations_witness:
  "\<exists>ex. explain_case demo_graph \<lparr>eo_CaseID = ''v'', eo_NodeID = []\<rparr> = Inr ex \<and>
     op_Kind (last (ex_Operations ex)) = OperationRunCase \<and> map ps_NodeID (ex_PathSteps ex) = [''a'', ''b'']"
proof -
  let ?opts = "\<lparr>eo_CaseID = ''v'', eo_NodeID = []\<rparr>" and ?v = "demo_node ''v'' NodeRoleValidation ''c''"
  have t: "find_explain_target demo_graph ?opts = Some ?v" by code_simp
  have v: "needs_validation ?v" by code_simp
  obtain ex where ex: "explain_case demo_graph ?opts = Inr ex"
    using t v by (simp add: explain_case_def)
  have m: "materialization_for_target demo_graph (nd_ID ?v) = None" by code_simp
  have p: "path_prefix_before_node demo_graph (nd_AnchorNodeID ?v) =
      (''flow'', [demo_step ''flow'' 1 ''a'', demo_step ''flow'' 2 ''b''])" by code_simp
  have "ex = explain_validation_node demo_graph ?v (base_explanation demo_graph ?v)"
    using ex t v by (simp add: explain_case_def)
  then have "ex_PathSteps ex = [demo_step ''flow'' 1 ''a'', demo_step ''flow'' 2 ''b'']"
    by (simp add: explain_validation_node_def m p Let_def) (simp add: demo_node_def)
  then have "map ps_NodeID (ex_PathSteps ex) = [''a'', ''b'']" by (simp add: demo_step_def)
  moreover have "op_Kind (last (ex_Operations ex)) = OperationRunCase"
    using explain_validation_operations [OF t v ex] by (rule conjunct1)
  ultimately show ?thesis by (intro exI [of _ ex] conjI ex)
qed

text \<open>
  A primary case that lies on a mapped path is planned as one replay of the first such path up
  to the case: the planned steps are the shortest prefix of that path that ends in the case, and
  the single operation names that path and stops at the case.
\<close>

theorem explain_primary_prefix:
  assumes "find_explain_target g opts = Some n" "\<not> needs_validation n" "nd_ID n \<noteq> []"
    and "path_prefix_to_node g (nd_ID n) = (pid, steps)" "pid \<noteq> []"
  shows "\<exists>ex o1. explain_case g opts = Inr ex \<and> ex_Operations ex = [o1] \<and>
     op_Kind o1 = OperationRunPathPrefix \<and> op_PathID o1 = pid \<and> op_UntilNodeID o1 = nd_ID n \<and>
     pid \<in> pa_ID ` set (gr_Paths g) \<and> ex_PathSteps ex = steps \<and>
     prefix steps (path_steps g pid) \<and> ps_NodeID (last steps) = nd_ID n \<and>
     (\<forall>s \<in> set (butlast steps). ps_NodeID s \<noteq> nd_ID n)"
proof -
  note loop = assms(4) [unfolded path_prefix_to_node_def]
  have ne: "steps \<noteq> []" using path_prefix_to_node_loop_cases [OF loop] assms(5) by simp
  obtain p where p: "p \<in> set (gr_Paths g)" "pid = pa_ID p" "steps = path_prefix_until_node g (pa_ID p) (nd_ID n)"
    using path_prefix_to_node_loop_Some [OF loop ne] by blast
  have "prefix steps (path_steps g pid) \<and> ps_NodeID (last steps) = nd_ID n \<and>
      (\<forall>s \<in> set (butlast steps). ps_NodeID s \<noteq> nd_ID n)"
    using path_prefix_until_node_first [OF p(3) [symmetric] ne assms(3)] p(2) by simp
  moreover have "pid \<in> pa_ID ` set (gr_Paths g)" using p by simp
  ultimately show ?thesis
    using assms by (simp add: explain_case_def Let_def)
qed

theorem explain_primary_prefix_witness:
  "\<exists>ex. explain_case demo_graph \<lparr>eo_CaseID = [], eo_NodeID = ''b''\<rparr> = Inr ex \<and> length (ex_Operations ex) = 1"
proof -
  let ?opts = "\<lparr>eo_CaseID = [], eo_NodeID = ''b''\<rparr>" and ?b = "demo_node ''b'' NodeRolePrimary []"
  have t: "find_explain_target demo_graph ?opts = Some ?b" by code_simp
  have v: "\<not> needs_validation ?b" by code_simp
  have i: "nd_ID ?b \<noteq> []" by code_simp
  have p: "path_prefix_to_node demo_graph (nd_ID ?b) =
      (''flow'', [demo_step ''flow'' 1 ''a'', demo_step ''flow'' 2 ''b''])" by code_simp
  from explain_primary_prefix [OF t v i p] obtain ex o1 where
    "explain_case demo_graph ?opts = Inr ex" "ex_Operations ex = [o1]" by auto
  then show ?thesis by simp
qed

text \<open>
  The candidate list of an explanation holds every path of the map exactly once, marks as
  selected exactly the path the plan replays, and the rejection list names exactly the paths that
  are neither selected nor reach the target.
\<close>

theorem explain_candidates_complete:
  assumes "explain_case g opts = Inr ex" "find_explain_target g opts = Some n"
  shows "mset (map cp_PathID (ex_CandidatePaths ex)) = mset (map pa_ID (gr_Paths g)) \<and>
     (\<forall>c \<in> set (ex_CandidatePaths ex). cp_Selected c \<longleftrightarrow> cp_PathID c = ex_PathID ex \<and> ex_PathID ex \<noteq> []) \<and>
     map rr_PathID (ex_RejectedReasons ex) = map pa_ID (filter (\<lambda>p.
        \<not> (pa_ID p = ex_PathID ex \<and> ex_PathID ex \<noteq> []) \<and>
        \<not> (nd_ID n \<noteq> [] \<and> path_contains_node g (pa_ID p) (nd_ID n))) (gr_Paths g))"
proof -
  obtain m ex0 why where "find_explain_target g opts = Some m" "ex_RejectedReasons ex0 = []"
    "ex_CandidatePaths ex = ex_CandidatePaths (explain_path_selection g ex0 (ex_PathID ex) (nd_ID m) why)"
    "ex_RejectedReasons ex = ex_RejectedReasons (explain_path_selection g ex0 (ex_PathID ex) (nd_ID m) why)"
    using explain_case_selection [OF assms(1)] by metis
  then show ?thesis
    using path_selection_candidates [OF refl, where g = g and ex = ex0 and spid = "ex_PathID ex" and tnid = "nd_ID m"]
      assms(2) by simp
qed

theorem explain_candidates_complete_witness:
  "\<exists>ex. explain_case demo_graph \<lparr>eo_CaseID = ''v'', eo_NodeID = []\<rparr> = Inr ex \<and>
     mset (map cp_PathID (ex_CandidatePaths ex)) = {#''flow''#}"
proof -
  let ?opts = "\<lparr>eo_CaseID = ''v'', eo_NodeID = []\<rparr>" and ?v = "demo_node ''v'' NodeRoleValidation ''c''"
  have t: "find_explain_target demo_graph ?opts = Some ?v" by code_simp
  have v: "needs_validation ?v" by code_simp
  obtain ex where ex: "explain_case demo_graph ?opts = Inr ex"
    using t v by (simp add: explain_case_def)
  have "mset (map pa_ID (gr_Paths demo_graph)) = {#''flow''#}" by (simp add: demo_graph_def demo_path_def)
  with explain_candidates_complete [OF ex t] ex show ?thesis by auto
qed

text \<open>
  Explaining a case fails in two situations only: no node carries the requested identifiers,
  or the node is a primary one that no path reaches and no required fixture edge backs. The error
  then names the case identifier the caller gave, or the node identifier when there was none.
\<close>

theorem explain_case_error:
  "explain_case g opts = Inl e \<longleftrightarrow>
     (find_explain_target g opts = None \<and>
        e = Node_Not_Found (if blank (eo_CaseID opts) then trim_space (eo_NodeID opts) else trim_space (eo_CaseID opts))) \<or>
     (\<exists>n. find_explain_target g opts = Some n \<and> \<not> needs_validation n \<and>
        fst (path_prefix_to_node g (nd_ID n)) = [] \<and> materialization_for_target g (nd_ID n) = None \<and>
        e = Target_Not_Reachable)"
  by (auto simp: explain_case_def blank_def Let_def split: option.splits if_splits prod.splits)

end
