(* ===== verification/Map_Planner.thy ===== *)
theory Map_Planner
  imports Plan_Graph
begin

text \<open>
  The package \<open>internal/domain/mapplanner\<close>: a query over a test map is normalised
  (\<open>query.go\<close>) and lowered to a plan of physical tasks (\<open>explain.go\<close>,
  \<open>tasks.go\<close>), with cases that share a replay source put into replay groups
  (\<open>replay_groups.go\<close>). The mutable \<open>*Plan\<close> and the two maps of
  \<open>planBuilder\<close> are the state \<open>builder\<close>, passed and returned. Digests of
  \<open>crypto/sha1\<close> and \<open>crypto/sha256\<close> are the parameter \<open>hashes\<close>: hex text
  of the digest of a byte string; nothing here depends on which function it is.
\<close>

section \<open>Data\<close>

definition "PlannerVersion = ''map-planner/v1''"
definition "ModeExplain = ''explain''"
definition "ModeRun = ''run''"
definition "ScopeAll = ''all''"
definition "ScopeWorkflows = ''workflows''"
definition "ScopeCases = ''cases''"
definition "ScopeCase = ''case''"
definition "TargetMap = ''map''"
definition "TargetPath = ''path''"
definition "TargetWorkflow = ''workflow''"
definition "TargetNode = ''node''"
definition "TargetCase = ''case''"
definition "TaskRunPath = ''run_path''"
definition "TaskRunPathPrefix = ''run_path_prefix''"
definition "TaskRunCase = ''run_case''"
definition "TaskReuseMaterialized = ''reuse_materialization''"
definition "TaskSkip = ''skip''"
definition "TaskStatusPlanned = ''planned''"
definition "TaskStatusRunning = ''running''"
definition "TaskStatusPassed = ''passed''"
definition "TaskStatusFailed = ''failed''"
definition "TaskStatusSkipped = ''skipped''"
definition "TaskStatusBlocked = ''blocked''"
definition "RuleStatusApplied = ''applied''"

lemmas scope_defs = ScopeAll_def ScopeWorkflows_def ScopeCases_def ScopeCase_def
lemmas target_defs = TargetMap_def TargetPath_def TargetWorkflow_def TargetNode_def TargetCase_def
lemmas kind_defs = TaskRunPath_def TaskRunPathPrefix_def TaskRunCase_def TaskReuseMaterialized_def TaskSkip_def
lemmas status_defs = TaskStatusPlanned_def TaskStatusRunning_def TaskStatusPassed_def
  TaskStatusFailed_def TaskStatusSkipped_def TaskStatusBlocked_def

record hashes =
  hash_sha1 :: "string \<Rightarrow> string"
  hash_sha256 :: "string \<Rightarrow> string"

record query =
  q_MapID :: ident
  q_EnvironmentID :: ident
  q_Scope :: string
  q_TargetKind :: string
  q_TargetID :: ident
  q_CaseID :: ident
  q_NodeID :: ident
  q_PathID :: ident
  q_WorkflowID :: ident
  q_InterfaceNodeID :: ident
  q_ValidationFamily :: string
  q_Role :: string
  q_PlannerMode :: string

record plan_cost =
  co_EstimatedTasks :: nat
  co_WorkflowTasks :: nat
  co_ReplayTasks :: nat
  co_CaseTasks :: nat
  co_SkippedTasks :: nat
  co_TotalSteps :: nat

record plan_summary =
  su_WorkflowTasks :: nat
  su_ReplayTasks :: nat
  su_CaseTasks :: nat
  su_SkippedTasks :: nat
  su_TotalTasks :: nat
  su_TotalSteps :: nat

record logical_op =
  lo_ID :: ident
  lo_Op :: string
  lo_TargetKind :: string
  lo_TargetID :: ident
  lo_Children :: "ident list"
  lo_Properties :: obj

record rule_trace =
  rt_Rule :: string
  rt_Status :: string
  rt_Before :: string
  rt_After :: string
  rt_Reason :: string
  rt_Details :: obj

record candidate_plan =
  cn_ID :: ident
  cn_Kind :: string
  cn_PathID :: ident
  cn_WorkflowID :: ident
  cn_NodeID :: ident
  cn_CaseID :: ident
  cn_Selected :: bool
  cn_Cost :: plan_cost
  cn_Reason :: string

record rejected_plan =
  rj_ID :: ident
  rj_Kind :: string
  rj_Reason :: string

record replay_group =
  rg_ID :: ident
  rg_InterfaceNodeID :: ident
  rg_AnchorNodeID :: ident
  rg_AnchorCaseID :: ident
  rg_ValidationFamily :: string
  rg_PathID :: ident
  rg_WorkflowID :: ident
  rg_UntilNodeID :: ident
  rg_MaterializationID :: ident
  rg_Decision :: string
  rg_Reason :: string
  rg_Count :: nat
  rg_NodeIDs :: "ident list"
  rg_CaseIDs :: "ident list"
  rg_TaskIDs :: "ident list"

record physical_task =
  tk_ID :: ident
  tk_Index :: nat
  tk_Kind :: string
  tk_Operation :: string
  tk_PathID :: ident
  tk_WorkflowID :: ident
  tk_UntilNodeID :: ident
  tk_NodeID :: ident
  tk_CaseID :: ident
  tk_ReplayGroupID :: ident
  tk_InterfaceNodeID :: ident
  tk_AnchorNodeID :: ident
  tk_ValidationFamily :: string
  tk_MaterializationID :: ident
  tk_Status :: string
  tk_Reason :: string
  tk_RequiredProperties :: obj
  tk_ProvidedProperties :: obj
  tk_Cost :: plan_cost
  tk_Summary :: obj

record task_edge =
  te_FromTaskID :: ident
  te_ToTaskID :: ident
  te_Kind :: string
  te_Required :: bool
  te_Mappings :: "obj list"
  te_Summary :: obj
  te_SortOrder :: nat

record planned_operation =
  po_Operation :: physical_operation
  po_WorkflowID :: ident

record plan =
  pl_ID :: ident
  pl_MapID :: ident
  pl_ProfileID :: ident
  pl_EnvironmentID :: ident
  pl_Scope :: string
  pl_TargetKind :: string
  pl_TargetID :: ident
  pl_TargetNodeID :: ident
  pl_TargetCaseID :: ident
  pl_Mode :: string
  pl_Status :: string
  pl_PlannerVersion :: string
  pl_PlannerOptions :: obj
  pl_LogicalPlan :: "logical_op list"
  pl_OptimizedPlan :: "logical_op list"
  pl_RulesApplied :: "rule_trace list"
  pl_CandidatePlans :: "candidate_plan list"
  pl_RejectedPlans :: "rejected_plan list"
  pl_ReplayGroups :: "replay_group list"
  pl_PhysicalTasks :: "physical_task list"
  pl_TaskEdges :: "task_edge list"
  pl_Operations :: "planned_operation list"
  pl_Cost :: plan_cost
  pl_RequiredProperties :: obj
  pl_ProvidedProperties :: obj
  pl_Summary :: plan_summary
  pl_CreatedAt :: time

record builder =
  b_plan :: plan
  b_replayGroupByKey :: "ident \<rightharpoonup> nat"
  b_replayTaskByGroup :: "ident \<rightharpoonup> ident"

datatype planner_error =
    Map_ID_Required
  | Scope_Conflict string string
  | Unsupported_Scope string
  | Workflow_Target_Not_Found string ident
  | Case_Target_Not_Found string ident
  | Graph_Node_Not_Found ident
  | Graph_Error graph_error
  | Plan_ID_Required

section \<open>Helpers\<close>

definition json_object :: "string \<Rightarrow> obj" where
  "json_object raw0 =
     (let raw = trim_space raw0 in
      if raw = [] then []
      else case unmarshal_map raw of Some kvs \<Rightarrow> kvs | None \<Rightarrow> [(''raw'', JStr raw)])"

definition safe_id :: "string \<Rightarrow> string" where
  "safe_id value =
     (let out = map (\<lambda>c. if is_alnum c then c else CHR ''_'') (trim_space value)
      in if out = [] then ''unknown'' else out)"

definition normalize_validation_family :: "string \<Rightarrow> string" where
  "normalize_validation_family value =
     (let v = map (\<lambda>c. if c = CHR ''_'' then CHR ''-'' else c) (trim_space (to_lower value)) in
      if v \<in> {''empty'', ''null'', ''blank'', ''required'', ''missing''} then ''empty/null'' else v)"

definition zero_cost :: plan_cost where
  "zero_cost = \<lparr>co_EstimatedTasks = 0, co_WorkflowTasks = 0, co_ReplayTasks = 0, co_CaseTasks = 0,
     co_SkippedTasks = 0, co_TotalSteps = 0\<rparr>"

definition graph_error_text :: "graph_error \<Rightarrow> string" where
  "graph_error_text e = (case e of
     Node_Not_Found ref \<Rightarrow> ''plan graph node not found: '' @ ref
   | Target_Not_Reachable \<Rightarrow> ''target node is not reachable from any path''
   | Cycle_At n \<Rightarrow> ''plan graph contains cycle at node '' @ json_quote n
   | _ \<Rightarrow> [])"

definition jnat :: "nat \<Rightarrow> json" where
  "jnat n = JNum (string_of_nat n)"

section \<open>Query\<close>

definition normalize_query_fields :: "graph \<Rightarrow> query \<Rightarrow> query" where
  "normalize_query_fields g q = q\<lparr>
     q_MapID := first_non_empty [trim_space (q_MapID q), mp_ID (gr_Map g)],
     q_PlannerMode := first_non_empty [trim_space (q_PlannerMode q), ModeExplain],
     q_Scope := (if trim_space (q_Scope q) = ''workflow'' then ScopeWorkflows else trim_space (q_Scope q)),
     q_TargetKind := trim_space (q_TargetKind q),
     q_TargetID := trim_space (q_TargetID q),
     q_InterfaceNodeID := trim_space (q_InterfaceNodeID q),
     q_ValidationFamily := normalize_validation_family (q_ValidationFamily q),
     q_Role := trim_space (q_Role q)\<rparr>"

text \<open>The default branch: no explicit case, node, path or workflow.\<close>

definition default_scope :: "bool \<Rightarrow> query \<Rightarrow> string" where
  "default_scope scope_was_empty q =
     (let s1 = (if (q_InterfaceNodeID q \<noteq> [] \<or> q_ValidationFamily q \<noteq> [] \<or> q_Role q \<noteq> []) \<and>
                   (scope_was_empty \<or> q_Scope q = []) then ScopeCases else q_Scope q);
          s2 = (if q_TargetKind q = TargetCase \<or> q_TargetKind q = TargetNode
                  then (if scope_was_empty \<or> s1 = ScopeCases then ScopeCase else s1)
                else if q_TargetKind q = TargetPath \<or> q_TargetKind q = TargetWorkflow
                  then (if scope_was_empty then ScopeWorkflows else s1)
                else s1)
      in string_default s2 ScopeAll)"

definition normalize_query :: "graph \<Rightarrow> query \<Rightarrow> query" where
  "normalize_query g q0 =
     (let scope_was_empty = blank (q_Scope q0); q = normalize_query_fields g q0 in
      if \<not> blank (q_CaseID q) then
        q\<lparr>q_Scope := ScopeCase, q_TargetKind := TargetCase, q_TargetID := trim_space (q_CaseID q)\<rparr>
      else if \<not> blank (q_NodeID q) then
        q\<lparr>q_Scope := ScopeCase, q_TargetKind := TargetNode, q_TargetID := trim_space (q_NodeID q)\<rparr>
      else if \<not> blank (q_PathID q) then
        q\<lparr>q_Scope := ScopeWorkflows, q_TargetKind := TargetPath, q_TargetID := trim_space (q_PathID q)\<rparr>
      else if \<not> blank (q_WorkflowID q) then
        q\<lparr>q_Scope := ScopeWorkflows, q_TargetKind := TargetWorkflow, q_TargetID := trim_space (q_WorkflowID q)\<rparr>
      else
        q\<lparr>q_Scope := default_scope scope_was_empty q,
          q_TargetKind := string_default (q_TargetKind q) TargetMap,
          q_TargetID := string_default (q_TargetID q) (q_MapID q)\<rparr>)"

definition validate_query_scope_target :: "query \<Rightarrow> planner_error option" where
  "validate_query_scope_target q =
     (if q_Scope q = ScopeWorkflows then
        (if q_TargetKind q = TargetCase \<or> q_TargetKind q = TargetNode
           then Some (Scope_Conflict (q_Scope q) (q_TargetKind q)) else None)
      else if q_Scope q = ScopeCases \<or> q_Scope q = ScopeCase then
        (if q_TargetKind q = TargetPath \<or> q_TargetKind q = TargetWorkflow
           then Some (Scope_Conflict (q_Scope q) (q_TargetKind q)) else None)
      else None)"

definition workflow_targeted :: "query \<Rightarrow> bool" where
  "workflow_targeted q \<longleftrightarrow> q_TargetKind q = TargetPath \<or> q_TargetKind q = TargetWorkflow"

definition case_targeted :: "query \<Rightarrow> bool" where
  "case_targeted q \<longleftrightarrow> q_TargetKind q = TargetCase \<or> q_TargetKind q = TargetNode"

definition path_matches_query :: "query \<Rightarrow> plan_path \<Rightarrow> bool" where
  "path_matches_query q p =
     (if q_TargetKind q = TargetPath then pa_ID p = q_TargetID q
      else if q_TargetKind q = TargetWorkflow then pa_WorkflowID p = q_TargetID q
      else True)"

definition node_matches_query :: "query \<Rightarrow> node \<Rightarrow> bool" where
  "node_matches_query q n =
     (if q_TargetKind q = TargetNode then nd_ID n = q_TargetID q
      else if q_TargetKind q = TargetCase then nd_CaseID n = q_TargetID q
      else True)"

definition find_target_node :: "graph \<Rightarrow> query \<Rightarrow> node option" where
  "find_target_node g q = find_first (node_matches_query q) (gr_Nodes g)"

definition validation_node_matches_filters :: "query \<Rightarrow> node \<Rightarrow> bool" where
  "validation_node_matches_filters q n \<longleftrightarrow>
     \<not> (q_InterfaceNodeID q \<noteq> [] \<and> nd_InterfaceNodeID n \<noteq> q_InterfaceNodeID q) \<and>
     \<not> (q_ValidationFamily q \<noteq> [] \<and> validation_family_for_node n \<noteq> q_ValidationFamily q) \<and>
     \<not> (q_Role q \<noteq> [] \<and> nd_Role n \<noteq> q_Role q)"

section \<open>Tasks\<close>

definition prefix_steps :: "path_step list \<Rightarrow> ident \<Rightarrow> path_step list" where
  "prefix_steps steps until =
     (if until = [] then steps
      else case take_through (\<lambda>s. ps_NodeID s = until) steps of Some ss \<Rightarrow> ss | None \<Rightarrow> [])"

definition path_workflow :: "graph \<Rightarrow> ident \<Rightarrow> ident" where
  "path_workflow g pid = (case index_by pa_ID (gr_Paths g) pid of Some p \<Rightarrow> pa_WorkflowID p | None \<Rightarrow> [])"

definition blank_task :: physical_task where
  "blank_task = \<lparr>tk_ID = [], tk_Index = 0, tk_Kind = [], tk_Operation = [], tk_PathID = [],
     tk_WorkflowID = [], tk_UntilNodeID = [], tk_NodeID = [], tk_CaseID = [], tk_ReplayGroupID = [],
     tk_InterfaceNodeID = [], tk_AnchorNodeID = [], tk_ValidationFamily = [], tk_MaterializationID = [],
     tk_Status = [], tk_Reason = [], tk_RequiredProperties = [], tk_ProvidedProperties = [],
     tk_Cost = zero_cost, tk_Summary = []\<rparr>"

definition operation_task_kind :: "physical_operation \<Rightarrow> string" where
  "operation_task_kind oper =
     (let kind = (if op_Kind oper = [] then TaskRunCase else op_Kind oper) in
      if kind = TaskRunPathPrefix \<and> \<not> blank (op_MaterializationID oper) then TaskReuseMaterialized else kind)"

definition operation_task_cost :: "graph \<Rightarrow> physical_operation \<Rightarrow> string \<Rightarrow> plan_cost" where
  "operation_task_cost g oper kind =
     (if kind = TaskRunPathPrefix then zero_cost\<lparr>co_EstimatedTasks := 1, co_ReplayTasks := 1,
        co_TotalSteps := length (prefix_steps (path_steps g (op_PathID oper)) (op_UntilNodeID oper))\<rparr>
      else if kind = TaskReuseMaterialized then zero_cost\<lparr>co_EstimatedTasks := 1\<rparr>
      else if kind = TaskRunCase then zero_cost\<lparr>co_EstimatedTasks := 1, co_CaseTasks := 1\<rparr>
      else zero_cost\<lparr>co_EstimatedTasks := 1\<rparr>)"

definition task_from_operation :: "graph \<Rightarrow> physical_operation \<Rightarrow> physical_task" where
  "task_from_operation g oper =
     (let kind = operation_task_kind oper; wf = path_workflow g (op_PathID oper) in
      blank_task\<lparr>tk_Kind := kind, tk_Operation := kind, tk_PathID := op_PathID oper,
        tk_WorkflowID := wf, tk_UntilNodeID := op_UntilNodeID oper, tk_NodeID := op_NodeID oper,
        tk_CaseID := op_CaseID oper, tk_MaterializationID := op_MaterializationID oper,
        tk_Status := TaskStatusPlanned, tk_Reason := op_Reason oper,
        tk_RequiredProperties := json_object (op_RequiredPropertyJSON oper),
        tk_ProvidedProperties := json_object (op_ProvidedPropertyJSON oper),
        tk_Cost := operation_task_cost g oper kind,
        tk_Summary := (if kind = TaskReuseMaterialized
          then obj_of [(''sourcePathId'', JStr (op_PathID oper)), (''sourceWorkflowId'', JStr wf),
            (''sourceUntilNodeId'', JStr (op_UntilNodeID oper))]
          else [])\<rparr>)"

definition task_name :: "nat \<Rightarrow> string \<Rightarrow> ident" where
  "task_name index label = ''task.'' @ pad3 index @ ''.'' @ safe_id label"

definition append_task :: "physical_task \<Rightarrow> plan \<Rightarrow> plan" where
  "append_task t0 p =
     (let index = length (pl_PhysicalTasks p) + 1;
          t = t0\<lparr>tk_Index := index,
            tk_ID := (if tk_ID t0 = [] then task_name index (first_non_empty [tk_Kind t0, tk_Operation t0]) else tk_ID t0),
            tk_Operation := (if tk_Operation t0 = [] then tk_Kind t0 else tk_Operation t0),
            tk_Status := (if tk_Status t0 = [] then TaskStatusPlanned else tk_Status t0)\<rparr>
      in p\<lparr>pl_PhysicalTasks := pl_PhysicalTasks p @ [t]\<rparr>)"

definition replay_operation_count :: "physical_operation list \<Rightarrow> nat" where
  "replay_operation_count ops =
     length (filter (\<lambda>oper. op_Kind oper = TaskRunPathPrefix \<and> blank (op_MaterializationID oper)) ops)"

definition case_operation_count :: "physical_operation list \<Rightarrow> nat" where
  "case_operation_count ops = length (filter (\<lambda>oper. op_Kind oper = TaskRunCase) ops)"

definition convert_operations :: "graph \<Rightarrow> physical_operation list \<Rightarrow> planned_operation list" where
  "convert_operations g ops =
     map (\<lambda>oper. \<lparr>po_Operation = oper, po_WorkflowID = path_workflow g (op_PathID oper)\<rparr>) ops"

section \<open>Replay groups\<close>

definition replay_group_decision :: "physical_task \<Rightarrow> string" where
  "replay_group_decision t =
     (if tk_Kind t = TaskReuseMaterialized \<and> \<not> blank (tk_MaterializationID t) then ''reused''
      else if tk_Kind t = TaskRunPathPrefix then ''duplicated'' else ''unavailable'')"

definition replay_group_reason :: "physical_task \<Rightarrow> string" where
  "replay_group_reason t =
     (if replay_group_decision t = ''reused''
        then ''validation cases share a Store-backed materialized replay checkpoint''
      else if replay_group_decision t = ''duplicated''
        then ''validation cases share a replay prefix, but no compatible materialization is available''
      else ''validation case has no replay checkpoint'')"

definition replay_group_id_component :: "hashes \<Rightarrow> string \<Rightarrow> string" where
  "replay_group_id_component H value0 =
     (let value = (if trim_space value0 = [] then ''unknown'' else trim_space value0)
      in safe_id value @ ''_'' @ take 12 (hash_sha256 H value))"

definition replay_group_id :: "hashes \<Rightarrow> node \<Rightarrow> string \<Rightarrow> physical_task \<Rightarrow> ident" where
  "replay_group_id H n family t = str_join ''.''
     [''replay'',
      replay_group_id_component H (first_non_empty [nd_InterfaceNodeID n, ''interface'']),
      replay_group_id_component H (first_non_empty [nd_AnchorNodeID n, tk_UntilNodeID t, ''anchor'']),
      replay_group_id_component H (first_non_empty [family, ''family'']),
      replay_group_id_component H (first_non_empty [tk_PathID t, ''path'']),
      replay_group_id_component H (first_non_empty [tk_UntilNodeID t, ''until'']),
      replay_group_id_component H (first_non_empty [tk_MaterializationID t, ''materialization''])]"

definition replay_key :: "node \<Rightarrow> string \<Rightarrow> physical_task \<Rightarrow> string" where
  "replay_key n family t = str_join [CHR 0x00]
     [nd_InterfaceNodeID n, nd_AnchorNodeID n, family, tk_PathID t, tk_UntilNodeID t, tk_MaterializationID t]"

definition append_replay_group_member :: "node \<Rightarrow> replay_group \<Rightarrow> replay_group" where
  "append_replay_group_member n grp =
     (let nodes = (if nd_ID n \<in> set (rg_NodeIDs grp) then rg_NodeIDs grp else rg_NodeIDs grp @ [nd_ID n]);
          cases = (if \<not> blank (nd_CaseID n) \<and> nd_CaseID n \<notin> set (rg_CaseIDs grp)
            then rg_CaseIDs grp @ [nd_CaseID n] else rg_CaseIDs grp)
      in grp\<lparr>rg_NodeIDs := nodes, rg_CaseIDs := cases,
           rg_Count := (if cases = [] then length nodes else length cases)\<rparr>)"

definition new_replay_group :: "hashes \<Rightarrow> node \<Rightarrow> string \<Rightarrow> physical_task \<Rightarrow> replay_group" where
  "new_replay_group H n family t = \<lparr>rg_ID = replay_group_id H n family t,
     rg_InterfaceNodeID = nd_InterfaceNodeID n, rg_AnchorNodeID = nd_AnchorNodeID n,
     rg_AnchorCaseID = nd_BaseCaseID n, rg_ValidationFamily = family, rg_PathID = tk_PathID t,
     rg_WorkflowID = tk_WorkflowID t, rg_UntilNodeID = tk_UntilNodeID t,
     rg_MaterializationID = tk_MaterializationID t, rg_Decision = replay_group_decision t,
     rg_Reason = replay_group_reason t, rg_Count = 0, rg_NodeIDs = [], rg_CaseIDs = [], rg_TaskIDs = []\<rparr>"

text \<open>Returns the group, the task to reuse, whether the task may be reused, and the new state.\<close>

definition prepare_replay_group ::
  "hashes \<Rightarrow> node \<Rightarrow> physical_task \<Rightarrow> builder \<Rightarrow> ident \<times> ident \<times> bool \<times> builder" where
  "prepare_replay_group H n t b =
     (if tk_Kind t \<noteq> TaskReuseMaterialized \<and> tk_Kind t \<noteq> TaskRunPathPrefix then ([], [], False, b)
      else
        (let family = validation_family_for_node n; key = replay_key n family t;
             groups0 = pl_ReplayGroups (b_plan b);
             (gi, groups, bykey) = (case b_replayGroupByKey b key of
                Some i \<Rightarrow> (i, groups0, b_replayGroupByKey b)
              | None \<Rightarrow> (length groups0, groups0 @ [new_replay_group H n family t],
                  (b_replayGroupByKey b)(key \<mapsto> length groups0)));
             grp = append_replay_group_member n (groups ! gi);
             b' = b\<lparr>b_plan := (b_plan b)\<lparr>pl_ReplayGroups := groups[gi := grp]\<rparr>, b_replayGroupByKey := bykey\<rparr>;
             reusable = (tk_Kind t = TaskReuseMaterialized \<and> \<not> blank (tk_MaterializationID t));
             reused = (if reusable then (case b_replayTaskByGroup b (rg_ID grp) of Some x \<Rightarrow> x | None \<Rightarrow> []) else [])
         in (rg_ID grp, reused, reusable, b')))"

fun add_task_to_groups :: "ident \<Rightarrow> ident \<Rightarrow> replay_group list \<Rightarrow> replay_group list option" where
  "add_task_to_groups gid tid [] = None"
| "add_task_to_groups gid tid (grp # gs) =
     (if rg_ID grp \<noteq> gid then map_option ((#) grp) (add_task_to_groups gid tid gs)
      else Some ((if tid \<in> set (rg_TaskIDs grp) then grp else grp\<lparr>rg_TaskIDs := rg_TaskIDs grp @ [tid]\<rparr>) # gs))"

definition add_replay_group_task :: "ident \<Rightarrow> ident \<Rightarrow> builder \<Rightarrow> builder" where
  "add_replay_group_task gid tid b =
     (if blank gid \<or> blank tid then b
      else case add_task_to_groups gid tid (pl_ReplayGroups (b_plan b)) of
        None \<Rightarrow> b
      | Some groups \<Rightarrow> b\<lparr>b_plan := (b_plan b)\<lparr>pl_ReplayGroups := groups\<rparr>,
          b_replayTaskByGroup :=
            (case b_replayTaskByGroup b gid of
               Some x \<Rightarrow> if x = [] then (b_replayTaskByGroup b)(gid \<mapsto> tid) else b_replayTaskByGroup b
             | None \<Rightarrow> (b_replayTaskByGroup b)(gid \<mapsto> tid))\<rparr>)"

section \<open>Fingerprint of a graph\<close>

text \<open>
  The payload keeps the fields that identify the graph and drops sort orders and time stamps;
  every list is sorted by identifier before it is marshalled and hashed
  (\<open>graph_fingerprint.go\<close>). \<open>sort.Slice\<close> is not stable; on distinct keys every
  sort gives this list.
\<close>

definition fp_node :: "node \<Rightarrow> json" where
  "fp_node n = JObj [(''id'', JStr (nd_ID n)), (''caseId'', JStr (nd_CaseID n)),
     (''interfaceNodeId'', JStr (nd_InterfaceNodeID n)), (''requestTemplateId'', JStr (nd_RequestTemplateID n)),
     (''baseCaseId'', JStr (nd_BaseCaseID n)), (''anchorNodeId'', JStr (nd_AnchorNodeID n)),
     (''role'', JStr (nd_Role n)), (''stateEffect'', JStr (nd_StateEffect n)),
     (''renderMode'', JStr (nd_RenderMode n)), (''patchJson'', JStr (nd_PatchJSON n)),
     (''expectedJson'', JStr (nd_ExpectedJSON n)), (''requiredPropertyJson'', JStr (nd_RequiredPropertyJSON n)),
     (''providedPropertyJson'', JStr (nd_ProvidedPropertyJSON n)), (''summaryJson'', JStr (nd_SummaryJSON n))]"

definition jint :: "int \<Rightarrow> json" where
  "jint i = JNum (if i < 0 then CHR ''-'' # string_of_nat (nat (- i)) else string_of_nat (nat i))"

definition fp_edge :: "edge \<Rightarrow> json" where
  "fp_edge e = JObj [(''id'', JStr (ed_ID e)), (''fromNodeId'', JStr (ed_FromNodeID e)),
     (''toNodeId'', JStr (ed_ToNodeID e)), (''kind'', JStr (ed_Kind e)), (''pathId'', JStr (ed_PathID e)),
     (''materializationId'', JStr (ed_MaterializationID e)), (''required'', JBool (ed_Required e)),
     (''mappingsJson'', JStr (ed_MappingsJSON e)), (''summaryJson'', JStr (ed_SummaryJSON e))]"

definition fp_path :: "plan_path \<Rightarrow> json" where
  "fp_path p = JObj [(''id'', JStr (pa_ID p)), (''workflowId'', JStr (pa_WorkflowID p)),
     (''displayName'', JStr (pa_DisplayName p)), (''status'', JStr (pa_Status p)),
     (''requiredPropertyJson'', JStr (pa_RequiredPropertyJSON p)),
     (''providedPropertyJson'', JStr (pa_ProvidedPropertyJSON p)), (''summaryJson'', JStr (pa_SummaryJSON p))]"

definition fp_step :: "path_step \<Rightarrow> json" where
  "fp_step s = JObj [(''pathId'', JStr (ps_PathID s)), (''index'', jint (ps_StepIndex s)),
     (''stepId'', JStr (ps_StepID s)), (''nodeId'', JStr (ps_NodeID s)), (''caseId'', JStr (ps_CaseID s)),
     (''required'', JBool (ps_Required s)), (''materializeAfter'', JBool (ps_MaterializeAfter s)),
     (''summaryJson'', JStr (ps_SummaryJSON s))]"

definition fp_materialization :: "materialization \<Rightarrow> json" where
  "fp_materialization m = JObj [(''id'', JStr (mz_ID m)), (''fixtureId'', JStr (mz_FixtureID m)),
     (''sourcePathId'', JStr (mz_SourcePathID m)), (''sourceWorkflowId'', JStr (mz_SourceWorkflowID m)),
     (''sourceUntilStep'', JStr (mz_SourceUntilStep m)),
     (''sourceUntilNodeId'', JStr (mz_SourceUntilNodeID m)), (''snapshotKind'', JStr (mz_SnapshotKind m)),
     (''ttlSeconds'', jint (mz_TTLSeconds m)), (''status'', JStr (mz_Status m)),
     (''summaryJson'', JStr (mz_SummaryJSON m))]"

definition step_sort_key :: "path_step \<Rightarrow> ident \<times> int \<times> ident" where
  "step_sort_key s = (ps_PathID s, ps_StepIndex s, ps_StepID s)"

definition graph_fingerprint_payload :: "graph \<Rightarrow> json" where
  "graph_fingerprint_payload g = JObj [(''mapId'', JStr (mp_ID (gr_Map g))),
     (''nodes'', JArr (map fp_node (sort_key nd_ID (gr_Nodes g)))),
     (''edges'', JArr (map fp_edge (sort_key ed_ID (gr_Edges g)))),
     (''paths'', JArr (map fp_path (sort_key pa_ID (gr_Paths g)))),
     (''steps'', JArr (map fp_step (sort_key step_sort_key (gr_PathSteps g)))),
     (''materializations'', JArr (map fp_materialization (sort_key mz_ID (gr_Materializations g))))]"

definition graph_fingerprint :: "hashes \<Rightarrow> graph \<Rightarrow> string" where
  "graph_fingerprint H g = ''sha1:'' @ hash_sha1 H (json_marshal (graph_fingerprint_payload g))"

section \<open>Planning\<close>

definition simple_rule :: "string \<Rightarrow> string \<Rightarrow> obj \<Rightarrow> rule_trace" where
  "simple_rule rule why details = \<lparr>rt_Rule = rule, rt_Status = RuleStatusApplied, rt_Before = [],
     rt_After = [], rt_Reason = why, rt_Details = details\<rparr>"

definition zero_summary :: plan_summary where
  "zero_summary = \<lparr>su_WorkflowTasks = 0, su_ReplayTasks = 0, su_CaseTasks = 0, su_SkippedTasks = 0,
     su_TotalTasks = 0, su_TotalSteps = 0\<rparr>"

definition base_plan :: "hashes \<Rightarrow> graph \<Rightarrow> query \<Rightarrow> plan" where
  "base_plan H g q = \<lparr>pl_ID = [], pl_MapID = q_MapID q, pl_ProfileID = mp_ProfileID (gr_Map g),
     pl_EnvironmentID = q_EnvironmentID q, pl_Scope = q_Scope q, pl_TargetKind = q_TargetKind q,
     pl_TargetID = q_TargetID q, pl_TargetNodeID = [], pl_TargetCaseID = [],
     pl_Mode = string_default (q_PlannerMode q) ModeExplain, pl_Status = TaskStatusPlanned,
     pl_PlannerVersion = PlannerVersion,
     pl_PlannerOptions = obj_of [(''scope'', JStr (q_Scope q)), (''targetKind'', JStr (q_TargetKind q)),
       (''targetId'', JStr (q_TargetID q)), (''environmentId'', JStr (q_EnvironmentID q)),
       (''interfaceNodeId'', JStr (q_InterfaceNodeID q)),
       (''validationFamily'', JStr (q_ValidationFamily q)), (''role'', JStr (q_Role q)),
       (''graphFingerprint'', JStr (graph_fingerprint H g))],
     pl_LogicalPlan = [\<lparr>lo_ID = ''logical.scan_map'', lo_Op = ''scan_map'', lo_TargetKind = TargetMap,
       lo_TargetID = q_MapID q, lo_Children = [],
       lo_Properties = obj_of [(''paths'', jnat (length (gr_Paths g))), (''nodes'', jnat (length (gr_Nodes g)))]\<rparr>],
     pl_OptimizedPlan = [],
     pl_RulesApplied = [simple_rule ''build_logical_map_plan''
       ''load Store-backed map graph into planner input'' []],
     pl_CandidatePlans = [], pl_RejectedPlans = [], pl_ReplayGroups = [], pl_PhysicalTasks = [],
     pl_TaskEdges = [], pl_Operations = [], pl_Cost = zero_cost, pl_RequiredProperties = [],
     pl_ProvidedProperties = [], pl_Summary = zero_summary, pl_CreatedAt = zero_time\<rparr>"

definition workflow_candidate :: "graph \<Rightarrow> plan_path \<Rightarrow> candidate_plan" where
  "workflow_candidate g p = \<lparr>cn_ID = ''candidate.path.'' @ safe_id (pa_ID p), cn_Kind = ''workflow_path'',
     cn_PathID = pa_ID p, cn_WorkflowID = pa_WorkflowID p, cn_NodeID = [], cn_CaseID = [],
     cn_Selected = True, cn_Cost = zero_cost\<lparr>co_EstimatedTasks := 1, co_WorkflowTasks := 1,
       co_TotalSteps := length (path_steps g (pa_ID p))\<rparr>,
     cn_Reason = ''mapped workflow path selected by scope''\<rparr>"

definition workflow_task :: "graph \<Rightarrow> plan_path \<Rightarrow> physical_task" where
  "workflow_task g p =
     (let steps = path_steps g (pa_ID p);
          kind = (if steps = [] then TaskSkip else TaskRunPath)
      in blank_task\<lparr>tk_Kind := kind, tk_Operation := kind, tk_PathID := pa_ID p,
           tk_WorkflowID := pa_WorkflowID p,
           tk_Status := (if steps = [] then TaskStatusSkipped else TaskStatusPlanned),
           tk_Reason := (if steps = [] then ''workflow path has no mapped steps'' else ''run mapped workflow path''),
           tk_Cost := zero_cost\<lparr>co_EstimatedTasks := 1, co_WorkflowTasks := 1, co_TotalSteps := length steps\<rparr>,
           tk_RequiredProperties := json_object (pa_RequiredPropertyJSON p),
           tk_ProvidedProperties := json_object (pa_ProvidedPropertyJSON p)\<rparr>)"

definition plan_workflow_path :: "graph \<Rightarrow> plan_path \<Rightarrow> plan \<Rightarrow> plan" where
  "plan_workflow_path g p pl = append_task (workflow_task g p)
     (pl\<lparr>pl_CandidatePlans := pl_CandidatePlans pl @ [workflow_candidate g p]\<rparr>)"

fun plan_workflow_paths :: "graph \<Rightarrow> query \<Rightarrow> plan_path list \<Rightarrow> nat \<times> plan \<Rightarrow> nat \<times> plan" where
  "plan_workflow_paths g q [] acc = acc"
| "plan_workflow_paths g q (p # ps) (matched, pl) =
     (if path_matches_query q p
        then plan_workflow_paths g q ps (matched + 1, plan_workflow_path g p pl)
        else plan_workflow_paths g q ps (matched, pl))"

definition scan_workflows_op :: "graph \<Rightarrow> query \<Rightarrow> logical_op" where
  "scan_workflows_op g q = \<lparr>lo_ID = ''logical.workflow_paths'', lo_Op = ''scan_workflow_paths'',
     lo_TargetKind = TargetMap, lo_TargetID = q_MapID q, lo_Children = [''logical.scan_map''],
     lo_Properties = [(''pathCount'', jnat (length (gr_Paths g)))]\<rparr>"

definition plan_workflow_scope :: "graph \<Rightarrow> query \<Rightarrow> builder \<Rightarrow> planner_error + builder" where
  "plan_workflow_scope g q b =
     (let pl = (b_plan b)\<lparr>pl_LogicalPlan := pl_LogicalPlan (b_plan b) @ [scan_workflows_op g q],
            pl_RulesApplied := pl_RulesApplied (b_plan b) @ [simple_rule ''select_workflow_paths''
              ''plan each mapped workflow path as an executable physical task'' []]\<rparr>;
          (matched, pl') = plan_workflow_paths g q (gr_Paths g) (0, pl)
      in if workflow_targeted q \<and> matched = 0
           then Inl (Workflow_Target_Not_Found (q_TargetKind q) (q_TargetID q))
         else Inr (b\<lparr>b_plan := pl'\<rparr>))"

definition case_candidate :: "node \<Rightarrow> explanation \<Rightarrow> candidate_path \<Rightarrow> candidate_plan" where
  "case_candidate n ex c = \<lparr>cn_ID = ''candidate.case.'' @ safe_id (nd_ID n) @ ''.'' @ safe_id (cp_PathID c),
     cn_Kind = ''case_replay'', cn_PathID = cp_PathID c, cn_WorkflowID = cp_WorkflowID c,
     cn_NodeID = nd_ID n, cn_CaseID = nd_CaseID n, cn_Selected = cp_Selected c,
     cn_Cost = zero_cost\<lparr>co_EstimatedTasks := length (ex_Operations ex),
       co_ReplayTasks := replay_operation_count (ex_Operations ex),
       co_CaseTasks := case_operation_count (ex_Operations ex),
       co_TotalSteps := length (ex_PathSteps ex)\<rparr>,
     cn_Reason = cp_Reason c\<rparr>"

definition case_rejection :: "node \<Rightarrow> rejected_reason \<Rightarrow> rejected_plan" where
  "case_rejection n r = \<lparr>rj_ID = ''rejected.'' @ safe_id (nd_ID n) @ ''.'' @ safe_id (rr_PathID r),
     rj_Kind = ''case_replay'', rj_Reason = rr_Reason r\<rparr>"

definition tag_task :: "ident \<Rightarrow> node \<Rightarrow> physical_task \<Rightarrow> physical_task" where
  "tag_task gid n t = t\<lparr>tk_ReplayGroupID := gid, tk_InterfaceNodeID := nd_InterfaceNodeID n,
     tk_AnchorNodeID := nd_AnchorNodeID n, tk_ValidationFamily := validation_family_for_node n\<rparr>"

definition control_task_edge :: "ident \<Rightarrow> ident \<Rightarrow> nat \<Rightarrow> task_edge" where
  "control_task_edge a c order = \<lparr>te_FromTaskID = a, te_ToTaskID = c, te_Kind = ''control'',
     te_Required = True, te_Mappings = [], te_Summary = [], te_SortOrder = order\<rparr>"

record case_tasks =
  ct_previous :: ident
  ct_materialized :: nat
  ct_group :: ident

text \<open>One round of the loop of \<open>appendCaseTasks\<close>: the task of one operation.\<close>

definition append_case_operation ::
  "hashes \<Rightarrow> graph \<Rightarrow> node \<Rightarrow> physical_operation \<Rightarrow> case_tasks \<times> builder \<Rightarrow> case_tasks \<times> builder" where
  "append_case_operation H g n oper acc =
     (case acc of (ct, b) \<Rightarrow>
       (case prepare_replay_group H n (task_from_operation g oper) b of (gid, reused, reusable, b1) \<Rightarrow>
         (let t = (if gid \<noteq> [] then tag_task gid n (task_from_operation g oper) else task_from_operation g oper);
              ct1 = (if gid \<noteq> [] then ct\<lparr>ct_group := gid\<rparr> else ct)
          in if reusable \<and> reused \<noteq> [] then (ct1\<lparr>ct_previous := reused\<rparr>, b1)
             else
               (let b2 = b1\<lparr>b_plan := append_task t (b_plan b1)\<rparr>;
                    current = tk_ID (last (pl_PhysicalTasks (b_plan b2)));
                    b3 = (if gid \<noteq> [] then add_replay_group_task gid current b2 else b2);
                    ct2 = (if tk_Kind t = TaskReuseMaterialized
                      then ct1\<lparr>ct_materialized := ct_materialized ct1 + 1\<rparr> else ct1);
                    edges = pl_TaskEdges (b_plan b3);
                    b4 = (if ct_previous ct2 \<noteq> []
                      then b3\<lparr>b_plan := (b_plan b3)\<lparr>pl_TaskEdges := edges @
                        [control_task_edge (ct_previous ct2) current (length edges + 1)]\<rparr>\<rparr> else b3)
                in (ct2\<lparr>ct_previous := current\<rparr>, b4)))))"

definition append_case_tasks ::
  "hashes \<Rightarrow> graph \<Rightarrow> node \<Rightarrow> physical_operation list \<Rightarrow> builder \<Rightarrow> case_tasks \<times> builder" where
  "append_case_tasks H g n ops b =
     fold (append_case_operation H g n) ops (\<lparr>ct_previous = [], ct_materialized = 0, ct_group = []\<rparr>, b)"

definition tag_case_task :: "node \<Rightarrow> ident \<Rightarrow> nat \<Rightarrow> builder \<Rightarrow> builder" where
  "tag_case_task n gid i b =
     (let ts = pl_PhysicalTasks (b_plan b); t = ts ! i in
      if tk_Kind t \<noteq> TaskRunCase \<or> tk_ReplayGroupID t \<noteq> [] then b
      else add_replay_group_task gid (tk_ID t)
        (b\<lparr>b_plan := (b_plan b)\<lparr>pl_PhysicalTasks := ts[i := tag_task gid n t]\<rparr>\<rparr>))"

definition tag_case_tasks :: "node \<Rightarrow> nat \<Rightarrow> ident \<Rightarrow> builder \<Rightarrow> builder" where
  "tag_case_tasks n start gid b =
     (if gid \<noteq> [] then fold (tag_case_task n gid) [start ..< length (pl_PhysicalTasks (b_plan b))] b else b)"

definition case_details :: "node \<Rightarrow> obj" where
  "case_details n = obj_of [(''nodeId'', JStr (nd_ID n)), (''caseId'', JStr (nd_CaseID n))]"

definition append_case_rule_traces :: "node \<Rightarrow> explanation \<Rightarrow> nat \<Rightarrow> nat \<Rightarrow> plan \<Rightarrow> plan" where
  "append_case_rule_traces n ex start materialized pl =
     (if length (pl_PhysicalTasks pl) > start then
        pl\<lparr>pl_RulesApplied := pl_RulesApplied pl @
          (if materialized > 0 then
             [\<lparr>rt_Rule = ''prefer_materialized_replay'', rt_Status = RuleStatusApplied,
               rt_Before = ''run_path_prefix'', rt_After = TaskReuseMaterialized,
               rt_Reason = ''reuse Store-backed materialized precondition instead of replaying the full prefix'',
               rt_Details = obj_put ''tasks'' (jnat materialized) (case_details n)\<rparr>] else []) @
          [simple_rule ''choose_replay_prefix''
             ''selected physical replay operations for validation case precondition''
             (obj_put ''tasks'' (jnat (length (pl_PhysicalTasks pl) - start)) (case_details n))] @
          (if case_operation_count (ex_Operations ex) > 0 then
             [simple_rule ''plan_evidence_gate''
               ''map gate can validate task Evidence after execution without changing the physical request plan''
               (case_details n)] else [])\<rparr>
      else pl)"

definition plan_case_node :: "hashes \<Rightarrow> graph \<Rightarrow> node \<Rightarrow> builder \<Rightarrow> graph_error + builder" where
  "plan_case_node H g n b =
     (case explain_case g \<lparr>eo_CaseID = nd_CaseID n, eo_NodeID = nd_ID n\<rparr> of
        Inl e \<Rightarrow> Inl e
      | Inr ex \<Rightarrow>
          (let p = b_plan b;
               p1 = p\<lparr>pl_TargetNodeID := first_non_empty [pl_TargetNodeID p, ex_TargetNodeID ex],
                 pl_TargetCaseID := first_non_empty [pl_TargetCaseID p, ex_TargetCaseID ex],
                 pl_CandidatePlans := pl_CandidatePlans p @ map (case_candidate n ex) (ex_CandidatePaths ex),
                 pl_RejectedPlans := pl_RejectedPlans p @ map (case_rejection n) (ex_RejectedReasons ex)\<rparr>;
               start = length (pl_PhysicalTasks p1);
               (ct, b1) = append_case_tasks H g n (ex_Operations ex) (b\<lparr>b_plan := p1\<rparr>);
               b2 = tag_case_tasks n start (ct_group ct) b1;
               p3 = append_case_rule_traces n ex start (ct_materialized ct) (b_plan b2)
           in Inr (b2\<lparr>b_plan := p3\<lparr>pl_Operations := pl_Operations p3 @
                convert_operations g (ex_Operations ex)\<rparr>\<rparr>)))"

fun plan_case_nodes :: "hashes \<Rightarrow> graph \<Rightarrow> query \<Rightarrow> node list \<Rightarrow> nat \<times> builder \<Rightarrow> nat \<times> builder" where
  "plan_case_nodes H g q [] acc = acc"
| "plan_case_nodes H g q (n # ns) (matched, b) =
     (if \<not> needs_validation n \<or> \<not> validation_node_matches_filters q n \<or>
         (case_targeted q \<and> \<not> node_matches_query q n)
        then plan_case_nodes H g q ns (matched, b)
      else case plan_case_node H g n b of
        Inl e \<Rightarrow> plan_case_nodes H g q ns (matched + 1, b\<lparr>b_plan := (b_plan b)\<lparr>pl_RejectedPlans :=
          pl_RejectedPlans (b_plan b) @ [\<lparr>rj_ID = ''candidate.case.'' @ safe_id (nd_ID n),
            rj_Kind = ''case'', rj_Reason = graph_error_text e\<rparr>]\<rparr>\<rparr>)
      | Inr b' \<Rightarrow> plan_case_nodes H g q ns (matched + 1, b'))"

definition scan_cases_op :: "query \<Rightarrow> logical_op" where
  "scan_cases_op q = \<lparr>lo_ID = ''logical.validation_cases'', lo_Op = ''scan_validation_cases'',
     lo_TargetKind = TargetMap, lo_TargetID = q_MapID q, lo_Children = [''logical.scan_map''],
     lo_Properties = []\<rparr>"

definition plan_case_scope :: "hashes \<Rightarrow> graph \<Rightarrow> query \<Rightarrow> builder \<Rightarrow> planner_error + builder" where
  "plan_case_scope H g q b =
     (let b1 = b\<lparr>b_plan := (b_plan b)\<lparr>pl_LogicalPlan := pl_LogicalPlan (b_plan b) @ [scan_cases_op q]\<rparr>\<rparr>;
          (matched, b2) = plan_case_nodes H g q (gr_Nodes g) (0, b1)
      in if case_targeted q \<and> matched = 0 then Inl (Case_Target_Not_Found (q_TargetKind q) (q_TargetID q))
         else Inr b2)"

definition plan_target_case :: "hashes \<Rightarrow> graph \<Rightarrow> query \<Rightarrow> builder \<Rightarrow> planner_error + builder" where
  "plan_target_case H g q b =
     (case find_target_node g q of
        None \<Rightarrow> Inl (Graph_Node_Not_Found (q_TargetID q))
      | Some n \<Rightarrow>
          (case plan_case_node H g n (b\<lparr>b_plan := (b_plan b)\<lparr>pl_TargetNodeID := nd_ID n,
              pl_TargetCaseID := nd_CaseID n,
              pl_RequiredProperties := json_object (nd_RequiredPropertyJSON n),
              pl_ProvidedProperties := json_object (nd_ProvidedPropertyJSON n)\<rparr>\<rparr>) of
             Inl e \<Rightarrow> Inl (Graph_Error e)
           | Inr b' \<Rightarrow> Inr b'))"

definition add_task_cost :: "physical_task \<Rightarrow> plan_cost \<Rightarrow> plan_cost" where
  "add_task_cost t c = \<lparr>co_EstimatedTasks = co_EstimatedTasks c + 1,
     co_WorkflowTasks = co_WorkflowTasks c + co_WorkflowTasks (tk_Cost t),
     co_ReplayTasks = co_ReplayTasks c + co_ReplayTasks (tk_Cost t),
     co_CaseTasks = co_CaseTasks c + co_CaseTasks (tk_Cost t),
     co_SkippedTasks = co_SkippedTasks c + co_SkippedTasks (tk_Cost t) + (if tk_Kind t = TaskSkip then 1 else 0),
     co_TotalSteps = co_TotalSteps c + co_TotalSteps (tk_Cost t)\<rparr>"

definition finish_plan :: "query \<Rightarrow> plan \<Rightarrow> plan" where
  "finish_plan q p =
     (let groups = [(''groups'', jnat (length (pl_ReplayGroups p)))]; grouped = pl_ReplayGroups p \<noteq> [];
          cost = fold add_task_cost (pl_PhysicalTasks p) (pl_Cost p)
      in p\<lparr>pl_OptimizedPlan := pl_LogicalPlan p @ (if grouped then
            [\<lparr>lo_ID = ''logical.replay_groups'', lo_Op = ''group_replay_checkpoints'',
              lo_TargetKind = TargetMap, lo_TargetID = q_MapID q,
              lo_Children = [''logical.validation_cases''], lo_Properties = groups\<rparr>] else []),
          pl_RulesApplied := pl_RulesApplied p @ (if grouped then [simple_rule ''group_replay_checkpoints''
              ''validation cases sharing interface, anchor, family, and replay source are grouped for reuse''
              groups] else []) @
            [simple_rule ''build_physical_task_dag'' ''lower optimized logical plan into executable task DAG''
              (obj_of [(''tasks'', jnat (length (pl_PhysicalTasks p))), (''edges'', jnat (length (pl_TaskEdges p)))])],
          pl_Cost := cost,
          pl_Summary := \<lparr>su_WorkflowTasks = co_WorkflowTasks cost, su_ReplayTasks = co_ReplayTasks cost,
            su_CaseTasks = co_CaseTasks cost, su_SkippedTasks = co_SkippedTasks cost,
            su_TotalTasks = length (pl_PhysicalTasks p), su_TotalSteps = co_TotalSteps cost\<rparr>\<rparr>)"

definition plan_scope :: "hashes \<Rightarrow> graph \<Rightarrow> query \<Rightarrow> builder \<Rightarrow> planner_error + builder" where
  "plan_scope H g q b =
     (if q_Scope q = ScopeAll then
        (case plan_workflow_scope g q b of Inl e \<Rightarrow> Inl e | Inr b1 \<Rightarrow> plan_case_scope H g q b1)
      else if q_Scope q = ScopeWorkflows then plan_workflow_scope g q b
      else if q_Scope q = ScopeCases then plan_case_scope H g q b
      else if q_Scope q = ScopeCase then plan_target_case H g q b
      else Inl (Unsupported_Scope (q_Scope q)))"

definition explain :: "hashes \<Rightarrow> graph \<Rightarrow> query \<Rightarrow> planner_error + plan" where
  "explain H g q0 =
     (let q = normalize_query g q0 in
      if q_MapID q = [] then Inl Map_ID_Required
      else case validate_query_scope_target q of
        Some e \<Rightarrow> Inl e
      | None \<Rightarrow>
          (case plan_scope H g q \<lparr>b_plan = base_plan H g q, b_replayGroupByKey = Map.empty,
              b_replayTaskByGroup = Map.empty\<rparr> of
             Inl e \<Rightarrow> Inl e
           | Inr b \<Rightarrow> Inr (finish_plan q (b_plan b))))"

end
