(* ===== verification/Map_Plan_Facts.thy ===== *)
theory Map_Plan_Facts
  imports Map_Planner
begin

text \<open>
  What the planner guarantees about the plans it returns: consecutive task numbers and distinct
  task identifiers, dependency edges that only point forwards, one materialization task per replay
  group, and a cost summary that counts the tasks by kind. Each is an invariant of the builder
  that every planning operation preserves.
\<close>

section \<open>Task names\<close>

lemma nat_of_digits_zeros: "nat_of_digits (replicate k (CHR ''0'') @ s) = nat_of_digits s"
proof (induction k)
  case (Suc k)
  then show ?case by (simp add: nat_of_digits_def)
qed simp

lemma nat_of_digits_pad3 [simp]: "nat_of_digits (pad3 n) = n"
  by (simp add: pad3_def Let_def nat_of_digits_zeros)

lemma pad3_digits: "\<forall>c \<in> set (pad3 n). is_digit c"
  using string_of_nat_digits [of n] by (auto simp: pad3_def Let_def is_digit_def)

lemma task_name_inj: "task_name i l = task_name j k \<Longrightarrow> i = j"
proof -
  assume eq: "task_name i l = task_name j k"
  have tw: "takeWhile is_digit (pad3 n @ CHR ''.'' # r) = pad3 n" for n r
    using pad3_digits [of n] by (subst takeWhile_append2) (auto simp: is_digit_def)
  from eq have "pad3 i @ CHR ''.'' # safe_id l = pad3 j @ CHR ''.'' # safe_id k"
    by (simp add: task_name_def)
  then have "pad3 i = pad3 j" by (metis tw)
  then show "i = j" by (metis nat_of_digits_pad3)
qed

lemma task_name_not_blank [simp]: "\<not> blank (task_name i l)"
  by (simp add: task_name_def blank_iff_all_space is_space_def)

lemma task_name_not_Nil [simp]: "task_name i l \<noteq> []"
  by (simp add: task_name_def)

section \<open>The builder invariant\<close>

definition numbered :: "physical_task list \<Rightarrow> bool" where
  "numbered ts \<longleftrightarrow> (\<forall>i < length ts. tk_Index (ts ! i) = Suc i \<and> (\<exists>l. tk_ID (ts ! i) = task_name (Suc i) l))"

definition edges_forward :: "ident list \<Rightarrow> task_edge list \<Rightarrow> bool" where
  "edges_forward ids es \<longleftrightarrow>
     (\<forall>e \<in> set es. \<exists>i j. i < j \<and> j < length ids \<and> te_FromTaskID e = ids ! i \<and> te_ToTaskID e = ids ! j)"

abbreviation task_ids :: "plan \<Rightarrow> ident list" where
  "task_ids p \<equiv> map tk_ID (pl_PhysicalTasks p)"

definition reuse_in :: "ident \<Rightarrow> physical_task \<Rightarrow> bool" where
  "reuse_in gid t \<longleftrightarrow> tk_Kind t = TaskReuseMaterialized \<and> tk_ReplayGroupID t = gid"

definition cost_by_kind :: "physical_task \<Rightarrow> bool" where
  "cost_by_kind t \<longleftrightarrow>
     co_WorkflowTasks (tk_Cost t) = (if tk_Kind t = TaskRunPath \<or> tk_Kind t = TaskSkip then 1 else 0) \<and>
     co_ReplayTasks (tk_Cost t) = (if tk_Kind t = TaskRunPathPrefix then 1 else 0) \<and>
     co_CaseTasks (tk_Cost t) = (if tk_Kind t = TaskRunCase then 1 else 0) \<and>
     co_SkippedTasks (tk_Cost t) = 0"

definition builder_ok :: "builder \<Rightarrow> bool" where
  "builder_ok b \<longleftrightarrow>
     (let p = b_plan b; ts = pl_PhysicalTasks p in
      numbered ts \<and> edges_forward (task_ids p) (pl_TaskEdges p) \<and>
      (\<forall>gid x. b_replayTaskByGroup b gid = Some x \<longrightarrow> x \<in> set (task_ids p)) \<and>
      (\<forall>gid. length (filter (reuse_in gid) ts) \<le> 1) \<and>
      (\<forall>t \<in> set ts. tk_Kind t = TaskReuseMaterialized \<longrightarrow> b_replayTaskByGroup b (tk_ReplayGroupID t) \<noteq> None) \<and>
      (\<forall>t \<in> set ts. cost_by_kind t))"

definition keys_ok :: "builder \<Rightarrow> bool" where
  "keys_ok b \<longleftrightarrow> (\<forall>k i. b_replayGroupByKey b k = Some i \<longrightarrow> i < length (pl_ReplayGroups (b_plan b)))"

lemma numbered_distinct: "numbered ts \<Longrightarrow> distinct (map tk_ID ts)"
proof (unfold distinct_conv_nth, intro allI impI)
  fix i j
  assume n: "numbered ts" and ij: "i < length (map tk_ID ts)" "j < length (map tk_ID ts)" "i \<noteq> j"
  have "\<exists>l. tk_ID (ts ! k) = task_name (Suc k) l" if "k < length ts" for k
    using n that by (simp add: numbered_def)
  then obtain l k where "tk_ID (ts ! i) = task_name (Suc i) l" "tk_ID (ts ! j) = task_name (Suc j) k"
    using ij by (metis length_map)
  then show "map tk_ID ts ! i \<noteq> map tk_ID ts ! j" using ij task_name_inj by fastforce
qed

lemma numbered_snoc:
  "numbered ts \<Longrightarrow> tk_Index t = Suc (length ts) \<Longrightarrow> tk_ID t = task_name (Suc (length ts)) l \<Longrightarrow> numbered (ts @ [t])"
  by (auto simp: numbered_def nth_append less_Suc_eq)

lemma edges_forward_append:
  assumes "edges_forward ids es"
  shows "edges_forward (ids @ xs) es"
  unfolding edges_forward_def
proof
  fix e assume "e \<in> set es"
  then obtain i j where "i < j" "j < length ids" "te_FromTaskID e = ids ! i" "te_ToTaskID e = ids ! j"
    using assms unfolding edges_forward_def by blast
  then show "\<exists>i j. i < j \<and> j < length (ids @ xs) \<and>
      te_FromTaskID e = (ids @ xs) ! i \<and> te_ToTaskID e = (ids @ xs) ! j"
    by (intro exI [of _ i] exI [of _ j]) (simp add: nth_append)
qed

lemma edges_forward_snoc:
  assumes "edges_forward ids es" "i < j" "j < length ids"
  shows "edges_forward ids (es @ [control_task_edge (ids ! i) (ids ! j) k])"
  using assms by (auto simp: edges_forward_def control_task_edge_def)

lemma append_task_plan [simp]:
  assumes "tk_ID t = []"
  shows "pl_PhysicalTasks (append_task t p) = pl_PhysicalTasks p @
     [t\<lparr>tk_Index := Suc (length (pl_PhysicalTasks p)),
        tk_ID := task_name (Suc (length (pl_PhysicalTasks p))) (first_non_empty [tk_Kind t, tk_Operation t]),
        tk_Operation := (if tk_Operation t = [] then tk_Kind t else tk_Operation t),
        tk_Status := (if tk_Status t = [] then TaskStatusPlanned else tk_Status t)\<rparr>]"
  using assms by (simp add: append_task_def Let_def)

lemma append_task_frame [simp]:
  "pl_TaskEdges (append_task t p) = pl_TaskEdges p"
  "pl_ReplayGroups (append_task t p) = pl_ReplayGroups p"
  by (simp_all add: append_task_def Let_def)

text \<open>The rest of the state a planning operation may touch freely.\<close>

lemma builder_ok_cong:
  assumes "builder_ok b" "pl_PhysicalTasks (b_plan b') = pl_PhysicalTasks (b_plan b)"
    "pl_TaskEdges (b_plan b') = pl_TaskEdges (b_plan b)"
    "b_replayTaskByGroup b' = b_replayTaskByGroup b"
  shows "builder_ok b'"
  using assms by (simp add: builder_ok_def Let_def)

lemma keys_ok_cong:
  assumes "keys_ok b" "pl_ReplayGroups (b_plan b') = pl_ReplayGroups (b_plan b)"
    "b_replayGroupByKey b' = b_replayGroupByKey b"
  shows "keys_ok b'"
  using assms by (simp add: keys_ok_def)

section \<open>Replay groups\<close>

lemma replay_group_id_not_blank [simp]: "\<not> blank (replay_group_id H n f t)"
proof -
  have "str_join sep (''replay'' # y # ys) = CHR ''r'' # tl (str_join sep (''replay'' # y # ys))" for sep y ys
    by simp
  then have "CHR ''r'' \<in> set (replay_group_id H n f t)"
    unfolding replay_group_id_def by (metis list.set_intros(1))
  moreover have "\<not> is_space (CHR ''r'')" by (simp add: is_space_def)
  ultimately show ?thesis unfolding blank_iff_all_space by blast
qed

definition groups_named :: "builder \<Rightarrow> bool" where
  "groups_named b \<longleftrightarrow> (\<forall>grp \<in> set (pl_ReplayGroups (b_plan b)). \<not> blank (rg_ID grp))"

lemma append_member_ID [simp]: "rg_ID (append_replay_group_member n grp) = rg_ID grp"
  by (simp add: append_replay_group_member_def Let_def)

lemma prepare_replay_group_frame:
  assumes "prepare_replay_group H n t b = (gid, reused, reusable, b')"
  shows "pl_PhysicalTasks (b_plan b') = pl_PhysicalTasks (b_plan b)"
    "pl_TaskEdges (b_plan b') = pl_TaskEdges (b_plan b)"
    "b_replayTaskByGroup b' = b_replayTaskByGroup b"
  using assms by (auto simp: prepare_replay_group_def Let_def split: if_splits option.splits)

lemma prepare_replay_group_groups:
  assumes "prepare_replay_group H n t b = (gid, reused, reusable, b')" "keys_ok b" "groups_named b"
  shows "keys_ok b' \<and> groups_named b' \<and>
     (gid = [] \<or> (\<not> blank gid \<and> gid \<in> rg_ID ` set (pl_ReplayGroups (b_plan b')))) \<and>
     (tk_Kind t = TaskReuseMaterialized \<longrightarrow> gid \<noteq> [])"
proof (cases "tk_Kind t \<noteq> TaskReuseMaterialized \<and> tk_Kind t \<noteq> TaskRunPathPrefix")
  case True
  with assms show ?thesis by (simp add: prepare_replay_group_def)
next
  case False
  let ?key = "replay_key n (validation_family_for_node n) t" and ?g0 = "pl_ReplayGroups (b_plan b)"
  define gs where "gs = (case b_replayGroupByKey b ?key of Some i \<Rightarrow> ?g0
     | None \<Rightarrow> ?g0 @ [new_replay_group H n (validation_family_for_node n) t])"
  define gi where "gi = (case b_replayGroupByKey b ?key of Some i \<Rightarrow> i | None \<Rightarrow> length ?g0)"
  have gi: "gi < length gs"
    using assms(2) by (auto simp: gi_def gs_def keys_ok_def split: option.splits)
  have named: "\<forall>grp \<in> set gs. \<not> blank (rg_ID grp)"
    using assms(3) by (auto simp: gs_def groups_named_def new_replay_group_def split: option.splits)
  have b': "pl_ReplayGroups (b_plan b') = gs[gi := append_replay_group_member n (gs ! gi)]"
    and gid: "gid = rg_ID (gs ! gi)"
    using assms(1) False
    by (auto simp: prepare_replay_group_def Let_def gs_def gi_def split: if_splits option.splits)
  have "gid \<in> rg_ID ` set (pl_ReplayGroups (b_plan b'))"
    unfolding b' gid using gi by (metis append_member_ID image_eqI set_update_memI)
  moreover have "groups_named b'"
    using named gi by (auto simp: groups_named_def b' dest!: set_update_subset_insert [THEN subsetD])
  moreover have "\<not> blank gid" using named gi gid by simp
  moreover have "keys_ok b'"
    using assms(1,2) False gi
    by (auto simp: prepare_replay_group_def Let_def keys_ok_def gs_def gi_def less_Suc_eq
        split: if_splits option.splits)
  ultimately show ?thesis by force
qed

lemma prepare_replay_group_reused:
  assumes "prepare_replay_group H n t b = (gid, reused, reusable, b')"
  shows "reused \<noteq> [] \<Longrightarrow> b_replayTaskByGroup b gid = Some reused"
    and "reusable \<Longrightarrow> reused = [] \<Longrightarrow> b_replayTaskByGroup b gid = None \<or> b_replayTaskByGroup b gid = Some []"
    and "tk_Kind t = TaskReuseMaterialized \<Longrightarrow> \<not> blank (tk_MaterializationID t) \<Longrightarrow> reusable"
  using assms by (auto simp: prepare_replay_group_def Let_def split: if_splits option.splits)

lemma prepare_replay_group_kind:
  assumes "prepare_replay_group H n t b = (gid, reused, reusable, b')" "tk_Kind t = TaskReuseMaterialized"
    "keys_ok b" "groups_named b"
  shows "gid \<noteq> []"
  using prepare_replay_group_groups [OF assms(1,3,4)] assms(2) by blast

lemma add_task_to_groups_Some:
  "gid \<in> rg_ID ` set gs \<Longrightarrow> \<exists>gs'. add_task_to_groups gid tid gs = Some gs'"
  by (induction gs) auto

lemma add_task_to_groups_map:
  "add_task_to_groups gid tid gs = Some gs' \<Longrightarrow> map rg_ID gs' = map rg_ID gs"
proof (induction gs arbitrary: gs')
  case (Cons grp gs)
  then show ?case by (auto split: if_splits)
qed simp

lemma add_replay_group_task_frame [simp]:
  "pl_PhysicalTasks (b_plan (add_replay_group_task gid tid b)) = pl_PhysicalTasks (b_plan b)"
  "pl_TaskEdges (b_plan (add_replay_group_task gid tid b)) = pl_TaskEdges (b_plan b)"
  "b_replayGroupByKey (add_replay_group_task gid tid b) = b_replayGroupByKey b"
  "map rg_ID (pl_ReplayGroups (b_plan (add_replay_group_task gid tid b))) = map rg_ID (pl_ReplayGroups (b_plan b))"
  by (auto simp: add_replay_group_task_def dest: add_task_to_groups_map split: option.splits)

lemma add_replay_group_task_groups:
  assumes "keys_ok b" "groups_named b"
  shows "keys_ok (add_replay_group_task gid tid b) \<and> groups_named (add_replay_group_task gid tid b)"
proof -
  let ?b = "add_replay_group_task gid tid b"
  have m: "map rg_ID (pl_ReplayGroups (b_plan ?b)) = map rg_ID (pl_ReplayGroups (b_plan b))" by simp
  then have "length (pl_ReplayGroups (b_plan ?b)) = length (pl_ReplayGroups (b_plan b))"
    and "rg_ID ` set (pl_ReplayGroups (b_plan ?b)) = rg_ID ` set (pl_ReplayGroups (b_plan b))"
    by (metis length_map, metis set_map)
  with assms show ?thesis by (auto simp: keys_ok_def groups_named_def) (metis (no_types) imageE imageI)
qed

lemma add_replay_group_task_byGroup:
  "b_replayTaskByGroup (add_replay_group_task gid tid b) g = Some x \<Longrightarrow>
     b_replayTaskByGroup b g = Some x \<or> x = tid"
  "b_replayTaskByGroup b g \<noteq> None \<Longrightarrow> b_replayTaskByGroup (add_replay_group_task gid tid b) g \<noteq> None"
  "\<not> blank gid \<Longrightarrow> \<not> blank tid \<Longrightarrow> gid \<in> rg_ID ` set (pl_ReplayGroups (b_plan b)) \<Longrightarrow>
     b_replayTaskByGroup (add_replay_group_task gid tid b) gid \<noteq> None"
  using add_task_to_groups_Some [of gid "pl_ReplayGroups (b_plan b)" tid]
  by (auto simp: add_replay_group_task_def split: option.splits if_splits)

section \<open>Adding tasks and edges\<close>

lemma builder_okD:
  assumes "builder_ok b"
  shows "numbered (pl_PhysicalTasks (b_plan b))"
    "edges_forward (task_ids (b_plan b)) (pl_TaskEdges (b_plan b))"
    "b_replayTaskByGroup b gid = Some x \<Longrightarrow> x \<in> set (task_ids (b_plan b))"
    "length (filter (reuse_in gid) (pl_PhysicalTasks (b_plan b))) \<le> 1"
    "t \<in> set (pl_PhysicalTasks (b_plan b)) \<Longrightarrow> tk_Kind t = TaskReuseMaterialized \<Longrightarrow>
       b_replayTaskByGroup b (tk_ReplayGroupID t) \<noteq> None"
    "t \<in> set (pl_PhysicalTasks (b_plan b)) \<Longrightarrow> cost_by_kind t"
  using assms by (simp_all add: builder_ok_def Let_def)

lemma builder_ok_names:
  assumes "builder_ok b" "x \<in> set (task_ids (b_plan b))"
  shows "\<not> blank x"
proof -
  obtain i where i: "i < length (pl_PhysicalTasks (b_plan b))" "x = tk_ID (pl_PhysicalTasks (b_plan b) ! i)"
    using assms(2) by (auto simp: in_set_conv_nth)
  then obtain l where "x = task_name (Suc i) l"
    using builder_okD(1) [OF assms(1)] by (auto simp: numbered_def)
  then show ?thesis by simp
qed

lemma append_task_ok:
  fixes t :: physical_task and b :: builder and gid :: ident
  defines "b2 \<equiv> b\<lparr>b_plan := append_task t (b_plan b)\<rparr>"
  defines "current \<equiv> tk_ID (last (pl_PhysicalTasks (b_plan b2)))"
  defines "b3 \<equiv> (if gid \<noteq> [] then add_replay_group_task gid current b2 else b2)"
  assumes ok: "builder_ok b" and t: "tk_ID t = []" "cost_by_kind t"
    and reuse: "tk_Kind t = TaskReuseMaterialized \<Longrightarrow> \<not> blank gid \<and> tk_ReplayGroupID t = gid \<and>
      gid \<in> rg_ID ` set (pl_ReplayGroups (b_plan b)) \<and> b_replayTaskByGroup b gid = None"
  shows "builder_ok b3 \<and> task_ids (b_plan b3) = task_ids (b_plan b) @ [current] \<and> \<not> blank current"
proof -
  let ?ts = "pl_PhysicalTasks (b_plan b)"
  define t' where "t' = t\<lparr>tk_Index := Suc (length ?ts),
      tk_ID := task_name (Suc (length ?ts)) (first_non_empty [tk_Kind t, tk_Operation t]),
      tk_Operation := (if tk_Operation t = [] then tk_Kind t else tk_Operation t),
      tk_Status := (if tk_Status t = [] then TaskStatusPlanned else tk_Status t)\<rparr>"
  have ts2: "pl_PhysicalTasks (b_plan b2) = ?ts @ [t']"
    using t by (simp add: b2_def t'_def del: first_non_empty.simps)
  have ts3: "pl_PhysicalTasks (b_plan b3) = ?ts @ [t']" by (simp add: b3_def ts2)
  have cur: "current = tk_ID t'" by (simp add: current_def ts2)
  have nb: "\<not> blank current" by (simp add: cur t'_def del: first_non_empty.simps)
  have kinds: "tk_Kind t' = tk_Kind t" "tk_ReplayGroupID t' = tk_ReplayGroupID t" "cost_by_kind t'"
    using t(2) by (simp_all add: t'_def cost_by_kind_def)
  have num: "numbered (?ts @ [t'])"
    using numbered_snoc [OF builder_okD(1) [OF ok], of t'] by (simp add: t'_def del: first_non_empty.simps)
  have edges: "edges_forward (task_ids (b_plan b3)) (pl_TaskEdges (b_plan b3))"
  proof -
    have "pl_TaskEdges (b_plan b3) = pl_TaskEdges (b_plan b)" by (simp add: b3_def b2_def)
    then show ?thesis using edges_forward_append [OF builder_okD(2) [OF ok]] by (simp add: ts3)
  qed
  have by2: "b_replayTaskByGroup b2 = b_replayTaskByGroup b" by (simp add: b2_def)
  have by3: "b_replayTaskByGroup b3 g = Some x \<Longrightarrow> b_replayTaskByGroup b g = Some x \<or> x = current" for g x
    using add_replay_group_task_byGroup(1) [of gid current b2 g x] by (auto simp: b3_def by2 split: if_splits)
  have byin: "x \<in> set (task_ids (b_plan b3))" if "b_replayTaskByGroup b3 g = Some x" for g x
    using by3 [OF that] builder_okD(3) [OF ok, of g x] by (auto simp: ts3 cur)
  have bykeep: "b_replayTaskByGroup b g \<noteq> None \<Longrightarrow> b_replayTaskByGroup b3 g \<noteq> None" for g
    using add_replay_group_task_byGroup(2) [of b2 g gid current] by (auto simp: b3_def by2)
  have once: "length (filter (reuse_in g) (?ts @ [t'])) \<le> 1" for g
  proof (cases "reuse_in g t'")
    case False
    then show ?thesis using builder_okD(4) [OF ok, of g] by simp
  next
    case True
    then have k: "tk_Kind t = TaskReuseMaterialized" "g = gid"
      using reuse kinds by (auto simp: reuse_in_def)
    then have none: "b_replayTaskByGroup b g = None" using reuse by simp
    have "\<not> reuse_in g u" if "u \<in> set ?ts" for u
      using builder_okD(5) [OF ok that] none by (auto simp: reuse_in_def)
    then show ?thesis by (simp add: filter_empty_conv)
  qed
  have reg: "b_replayTaskByGroup b3 (tk_ReplayGroupID u) \<noteq> None"
    if "u \<in> set (?ts @ [t'])" "tk_Kind u = TaskReuseMaterialized" for u
  proof (cases "u \<in> set ?ts")
    case True
    then show ?thesis using builder_okD(5) [OF ok True that(2)] bykeep by blast
  next
    case False
    with that have u: "u = t'" by simp
    then have r: "\<not> blank gid" "tk_ReplayGroupID t = gid" "gid \<in> rg_ID ` set (pl_ReplayGroups (b_plan b2))"
      using reuse that(2) kinds by (auto simp: b2_def)
    then have "b_replayTaskByGroup b3 gid \<noteq> None"
      using add_replay_group_task_byGroup(3) [OF r(1) nb r(3)] by (auto simp: b3_def)
    then show ?thesis using u r kinds by simp
  qed
  have "builder_ok b3"
    unfolding builder_ok_def Let_def ts3
    using num edges byin once reg builder_okD(6) [OF ok] kinds(3) by (auto simp: ts3)
  then show ?thesis using nb cur by (simp add: ts3)
qed

lemma builder_ok_add_edge:
  assumes "builder_ok b" "a \<in> set ids" "task_ids (b_plan b) = ids @ [c]"
  shows "builder_ok (b\<lparr>b_plan := (b_plan b)\<lparr>pl_TaskEdges := pl_TaskEdges (b_plan b) @ [control_task_edge a c k]\<rparr>\<rparr>)"
proof -
  obtain i where "i < length ids" "a = ids ! i" using assms(2) by (auto simp: in_set_conv_nth)
  then have "edges_forward (ids @ [c]) (pl_TaskEdges (b_plan b) @ [control_task_edge ((ids @ [c]) ! i) ((ids @ [c]) ! length ids) k])"
    using builder_okD(2) [OF assms(1)] assms(3) by (intro edges_forward_snoc) auto
  moreover have "(ids @ [c]) ! i = a" "(ids @ [c]) ! length ids = c"
    using \<open>i < length ids\<close> \<open>a = ids ! i\<close> by (simp_all add: nth_append)
  ultimately show ?thesis using assms(1,3) by (simp add: builder_ok_def Let_def)
qed

section \<open>Planning one case\<close>

definition plain_operation :: "physical_operation \<Rightarrow> bool" where
  "plain_operation oper \<longleftrightarrow> op_Kind oper = OperationRunPathPrefix \<or> op_Kind oper = OperationRunCase"

lemma explain_case_plain: "explain_case g opts = Inr ex \<Longrightarrow> \<forall>oper \<in> set (ex_Operations ex). plain_operation oper"
  by (auto simp: explain_case_def explain_validation_node_def explain_fixture_backed_case_node_def Let_def
      plain_operation_def anchor_prefix_operation_def run_case_operation_def materialized_prefix_operation_def
      split: option.splits if_splits prod.splits)

lemma task_from_operation_fields [simp]:
  "tk_ID (task_from_operation g oper) = []"
  "tk_Kind (task_from_operation g oper) = operation_task_kind oper"
  "tk_MaterializationID (task_from_operation g oper) = op_MaterializationID oper"
  "tk_Cost (task_from_operation g oper) = operation_task_cost g oper (operation_task_kind oper)"
  by (simp_all add: task_from_operation_def Let_def blank_task_def)

lemma plain_kind:
  assumes "plain_operation oper"
  shows "operation_task_kind oper = TaskReuseMaterialized \<and> \<not> blank (op_MaterializationID oper) \<or>
     operation_task_kind oper = TaskRunPathPrefix \<or> operation_task_kind oper = TaskRunCase"
  using assms by (auto simp: operation_task_kind_def plain_operation_def kind_defs
      OperationRunPathPrefix_def OperationRunCase_def)

lemma operation_cost_by_kind:
  assumes "tk_Cost t = operation_task_cost g oper (tk_Kind t)"
    "tk_Kind t = TaskReuseMaterialized \<or> tk_Kind t = TaskRunPathPrefix \<or> tk_Kind t = TaskRunCase"
  shows "cost_by_kind t"
  using assms(2) by (elim disjE)
    (simp_all add: cost_by_kind_def assms(1) operation_task_cost_def zero_cost_def kind_defs)

lemma task_from_operation_facts:
  fixes g :: graph and oper :: physical_operation
  assumes "plain_operation oper"
  defines "t \<equiv> task_from_operation g oper"
  shows "tk_ID t = []" "cost_by_kind t"
    "tk_Kind t = TaskReuseMaterialized \<Longrightarrow> \<not> blank (tk_MaterializationID t)"
    "tk_Kind t = TaskReuseMaterialized \<or> tk_Kind t = TaskRunPathPrefix \<or> tk_Kind t = TaskRunCase"
proof -
  note k = plain_kind [OF assms(1)]
  show "tk_ID t = []" by (simp add: t_def)
  show "tk_Kind t = TaskReuseMaterialized \<Longrightarrow> \<not> blank (tk_MaterializationID t)"
    using k by (auto simp: t_def kind_defs)
  show kinds: "tk_Kind t = TaskReuseMaterialized \<or> tk_Kind t = TaskRunPathPrefix \<or> tk_Kind t = TaskRunCase"
    using k by (auto simp: t_def)
  show "cost_by_kind t" by (rule operation_cost_by_kind [OF _ kinds]) (simp add: t_def)
qed

lemma tag_task_fields [simp]:
  "tk_ID (tag_task gid n t) = tk_ID t" "tk_Kind (tag_task gid n t) = tk_Kind t"
  "tk_Index (tag_task gid n t) = tk_Index t" "tk_ReplayGroupID (tag_task gid n t) = gid"
  "cost_by_kind (tag_task gid n t) = cost_by_kind t"
  by (simp_all add: tag_task_def cost_by_kind_def)

definition case_state_ok :: "case_tasks \<times> builder \<Rightarrow> bool" where
  "case_state_ok acc \<longleftrightarrow> builder_ok (snd acc) \<and> keys_ok (snd acc) \<and> groups_named (snd acc) \<and>
     (ct_previous (fst acc) = [] \<or> ct_previous (fst acc) \<in> set (task_ids (b_plan (snd acc)))) \<and>
     (ct_group (fst acc) = [] \<or> \<not> blank (ct_group (fst acc)))"

lemma append_case_operation_ok:
  assumes ok: "case_state_ok acc" and oper: "plain_operation oper"
  shows "case_state_ok (append_case_operation H g n oper acc)"
proof -
  obtain ct b where acc: "acc = (ct, b)" by fastforce
  define t0 where "t0 = task_from_operation g oper"
  note t0 = task_from_operation_facts [OF oper, of g, folded t0_def]
  obtain gid reused reusable b1 where prep: "prepare_replay_group H n t0 b = (gid, reused, reusable, b1)"
    by (metis prod_cases4)
  have b: "builder_ok b" "keys_ok b" "groups_named b"
    using ok acc by (simp_all add: case_state_ok_def)
  note frame = prepare_replay_group_frame [OF prep]
  note groups = prepare_replay_group_groups [OF prep b(2,3)]
  note reuse = prepare_replay_group_reused [OF prep]
  have b1: "builder_ok b1" using builder_ok_cong [OF b(1) frame] .
  define t where "t = (if gid \<noteq> [] then tag_task gid n t0 else t0)"
  define ct1 where "ct1 = (if gid \<noteq> [] then ct\<lparr>ct_group := gid\<rparr> else ct)"
  have prev: "ct_previous ct = [] \<or> ct_previous ct \<in> set (task_ids (b_plan b1))"
    and grp: "ct_group ct1 = [] \<or> \<not> blank (ct_group ct1)" and prev1: "ct_previous ct1 = ct_previous ct"
    using ok acc frame groups by (auto simp: case_state_ok_def ct1_def)
  have step: "append_case_operation H g n oper (ct, b) =
      (if reusable \<and> reused \<noteq> [] then (ct1\<lparr>ct_previous := reused\<rparr>, b1)
       else (let b2 = b1\<lparr>b_plan := append_task t (b_plan b1)\<rparr>;
             current = tk_ID (last (pl_PhysicalTasks (b_plan b2)));
             b3 = (if gid \<noteq> [] then add_replay_group_task gid current b2 else b2);
             ct2 = (if tk_Kind t = TaskReuseMaterialized
               then ct1\<lparr>ct_materialized := ct_materialized ct1 + 1\<rparr> else ct1);
             edges = pl_TaskEdges (b_plan b3);
             b4 = (if ct_previous ct2 \<noteq> [] then b3\<lparr>b_plan := (b_plan b3)\<lparr>pl_TaskEdges := edges @
               [control_task_edge (ct_previous ct2) current (length edges + 1)]\<rparr>\<rparr> else b3)
             in (ct2\<lparr>ct_previous := current\<rparr>, b4)))"
    by (simp add: append_case_operation_def prep [unfolded t0_def] t_def ct1_def t0_def Let_def)
  show ?thesis
  proof (cases "reusable \<and> reused \<noteq> []")
    case True
    then have "reused \<in> set (task_ids (b_plan b1))"
      using reuse(1) builder_okD(3) [OF b(1)] frame(1) by auto
    then show ?thesis
      using True b1 groups grp by (simp add: acc step case_state_ok_def)
  next
    case False
    define b2 where "b2 = b1\<lparr>b_plan := append_task t (b_plan b1)\<rparr>"
    define current where "current = tk_ID (last (pl_PhysicalTasks (b_plan b2)))"
    define b3 where "b3 = (if gid \<noteq> [] then add_replay_group_task gid current b2 else b2)"
    have re: "\<not> blank gid \<and> tk_ReplayGroupID t = gid \<and> gid \<in> rg_ID ` set (pl_ReplayGroups (b_plan b1)) \<and>
        b_replayTaskByGroup b1 gid = None" if "tk_Kind t = TaskReuseMaterialized"
    proof -
      have k: "tk_Kind t0 = TaskReuseMaterialized" using that by (auto simp: t_def split: if_splits)
      have gid: "gid \<noteq> []" by (rule prepare_replay_group_kind [OF prep k b(2,3)])
      have "b_replayTaskByGroup b gid = None \<or> b_replayTaskByGroup b gid = Some []"
        using reuse(2,3) False t0(3) [OF k] k by blast
      moreover have "b_replayTaskByGroup b gid \<noteq> Some []"
        using builder_okD(3) [OF b(1), of gid "[]"] builder_ok_names [OF b(1), of "[]"] by auto
      ultimately show ?thesis using gid groups frame by (auto simp: t_def)
    qed
    have t: "tk_ID t = []" "cost_by_kind t" using t0 by (simp_all add: t_def)
    have b3: "builder_ok b3" "task_ids (b_plan b3) = task_ids (b_plan b1) @ [current]" "\<not> blank current"
      using append_task_ok [OF b1 t, of gid] re unfolding b3_def b2_def current_def by blast+
    have "keys_ok b2 \<and> groups_named b2"
      using groups by (auto simp: b2_def keys_ok_def groups_named_def)
    then have kg: "keys_ok b3" "groups_named b3"
      using add_replay_group_task_groups by (auto simp: b3_def)
    define b4 where "b4 = (if ct_previous ct \<noteq> [] then b3\<lparr>b_plan := (b_plan b3)\<lparr>pl_TaskEdges :=
      pl_TaskEdges (b_plan b3) @ [control_task_edge (ct_previous ct) current (length (pl_TaskEdges (b_plan b3)) + 1)]\<rparr>\<rparr> else b3)"
    have b4: "builder_ok b4"
      using builder_ok_add_edge [OF b3(1) _ b3(2)] prev b3(1) by (auto simp: b4_def)
    have b4k: "keys_ok b4" "groups_named b4" "task_ids (b_plan b4) = task_ids (b_plan b3)"
      using kg by (auto simp: b4_def keys_ok_def groups_named_def)
    have out: "append_case_operation H g n oper (ct, b) =
        ((if tk_Kind t = TaskReuseMaterialized then ct1\<lparr>ct_materialized := ct_materialized ct1 + 1\<rparr> else ct1)
           \<lparr>ct_previous := current\<rparr>, b4)"
      unfolding step if_not_P [OF False] Let_def b4_def b3_def b2_def current_def by (simp add: prev1)
    have "current \<in> set (task_ids (b_plan b4))" unfolding b4k(3) b3(2) by simp
    then show ?thesis
      unfolding acc out case_state_ok_def using b4 b4k(1,2) grp by simp
  qed
qed

lemma append_case_tasks_ok:
  assumes "builder_ok b" "keys_ok b" "groups_named b" "\<forall>oper \<in> set ops. plain_operation oper"
  shows "case_state_ok (append_case_tasks H g n ops b)"
proof -
  have "case_state_ok acc \<Longrightarrow> \<forall>oper \<in> set ops. plain_operation oper \<Longrightarrow>
      case_state_ok (fold (append_case_operation H g n) ops acc)" for acc
  proof (induction ops arbitrary: acc)
    case (Cons oper ops)
    have "case_state_ok (append_case_operation H g n oper acc)"
      using Cons.prems by (intro append_case_operation_ok) simp_all
    then show ?case using Cons.IH Cons.prems(2) by simp
  qed simp
  with assms show ?thesis by (simp add: append_case_tasks_def case_state_ok_def)
qed

definition tasks_kept :: "builder \<Rightarrow> builder \<Rightarrow> bool" where
  "tasks_kept b b' \<longleftrightarrow> task_ids (b_plan b') = task_ids (b_plan b) \<and>
     map tk_Kind (pl_PhysicalTasks (b_plan b')) = map tk_Kind (pl_PhysicalTasks (b_plan b))"

lemma tasks_kept_length: "tasks_kept b b' \<Longrightarrow> length (pl_PhysicalTasks (b_plan b')) = length (pl_PhysicalTasks (b_plan b))"
  unfolding tasks_kept_def by (metis length_map)

definition state_ok :: "builder \<Rightarrow> bool" where
  "state_ok b \<longleftrightarrow> builder_ok b \<and> keys_ok b \<and> groups_named b"

lemma add_replay_group_task_ok:
  assumes "state_ok b" "tid \<in> set (task_ids (b_plan b))"
  shows "state_ok (add_replay_group_task gid tid b)"
proof -
  let ?b = "add_replay_group_task gid tid b"
  have "builder_ok ?b"
    unfolding builder_ok_def Let_def add_replay_group_task_frame
  proof (intro conjI allI impI ballI)
    fix g x assume "b_replayTaskByGroup ?b g = Some x"
    then show "x \<in> set (task_ids (b_plan b))"
      using add_replay_group_task_byGroup(1) builder_okD(3) assms unfolding state_ok_def by metis
  next
    fix t assume "t \<in> set (pl_PhysicalTasks (b_plan b))" "tk_Kind t = TaskReuseMaterialized"
    then show "b_replayTaskByGroup ?b (tk_ReplayGroupID t) \<noteq> None"
      using add_replay_group_task_byGroup(2) builder_okD(5) assms unfolding state_ok_def by metis
  qed (use assms in \<open>auto simp: state_ok_def builder_ok_def Let_def\<close>)
  then show ?thesis using assms add_replay_group_task_groups by (simp add: state_ok_def)
qed

lemma numbered_update:
  assumes "numbered ts" "tk_ID t = tk_ID (ts ! i)" "tk_Index t = tk_Index (ts ! i)"
  shows "numbered (ts[i := t])"
  unfolding numbered_def
proof (intro allI impI)
  fix k assume k: "k < length (ts[i := t])"
  show "tk_Index (ts[i := t] ! k) = Suc k \<and> (\<exists>l. tk_ID (ts[i := t] ! k) = task_name (Suc k) l)"
    using assms k by (cases "k = i") (simp_all add: numbered_def)
qed

lemma filter_update_same:
  assumes "i < length ts" "\<not> P (ts ! i)" "\<not> P t"
  shows "filter P (ts[i := t]) = filter P ts"
proof -
  have "filter P (take i ts @ t # drop (Suc i) ts) = filter P (take i ts @ ts ! i # drop (Suc i) ts)"
    using assms(2,3) by simp
  then show ?thesis using assms(1) by (simp add: upd_conv_take_nth_drop id_take_nth_drop [symmetric])
qed

lemma tag_case_task_ok:
  assumes ok: "state_ok b" and i: "i < length (pl_PhysicalTasks (b_plan b))"
  shows "state_ok (tag_case_task n gid i b) \<and> tasks_kept b (tag_case_task n gid i b)"
proof -
  let ?ts = "pl_PhysicalTasks (b_plan b)"
  show ?thesis
  proof (cases "tk_Kind (?ts ! i) \<noteq> TaskRunCase \<or> tk_ReplayGroupID (?ts ! i) \<noteq> []")
    case True
    then show ?thesis using ok by (auto simp: tag_case_task_def Let_def tasks_kept_def)
  next
    case False
    define u where "u = tag_task gid n (?ts ! i)"
    define b1 where "b1 = b\<lparr>b_plan := (b_plan b)\<lparr>pl_PhysicalTasks := ?ts[i := u]\<rparr>\<rparr>"
    have bo: "builder_ok b" using ok by (simp add: state_ok_def)
    have kind: "tk_Kind (?ts ! i) = TaskRunCase" "tk_Kind u = TaskRunCase" using False by (simp_all add: u_def)
    then have nr: "tk_Kind u \<noteq> TaskReuseMaterialized" "tk_Kind (?ts ! i) \<noteq> TaskReuseMaterialized"
      by (simp_all add: kind_defs)
    have ids: "map tk_ID (?ts[i := u]) = map tk_ID ?ts" "map tk_Kind (?ts[i := u]) = map tk_Kind ?ts"
      using i by (simp_all add: map_update u_def list_update_same_conv)
    have b1_fields: "pl_PhysicalTasks (b_plan b1) = ?ts[i := u]"
      "pl_TaskEdges (b_plan b1) = pl_TaskEdges (b_plan b)"
      "b_replayTaskByGroup b1 = b_replayTaskByGroup b" by (simp_all add: b1_def)
    have "builder_ok b1"
      unfolding builder_ok_def Let_def b1_fields ids
    proof (intro conjI allI impI ballI)
      show "numbered (?ts[i := u])" using builder_okD(1) [OF bo] by (intro numbered_update) (simp_all add: u_def)
      show "edges_forward (task_ids (b_plan b)) (pl_TaskEdges (b_plan b))" by (rule builder_okD(2) [OF bo])
      fix g
      have "filter (reuse_in g) (?ts[i := u]) = filter (reuse_in g) ?ts"
        using i nr by (intro filter_update_same) (simp_all add: reuse_in_def)
      then show "length (filter (reuse_in g) (?ts[i := u])) \<le> 1" using builder_okD(4) [OF bo] by metis
      fix x assume "b_replayTaskByGroup b g = Some x"
      then show "x \<in> set (task_ids (b_plan b))" by (rule builder_okD(3) [OF bo])
    next
      fix t assume t: "t \<in> set (?ts[i := u])"
      then have "t = u \<or> t \<in> set ?ts" by (meson insertE set_update_subset_insert subsetD)
      moreover have "cost_by_kind u" using builder_okD(6) [OF bo] i by (simp add: u_def)
      ultimately show "cost_by_kind t" using builder_okD(6) [OF bo] by blast
      assume "tk_Kind t = TaskReuseMaterialized"
      with \<open>t = u \<or> t \<in> set ?ts\<close> nr have "t \<in> set ?ts" by auto
      then show "b_replayTaskByGroup b (tk_ReplayGroupID t) \<noteq> None"
        using \<open>tk_Kind t = TaskReuseMaterialized\<close> by (rule builder_okD(5) [OF bo])
    qed
    then have "state_ok b1" using ok by (simp add: state_ok_def keys_ok_def groups_named_def b1_def)
    moreover have "tk_ID (?ts ! i) \<in> set (task_ids (b_plan b1))" using i by (simp add: b1_def ids)
    ultimately have "state_ok (add_replay_group_task gid (tk_ID (?ts ! i)) b1)"
      by (rule add_replay_group_task_ok)
    moreover have "tag_case_task n gid i b = add_replay_group_task gid (tk_ID (?ts ! i)) b1"
      using False by (auto simp: tag_case_task_def Let_def b1_def u_def)
    ultimately show ?thesis by (simp add: tasks_kept_def b1_def ids)
  qed
qed

lemma tag_case_tasks_ok:
  assumes "state_ok b"
  shows "state_ok (tag_case_tasks n start gid b) \<and> tasks_kept b (tag_case_tasks n start gid b)"
proof -
  have "state_ok b' \<Longrightarrow> tasks_kept b b' \<Longrightarrow> \<forall>i \<in> set js. i < length (pl_PhysicalTasks (b_plan b)) \<Longrightarrow>
      state_ok (fold (tag_case_task n gid) js b') \<and> tasks_kept b (fold (tag_case_task n gid) js b')" for js b'
  proof (induction js arbitrary: b')
    case (Cons i js)
    have "i < length (pl_PhysicalTasks (b_plan b'))"
      using Cons.prems(2,3) tasks_kept_length by fastforce
    then have "state_ok (tag_case_task n gid i b') \<and> tasks_kept b' (tag_case_task n gid i b')"
      by (rule tag_case_task_ok [OF Cons.prems(1)])
    then show ?case using Cons.IH [of "tag_case_task n gid i b'"] Cons.prems(2,3) by (auto simp: tasks_kept_def)
  qed simp
  from this [of b "[start ..< length (pl_PhysicalTasks (b_plan b))]"] assms show ?thesis
    by (auto simp: tag_case_tasks_def tasks_kept_def)
qed

lemma state_ok_cong:
  assumes "state_ok b" "pl_PhysicalTasks (b_plan b') = pl_PhysicalTasks (b_plan b)"
    "pl_TaskEdges (b_plan b') = pl_TaskEdges (b_plan b)"
    "pl_ReplayGroups (b_plan b') = pl_ReplayGroups (b_plan b)"
    "b_replayTaskByGroup b' = b_replayTaskByGroup b" "b_replayGroupByKey b' = b_replayGroupByKey b"
  shows "state_ok b'"
  using assms builder_ok_cong [of b b'] keys_ok_cong [of b b'] by (simp add: state_ok_def groups_named_def)

lemma append_case_rule_traces_frame [simp]:
  "pl_PhysicalTasks (append_case_rule_traces n ex start m p) = pl_PhysicalTasks p"
  "pl_TaskEdges (append_case_rule_traces n ex start m p) = pl_TaskEdges p"
  "pl_ReplayGroups (append_case_rule_traces n ex start m p) = pl_ReplayGroups p"
  "pl_Cost (append_case_rule_traces n ex start m p) = pl_Cost p"
  by (simp_all add: append_case_rule_traces_def)

section \<open>Planning a scope\<close>

lemma plan_case_node_InrE:
  assumes "plan_case_node H g n b = Inr b'"
  obtains ex p1 ct b1 where
    "explain_case g \<lparr>eo_CaseID = nd_CaseID n, eo_NodeID = nd_ID n\<rparr> = Inr ex"
    "p1 = (b_plan b)\<lparr>pl_TargetNodeID := first_non_empty [pl_TargetNodeID (b_plan b), ex_TargetNodeID ex],
     pl_TargetCaseID := first_non_empty [pl_TargetCaseID (b_plan b), ex_TargetCaseID ex],
     pl_CandidatePlans := pl_CandidatePlans (b_plan b) @ map (case_candidate n ex) (ex_CandidatePaths ex),
     pl_RejectedPlans := pl_RejectedPlans (b_plan b) @ map (case_rejection n) (ex_RejectedReasons ex)\<rparr>"
    "append_case_tasks H g n (ex_Operations ex) (b\<lparr>b_plan := p1\<rparr>) = (ct, b1)"
    "b' = (let b2 = tag_case_tasks n (length (pl_PhysicalTasks p1)) (ct_group ct) b1;
      p3 = append_case_rule_traces n ex (length (pl_PhysicalTasks p1)) (ct_materialized ct) (b_plan b2)
      in b2\<lparr>b_plan := p3\<lparr>pl_Operations := pl_Operations p3 @ convert_operations g (ex_Operations ex)\<rparr>\<rparr>)"
proof -
  obtain ex where ex: "explain_case g \<lparr>eo_CaseID = nd_CaseID n, eo_NodeID = nd_ID n\<rparr> = Inr ex"
    using assms by (auto simp: plan_case_node_def split: sum.splits)
  define p1 where "p1 = (b_plan b)\<lparr>pl_TargetNodeID := first_non_empty [pl_TargetNodeID (b_plan b), ex_TargetNodeID ex],
     pl_TargetCaseID := first_non_empty [pl_TargetCaseID (b_plan b), ex_TargetCaseID ex],
     pl_CandidatePlans := pl_CandidatePlans (b_plan b) @ map (case_candidate n ex) (ex_CandidatePaths ex),
     pl_RejectedPlans := pl_RejectedPlans (b_plan b) @ map (case_rejection n) (ex_RejectedReasons ex)\<rparr>"
  obtain ct b1 where tasks: "append_case_tasks H g n (ex_Operations ex) (b\<lparr>b_plan := p1\<rparr>) = (ct, b1)"
    by fastforce
  show ?thesis
    by (rule that [OF ex p1_def tasks]) (use assms tasks in \<open>simp add: plan_case_node_def ex p1_def Let_def\<close>)
qed

lemma plan_case_node_ok:
  assumes ok: "state_ok b" and plan: "plan_case_node H g n b = Inr b'"
  shows "state_ok b'"
  using plan
proof (cases rule: plan_case_node_InrE)
  case (1 ex p1 ct b1)
  have "state_ok (b\<lparr>b_plan := p1\<rparr>)" by (rule state_ok_cong [OF ok]) (simp_all add: 1(2))
  then have "case_state_ok (append_case_tasks H g n (ex_Operations ex) (b\<lparr>b_plan := p1\<rparr>))"
    using explain_case_plain [OF 1(1)] by (intro append_case_tasks_ok) (simp_all add: state_ok_def)
  then have "state_ok b1" by (simp add: 1(3) case_state_ok_def state_ok_def)
  then have b2: "state_ok (tag_case_tasks n (length (pl_PhysicalTasks p1)) (ct_group ct) b1)"
    using tag_case_tasks_ok by blast
  show ?thesis by (rule state_ok_cong [OF b2]) (simp_all add: 1(4) Let_def)
qed

lemma plan_case_nodes_ok:
  "state_ok (snd acc) \<Longrightarrow> state_ok (snd (plan_case_nodes H g q ns acc))"
proof (induction ns arbitrary: acc)
  case (Cons n ns)
  obtain m b where acc: "acc = (m, b)" by fastforce
  have reject: "state_ok (b\<lparr>b_plan := (b_plan b)\<lparr>pl_RejectedPlans := r\<rparr>\<rparr>)" for r
    using Cons.prems by (rule state_ok_cong) (simp_all add: acc)
  show ?case
  proof (cases "plan_case_node H g n b")
    case (Inl e)
    then show ?thesis using Cons.IH [of "(m, b)"] Cons.IH [of "(m + 1, _)"] Cons.prems reject
      by (simp add: acc)
  next
    case (Inr b')
    then have "state_ok b'" using plan_case_node_ok Cons.prems by (simp add: acc)
    with Inr show ?thesis using Cons.IH [of "(m, b)"] Cons.IH [of "(m + 1, b')"] Cons.prems by (simp add: acc)
  qed
qed simp

lemma workflow_task_facts:
  "tk_ID (workflow_task g p) = []" "cost_by_kind (workflow_task g p)"
  "tk_Kind (workflow_task g p) = (if path_steps g (pa_ID p) = [] then TaskSkip else TaskRunPath)"
  by (auto simp: workflow_task_def Let_def blank_task_def cost_by_kind_def zero_cost_def kind_defs)

lemma plan_workflow_path_ok:
  assumes "state_ok b"
  shows "state_ok (b\<lparr>b_plan := plan_workflow_path g p (b_plan b)\<rparr>)"
proof -
  define b1 where "b1 = b\<lparr>b_plan := (b_plan b)\<lparr>pl_CandidatePlans := pl_CandidatePlans (b_plan b) @ [workflow_candidate g p]\<rparr>\<rparr>"
  have b1: "state_ok b1" by (rule state_ok_cong [OF assms]) (simp_all add: b1_def)
  have "tk_Kind (workflow_task g p) \<noteq> TaskReuseMaterialized"
    by (simp add: workflow_task_facts kind_defs)
  then have "builder_ok (b1\<lparr>b_plan := append_task (workflow_task g p) (b_plan b1)\<rparr>)"
    using append_task_ok [of b1 "workflow_task g p" "[]"] b1 workflow_task_facts(1,2)
    by (simp add: state_ok_def)
  moreover have "b\<lparr>b_plan := plan_workflow_path g p (b_plan b)\<rparr> = b1\<lparr>b_plan := append_task (workflow_task g p) (b_plan b1)\<rparr>"
    by (simp add: plan_workflow_path_def b1_def)
  ultimately show ?thesis using b1 by (simp add: state_ok_def keys_ok_def groups_named_def)
qed

lemma plan_workflow_paths_ok:
  "state_ok (b\<lparr>b_plan := pl\<rparr>) \<Longrightarrow> state_ok (b\<lparr>b_plan := snd (plan_workflow_paths g q ps (m, pl))\<rparr>)"
proof (induction ps arbitrary: m pl)
  case (Cons p ps)
  then show ?case using plan_workflow_path_ok [OF Cons.prems, of g p] by simp
qed simp

lemma plan_workflow_scope_InrE:
  assumes "plan_workflow_scope g q b = Inr b'"
  obtains pl where "b' = b\<lparr>b_plan := snd (plan_workflow_paths g q (gr_Paths g) (0, pl))\<rparr>"
    "pl = (b_plan b)\<lparr>pl_LogicalPlan := pl_LogicalPlan (b_plan b) @ [scan_workflows_op g q],
       pl_RulesApplied := pl_RulesApplied (b_plan b) @ [simple_rule ''select_workflow_paths''
         ''plan each mapped workflow path as an executable physical task'' []]\<rparr>"
  using assms by (auto simp: plan_workflow_scope_def Let_def split: if_splits prod.splits)

lemma plan_workflow_scope_ok:
  assumes "state_ok b" "plan_workflow_scope g q b = Inr b'"
  shows "state_ok b'"
  using assms(2)
proof (cases rule: plan_workflow_scope_InrE)
  case (1 pl)
  have "state_ok (b\<lparr>b_plan := pl\<rparr>)" by (rule state_ok_cong [OF assms(1)]) (simp_all add: 1(2))
  then show ?thesis unfolding 1(1) by (rule plan_workflow_paths_ok)
qed

lemma plan_case_scope_ok:
  assumes "state_ok b" "plan_case_scope H g q b = Inr b'"
  shows "state_ok b'"
proof -
  define b1 where "b1 = b\<lparr>b_plan := (b_plan b)\<lparr>pl_LogicalPlan := pl_LogicalPlan (b_plan b) @ [scan_cases_op q]\<rparr>\<rparr>"
  have "state_ok b1" by (rule state_ok_cong [OF assms(1)]) (simp_all add: b1_def)
  then have "state_ok (snd (plan_case_nodes H g q (gr_Nodes g) (0, b1)))" by (intro plan_case_nodes_ok) simp
  moreover have "b' = snd (plan_case_nodes H g q (gr_Nodes g) (0, b1))"
    using assms(2) by (auto simp: plan_case_scope_def Let_def b1_def [symmetric] split: if_splits prod.splits)
  ultimately show ?thesis by simp
qed

lemma plan_scope_ok:
  assumes ok: "state_ok b" and plan: "plan_scope H g q b = Inr b'"
  shows "state_ok b'"
proof -
  have target: "state_ok b'" if "plan_target_case H g q b = Inr b'"
  proof -
    from that obtain n where n: "plan_case_node H g n (b\<lparr>b_plan := (b_plan b)\<lparr>pl_TargetNodeID := nd_ID n,
        pl_TargetCaseID := nd_CaseID n, pl_RequiredProperties := json_object (nd_RequiredPropertyJSON n),
        pl_ProvidedProperties := json_object (nd_ProvidedPropertyJSON n)\<rparr>\<rparr>) = Inr b'"
      by (auto simp: plan_target_case_def split: option.splits sum.splits)
    show ?thesis by (rule plan_case_node_ok [OF state_ok_cong [OF ok] n]) simp_all
  qed
  show ?thesis
    using plan ok
    by (auto simp: plan_scope_def split: if_splits sum.splits
        dest: plan_workflow_scope_ok [rotated] plan_case_scope_ok [rotated] target)
qed

lemma explain_state:
  assumes "explain H g q = Inr p"
  obtains b where "state_ok b" "p = finish_plan (normalize_query g q) (b_plan b)"
    "plan_scope H g (normalize_query g q) \<lparr>b_plan = base_plan H g (normalize_query g q),
       b_replayGroupByKey = Map.empty, b_replayTaskByGroup = Map.empty\<rparr> = Inr b"
proof -
  obtain b where b: "plan_scope H g (normalize_query g q) \<lparr>b_plan = base_plan H g (normalize_query g q),
       b_replayGroupByKey = Map.empty, b_replayTaskByGroup = Map.empty\<rparr> = Inr b"
    "p = finish_plan (normalize_query g q) (b_plan b)"
    using assms by (auto simp: explain_def Let_def split: if_splits option.splits sum.splits)
  have "state_ok \<lparr>b_plan = base_plan H g (normalize_query g q),
       b_replayGroupByKey = Map.empty, b_replayTaskByGroup = Map.empty\<rparr>"
    by (simp add: state_ok_def builder_ok_def keys_ok_def groups_named_def base_plan_def numbered_def edges_forward_def)
  then have "state_ok b" using plan_scope_ok b(1) by blast
  with b show ?thesis using that by blast
qed

lemma finish_plan_frame [simp]:
  "pl_PhysicalTasks (finish_plan q p) = pl_PhysicalTasks p"
  "pl_TaskEdges (finish_plan q p) = pl_TaskEdges p"
  "pl_ReplayGroups (finish_plan q p) = pl_ReplayGroups p"
  by (simp_all add: finish_plan_def Let_def)

section \<open>Counting tasks\<close>

abbreviation kind_count :: "string \<Rightarrow> physical_task list \<Rightarrow> nat" where
  "kind_count k ts \<equiv> length (filter (\<lambda>t. tk_Kind t = k) ts)"

lemma fold_add_task_cost:
  assumes "\<forall>t \<in> set ts. cost_by_kind t"
  shows "co_WorkflowTasks (fold add_task_cost ts c) = co_WorkflowTasks c + kind_count TaskRunPath ts + kind_count TaskSkip ts"
    "co_ReplayTasks (fold add_task_cost ts c) = co_ReplayTasks c + kind_count TaskRunPathPrefix ts"
    "co_CaseTasks (fold add_task_cost ts c) = co_CaseTasks c + kind_count TaskRunCase ts"
    "co_SkippedTasks (fold add_task_cost ts c) = co_SkippedTasks c + kind_count TaskSkip ts"
    "co_EstimatedTasks (fold add_task_cost ts c) = co_EstimatedTasks c + length ts"
    "co_TotalSteps (fold add_task_cost ts c) = co_TotalSteps c + (\<Sum>t\<leftarrow>ts. co_TotalSteps (tk_Cost t))"
  using assms by (induction ts arbitrary: c) (auto simp: add_task_cost_def cost_by_kind_def kind_defs)

lemma append_task_Cost [simp]: "pl_Cost (append_task t p) = pl_Cost p"
  by (simp add: append_task_def Let_def)

lemma prepare_replay_group_Cost:
  "prepare_replay_group H n t b = (gid, reused, reusable, b') \<Longrightarrow> pl_Cost (b_plan b') = pl_Cost (b_plan b)"
  by (auto simp: prepare_replay_group_def Let_def split: if_splits option.splits)

lemma add_replay_group_task_Cost [simp]:
  "pl_Cost (b_plan (add_replay_group_task gid tid b)) = pl_Cost (b_plan b)"
  by (auto simp: add_replay_group_task_def split: option.splits)

lemma append_case_operation_Cost [simp]:
  "pl_Cost (b_plan (snd (append_case_operation H g n oper acc))) = pl_Cost (b_plan (snd acc))"
proof -
  obtain ct b where acc: "acc = (ct, b)" by fastforce
  obtain gid reused reusable b1 where prep: "prepare_replay_group H n (task_from_operation g oper) b = (gid, reused, reusable, b1)"
    by (metis prod_cases4)
  show ?thesis using prepare_replay_group_Cost [OF prep] by (simp add: acc append_case_operation_def prep Let_def)
qed

lemma append_case_tasks_Cost [simp]:
  "pl_Cost (b_plan (snd (append_case_tasks H g n ops b))) = pl_Cost (b_plan b)"
proof -
  have "pl_Cost (b_plan (snd (fold (append_case_operation H g n) ops acc))) = pl_Cost (b_plan (snd acc))" for acc
    by (induction ops arbitrary: acc) simp_all
  then show ?thesis by (simp add: append_case_tasks_def)
qed

lemma tag_case_tasks_Cost [simp]: "pl_Cost (b_plan (tag_case_tasks n start gid b)) = pl_Cost (b_plan b)"
proof -
  have "pl_Cost (b_plan (fold (tag_case_task n gid) js b)) = pl_Cost (b_plan b)" for js
    by (induction js arbitrary: b) (simp_all add: tag_case_task_def Let_def)
  then show ?thesis by (simp add: tag_case_tasks_def)
qed

lemma plan_case_node_Cost:
  assumes "plan_case_node H g n b = Inr b'"
  shows "pl_Cost (b_plan b') = pl_Cost (b_plan b)"
  using assms
proof (cases rule: plan_case_node_InrE)
  case (1 ex p1 ct b1)
  have "pl_Cost (b_plan b1) = pl_Cost p1"
    using append_case_tasks_Cost [of H g n "ex_Operations ex" "b\<lparr>b_plan := p1\<rparr>"] by (simp add: 1(3))
  then show ?thesis by (simp add: 1(2,4) Let_def)
qed

lemma plan_case_nodes_Cost:
  "pl_Cost (b_plan (snd (plan_case_nodes H g q ns (m, b)))) = pl_Cost (b_plan b)"
  by (induction ns arbitrary: m b) (auto dest: plan_case_node_Cost split: sum.splits)

lemma plan_workflow_paths_Cost:
  "pl_Cost (snd (plan_workflow_paths g q ps (m, pl))) = pl_Cost pl"
  by (induction ps arbitrary: m pl) (simp_all add: plan_workflow_path_def)

lemma plan_workflow_scope_Cost:
  assumes "plan_workflow_scope g q b = Inr b'"
  shows "pl_Cost (b_plan b') = pl_Cost (b_plan b)"
  using assms by (cases rule: plan_workflow_scope_InrE) (simp add: plan_workflow_paths_Cost)

lemma plan_case_scope_Cost:
  "plan_case_scope H g q b = Inr b' \<Longrightarrow> pl_Cost (b_plan b') = pl_Cost (b_plan b)"
proof -
  assume *: "plan_case_scope H g q b = Inr b'"
  define b1 where "b1 = b\<lparr>b_plan := (b_plan b)\<lparr>pl_LogicalPlan := pl_LogicalPlan (b_plan b) @ [scan_cases_op q]\<rparr>\<rparr>"
  have "b' = snd (plan_case_nodes H g q (gr_Nodes g) (0, b1))"
    using * by (auto simp: plan_case_scope_def Let_def b1_def [symmetric] split: if_splits prod.splits)
  then show ?thesis by (simp add: plan_case_nodes_Cost b1_def)
qed

lemma plan_target_case_Cost:
  "plan_target_case H g q b = Inr b' \<Longrightarrow> pl_Cost (b_plan b') = pl_Cost (b_plan b)"
  by (auto simp: plan_target_case_def dest!: plan_case_node_Cost split: option.splits sum.splits)

lemma plan_scope_Cost:
  "plan_scope H g q b = Inr b' \<Longrightarrow> pl_Cost (b_plan b') = pl_Cost (b_plan b)"
  by (auto simp: plan_scope_def dest!: plan_workflow_scope_Cost plan_case_scope_Cost plan_target_case_Cost
      split: if_splits sum.splits)

section \<open>Queries that always have a plan\<close>

definition open_query :: "graph \<Rightarrow> query \<Rightarrow> bool" where
  "open_query g q0 \<longleftrightarrow> (let q = normalize_query g q0 in q_MapID q \<noteq> [] \<and>
     \<not> workflow_targeted q \<and> \<not> case_targeted q \<and> q_Scope q \<in> {ScopeAll, ScopeWorkflows, ScopeCases})"

lemma explain_open:
  assumes "open_query g q"
  shows "\<exists>p. explain H g q = Inr p"
proof -
  define qn where "qn = normalize_query g q"
  have q: "q_MapID qn \<noteq> []" "\<not> workflow_targeted qn" "\<not> case_targeted qn"
    "q_Scope qn = ScopeAll \<or> q_Scope qn = ScopeWorkflows \<or> q_Scope qn = ScopeCases"
    using assms by (auto simp: open_query_def Let_def qn_def)
  have wf: "\<exists>b'. plan_workflow_scope g qn b = Inr b'" for b
    using q(2) by (auto simp: plan_workflow_scope_def Let_def split: prod.splits)
  have cs: "\<exists>b'. plan_case_scope H g qn b = Inr b'" for b
    using q(3) by (auto simp: plan_case_scope_def Let_def split: prod.splits)
  have "\<exists>b'. plan_scope H g qn b = Inr b'" for b
  proof -
    obtain b1 where "plan_workflow_scope g qn b = Inr b1" using wf by blast
    then show ?thesis using q(4) wf [of b] cs [of b] cs [of b1] by (auto simp: plan_scope_def scope_defs)
  qed
  moreover have "validate_query_scope_target qn = None"
    using q(2,3) by (simp add: validate_query_scope_target_def workflow_targeted_def case_targeted_def)
  ultimately show ?thesis using q(1)
    by (auto simp: explain_def qn_def [symmetric] Let_def split: sum.splits) (metis Inl_Inr_False)
qed

definition demo_query :: query where
  "demo_query = \<lparr>q_MapID = [], q_EnvironmentID = [], q_Scope = [], q_TargetKind = [], q_TargetID = [],
     q_CaseID = [], q_NodeID = [], q_PathID = [], q_WorkflowID = [], q_InterfaceNodeID = [],
     q_ValidationFamily = [], q_Role = [], q_PlannerMode = []\<rparr>"

definition demo_hashes :: hashes where
  "demo_hashes = \<lparr>hash_sha1 = rev, hash_sha256 = rev\<rparr>"

lemma demo_query_open: "open_query demo_graph demo_query"
  by code_simp

lemma demo_explain: "\<exists>p. explain demo_hashes demo_graph demo_query = Inr p"
  by (rule explain_open [OF demo_query_open])

section \<open>What a plan guarantees\<close>

text \<open>
  C4. Every plan that \<open>Explain\<close> returns is an executable task graph: the tasks are
  numbered 1, 2, ... in order, their identifiers are distinct, and each dependency edge goes
  from an earlier task of the plan to a later one, so running the tasks in order never meets
  an unfinished or unknown dependency and no edge set has a cycle.
\<close>

theorem explain_tasks_well_formed:
  assumes "explain H g q = Inr p"
  shows "map tk_Index (pl_PhysicalTasks p) = [1 ..< Suc (length (pl_PhysicalTasks p))] \<and>
     distinct (map tk_ID (pl_PhysicalTasks p)) \<and>
     (\<forall>e \<in> set (pl_TaskEdges p). \<exists>i j. i < j \<and> j < length (pl_PhysicalTasks p) \<and>
        te_FromTaskID e = tk_ID (pl_PhysicalTasks p ! i) \<and> te_ToTaskID e = tk_ID (pl_PhysicalTasks p ! j))"
proof -
  obtain b where b: "state_ok b" "p = finish_plan (normalize_query g q) (b_plan b)"
    using assms by (rule explain_state)
  let ?ts = "pl_PhysicalTasks p"
  have num: "numbered ?ts" and edges: "edges_forward (map tk_ID ?ts) (pl_TaskEdges p)"
    using b builder_okD(1,2) [of b] by (simp_all add: state_ok_def)
  have "map tk_Index ?ts = [1 ..< Suc (length ?ts)]"
    using num by (intro nth_equalityI) (simp_all add: numbered_def del: upt_Suc)
  moreover have "\<exists>i j. i < j \<and> j < length ?ts \<and> te_FromTaskID e = tk_ID (?ts ! i) \<and> te_ToTaskID e = tk_ID (?ts ! j)"
    if "e \<in> set (pl_TaskEdges p)" for e
  proof -
    obtain i j where "i < j" "j < length ?ts" "te_FromTaskID e = map tk_ID ?ts ! i" "te_ToTaskID e = map tk_ID ?ts ! j"
      using edges \<open>e \<in> set (pl_TaskEdges p)\<close> unfolding edges_forward_def by auto
    then show ?thesis by (intro exI [of _ i] exI [of _ j]) simp
  qed
  ultimately show ?thesis using numbered_distinct [OF num] by blast
qed

theorem explain_tasks_well_formed_witness:
  "\<exists>p. explain demo_hashes demo_graph demo_query = Inr p \<and> distinct (map tk_ID (pl_PhysicalTasks p))"
proof -
  obtain p where "explain demo_hashes demo_graph demo_query = Inr p" using demo_explain by blast
  then show ?thesis using explain_tasks_well_formed [of demo_hashes demo_graph demo_query p] by blast
qed

text \<open>
  C33. A materialized checkpoint is restored at most once per plan and replay group: the tasks of
  kind \<open>reuse_materialization\<close> that carry the same replay group identifier never number
  more than one, however many validation cases share the group.
\<close>

theorem explain_reuses_group_once:
  assumes "explain H g q = Inr p"
  shows "length (filter (\<lambda>t. tk_Kind t = TaskReuseMaterialized \<and> tk_ReplayGroupID t = gid) (pl_PhysicalTasks p)) \<le> 1"
proof -
  obtain b where "state_ok b" "p = finish_plan (normalize_query g q) (b_plan b)"
    using assms by (rule explain_state)
  then show ?thesis using builder_okD(4) [of b gid] by (simp add: state_ok_def reuse_in_def [abs_def])
qed

theorem explain_reuses_group_once_witness:
  "\<exists>p. explain demo_hashes demo_graph demo_query = Inr p \<and>
     length (filter (\<lambda>t. tk_Kind t = TaskReuseMaterialized \<and> tk_ReplayGroupID t = ''g'') (pl_PhysicalTasks p)) \<le> 1"
proof -
  obtain p where "explain demo_hashes demo_graph demo_query = Inr p" using demo_explain by blast
  then show ?thesis using explain_reuses_group_once [of demo_hashes demo_graph demo_query p "''g''"] by blast
qed

text \<open>
  The summary of a plan is an exact count of its tasks by kind: workflow tasks are the
  \<open>run_path\<close> and \<open>skip\<close> tasks, replay tasks the \<open>run_path_prefix\<close> tasks, case tasks
  the \<open>run_case\<close> tasks, skipped tasks the \<open>skip\<close> tasks, and the step total is the sum of
  the step counts of the tasks.
\<close>

theorem explain_summary_counts:
  assumes "explain H g q = Inr p"
  shows "pl_Summary p = \<lparr>
      su_WorkflowTasks = kind_count TaskRunPath (pl_PhysicalTasks p) + kind_count TaskSkip (pl_PhysicalTasks p),
      su_ReplayTasks = kind_count TaskRunPathPrefix (pl_PhysicalTasks p),
      su_CaseTasks = kind_count TaskRunCase (pl_PhysicalTasks p),
      su_SkippedTasks = kind_count TaskSkip (pl_PhysicalTasks p),
      su_TotalTasks = length (pl_PhysicalTasks p),
      su_TotalSteps = (\<Sum>t\<leftarrow>pl_PhysicalTasks p. co_TotalSteps (tk_Cost t))\<rparr>"
proof -
  let ?qn = "normalize_query g q"
  let ?b0 = "\<lparr>b_plan = base_plan H g ?qn, b_replayGroupByKey = Map.empty, b_replayTaskByGroup = Map.empty\<rparr>"
  obtain b where b: "state_ok b" "p = finish_plan ?qn (b_plan b)" "plan_scope H g ?qn ?b0 = Inr b"
    using assms by (rule explain_state)
  have "pl_Cost (b_plan b) = zero_cost"
    using plan_scope_Cost [OF b(3)] by (simp add: base_plan_def)
  moreover have "\<forall>t \<in> set (pl_PhysicalTasks (b_plan b)). cost_by_kind t"
    using b(1) builder_okD(6) by (auto simp: state_ok_def)
  ultimately show ?thesis
    by (simp add: b(2) finish_plan_def Let_def fold_add_task_cost zero_cost_def)
qed

theorem explain_summary_counts_witness:
  "\<exists>p. explain demo_hashes demo_graph demo_query = Inr p \<and>
     su_CaseTasks (pl_Summary p) = kind_count TaskRunCase (pl_PhysicalTasks p)"
proof -
  obtain p where "explain demo_hashes demo_graph demo_query = Inr p" using demo_explain by blast
  then show ?thesis using explain_summary_counts [of demo_hashes demo_graph demo_query p] by auto
qed

definition workflow_row :: "graph \<Rightarrow> plan_path \<Rightarrow> ident \<times> ident \<times> string \<times> string" where
  "workflow_row g p = (pa_ID p, pa_WorkflowID p,
     if path_steps g (pa_ID p) = [] then TaskSkip else TaskRunPath,
     if path_steps g (pa_ID p) = [] then TaskStatusSkipped else TaskStatusPlanned)"

definition task_row :: "physical_task \<Rightarrow> ident \<times> ident \<times> string \<times> string" where
  "task_row t = (tk_PathID t, tk_WorkflowID t, tk_Kind t, tk_Status t)"

lemma plan_workflow_path_tasks:
  "map task_row (pl_PhysicalTasks (plan_workflow_path g p pl)) = map task_row (pl_PhysicalTasks pl) @ [workflow_row g p]"
  "pl_TaskEdges (plan_workflow_path g p pl) = pl_TaskEdges pl"
  by (simp_all add: plan_workflow_path_def append_task_def Let_def task_row_def workflow_row_def
      workflow_task_def blank_task_def kind_defs status_defs)

lemma plan_workflow_paths_tasks:
  "map task_row (pl_PhysicalTasks (snd (plan_workflow_paths g q ps (m, pl)))) =
     map task_row (pl_PhysicalTasks pl) @ map (workflow_row g) (filter (path_matches_query q) ps) \<and>
   pl_TaskEdges (snd (plan_workflow_paths g q ps (m, pl))) = pl_TaskEdges pl \<and>
   fst (plan_workflow_paths g q ps (m, pl)) = m + length (filter (path_matches_query q) ps)"
  by (induction ps arbitrary: m pl) (simp_all add: plan_workflow_path_tasks)

text \<open>
  With the scope \<open>workflows\<close> the plan has exactly one task for each path of the map that
  the query selects, in the map's order and independent of each other: a \<open>run_path\<close> task, or
  an already skipped one when the path has no steps. If an explicit path or workflow selects
  nothing, the answer is the error that the target was not found, and never an empty plan.
\<close>

theorem explain_workflow_scope:
  assumes scope: "q_Scope (normalize_query g q) = ScopeWorkflows"
    and valid: "q_MapID (normalize_query g q) \<noteq> []" "\<not> case_targeted (normalize_query g q)"
  shows "case explain H g q of
      Inr p \<Rightarrow> map task_row (pl_PhysicalTasks p) =
          map (workflow_row g) (filter (path_matches_query (normalize_query g q)) (gr_Paths g)) \<and>
        pl_TaskEdges p = []
    | Inl e \<Rightarrow> workflow_targeted (normalize_query g q) \<and>
        filter (path_matches_query (normalize_query g q)) (gr_Paths g) = [] \<and>
        e = Workflow_Target_Not_Found (q_TargetKind (normalize_query g q)) (q_TargetID (normalize_query g q))"
proof -
  define qn where "qn = normalize_query g q"
  define pl where "pl = (base_plan H g qn)\<lparr>pl_LogicalPlan := pl_LogicalPlan (base_plan H g qn) @ [scan_workflows_op g qn],
     pl_RulesApplied := pl_RulesApplied (base_plan H g qn) @ [simple_rule ''select_workflow_paths''
       ''plan each mapped workflow path as an executable physical task'' []]\<rparr>"
  have noerr: "validate_query_scope_target qn = None"
    using scope valid by (simp add: validate_query_scope_target_def case_targeted_def qn_def)
  have run: "explain H g q = (if workflow_targeted qn \<and> filter (path_matches_query qn) (gr_Paths g) = []
      then Inl (Workflow_Target_Not_Found (q_TargetKind qn) (q_TargetID qn))
      else Inr (finish_plan qn (snd (plan_workflow_paths g qn (gr_Paths g) (0, pl)))))"
  proof -
    obtain m pl' where m: "plan_workflow_paths g qn (gr_Paths g) (0, pl) = (m, pl')" by fastforce
    then have "m = length (filter (path_matches_query qn) (gr_Paths g))"
      using plan_workflow_paths_tasks [of g qn "gr_Paths g" 0 pl] by simp
    then show ?thesis
      using scope valid(1) noerr m
      by (simp add: explain_def Let_def plan_scope_def plan_workflow_scope_def scope_defs pl_def [symmetric] qn_def [symmetric])
  qed
  have "pl_PhysicalTasks pl = [] \<and> pl_TaskEdges pl = []" by (simp add: pl_def base_plan_def)
  then show ?thesis
    using plan_workflow_paths_tasks [of g qn "gr_Paths g" 0 pl] by (simp add: run qn_def [symmetric])
qed

definition flow_query :: query where
  "flow_query = demo_query\<lparr>q_PathID := ''flow''\<rparr>"

theorem explain_workflow_scope_witness:
  "\<exists>p. explain demo_hashes demo_graph flow_query = Inr p \<and>
     map task_row (pl_PhysicalTasks p) = [(''flow'', ''flow'', TaskRunPath, TaskStatusPlanned)]"
proof -
  have q: "q_Scope (normalize_query demo_graph flow_query) = ScopeWorkflows"
    "q_MapID (normalize_query demo_graph flow_query) \<noteq> []"
    "\<not> case_targeted (normalize_query demo_graph flow_query)"
    by code_simp+
  have f: "filter (path_matches_query (normalize_query demo_graph flow_query)) (gr_Paths demo_graph) = [demo_path ''flow'']"
    by code_simp
  have r: "workflow_row demo_graph (demo_path ''flow'') = (''flow'', ''flow'', TaskRunPath, TaskStatusPlanned)"
    by code_simp
  show ?thesis
    using explain_workflow_scope [OF q, of demo_hashes] unfolding f by (simp add: r split: sum.splits)
qed

text \<open>
  A query for the whole map, its workflows or its cases that names no particular target is
  never refused: \<open>Explain\<close> returns a plan whatever the graph, even when some of its
  validation cases cannot be explained.
\<close>

theorem explain_open_query_total:
  assumes "q_MapID (normalize_query g q) \<noteq> []" "\<not> workflow_targeted (normalize_query g q)"
    "\<not> case_targeted (normalize_query g q)"
    "q_Scope (normalize_query g q) \<in> {ScopeAll, ScopeWorkflows, ScopeCases}"
  shows "\<exists>p. explain H g q = Inr p"
  using explain_open [of g q H] assms by (simp add: open_query_def Let_def)

theorem explain_open_query_total_witness:
  "\<exists>p. explain demo_hashes demo_graph demo_query = Inr p"
  by (rule explain_open_query_total) code_simp+

section \<open>Normalised queries\<close>

lemma set_trim_space: "set (trim_space s) \<subseteq> set s"
  using set_dropWhileD unfolding trim_space_def trim_left_def by (metis set_rev subsetI)

lemma to_lower_char_idem [simp]: "to_lower_char (to_lower_char c) = to_lower_char c"
  by (simp add: to_lower_char_def Let_def)

lemma normalize_validation_family_fixed:
  assumes "\<forall>c \<in> set v. to_lower_char c = c" "trim_space v = v" "CHR ''_'' \<notin> set v"
  shows "normalize_validation_family v = (if v \<in> {''empty'', ''null'', ''blank'', ''required'', ''missing''} then ''empty/null'' else v)"
proof -
  have "to_lower v = v" using assms(1) by (simp add: to_lower_def map_idI)
  moreover have "map (\<lambda>c. if c = CHR ''_'' then CHR ''-'' else c) v = v" using assms(3) by (auto intro: map_idI)
  ultimately show ?thesis using assms(2) by (simp add: normalize_validation_family_def Let_def)
qed

lemma normalize_validation_family_idem [simp]:
  "normalize_validation_family (normalize_validation_family x) = normalize_validation_family x"
proof -
  define u where "u = trim_space (to_lower x)"
  define v where "v = map (\<lambda>c. if c = CHR ''_'' then CHR ''-'' else c) u"
  have low: "\<forall>c \<in> set v. to_lower_char c = c"
  proof -
    have "\<forall>c \<in> set u. to_lower_char c = c"
      using set_trim_space [of "to_lower x"] by (auto simp: u_def to_lower_def)
    moreover have "to_lower_char (CHR ''-'') = CHR ''-''" by code_simp
    ultimately show ?thesis by (auto simp: v_def)
  qed
  have trim: "trim_space v = v"
  proof (cases "u = []")
    case False
    then have "\<not> is_space (hd u) \<and> \<not> is_space (last u)" unfolding u_def by (rule trim_space_ends)
    moreover have "\<not> is_space (CHR ''-'')" by code_simp
    ultimately have "\<not> is_space (hd v) \<and> \<not> is_space (last v)"
      using False by (simp add: v_def hd_map last_map)
    then show ?thesis by (intro trim_space_trimmed) auto
  qed (simp add: v_def)
  have "CHR ''_'' \<notin> set v" by (auto simp: v_def)
  note fixed = normalize_validation_family_fixed [OF low trim this]
  have "normalize_validation_family x = (if v \<in> {''empty'', ''null'', ''blank'', ''required'', ''missing''} then ''empty/null'' else v)"
    by (simp add: normalize_validation_family_def Let_def v_def u_def)
  moreover have "normalize_validation_family ''empty/null'' = ''empty/null''" by code_simp
  ultimately show ?thesis using fixed by simp
qed

lemma scope_names [simp]:
  "trim_space ScopeAll = ScopeAll" "trim_space ScopeWorkflows = ScopeWorkflows"
  "trim_space ScopeCases = ScopeCases" "trim_space ScopeCase = ScopeCase"
  "\<not> blank ScopeAll" "\<not> blank ScopeWorkflows" "\<not> blank ScopeCases" "\<not> blank ScopeCase"
  "trim_space TargetMap = TargetMap" "trim_space TargetPath = TargetPath" "trim_space TargetWorkflow = TargetWorkflow"
  "trim_space TargetNode = TargetNode" "trim_space TargetCase = TargetCase" "trim_space ModeExplain = ModeExplain"
  "\<not> blank TargetMap" "\<not> blank TargetPath" "\<not> blank TargetWorkflow" "\<not> blank TargetNode"
  "\<not> blank TargetCase"
  by code_simp+

lemma scope_distinct [simp]:
  "ScopeAll \<noteq> ''workflow''" "ScopeWorkflows \<noteq> ''workflow''" "ScopeCases \<noteq> ''workflow''" "ScopeCase \<noteq> ''workflow''"
  "ScopeAll \<noteq> ScopeCases" "ScopeWorkflows \<noteq> ScopeCases" "ScopeCase \<noteq> ScopeCases"
  "ScopeCases \<noteq> ScopeWorkflows" "ScopeCase \<noteq> ScopeWorkflows" "ScopeCases \<noteq> ScopeAll"
  "ScopeWorkflows \<noteq> []" "TargetMap \<noteq> TargetCase" "TargetMap \<noteq> TargetNode" "TargetMap \<noteq> TargetPath" "TargetMap \<noteq> TargetWorkflow"
  by (simp_all add: scope_defs target_defs)

text \<open>The fields of a query that the scope and target depend on, when they are already trimmed.\<close>

definition trimmed_query :: "graph \<Rightarrow> query \<Rightarrow> bool" where
  "trimmed_query g q \<longleftrightarrow> normalize_query_fields g q = q"

lemma normalize_query_fields_idem:
  assumes "trim_space (mp_ID (gr_Map g)) = mp_ID (gr_Map g)"
  shows "normalize_query_fields g (normalize_query_fields g q) = normalize_query_fields g q"
  using assms by (auto simp: normalize_query_fields_def blank_def)

lemma default_scope_cases:
  "default_scope e q \<in> {ScopeAll, ScopeWorkflows, ScopeCases, ScopeCase} \<or>
     default_scope e q = q_Scope q \<and> \<not> blank (q_Scope q)"
  by (auto simp: default_scope_def Let_def string_default_def)

lemma blank_trimmed: "trim_space s = s \<Longrightarrow> blank s \<longleftrightarrow> s = []"
  by (simp add: blank_def)

lemma default_scope_stable:
  assumes "e \<longleftrightarrow> q_Scope q = []" "trim_space (q_Scope q) = q_Scope q" "trim_space (q_TargetKind q) = q_TargetKind q"
  shows "default_scope False (q\<lparr>q_Scope := default_scope e q, q_TargetKind := string_default (q_TargetKind q) TargetMap,
     q_TargetID := x\<rparr>) = default_scope e q"
proof -
  define f where "f \<longleftrightarrow> q_InterfaceNodeID q \<noteq> [] \<or> q_ValidationFamily q \<noteq> [] \<or> q_Role q \<noteq> []"
  have b: "blank (q_Scope q) \<longleftrightarrow> q_Scope q = []" "blank (q_TargetKind q) \<longleftrightarrow> q_TargetKind q = []"
    using assms by (simp_all add: blank_trimmed)
  consider "q_TargetKind q = TargetCase \<or> q_TargetKind q = TargetNode" "q_TargetKind q \<noteq> []"
    | "q_TargetKind q = TargetPath \<or> q_TargetKind q = TargetWorkflow" "q_TargetKind q \<noteq> TargetCase"
      "q_TargetKind q \<noteq> TargetNode" "q_TargetKind q \<noteq> []"
    | "q_TargetKind q \<notin> {TargetCase, TargetNode, TargetPath, TargetWorkflow}"
    by (cases "q_TargetKind q = []") (auto simp: target_defs)
  then show ?thesis
    using assms(1)
    by cases (cases "f"; cases "e"; cases "q_Scope q = ScopeCases";
        simp add: default_scope_def Let_def string_default_def b f_def [symmetric])+
qed

lemma normalize_query_fields_scope:
  "normalize_query_fields g (q\<lparr>q_Scope := s, q_TargetKind := k, q_TargetID := i\<rparr>) =
     (normalize_query_fields g q)\<lparr>q_Scope := (if trim_space s = ''workflow'' then ScopeWorkflows else trim_space s),
       q_TargetKind := trim_space k, q_TargetID := trim_space i\<rparr>"
  by (simp add: normalize_query_fields_def)

lemma normalize_query_fields_values:
  "q_CaseID (normalize_query_fields g q) = q_CaseID q" "q_NodeID (normalize_query_fields g q) = q_NodeID q"
  "q_PathID (normalize_query_fields g q) = q_PathID q" "q_WorkflowID (normalize_query_fields g q) = q_WorkflowID q"
  "trim_space (q_Scope (normalize_query_fields g q)) = q_Scope (normalize_query_fields g q)"
  "q_Scope (normalize_query_fields g q) \<noteq> ''workflow''"
  "q_Scope (normalize_query_fields g q) = [] \<longleftrightarrow> blank (q_Scope q)"
  "trim_space (q_TargetKind (normalize_query_fields g q)) = q_TargetKind (normalize_query_fields g q)"
  "trim_space (q_TargetID (normalize_query_fields g q)) = q_TargetID (normalize_query_fields g q)"
  "trim_space (mp_ID (gr_Map g)) = mp_ID (gr_Map g) \<Longrightarrow>
     trim_space (q_MapID (normalize_query_fields g q)) = q_MapID (normalize_query_fields g q)"
  by (auto simp: normalize_query_fields_def blank_def)

text \<open>
  Normalising a query is idempotent: a query that went through \<open>normalizeQuery\<close> (a stored
  plan's query, say) is not changed by going through it again, provided the map's own identifier
  has no surrounding white space.
\<close>

theorem normalize_query_idem:
  assumes "trim_space (mp_ID (gr_Map g)) = mp_ID (gr_Map g)"
  shows "normalize_query g (normalize_query g q) = normalize_query g q"
proof -
  define r where "r = normalize_query_fields g q"
  note v = normalize_query_fields_values [of g q, folded r_def]
  note idem = normalize_query_fields_idem [OF assms, of q, folded r_def]
  have again: "normalize_query_fields g (r\<lparr>q_Scope := s, q_TargetKind := k, q_TargetID := i\<rparr>) =
      r\<lparr>q_Scope := s, q_TargetKind := k, q_TargetID := i\<rparr>"
    if "trim_space s = s" "s \<noteq> ''workflow''" "trim_space k = k" "trim_space i = i" for s k i
    using that by (simp add: normalize_query_fields_scope idem)
  show ?thesis
  proof (cases "blank (q_CaseID q) \<and> blank (q_NodeID q) \<and> blank (q_PathID q) \<and> blank (q_WorkflowID q)")
    case True
    define ds where "ds = default_scope (blank (q_Scope q)) r"
    define k where "k = string_default (q_TargetKind r) TargetMap"
    define i where "i = string_default (q_TargetID r) (q_MapID r)"
    have n: "normalize_query g q = r\<lparr>q_Scope := ds, q_TargetKind := k, q_TargetID := i\<rparr>"
      using True by (simp add: normalize_query_def r_def [symmetric] v(1-4) ds_def [symmetric] k_def [symmetric]
          i_def [symmetric] Let_def)
    have ds: "trim_space ds = ds" "ds \<noteq> ''workflow''" "\<not> blank ds"
      using default_scope_cases [of "blank (q_Scope q)" r, folded ds_def] v(5,6) scope_distinct(1-4) [symmetric] by auto
    have ki: "trim_space k = k" "trim_space i = i" "\<not> blank k"
      using v(8,9) v(10) [OF assms] by (auto simp: k_def i_def string_default_def)
    define r' where "r' = r\<lparr>q_Scope := ds, q_TargetKind := k, q_TargetID := i\<rparr>"
    have stable: "default_scope False r' = ds"
      unfolding r'_def ds_def k_def using v by (intro default_scope_stable) simp_all
    have "string_default i (q_MapID r) = i" "string_default k TargetMap = k"
      using ki by (auto simp: i_def string_default_def)
    then have dflt: "string_default (q_TargetID r') (q_MapID r') = i" "string_default (q_TargetKind r') TargetMap = k"
      by (simp_all add: r'_def)
    have fields: "normalize_query_fields g r' = r'" unfolding r'_def by (rule again [OF ds(1,2) ki(1,2)])
    have sel: "blank (q_CaseID r')" "blank (q_NodeID r')" "blank (q_PathID r')" "blank (q_WorkflowID r')"
      "\<not> blank (q_Scope r')"
      using True v(1-4) ds(3) by (simp_all add: r'_def)
    have "normalize_query g r' = r'\<lparr>q_Scope := ds, q_TargetKind := k, q_TargetID := i\<rparr>"
      by (simp add: normalize_query_def fields sel stable dflt Let_def)
    then show ?thesis unfolding n r'_def [symmetric] by (simp add: r'_def)
  next
    case False
    consider "\<not> blank (q_CaseID q)" | "blank (q_CaseID q)" "\<not> blank (q_NodeID q)"
      | "blank (q_CaseID q)" "blank (q_NodeID q)" "\<not> blank (q_PathID q)"
      | "blank (q_CaseID q)" "blank (q_NodeID q)" "blank (q_PathID q)" "\<not> blank (q_WorkflowID q)"
      using False by blast
    then obtain s k i where ski: "normalize_query g q = r\<lparr>q_Scope := s, q_TargetKind := k, q_TargetID := trim_space i\<rparr>"
      "trim_space s = s" "s \<noteq> ''workflow''" "trim_space k = k"
      and n2: "\<And>q'. q_CaseID q' = q_CaseID q \<Longrightarrow> q_NodeID q' = q_NodeID q \<Longrightarrow> q_PathID q' = q_PathID q \<Longrightarrow>
        q_WorkflowID q' = q_WorkflowID q \<Longrightarrow> normalize_query g q' =
        (normalize_query_fields g q')\<lparr>q_Scope := s, q_TargetKind := k, q_TargetID := trim_space i\<rparr>"
    proof cases
      case 1
      show ?thesis by (rule that [of "q_CaseID q" TargetCase ScopeCase])
        (use 1 in \<open>simp_all add: normalize_query_def Let_def r_def [symmetric] v(1-4) normalize_query_fields_values(1-4)\<close>)
    next
      case 2
      show ?thesis by (rule that [of "q_NodeID q" TargetNode ScopeCase])
        (use 2 in \<open>simp_all add: normalize_query_def Let_def r_def [symmetric] v(1-4) normalize_query_fields_values(1-4)\<close>)
    next
      case 3
      show ?thesis by (rule that [of "q_PathID q" TargetPath ScopeWorkflows])
        (use 3 in \<open>simp_all add: normalize_query_def Let_def r_def [symmetric] v(1-4) normalize_query_fields_values(1-4)\<close>)
    next
      case 4
      show ?thesis by (rule that [of "q_WorkflowID q" TargetWorkflow ScopeWorkflows])
        (use 4 in \<open>simp_all add: normalize_query_def Let_def r_def [symmetric] v(1-4) normalize_query_fields_values(1-4)\<close>)
    qed
    show ?thesis
      unfolding ski(1) by (subst n2) (use v(1-4) ski again in simp_all)
  qed
qed

theorem normalize_query_idem_witness:
  "normalize_query demo_graph (normalize_query demo_graph flow_query) = normalize_query demo_graph flow_query \<and>
   q_TargetKind (normalize_query demo_graph flow_query) = TargetPath"
proof
  have "trim_space (mp_ID (gr_Map demo_graph)) = mp_ID (gr_Map demo_graph)" by code_simp
  then show "normalize_query demo_graph (normalize_query demo_graph flow_query) = normalize_query demo_graph flow_query"
    by (rule normalize_query_idem)
  show "q_TargetKind (normalize_query demo_graph flow_query) = TargetPath" by code_simp
qed

end
