(* ===== verification/Plan_Records.thy ===== *)
theory Plan_Records
  imports Map_Plan_Facts
begin

text \<open>
  The stored form of a plan (\<open>internal/domain/mapplanner/records.go\<close>): the rows of the tables
  of plan instances, tasks and task edges, the JSON text of their columns, the row a plan becomes
  (\<open>RecordFromPlan\<close>), and what the store does to a row before it writes it
  (\<open>prepareTestMapPlanRecord\<close>, \<open>jsonForDB\<close> and \<open>normalizeJSONText\<close> of
  \<open>internal/store/sqlstore\<close>).
\<close>

section \<open>Rows\<close>

record plan_instance =
  pi_ID :: ident
  pi_MapID :: ident
  pi_ProfileID :: ident
  pi_EnvironmentID :: ident
  pi_Scope :: string
  pi_TargetKind :: string
  pi_TargetID :: ident
  pi_Mode :: string
  pi_Status :: string
  pi_PlannerVersion :: string
  pi_PlannerOptionsJSON :: string
  pi_LogicalPlanJSON :: string
  pi_OptimizedPlanJSON :: string
  pi_PhysicalPlanJSON :: string
  pi_RuleTraceJSON :: string
  pi_CandidatePlanJSON :: string
  pi_CostJSON :: string
  pi_PropertyJSON :: string
  pi_SummaryJSON :: string
  pi_CreatedAt :: time
  pi_StartedAt :: time
  pi_FinishedAt :: time

record task_record =
  tr_PlanID :: ident
  tr_ID :: ident
  tr_Index :: nat
  tr_Kind :: string
  tr_Operation :: string
  tr_PathID :: ident
  tr_WorkflowID :: ident
  tr_NodeID :: ident
  tr_CaseID :: ident
  tr_MaterializationID :: ident
  tr_RequiredPropertyJSON :: string
  tr_ProvidedPropertyJSON :: string
  tr_CostJSON :: string
  tr_Status :: string
  tr_Reason :: string
  tr_WorkflowRunID :: ident
  tr_APICaseRunID :: ident
  tr_EvidenceRoot :: string
  tr_SummaryJSON :: string
  tr_StartedAt :: time
  tr_FinishedAt :: time
  tr_CreatedAt :: time

record edge_record =
  er_PlanID :: ident
  er_FromTaskID :: ident
  er_ToTaskID :: ident
  er_Kind :: string
  er_Required :: bool
  er_MappingsJSON :: string
  er_SummaryJSON :: string
  er_SortOrder :: nat

record plan_record =
  pr_Instance :: plan_instance
  pr_Tasks :: "task_record list"
  pr_TaskEdges :: "edge_record list"

section \<open>JSON of the parts of a plan\<close>

text \<open>The \<open>omitempty\<close> fields of a struct are left out when they are empty.\<close>

definition opt_str :: "string \<Rightarrow> string \<Rightarrow> obj" where
  "opt_str k v = (if v = [] then [] else [(k, JStr v)])"

definition opt_nat :: "string \<Rightarrow> nat \<Rightarrow> obj" where
  "opt_nat k n = (if n = 0 then [] else [(k, jnat n)])"

definition opt_obj :: "string \<Rightarrow> obj \<Rightarrow> obj" where
  "opt_obj k kvs = (if kvs = [] then [] else [(k, JObj kvs)])"

definition opt_strs :: "string \<Rightarrow> string list \<Rightarrow> obj" where
  "opt_strs k vs = (if vs = [] then [] else [(k, JArr (map JStr vs))])"

definition cost_json :: "plan_cost \<Rightarrow> json" where
  "cost_json c = JObj (opt_nat ''estimatedTasks'' (co_EstimatedTasks c) @
     opt_nat ''workflowTasks'' (co_WorkflowTasks c) @ opt_nat ''replayTasks'' (co_ReplayTasks c) @
     opt_nat ''caseTasks'' (co_CaseTasks c) @ opt_nat ''skippedTasks'' (co_SkippedTasks c) @
     opt_nat ''totalSteps'' (co_TotalSteps c))"

definition summary_json :: "plan_summary \<Rightarrow> json" where
  "summary_json s = JObj [(''workflowTasks'', jnat (su_WorkflowTasks s)),
     (''replayTasks'', jnat (su_ReplayTasks s)), (''caseTasks'', jnat (su_CaseTasks s)),
     (''skippedTasks'', jnat (su_SkippedTasks s)), (''totalTasks'', jnat (su_TotalTasks s)),
     (''totalSteps'', jnat (su_TotalSteps s))]"

definition logical_op_json :: "logical_op \<Rightarrow> json" where
  "logical_op_json l = JObj ([(''id'', JStr (lo_ID l)), (''op'', JStr (lo_Op l))] @
     opt_str ''targetKind'' (lo_TargetKind l) @ opt_str ''targetId'' (lo_TargetID l) @
     opt_strs ''children'' (lo_Children l) @ opt_obj ''properties'' (lo_Properties l))"

definition rule_trace_json :: "rule_trace \<Rightarrow> json" where
  "rule_trace_json r = JObj ([(''rule'', JStr (rt_Rule r)), (''status'', JStr (rt_Status r))] @
     opt_str ''before'' (rt_Before r) @ opt_str ''after'' (rt_After r) @
     opt_str ''reason'' (rt_Reason r) @ opt_obj ''details'' (rt_Details r))"

definition candidate_json :: "candidate_plan \<Rightarrow> json" where
  "candidate_json c = JObj ([(''id'', JStr (cn_ID c)), (''kind'', JStr (cn_Kind c))] @
     opt_str ''pathId'' (cn_PathID c) @ opt_str ''workflowId'' (cn_WorkflowID c) @
     opt_str ''nodeId'' (cn_NodeID c) @ opt_str ''caseId'' (cn_CaseID c) @
     [(''selected'', JBool (cn_Selected c)), (''cost'', cost_json (cn_Cost c))] @
     opt_str ''reason'' (cn_Reason c))"

definition physical_task_json :: "physical_task \<Rightarrow> json" where
  "physical_task_json t = JObj ([(''id'', JStr (tk_ID t)), (''index'', jnat (tk_Index t)),
       (''kind'', JStr (tk_Kind t)), (''operation'', JStr (tk_Operation t))] @
     opt_str ''pathId'' (tk_PathID t) @ opt_str ''workflowId'' (tk_WorkflowID t) @
     opt_str ''untilNodeId'' (tk_UntilNodeID t) @ opt_str ''nodeId'' (tk_NodeID t) @
     opt_str ''caseId'' (tk_CaseID t) @ opt_str ''replayGroupId'' (tk_ReplayGroupID t) @
     opt_str ''interfaceNodeId'' (tk_InterfaceNodeID t) @ opt_str ''anchorNodeId'' (tk_AnchorNodeID t) @
     opt_str ''validationFamily'' (tk_ValidationFamily t) @
     opt_str ''materializationId'' (tk_MaterializationID t) @ [(''status'', JStr (tk_Status t))] @
     opt_str ''reason'' (tk_Reason t) @ opt_obj ''requiredProperties'' (tk_RequiredProperties t) @
     opt_obj ''providedProperties'' (tk_ProvidedProperties t) @ [(''cost'', cost_json (tk_Cost t))] @
     opt_obj ''summary'' (tk_Summary t))"

text \<open>\<open>mustJSONText\<close>: a nil map or slice marshals to \<open>null\<close> and takes the default, which is the text of the empty one.\<close>

definition must_json_text :: "json \<Rightarrow> string \<Rightarrow> string" where
  "must_json_text v default_text =
     (let raw = json_marshal v in if raw = ''null'' then default_text else raw)"

section \<open>From a plan to its record\<close>

definition put_unless_blank :: "string \<Rightarrow> string \<Rightarrow> obj \<Rightarrow> obj" where
  "put_unless_blank k v kvs = (if \<not> blank v then obj_put k (JStr v) kvs else kvs)"

definition task_record_summary :: "physical_task \<Rightarrow> obj" where
  "task_record_summary t =
     put_unless_blank ''reason'' (tk_Reason t)
     (put_unless_blank ''untilNodeId'' (tk_UntilNodeID t)
     (put_unless_blank ''validationFamily'' (tk_ValidationFamily t)
     (put_unless_blank ''anchorNodeId'' (tk_AnchorNodeID t)
     (put_unless_blank ''interfaceNodeId'' (tk_InterfaceNodeID t)
     (put_unless_blank ''replayGroupId'' (tk_ReplayGroupID t) (tk_Summary t))))))"

definition instance_from_plan :: "plan \<Rightarrow> time \<Rightarrow> plan_instance" where
  "instance_from_plan p now = \<lparr>pi_ID = pl_ID p, pi_MapID = pl_MapID p, pi_ProfileID = pl_ProfileID p,
     pi_EnvironmentID = pl_EnvironmentID p, pi_Scope = pl_Scope p, pi_TargetKind = pl_TargetKind p,
     pi_TargetID = pl_TargetID p, pi_Mode = pl_Mode p, pi_Status = pl_Status p,
     pi_PlannerVersion = pl_PlannerVersion p,
     pi_PlannerOptionsJSON = must_json_text (JObj (pl_PlannerOptions p)) ''{}'',
     pi_LogicalPlanJSON = must_json_text (JArr (map logical_op_json (pl_LogicalPlan p))) ''[]'',
     pi_OptimizedPlanJSON = must_json_text (JArr (map logical_op_json (pl_OptimizedPlan p))) ''[]'',
     pi_PhysicalPlanJSON = must_json_text (JArr (map physical_task_json (pl_PhysicalTasks p))) ''[]'',
     pi_RuleTraceJSON = must_json_text (JArr (map rule_trace_json (pl_RulesApplied p))) ''[]'',
     pi_CandidatePlanJSON = must_json_text (JArr (map candidate_json (pl_CandidatePlans p))) ''[]'',
     pi_CostJSON = must_json_text (cost_json (pl_Cost p)) ''{}'',
     pi_PropertyJSON = must_json_text (JObj [(''provided'', JObj (pl_ProvidedProperties p)),
       (''required'', JObj (pl_RequiredProperties p))]) ''{}'',
     pi_SummaryJSON = must_json_text (summary_json (pl_Summary p)) ''{}'',
     pi_CreatedAt = now, pi_StartedAt = now, pi_FinishedAt = now\<rparr>"

definition record_from_task :: "ident \<Rightarrow> time \<Rightarrow> physical_task \<Rightarrow> task_record" where
  "record_from_task pid now t = \<lparr>tr_PlanID = pid, tr_ID = tk_ID t, tr_Index = tk_Index t,
     tr_Kind = tk_Kind t, tr_Operation = tk_Operation t, tr_PathID = tk_PathID t,
     tr_WorkflowID = tk_WorkflowID t, tr_NodeID = tk_NodeID t, tr_CaseID = tk_CaseID t,
     tr_MaterializationID = tk_MaterializationID t,
     tr_RequiredPropertyJSON = must_json_text (JObj (tk_RequiredProperties t)) ''{}'',
     tr_ProvidedPropertyJSON = must_json_text (JObj (tk_ProvidedProperties t)) ''{}'',
     tr_CostJSON = must_json_text (cost_json (tk_Cost t)) ''{}'',
     tr_Status = string_default (tk_Status t) TaskStatusPlanned, tr_Reason = tk_Reason t,
     tr_WorkflowRunID = [], tr_APICaseRunID = [], tr_EvidenceRoot = [],
     tr_SummaryJSON = must_json_text (JObj (task_record_summary t)) ''{}'',
     tr_StartedAt = zero_time, tr_FinishedAt = zero_time, tr_CreatedAt = now\<rparr>"

definition record_from_edge :: "ident \<Rightarrow> task_edge \<Rightarrow> edge_record" where
  "record_from_edge pid e = \<lparr>er_PlanID = pid, er_FromTaskID = te_FromTaskID e,
     er_ToTaskID = te_ToTaskID e, er_Kind = string_default (te_Kind e) ''control'',
     er_Required = te_Required e,
     er_MappingsJSON = must_json_text (JArr (map JObj (te_Mappings e))) ''[]'',
     er_SummaryJSON = must_json_text (JObj (te_Summary e)) ''{}'',
     er_SortOrder = te_SortOrder e\<rparr>"

text \<open>The argument \<open>clock\<close> is the time \<open>time.Now\<close> returns when \<open>now\<close> is zero.\<close>

definition record_from_plan :: "time \<Rightarrow> plan \<Rightarrow> time \<Rightarrow> planner_error + plan_record" where
  "record_from_plan clock p now0 =
     (if blank (pl_ID p) then Inl Plan_ID_Required
      else
        (let now = (if now0 = zero_time then clock else now0) in
         Inr \<lparr>pr_Instance = instance_from_plan p now,
           pr_Tasks = map (record_from_task (pl_ID p) now) (pl_PhysicalTasks p),
           pr_TaskEdges = map (record_from_edge (pl_ID p)) (pl_TaskEdges p)\<rparr>))"

section \<open>Before a write\<close>

definition normalize_json_text :: "string \<Rightarrow> string" where
  "normalize_json_text value =
     (let v = trim_space value in
      if v = [] then v else case json_unmarshal v of None \<Rightarrow> v | Some d \<Rightarrow> json_marshal d)"

definition json_for_db :: "string \<Rightarrow> string \<Rightarrow> string" where
  "json_for_db value dflt =
     (let v = trim_space value in if v = [] then dflt else normalize_json_text v)"

definition prepare_instance :: "time \<Rightarrow> plan_instance \<Rightarrow> plan_instance" where
  "prepare_instance now i = i\<lparr>
     pi_Status := (if pi_Status i = [] then ''planned'' else pi_Status i),
     pi_Mode := (if pi_Mode i = [] then ''explain'' else pi_Mode i),
     pi_PlannerVersion := (if pi_PlannerVersion i = [] then ''map-planner/v1'' else pi_PlannerVersion i),
     pi_PlannerOptionsJSON := json_for_db (pi_PlannerOptionsJSON i) ''{}'',
     pi_LogicalPlanJSON := json_for_db (pi_LogicalPlanJSON i) ''[]'',
     pi_OptimizedPlanJSON := json_for_db (pi_OptimizedPlanJSON i) ''[]'',
     pi_PhysicalPlanJSON := json_for_db (pi_PhysicalPlanJSON i) ''[]'',
     pi_RuleTraceJSON := json_for_db (pi_RuleTraceJSON i) ''[]'',
     pi_CandidatePlanJSON := json_for_db (pi_CandidatePlanJSON i) ''[]'',
     pi_CostJSON := json_for_db (pi_CostJSON i) ''{}'',
     pi_PropertyJSON := json_for_db (pi_PropertyJSON i) ''{}'',
     pi_SummaryJSON := json_for_db (pi_SummaryJSON i) ''{}'',
     pi_CreatedAt := (if pi_CreatedAt i = zero_time then now else pi_CreatedAt i)\<rparr>"

definition prepare_task :: "ident \<Rightarrow> time \<Rightarrow> nat \<Rightarrow> task_record \<Rightarrow> task_record" where
  "prepare_task pid now i t = t\<lparr>
     tr_PlanID := string_default (tr_PlanID t) pid,
     tr_Index := (if tr_Index t = 0 then i + 1 else tr_Index t),
     tr_RequiredPropertyJSON := json_for_db (tr_RequiredPropertyJSON t) ''{}'',
     tr_ProvidedPropertyJSON := json_for_db (tr_ProvidedPropertyJSON t) ''{}'',
     tr_CostJSON := json_for_db (tr_CostJSON t) ''{}'',
     tr_SummaryJSON := json_for_db (tr_SummaryJSON t) ''{}'',
     tr_Status := (if tr_Status t = [] then ''planned'' else tr_Status t),
     tr_CreatedAt := (if tr_CreatedAt t = zero_time then now else tr_CreatedAt t)\<rparr>"

definition prepare_edge :: "ident \<Rightarrow> nat \<Rightarrow> edge_record \<Rightarrow> edge_record" where
  "prepare_edge pid i e = e\<lparr>
     er_PlanID := string_default (er_PlanID e) pid,
     er_Kind := string_default (er_Kind e) ''control'',
     er_MappingsJSON := json_for_db (er_MappingsJSON e) ''[]'',
     er_SummaryJSON := json_for_db (er_SummaryJSON e) ''{}'',
     er_SortOrder := (if er_SortOrder e = 0 then i + 1 else er_SortOrder e)\<rparr>"

definition prepare_test_map_plan_record :: "plan_record \<Rightarrow> time \<Rightarrow> plan_record" where
  "prepare_test_map_plan_record r now =
     (let i = prepare_instance now (pr_Instance r) in
      \<lparr>pr_Instance = i,
       pr_Tasks = map (\<lambda>(k, t). prepare_task (pi_ID i) now k t) (enumerate 0 (pr_Tasks r)),
       pr_TaskEdges = map (\<lambda>(k, e). prepare_edge (pi_ID i) k e) (enumerate 0 (pr_TaskEdges r))\<rparr>)"

section \<open>Stored text is canonical\<close>

lemma json_marshal_ends:
  assumes "json_wf v"
  shows "json_marshal v \<noteq> [] \<and> \<not> is_space (hd (json_marshal v)) \<and> \<not> is_space (last (json_marshal v))"
proof (cases v)
  case (JNum l)
  have nz: "l \<noteq> []" using assms JNum by (auto simp: valid_num_def Let_def)
  have "\<forall>c \<in> set l. \<not> is_space c"
    using assms JNum by (auto simp: list_all_iff is_num_char_def is_digit_def is_space_def)
  with nz JNum show ?thesis by simp
qed (auto simp: is_space_def json_quote_def)

lemma normalize_json_text_marshal [simp]:
  assumes "json_wf v"
  shows "normalize_json_text (json_marshal v) = json_marshal v"
proof -
  have "trim_space (json_marshal v) = json_marshal v"
    using json_marshal_ends [OF assms] by (intro trim_space_trimmed) blast
  then show ?thesis using json_marshal_ends [OF assms] json_unmarshal_marshal [OF assms]
    by (simp add: normalize_json_text_def Let_def)
qed

lemma json_for_db_marshal [simp]:
  assumes "json_wf v"
  shows "json_for_db (json_marshal v) d = json_marshal v"
proof -
  have "trim_space (json_marshal v) = json_marshal v"
    using json_marshal_ends [OF assms] by (intro trim_space_trimmed) blast
  then show ?thesis using json_marshal_ends [OF assms] assms by (simp add: json_for_db_def Let_def)
qed

lemma normalize_json_text_idem [simp]:
  "normalize_json_text (normalize_json_text s) = normalize_json_text s"
proof (cases "json_unmarshal (trim_space s)")
  case None
  then have "normalize_json_text s = trim_space s" by (simp add: normalize_json_text_def Let_def)
  then show ?thesis using None by (simp add: normalize_json_text_def Let_def)
next
  case (Some v)
  show ?thesis
  proof (cases "trim_space s = []")
    case False
    then have "normalize_json_text s = json_marshal v" using Some by (simp add: normalize_json_text_def Let_def)
    then show ?thesis using json_unmarshal_wf [OF Some] by simp
  qed (simp add: normalize_json_text_def)
qed

lemma normalize_json_text_not_blank: "trim_space s \<noteq> [] \<Longrightarrow> trim_space (normalize_json_text s) \<noteq> []"
proof -
  assume s: "trim_space s \<noteq> []"
  have "trim_space (json_marshal v) = json_marshal v \<and> json_marshal v \<noteq> []" if "json_wf v" for v
    using json_marshal_ends [OF that] by (auto intro: trim_space_trimmed)
  then show ?thesis using s
    by (auto simp: normalize_json_text_def Let_def dest: json_unmarshal_wf split: option.splits)
qed

lemma normalize_json_text_trim [simp]: "normalize_json_text (trim_space s) = normalize_json_text s"
  by (simp add: normalize_json_text_def)

lemma json_for_db_idem:
  assumes "json_for_db d d = d"
  shows "json_for_db (json_for_db s d) d = json_for_db s d"
  using assms normalize_json_text_not_blank [of s] by (auto simp: json_for_db_def Let_def)

lemma json_for_db_defaults [simp]:
  "json_for_db ''{}'' ''{}'' = ''{}''" "json_for_db ''[]'' ''[]'' = ''[]''"
  by code_simp+

lemmas json_for_db_stable [simp] =
  json_for_db_idem [OF json_for_db_defaults(1)] json_for_db_idem [OF json_for_db_defaults(2)]

lemma string_default_idem [simp]: "string_default (string_default v d) d = string_default v d"
  by (simp add: string_default_def)

lemma prepare_task_idem:
  "now \<noteq> zero_time \<Longrightarrow> prepare_task pid now' k (prepare_task pid now k t) = prepare_task pid now k t"
  by (simp add: prepare_task_def)

lemma prepare_edge_idem: "prepare_edge pid k (prepare_edge pid k e) = prepare_edge pid k e"
  by (simp add: prepare_edge_def)

lemma map_enumerate_map:
  "map (\<lambda>(k, t). f k t) (enumerate n (map (\<lambda>(k, t). g k t) (enumerate n xs))) = map (\<lambda>(k, t). f k (g k t)) (enumerate n xs)"
  by (induction xs arbitrary: n) simp_all

text \<open>
  What the store writes is stable: preparing a record a second time, as happens when a
  loaded plan is saved again, changes nothing, so identifiers, task numbers, defaults and the
  canonical JSON text of every column are fixed by the first save.
\<close>

theorem prepare_record_idem:
  assumes "now \<noteq> zero_time"
  shows "prepare_test_map_plan_record (prepare_test_map_plan_record r now) now' =
     prepare_test_map_plan_record r now"
proof -
  have inst: "prepare_instance now' (prepare_instance now (pr_Instance r)) = prepare_instance now (pr_Instance r)"
    using assms by (simp add: prepare_instance_def)
  show ?thesis
    using assms
    by (simp add: prepare_test_map_plan_record_def Let_def inst map_enumerate_map prepare_task_idem prepare_edge_idem)
qed

definition demo_instance :: plan_instance where
  "demo_instance = \<lparr>pi_ID = ''plan.1'', pi_MapID = ''m'', pi_ProfileID = ''p'', pi_EnvironmentID = [],
     pi_Scope = ScopeAll, pi_TargetKind = TargetMap, pi_TargetID = ''m'', pi_Mode = [], pi_Status = [],
     pi_PlannerVersion = [], pi_PlannerOptionsJSON = [], pi_LogicalPlanJSON = [],
     pi_OptimizedPlanJSON = [], pi_PhysicalPlanJSON = [], pi_RuleTraceJSON = [],
     pi_CandidatePlanJSON = [], pi_CostJSON = [], pi_PropertyJSON = [], pi_SummaryJSON = [],
     pi_CreatedAt = zero_time, pi_StartedAt = zero_time, pi_FinishedAt = zero_time\<rparr>"

theorem prepare_record_idem_witness:
  "prepare_test_map_plan_record (prepare_test_map_plan_record
      \<lparr>pr_Instance = demo_instance, pr_Tasks = [record_from_task [] 0 blank_task], pr_TaskEdges = []\<rparr> 7) 9 =
    prepare_test_map_plan_record
      \<lparr>pr_Instance = demo_instance, pr_Tasks = [record_from_task [] 0 blank_task], pr_TaskEdges = []\<rparr> 7"
  by (rule prepare_record_idem) simp

section \<open>A task survives the store\<close>

lemma must_json_text_obj [simp]: "must_json_text (JObj kvs) d = obj_text kvs"
  by (simp add: must_json_text_def Let_def obj_text_def)

lemma json_wf_put_unless_blank [simp]:
  "json_wf (JObj kvs) \<Longrightarrow> json_wf (JObj (put_unless_blank k v kvs))"
  unfolding put_unless_blank_def by (cases "blank v") (auto intro!: json_wf_obj_put simp del: json_wf.simps(3))

end
