(* ===== verification/Map_Store.thy ===== *)
theory Map_Store
  imports Plan_Records
begin

text \<open>
  The store of plans (\<open>internal/store/sqlstore/store_map_planner.go\<close>) and the leases
  that fence their execution (\<open>store_map_plan_leases.go\<close>,
  \<open>internal/store/map_plan_lease.go\<close>). The four tables are the state \<open>plan_db\<close>;
  a transaction is a function of the state that returns an error and the old state, or the new
  state. How a database keeps a time stamp and compares it with a bound argument is the
  parameter \<open>sql_dialect\<close>: SQLite keeps RFC 3339 text, the others a rounded time stamp.
  Connection failures are not modelled: they abort the transaction.
\<close>

section \<open>State\<close>

record sql_dialect =
  sd_read :: "time \<Rightarrow> time"
  sd_after :: "time \<Rightarrow> time \<Rightarrow> bool"

record lease =
  le_PlanID :: ident
  le_OwnerID :: ident
  le_Token :: ident
  le_ExpiresAt :: time
  le_UpdatedAt :: time

record plan_db =
  db_instances :: "plan_instance list"
  db_tasks :: "task_record list"
  db_edges :: "edge_record list"
  db_leases :: "ident \<rightharpoonup> lease"

datatype store_error =
    Store_Not_Found ident
  | Row_Exists ident
  | Lease_Fields_Required
  | Claim_Expiry_Not_After
  | Renew_Expiry_Not_After
  | Lease_Conflict ident ident time string
  | Lease_Lost ident

type_synonym 'a db_result = "(store_error + 'a) \<times> plan_db"

definition empty_db :: plan_db where
  "empty_db = \<lparr>db_instances = [], db_tasks = [], db_edges = [], db_leases = Map.empty\<rparr>"

definition StatusRunning :: string where "StatusRunning = ''running''"

section \<open>Plans and their rows\<close>

definition delete_test_map_plan :: "ident \<Rightarrow> plan_db \<Rightarrow> plan_db" where
  "delete_test_map_plan pid db = db\<lparr>
     db_edges := filter (\<lambda>e. er_PlanID e \<noteq> pid) (db_edges db),
     db_tasks := filter (\<lambda>t. tr_PlanID t \<noteq> pid) (db_tasks db),
     db_instances := filter (\<lambda>i. pi_ID i \<noteq> pid) (db_instances db),
     db_leases := (db_leases db)(pid := None)\<rparr>"

definition has_instance :: "plan_db \<Rightarrow> ident \<Rightarrow> bool" where
  "has_instance db pid \<longleftrightarrow> pid \<in> pi_ID ` set (db_instances db)"

definition insert_instance :: "plan_instance \<Rightarrow> plan_db \<Rightarrow> store_error + plan_db" where
  "insert_instance i db =
     (if has_instance db (pi_ID i) then Inl (Row_Exists (pi_ID i))
      else Inr (db\<lparr>db_instances := db_instances db @ [i]\<rparr>))"

definition task_key :: "task_record \<Rightarrow> ident \<times> ident" where
  "task_key t = (tr_PlanID t, tr_ID t)"

definition edge_key :: "edge_record \<Rightarrow> ident \<times> ident \<times> ident \<times> string" where
  "edge_key e = (er_PlanID e, er_FromTaskID e, er_ToTaskID e, er_Kind e)"

definition insert_task :: "task_record \<Rightarrow> plan_db \<Rightarrow> store_error + plan_db" where
  "insert_task t db =
     (if task_key t \<in> task_key ` set (db_tasks db) then Inl (Row_Exists (tr_ID t))
      else if \<not> has_instance db (tr_PlanID t) then Inl (Store_Not_Found (tr_PlanID t))
      else Inr (db\<lparr>db_tasks := db_tasks db @ [t]\<rparr>))"

definition insert_edge :: "edge_record \<Rightarrow> plan_db \<Rightarrow> store_error + plan_db" where
  "insert_edge e db =
     (if edge_key e \<in> edge_key ` set (db_edges db) then Inl (Row_Exists (er_FromTaskID e))
      else if \<not> has_instance db (er_PlanID e) then Inl (Store_Not_Found (er_PlanID e))
      else Inr (db\<lparr>db_edges := db_edges db @ [e]\<rparr>))"

fun each :: "('r \<Rightarrow> plan_db \<Rightarrow> store_error + plan_db) \<Rightarrow> 'r list \<Rightarrow> plan_db \<Rightarrow> store_error + plan_db" where
  "each f [] db = Inr db"
| "each f (r # rs) db = (case f r db of Inl e \<Rightarrow> Inl e | Inr db' \<Rightarrow> each f rs db')"

definition transaction :: "plan_db \<Rightarrow> store_error + plan_db \<Rightarrow> unit db_result" where
  "transaction db r = (case r of Inl e \<Rightarrow> (Inl e, db) | Inr db' \<Rightarrow> (Inr (), db'))"

definition save_test_map_plan :: "time \<Rightarrow> plan_record \<Rightarrow> plan_db \<Rightarrow> unit db_result" where
  "save_test_map_plan clock r0 db =
     (let r = prepare_test_map_plan_record r0 clock;
          db1 = delete_test_map_plan (pi_ID (pr_Instance r)) db
      in transaction db
        (case insert_instance (pr_Instance r) db1 of Inl e \<Rightarrow> Inl e | Inr db2 \<Rightarrow>
          (case each insert_task (pr_Tasks r) db2 of Inl e \<Rightarrow> Inl e | Inr db3 \<Rightarrow>
            each insert_edge (pr_TaskEdges r) db3)))"

definition scan_instance :: "sql_dialect \<Rightarrow> plan_instance \<Rightarrow> plan_instance" where
  "scan_instance sd i = i\<lparr>
     pi_PlannerOptionsJSON := normalize_json_text (pi_PlannerOptionsJSON i),
     pi_LogicalPlanJSON := normalize_json_text (pi_LogicalPlanJSON i),
     pi_OptimizedPlanJSON := normalize_json_text (pi_OptimizedPlanJSON i),
     pi_PhysicalPlanJSON := normalize_json_text (pi_PhysicalPlanJSON i),
     pi_RuleTraceJSON := normalize_json_text (pi_RuleTraceJSON i),
     pi_CandidatePlanJSON := normalize_json_text (pi_CandidatePlanJSON i),
     pi_CostJSON := normalize_json_text (pi_CostJSON i),
     pi_PropertyJSON := normalize_json_text (pi_PropertyJSON i),
     pi_SummaryJSON := normalize_json_text (pi_SummaryJSON i),
     pi_CreatedAt := sd_read sd (pi_CreatedAt i), pi_StartedAt := sd_read sd (pi_StartedAt i),
     pi_FinishedAt := sd_read sd (pi_FinishedAt i)\<rparr>"

definition scan_task :: "sql_dialect \<Rightarrow> task_record \<Rightarrow> task_record" where
  "scan_task sd t = t\<lparr>
     tr_RequiredPropertyJSON := normalize_json_text (tr_RequiredPropertyJSON t),
     tr_ProvidedPropertyJSON := normalize_json_text (tr_ProvidedPropertyJSON t),
     tr_CostJSON := normalize_json_text (tr_CostJSON t),
     tr_SummaryJSON := normalize_json_text (tr_SummaryJSON t),
     tr_StartedAt := sd_read sd (tr_StartedAt t), tr_FinishedAt := sd_read sd (tr_FinishedAt t),
     tr_CreatedAt := sd_read sd (tr_CreatedAt t)\<rparr>"

definition scan_edge :: "edge_record \<Rightarrow> edge_record" where
  "scan_edge e = e\<lparr>er_MappingsJSON := normalize_json_text (er_MappingsJSON e),
     er_SummaryJSON := normalize_json_text (er_SummaryJSON e)\<rparr>"

definition task_order :: "task_record \<Rightarrow> nat \<times> ident" where
  "task_order t = (tr_Index t, tr_ID t)"

definition edge_order :: "edge_record \<Rightarrow> nat \<times> ident \<times> ident \<times> string" where
  "edge_order e = (er_SortOrder e, er_FromTaskID e, er_ToTaskID e, er_Kind e)"

definition get_test_map_plan :: "sql_dialect \<Rightarrow> plan_db \<Rightarrow> ident \<Rightarrow> store_error + plan_record" where
  "get_test_map_plan sd db pid0 =
     (let pid = trim_space pid0 in
      if pid = [] then Inl (Store_Not_Found pid)
      else case find_first (\<lambda>i. pi_ID i = pid) (db_instances db) of
        None \<Rightarrow> Inl (Store_Not_Found pid)
      | Some i \<Rightarrow> Inr \<lparr>pr_Instance = scan_instance sd i,
          pr_Tasks = map (scan_task sd) (sort_key task_order (filter (\<lambda>t. tr_PlanID t = pid) (db_tasks db))),
          pr_TaskEdges = map scan_edge (sort_key edge_order (filter (\<lambda>e. er_PlanID e = pid) (db_edges db)))\<rparr>)"

definition update_instance_row :: "plan_instance \<Rightarrow> plan_db \<Rightarrow> store_error + plan_db" where
  "update_instance_row item db =
     (if has_instance db (pi_ID item) then Inr (db\<lparr>db_instances := map (\<lambda>i. if pi_ID i = pi_ID item
        then i\<lparr>pi_Status := pi_Status item, pi_SummaryJSON := json_for_db (pi_SummaryJSON item) ''{}'',
          pi_StartedAt := pi_StartedAt item, pi_FinishedAt := pi_FinishedAt item\<rparr> else i) (db_instances db)\<rparr>)
      else Inl (Store_Not_Found (pi_ID item)))"

definition update_task_row :: "task_record \<Rightarrow> plan_db \<Rightarrow> store_error + plan_db" where
  "update_task_row item db =
     (if task_key item \<in> task_key ` set (db_tasks db) then Inr (db\<lparr>db_tasks := map (\<lambda>t. if task_key t = task_key item
        then t\<lparr>tr_Status := tr_Status item, tr_Reason := tr_Reason item,
          tr_WorkflowRunID := tr_WorkflowRunID item, tr_APICaseRunID := tr_APICaseRunID item,
          tr_EvidenceRoot := tr_EvidenceRoot item, tr_SummaryJSON := json_for_db (tr_SummaryJSON item) ''{}'',
          tr_StartedAt := tr_StartedAt item, tr_FinishedAt := tr_FinishedAt item\<rparr> else t) (db_tasks db)\<rparr>)
      else Inl (Store_Not_Found (tr_ID item)))"

definition update_test_map_plan_instance :: "plan_instance \<Rightarrow> plan_db \<Rightarrow> unit db_result" where
  "update_test_map_plan_instance item db = transaction db (update_instance_row item db)"

definition update_test_map_plan_task :: "task_record \<Rightarrow> plan_db \<Rightarrow> unit db_result" where
  "update_test_map_plan_task item db = transaction db (update_task_row item db)"

section \<open>Claiming a plan\<close>

definition now_or :: "time \<Rightarrow> time \<Rightarrow> time" where
  "now_or clock now = (if now = zero_time then clock else now)"

definition prepare_lease_claim :: "time \<Rightarrow> lease \<Rightarrow> time \<Rightarrow> store_error + lease \<times> time" where
  "prepare_lease_claim clock requested0 now0 =
     (let requested = requested0\<lparr>le_PlanID := trim_space (le_PlanID requested0),
            le_OwnerID := trim_space (le_OwnerID requested0), le_Token := trim_space (le_Token requested0)\<rparr>;
          now = now_or clock now0
      in if le_PlanID requested = [] \<or> le_OwnerID requested = [] \<or> le_Token requested = []
           then Inl Lease_Fields_Required
         else if \<not> now < le_ExpiresAt requested then Inl Claim_Expiry_Not_After
         else Inr (requested, now))"

text \<open>
  What the claiming transaction reads first: the status of the plan and its lease row. The
  writes that follow are conditional, so the model lets them run on any state, not only on the
  one that was read: another executor may have committed in between.
\<close>

record claim_snapshot =
  sn_status :: "string option"
  sn_lease :: "lease option"

definition read_lease :: "sql_dialect \<Rightarrow> lease \<Rightarrow> lease" where
  "read_lease sd l = l\<lparr>le_ExpiresAt := sd_read sd (le_ExpiresAt l), le_UpdatedAt := sd_read sd (le_UpdatedAt l)\<rparr>"

definition claim_read :: "sql_dialect \<Rightarrow> plan_db \<Rightarrow> ident \<Rightarrow> claim_snapshot" where
  "claim_read sd db pid =
     \<lparr>sn_status = map_option pi_Status (find_first (\<lambda>i. pi_ID i = pid) (db_instances db)),
      sn_lease = map_option (read_lease sd) (db_leases db pid)\<rparr>"

definition lease_conflict :: "sql_dialect \<Rightarrow> plan_db \<Rightarrow> ident \<Rightarrow> string \<Rightarrow> store_error" where
  "lease_conflict sd db pid why =
     (case db_leases db pid of
        None \<Rightarrow> Lease_Conflict pid [] zero_time why
      | Some l \<Rightarrow> Lease_Conflict pid (le_OwnerID l) (sd_read sd (le_ExpiresAt l)) why)"

definition mark_claimed :: "ident \<Rightarrow> time \<Rightarrow> plan_db \<Rightarrow> store_error + plan_db" where
  "mark_claimed pid now db =
     (if has_instance db pid then Inr (db\<lparr>db_instances := map (\<lambda>i. if pi_ID i = pid
        then i\<lparr>pi_Status := StatusRunning, pi_StartedAt := now, pi_FinishedAt := zero_time\<rparr> else i) (db_instances db)\<rparr>)
      else Inl (Store_Not_Found pid))"

definition set_lease :: "ident \<Rightarrow> lease \<Rightarrow> plan_db \<Rightarrow> plan_db" where
  "set_lease pid l db = db\<lparr>db_leases := (db_leases db)(pid \<mapsto> l)\<rparr>"

definition take_lease :: "lease \<Rightarrow> time \<Rightarrow> plan_db \<Rightarrow> lease db_result" where
  "take_lease requested now db =
     (case mark_claimed (le_PlanID requested) now
         (set_lease (le_PlanID requested) (requested\<lparr>le_UpdatedAt := now\<rparr>) db) of
        Inl e \<Rightarrow> (Inl e, db)
      | Inr db' \<Rightarrow> (Inr (requested\<lparr>le_UpdatedAt := now\<rparr>), db'))"

definition replaceable :: "sql_dialect \<Rightarrow> ident \<Rightarrow> time \<Rightarrow> lease option \<Rightarrow> bool" where
  "replaceable sd token now row =
     (case row of None \<Rightarrow> False | Some l \<Rightarrow> le_Token l = token \<and> \<not> sd_after sd (le_ExpiresAt l) now)"

definition claim_write ::
  "sql_dialect \<Rightarrow> claim_snapshot \<Rightarrow> lease \<Rightarrow> time \<Rightarrow> bool \<Rightarrow> plan_db \<Rightarrow> lease db_result" where
  "claim_write sd sn requested now allow_unleased db =
     (let pid = le_PlanID requested in
      case sn_status sn of
        None \<Rightarrow> (Inl (Store_Not_Found pid), db)
      | Some status \<Rightarrow>
          (case sn_lease sn of
             None \<Rightarrow>
               if status = StatusRunning \<and> \<not> allow_unleased then
                 (Inl (Lease_Conflict pid [] zero_time
                    ''plan is already running without a lease; verify side effects and use --resume for explicit recovery''), db)
               else if db_leases db pid \<noteq> None then
                 (Inl (lease_conflict sd db pid ''another executor claimed the plan''), db)
               else take_lease requested now db
           | Some current \<Rightarrow>
               if now < le_ExpiresAt current then
                 (Inl (Lease_Conflict pid (le_OwnerID current) (le_ExpiresAt current) []), db)
               else if \<not> replaceable sd (le_Token current) now (db_leases db pid) then
                 (Inl (lease_conflict sd db pid ''another executor renewed or claimed the plan''), db)
               else take_lease requested now db))"

definition claim_lease_from ::
  "sql_dialect \<Rightarrow> time \<Rightarrow> claim_snapshot \<Rightarrow> lease \<Rightarrow> time \<Rightarrow> bool \<Rightarrow> plan_db \<Rightarrow> lease db_result" where
  "claim_lease_from sd clock sn requested now allow_unleased db =
     (case prepare_lease_claim clock requested now of
        Inl e \<Rightarrow> (Inl e, db)
      | Inr (requested', now') \<Rightarrow> claim_write sd sn requested' now' allow_unleased db)"

text \<open>\<open>ClaimTestMapPlanLease\<close> with no other transaction between its reads and its writes.\<close>

definition claim_test_map_plan_lease ::
  "sql_dialect \<Rightarrow> time \<Rightarrow> lease \<Rightarrow> time \<Rightarrow> bool \<Rightarrow> plan_db \<Rightarrow> lease db_result" where
  "claim_test_map_plan_lease sd clock requested now allow_unleased db =
     claim_lease_from sd clock (claim_read sd db (trim_space (le_PlanID requested))) requested now allow_unleased db"

section \<open>Writing under a lease\<close>

definition validate_lease_target :: "lease \<Rightarrow> ident \<Rightarrow> store_error option" where
  "validate_lease_target l pid =
     (if blank (le_PlanID l) \<or> blank (le_OwnerID l) \<or> blank (le_Token l) then Some Lease_Fields_Required
      else if trim_space pid \<noteq> trim_space (le_PlanID l) then Some (Lease_Lost (le_PlanID l))
      else None)"

definition lease_active :: "sql_dialect \<Rightarrow> lease \<Rightarrow> time \<Rightarrow> plan_db \<Rightarrow> bool" where
  "lease_active sd l now db =
     (case db_leases db (le_PlanID l) of
        None \<Rightarrow> False
      | Some row \<Rightarrow> le_OwnerID row = le_OwnerID l \<and> le_Token row = le_Token l \<and> sd_after sd (le_ExpiresAt row) now)"

definition require_active_lease :: "sql_dialect \<Rightarrow> lease \<Rightarrow> time \<Rightarrow> plan_db \<Rightarrow> store_error option" where
  "require_active_lease sd l now db = (if lease_active sd l now db then None else Some (Lease_Lost (le_PlanID l)))"

definition renew_lease_tx ::
  "sql_dialect \<Rightarrow> time \<Rightarrow> lease \<Rightarrow> time \<Rightarrow> time \<Rightarrow> plan_db \<Rightarrow> store_error + lease \<times> plan_db" where
  "renew_lease_tx sd clock l now0 expires db =
     (let now = now_or clock now0 in
      if \<not> now < expires then Inl Renew_Expiry_Not_After
      else if lease_active sd l now db then
        Inr (l\<lparr>le_ExpiresAt := expires, le_UpdatedAt := now\<rparr>,
          set_lease (le_PlanID l) ((the (db_leases db (le_PlanID l)))\<lparr>le_ExpiresAt := expires, le_UpdatedAt := now\<rparr>) db)
      else case require_active_lease sd l now db of
        Some e \<Rightarrow> Inl e
      | None \<Rightarrow> Inr (l\<lparr>le_ExpiresAt := expires, le_UpdatedAt := now\<rparr>, db))"

definition renew_test_map_plan_lease ::
  "sql_dialect \<Rightarrow> time \<Rightarrow> lease \<Rightarrow> time \<Rightarrow> time \<Rightarrow> plan_db \<Rightarrow> lease db_result" where
  "renew_test_map_plan_lease sd clock l now expires db =
     (case renew_lease_tx sd clock l now expires db of Inl e \<Rightarrow> (Inl e, db) | Inr (l', db') \<Rightarrow> (Inr l', db'))"

definition checkpoint_with_lease ::
  "sql_dialect \<Rightarrow> time \<Rightarrow> lease \<Rightarrow> ident \<Rightarrow> time \<Rightarrow> time \<Rightarrow> (plan_db \<Rightarrow> store_error + plan_db) \<Rightarrow> plan_db \<Rightarrow> lease db_result" where
  "checkpoint_with_lease sd clock l pid now expires update db =
     (case validate_lease_target l pid of Some e \<Rightarrow> (Inl e, db) | None \<Rightarrow>
       (case renew_lease_tx sd clock l now expires db of Inl e \<Rightarrow> (Inl e, db) | Inr (l', db1) \<Rightarrow>
         (case update db1 of Inl e \<Rightarrow> (Inl e, db) | Inr db2 \<Rightarrow> (Inr l', db2))))"

definition update_task_with_lease ::
  "sql_dialect \<Rightarrow> time \<Rightarrow> lease \<Rightarrow> task_record \<Rightarrow> time \<Rightarrow> time \<Rightarrow> plan_db \<Rightarrow> lease db_result" where
  "update_task_with_lease sd clock l item now expires =
     checkpoint_with_lease sd clock l (tr_PlanID item) now expires (update_task_row item)"

definition update_instance_with_lease ::
  "sql_dialect \<Rightarrow> time \<Rightarrow> lease \<Rightarrow> plan_instance \<Rightarrow> time \<Rightarrow> time \<Rightarrow> plan_db \<Rightarrow> lease db_result" where
  "update_instance_with_lease sd clock l item now expires =
     checkpoint_with_lease sd clock l (pi_ID item) now expires (update_instance_row item)"

fun first_error :: "('a \<Rightarrow> store_error option) \<Rightarrow> 'a list \<Rightarrow> store_error option" where
  "first_error f [] = None"
| "first_error f (x # xs) = (case f x of Some e \<Rightarrow> Some e | None \<Rightarrow> first_error f xs)"

definition reset_test_map_plan_with_lease ::
  "sql_dialect \<Rightarrow> time \<Rightarrow> lease \<Rightarrow> plan_record \<Rightarrow> time \<Rightarrow> time \<Rightarrow> plan_db \<Rightarrow> lease db_result" where
  "reset_test_map_plan_with_lease sd clock l r now expires db =
     (case first_error (validate_lease_target l) (pi_ID (pr_Instance r) # map tr_PlanID (pr_Tasks r)) of
        Some e \<Rightarrow> (Inl e, db)
      | None \<Rightarrow>
       (case renew_lease_tx sd clock l now expires db of Inl e \<Rightarrow> (Inl e, db) | Inr (l', db1) \<Rightarrow>
         (case each update_task_row (pr_Tasks r) db1 of Inl e \<Rightarrow> (Inl e, db) | Inr db2 \<Rightarrow>
           (case update_instance_row (pr_Instance r) db2 of Inl e \<Rightarrow> (Inl e, db) | Inr db3 \<Rightarrow> (Inr l', db3)))))"

definition release_test_map_plan_lease ::
  "sql_dialect \<Rightarrow> time \<Rightarrow> lease \<Rightarrow> plan_instance \<Rightarrow> time \<Rightarrow> plan_db \<Rightarrow> unit db_result" where
  "release_test_map_plan_lease sd clock l final now0 db =
     (case validate_lease_target l (pi_ID final) of Some e \<Rightarrow> (Inl e, db) | None \<Rightarrow>
       (let now = now_or clock now0 in
        case require_active_lease sd l now db of Some e \<Rightarrow> (Inl e, db) | None \<Rightarrow>
         (case update_instance_row final db of Inl e \<Rightarrow> (Inl e, db) | Inr db1 \<Rightarrow>
           (case db_leases db1 (le_PlanID l) of
              Some row \<Rightarrow>
                if le_OwnerID row = le_OwnerID l \<and> le_Token row = le_Token l
                  then (Inr (), db1\<lparr>db_leases := (db_leases db1)(le_PlanID l := None)\<rparr>)
                else (Inl (Lease_Lost (le_PlanID l)), db)
            | None \<Rightarrow> (Inl (Lease_Lost (le_PlanID l)), db)))))"

end
