(* ===== verification/Fenced_Store.thy ===== *)
theory Fenced_Store
  imports Main
begin

text \<open>
  The contracts of a store whose writes are fenced by holders: a write that names a holder succeeds
  only while that holder is on record. \<open>fenced_store\<close> says that only a claim puts a holder on
  record, so a holder that was replaced never writes again, in any interleaving of operations.
  \<open>exclusive_store\<close> adds that a holder stays on record until an operation ends it, and that a
  competing claim is refused meanwhile. The leases of plans are interpreted as the first contract, the
  claims of agent tasks as the second.

  An operation returns an error or \<open>None\<close>, and the new state; \<open>good\<close> is an invariant of the
  states, such as the primary keys of a table.
\<close>

locale fenced_store =
  fixes run :: "'o \<Rightarrow> 'd \<Rightarrow> 'e option \<times> 'd"
    and guard :: "'o \<Rightarrow> 'h option"
    and claims :: "'o \<Rightarrow> 'h option"
    and recorded :: "'d \<Rightarrow> 'h \<Rightarrow> bool"
    and good :: "'d \<Rightarrow> bool"
  assumes good_run: "good db \<Longrightarrow> good (snd (run op db))"
    and failed_keeps: "good db \<Longrightarrow> fst (run op db) \<noteq> None \<Longrightarrow> snd (run op db) = db"
    and guard_recorded: "good db \<Longrightarrow> guard op = Some h \<Longrightarrow> fst (run op db) = None \<Longrightarrow> recorded db h"
    and recorded_origin: "good db \<Longrightarrow> recorded (snd (run op db)) h \<Longrightarrow> recorded db h \<or> claims op = Some h"
begin

definition run_all :: "'o list \<Rightarrow> 'd \<Rightarrow> 'd" where
  "run_all ops db = fold (\<lambda>op d. snd (run op d)) ops db"

lemma run_all_simps [simp]:
  "run_all [] db = db" "run_all (op # ops) db = run_all ops (snd (run op db))"
  by (simp_all add: run_all_def)

lemma good_run_all: "good db \<Longrightarrow> good (run_all ops db)"
  by (induction ops arbitrary: db) (auto intro: good_run)

lemma stays_lost:
  assumes "good db" "\<not> recorded db h" "\<forall>op \<in> set ops. claims op \<noteq> Some h"
  shows "\<not> recorded (run_all ops db) h"
  using assms
proof (induction ops arbitrary: db)
  case (Cons op ops)
  then show ?case using recorded_origin [of db op h] good_run by auto
qed simp

lemma fenced:
  assumes "good db" "\<not> recorded db h" "\<forall>op \<in> set ops. claims op \<noteq> Some h" "guard w = Some h"
  shows "fst (run w (run_all ops db)) \<noteq> None \<and> snd (run w (run_all ops db)) = run_all ops db"
proof -
  have "fst (run w (run_all ops db)) \<noteq> None"
    using stays_lost [OF assms(1-3)] guard_recorded [OF good_run_all [OF assms(1)] assms(4)] by blast
  then show ?thesis using failed_keeps good_run_all [OF assms(1)] by blast
qed

text \<open>A guarded write that succeeds traces back to a claim of the same holder.\<close>

lemma guarded_after_claim:
  assumes "good db" "\<not> recorded db h" "guard w = Some h" "fst (run w (run_all ops db)) = None"
  shows "\<exists>op \<in> set ops. claims op = Some h"
  using fenced [OF assms(1,2) _ assms(3)] assms(4) by blast

end

locale exclusive_store = fenced_store run guard claims recorded good
  for run :: "'o \<Rightarrow> 'd \<Rightarrow> 'e option \<times> 'd" and guard :: "'o \<Rightarrow> 'h option" and claims :: "'o \<Rightarrow> 'h option"
    and recorded :: "'d \<Rightarrow> 'h \<Rightarrow> bool" and good :: "'d \<Rightarrow> bool" +
  fixes ends :: "'o \<Rightarrow> 'h \<Rightarrow> bool"
    and rivals :: "'h \<Rightarrow> 'h \<Rightarrow> bool"
  assumes kept: "good db \<Longrightarrow> recorded db h \<Longrightarrow> \<not> ends op h \<Longrightarrow> recorded (snd (run op db)) h"
    and refused: "good db \<Longrightarrow> recorded db h \<Longrightarrow> claims op = Some h' \<Longrightarrow> rivals h h' \<Longrightarrow> fst (run op db) \<noteq> None"
begin

lemma stays_held:
  assumes "good db" "recorded db h" "\<forall>op \<in> set ops. \<not> ends op h"
  shows "recorded (run_all ops db) h"
  using assms by (induction ops arbitrary: db) (auto intro: good_run kept)

lemma no_rival_claim:
  assumes "good db" "recorded db h" "\<forall>op \<in> set ops. \<not> ends op h" "claims w = Some h'" "rivals h h'"
  shows "fst (run w (run_all ops db)) \<noteq> None"
  using refused [OF good_run_all [OF assms(1)] stays_held [OF assms(1-3)] assms(4,5)] .

end

end
