(* ===== verification/Map_Store_Facts.thy ===== *)
theory Map_Store_Facts
  imports Map_Store Fenced_Store
begin

text \<open>
  Why at most one executor at a time can write to a plan. The operations on a lease satisfy the
  contract of a fenced store (the locale \<open>fenced_store\<close>): a guarded write succeeds only for
  the recorded owner and token, and only a claim puts an owner and token on record. The
  consequences (a superseded token never writes again, in any interleaving) are proved once from
  the contract; they hold for every \<open>sql_dialect\<close>, also one that misorders time stamps.
\<close>

section \<open>Operations as data\<close>

datatype store_op =
    Op_Save plan_record
  | Op_Plain_Task task_record
  | Op_Plain_Instance plan_instance
  | Op_Claim claim_snapshot lease time bool
  | Op_Renew lease time time
  | Op_Reset lease plan_record time time
  | Op_Task lease task_record time time
  | Op_Instance lease plan_instance time time
  | Op_Release lease plan_instance time

definition outcome :: "'a db_result \<Rightarrow> store_error option \<times> plan_db" where
  "outcome r = (case fst r of Inl e \<Rightarrow> Some e | Inr _ \<Rightarrow> None, snd r)"

text \<open>An operation runs at the time \<open>clock\<close> of the store's process.\<close>

fun run_op :: "sql_dialect \<Rightarrow> time \<times> store_op \<Rightarrow> plan_db \<Rightarrow> store_error option \<times> plan_db" where
  "run_op sd (clock, Op_Save r) db = outcome (save_test_map_plan clock r db)"
| "run_op sd (clock, Op_Plain_Task t) db = outcome (update_test_map_plan_task t db)"
| "run_op sd (clock, Op_Plain_Instance i) db = outcome (update_test_map_plan_instance i db)"
| "run_op sd (clock, Op_Claim sn l now allow) db = outcome (claim_lease_from sd clock sn l now allow db)"
| "run_op sd (clock, Op_Renew l now ex) db = outcome (renew_test_map_plan_lease sd clock l now ex db)"
| "run_op sd (clock, Op_Reset l r now ex) db = outcome (reset_test_map_plan_with_lease sd clock l r now ex db)"
| "run_op sd (clock, Op_Task l t now ex) db = outcome (update_task_with_lease sd clock l t now ex db)"
| "run_op sd (clock, Op_Instance l i now ex) db = outcome (update_instance_with_lease sd clock l i now ex db)"
| "run_op sd (clock, Op_Release l i now) db = outcome (release_test_map_plan_lease sd clock l i now db)"

type_synonym holder = "ident \<times> ident \<times> ident"

definition lease_holder :: "lease \<Rightarrow> holder" where
  "lease_holder l = (le_PlanID l, le_OwnerID l, le_Token l)"

fun op_guard :: "time \<times> store_op \<Rightarrow> holder option" where
  "op_guard (_, Op_Renew l _ _) = Some (lease_holder l)"
| "op_guard (_, Op_Reset l _ _ _) = Some (lease_holder l)"
| "op_guard (_, Op_Task l _ _ _) = Some (lease_holder l)"
| "op_guard (_, Op_Instance l _ _ _) = Some (lease_holder l)"
| "op_guard (_, Op_Release l _ _) = Some (lease_holder l)"
| "op_guard _ = None"

fun op_claims :: "time \<times> store_op \<Rightarrow> holder option" where
  "op_claims (_, Op_Claim _ l _ _) = Some (trim_space (le_PlanID l), trim_space (le_OwnerID l), trim_space (le_Token l))"
| "op_claims _ = None"

definition on_record :: "plan_db \<Rightarrow> holder \<Rightarrow> bool" where
  "on_record db h \<longleftrightarrow> (case h of (pid, own, tok) \<Rightarrow>
     (case db_leases db pid of None \<Rightarrow> False | Some row \<Rightarrow> le_OwnerID row = own \<and> le_Token row = tok))"

section \<open>The store keeps the contract\<close>

lemma outcome_simps [simp]:
  "outcome (Inl e, db) = (Some e, db)" "outcome (Inr v, db) = (None, db)"
  by (simp_all add: outcome_def)

lemma update_rows_leases:
  "update_instance_row i db = Inr db' \<Longrightarrow> db_leases db' = db_leases db"
  "update_task_row t db = Inr db' \<Longrightarrow> db_leases db' = db_leases db"
  "insert_instance i db = Inr db' \<Longrightarrow> db_leases db' = db_leases db"
  "insert_task t db = Inr db' \<Longrightarrow> db_leases db' = db_leases db"
  "insert_edge e db = Inr db' \<Longrightarrow> db_leases db' = db_leases db"
  "mark_claimed pid now db = Inr db' \<Longrightarrow> db_leases db' = db_leases db"
  by (auto simp: update_instance_row_def update_task_row_def insert_instance_def insert_task_def
      insert_edge_def mark_claimed_def split: if_splits)

lemma each_leases:
  assumes "\<And>r db db'. f r db = Inr db' \<Longrightarrow> db_leases db' = db_leases db"
  shows "each f rs db = Inr db' \<Longrightarrow> db_leases db' = db_leases db"
proof (induction rs arbitrary: db)
  case (Cons r rs)
  then show ?case using assms [of r db] by (auto split: sum.splits)
qed simp

lemma each_rows_leases:
  "each update_task_row ts db = Inr db' \<Longrightarrow> db_leases db' = db_leases db"
  "each insert_task ts db = Inr db' \<Longrightarrow> db_leases db' = db_leases db"
  "each insert_edge es db = Inr db' \<Longrightarrow> db_leases db' = db_leases db"
  by (erule each_leases [rotated], erule update_rows_leases)+

lemma renew_lease_tx_Inr:
  assumes "renew_lease_tx sd clock l now ex db = Inr (l', db')"
  shows "lease_active sd l (now_or clock now) db \<and> now_or clock now < ex \<and>
     l' = l\<lparr>le_ExpiresAt := ex, le_UpdatedAt := now_or clock now\<rparr> \<and>
     db' = set_lease (le_PlanID l) ((the (db_leases db (le_PlanID l)))\<lparr>le_ExpiresAt := ex, le_UpdatedAt := now_or clock now\<rparr>) db"
  using assms by (auto simp: renew_lease_tx_def Let_def require_active_lease_def split: if_splits)

lemma lease_active_on_record: "lease_active sd l now db \<Longrightarrow> on_record db (lease_holder l)"
  by (auto simp: lease_active_def on_record_def lease_holder_def split: option.splits)

lemma renew_on_record:
  assumes "renew_lease_tx sd clock l now ex db = Inr (l', db')"
  shows "on_record db' h \<longleftrightarrow> on_record db h"
  using renew_lease_tx_Inr [OF assms]
  by (auto simp: on_record_def set_lease_def lease_active_def split: option.splits prod.splits)

lemma on_record_cong: "db_leases db' = db_leases db \<Longrightarrow> on_record db' h \<longleftrightarrow> on_record db h"
  by (simp add: on_record_def)

lemma checkpoint_cases:
  assumes "checkpoint_with_lease sd clock l pid now ex upd db = (r, db')"
  obtains (failed) e where "r = Inl e" "db' = db"
    | (good) l' db1 where "r = Inr l'" "validate_lease_target l pid = None"
        "renew_lease_tx sd clock l now ex db = Inr (l', db1)" "upd db1 = Inr db'"
  using assms by (auto simp: checkpoint_with_lease_def split: option.splits sum.splits prod.splits)

lemma reset_cases:
  assumes "reset_test_map_plan_with_lease sd clock l rec now ex db = (r, db')"
  obtains (failed) e where "r = Inl e" "db' = db"
    | (good) l' db1 db2 where "r = Inr l'"
        "first_error (validate_lease_target l) (pi_ID (pr_Instance rec) # map tr_PlanID (pr_Tasks rec)) = None"
        "renew_lease_tx sd clock l now ex db = Inr (l', db1)"
        "each update_task_row (pr_Tasks rec) db1 = Inr db2" "update_instance_row (pr_Instance rec) db2 = Inr db'"
  using assms unfolding reset_test_map_plan_with_lease_def
  by (auto simp del: first_error.simps split: option.splits sum.splits prod.splits)

lemma release_cases:
  assumes "release_test_map_plan_lease sd clock l fin now db = (r, db')"
  obtains (failed) e where "r = Inl e" "db' = db"
    | (good) db1 where "r = Inr ()" "validate_lease_target l (pi_ID fin) = None"
        "lease_active sd l (now_or clock now) db"
        "update_instance_row fin db = Inr db1" "db' = db1\<lparr>db_leases := (db_leases db1)(le_PlanID l := None)\<rparr>"
  using assms
  by (auto simp: release_test_map_plan_lease_def require_active_lease_def Let_def
      split: option.splits sum.splits if_splits)

lemma take_lease_cases:
  assumes "take_lease req now db = (r, db')"
  obtains (failed) "r = Inl (Store_Not_Found (le_PlanID req))" "db' = db" "\<not> has_instance db (le_PlanID req)"
    | (good) "r = Inr (req\<lparr>le_UpdatedAt := now\<rparr>)" "db_leases db' = (db_leases db)(le_PlanID req \<mapsto> req\<lparr>le_UpdatedAt := now\<rparr>)"
        "db_tasks db' = db_tasks db" "db_edges db' = db_edges db"
        "db_instances db' = map (\<lambda>i. if pi_ID i = le_PlanID req then i\<lparr>pi_Status := StatusRunning,
          pi_StartedAt := now, pi_FinishedAt := zero_time\<rparr> else i) (db_instances db)"
  using assms
  by (auto simp: take_lease_def mark_claimed_def set_lease_def has_instance_def split: if_splits)

lemma claim_from_cases:
  assumes "claim_lease_from sd clock sn l now allow db = (r, db')"
  obtains (failed) e where "r = Inl e" "db' = db"
    | (good) req now' where "prepare_lease_claim clock l now = Inr (req, now')"
        "take_lease req now' db = (r, db')" "r = Inr (req\<lparr>le_UpdatedAt := now'\<rparr>)" "sn_status sn \<noteq> None"
        "db_leases db (le_PlanID req) = None \<and> sn_lease sn = None \<and> (sn_status sn \<noteq> Some StatusRunning \<or> allow) \<or>
         (\<exists>cur row. sn_lease sn = Some cur \<and> \<not> now' < le_ExpiresAt cur \<and> db_leases db (le_PlanID req) = Some row \<and>
           le_Token row = le_Token cur \<and> \<not> sd_after sd (le_ExpiresAt row) now')"
proof (cases "prepare_lease_claim clock l now")
  case (Inl e)
  then show ?thesis using assms failed by (auto simp: claim_lease_from_def)
next
  case (Inr p)
  obtain req now' where p: "p = (req, now')" by fastforce
  have w: "claim_write sd sn req now' allow db = (r, db')"
    using assms Inr by (simp add: claim_lease_from_def p)
  show ?thesis
  proof (cases "take_lease req now' db = (r, db') \<and> r \<noteq> Inl (Store_Not_Found (le_PlanID req))")
    case True
    then have "r = Inr (req\<lparr>le_UpdatedAt := now'\<rparr>)" by (auto elim: take_lease_cases)
    then show ?thesis using True w Inr unfolding p
      by (intro good [of req now']) (auto simp: claim_write_def Let_def replaceable_def split: option.splits if_splits)
  next
    case False
    have "take_lease req now' db = (r, db') \<Longrightarrow> db' = db"
      using False by (auto elim: take_lease_cases)
    then have "\<exists>e. r = Inl e \<and> db' = db"
      using False w by (auto simp: claim_write_def Let_def split: option.splits if_splits)
    then show ?thesis using failed by blast
  qed
qed

lemma save_cases:
  assumes "save_test_map_plan clock r db = (x, db')"
  obtains (failed) e where "x = Inl e" "db' = db"
    | (good) db1 db2 where "x = Inr ()"
        "insert_instance (pr_Instance (prepare_test_map_plan_record r clock))
           (delete_test_map_plan (pi_ID (pr_Instance (prepare_test_map_plan_record r clock))) db) = Inr db1"
        "each insert_task (pr_Tasks (prepare_test_map_plan_record r clock)) db1 = Inr db2"
        "each insert_edge (pr_TaskEdges (prepare_test_map_plan_record r clock)) db2 = Inr db'"
  using assms unfolding save_test_map_plan_def Let_def transaction_def
  by (auto split: sum.splits)

lemma save_leases:
  assumes "save_test_map_plan clock r db = (x, db')"
  shows "db_leases db' = db_leases db \<or>
    db_leases db' = (db_leases db)(pi_ID (pr_Instance (prepare_test_map_plan_record r clock)) := None)"
  using assms
proof (cases rule: save_cases)
  case (good db1 db2)
  have "db_leases db' = db_leases (delete_test_map_plan (pi_ID (pr_Instance (prepare_test_map_plan_record r clock))) db)"
    using update_rows_leases(3) [OF good(2)] each_rows_leases(2) [OF good(3)] each_rows_leases(3) [OF good(4)] by simp
  then show ?thesis by (simp add: delete_test_map_plan_def)
qed simp

lemma transaction_outcome:
  "fst (outcome (transaction db r)) \<noteq> None \<Longrightarrow> snd (outcome (transaction db r)) = db"
  by (cases r) (simp_all add: transaction_def)

lemma outcome_failed:
  "fst (outcome x) \<noteq> None \<Longrightarrow> (\<And>r db'. x = (r, db') \<Longrightarrow> \<exists>e. r = Inl e \<Longrightarrow> db' = db) \<Longrightarrow> snd (outcome x) = db"
  by (cases x) (auto simp: outcome_def split: sum.splits)

lemma outcome_ok: "fst (outcome x) = None \<Longrightarrow> \<exists>v db'. x = (Inr v, db')"
  by (cases x) (auto simp: outcome_def split: sum.splits)

lemma snd_outcome: "snd (outcome x) = snd x"
  by (simp add: outcome_def)

lemma run_op_failed:
  assumes "fst (run_op sd op db) \<noteq> None"
  shows "snd (run_op sd op db) = db"
proof -
  obtain clock oper where op: "op = (clock, oper)" by fastforce
  show ?thesis
  proof (cases oper)
    case (Op_Renew l now ex)
    then show ?thesis using assms
      by (auto simp: op renew_test_map_plan_lease_def split: sum.splits)
  next
    case (Op_Claim sn l now allow)
    show ?thesis using assms unfolding op Op_Claim run_op.simps
      by (rule outcome_failed) (auto elim: claim_from_cases)
  next
    case (Op_Reset l r now ex)
    show ?thesis using assms unfolding op Op_Reset run_op.simps
      by (rule outcome_failed) (auto elim: reset_cases)
  next
    case (Op_Task l t now ex)
    show ?thesis using assms unfolding op Op_Task run_op.simps
      by (rule outcome_failed) (auto simp: update_task_with_lease_def elim: checkpoint_cases)
  next
    case (Op_Instance l i now ex)
    show ?thesis using assms unfolding op Op_Instance run_op.simps
      by (rule outcome_failed) (auto simp: update_instance_with_lease_def elim: checkpoint_cases)
  next
    case (Op_Release l i now)
    show ?thesis using assms unfolding op Op_Release run_op.simps
      by (rule outcome_failed) (auto elim: release_cases)
  qed (use assms transaction_outcome in \<open>auto simp: op save_test_map_plan_def Let_def
        update_test_map_plan_task_def update_test_map_plan_instance_def\<close>)
qed

lemma run_op_guard:
  assumes "op_guard op = Some h" "fst (run_op sd op db) = None"
  shows "on_record db h"
proof -
  obtain clock oper where op: "op = (clock, oper)" by fastforce
  note ok = outcome_ok
  show ?thesis
  proof (cases oper)
    case (Op_Renew l now ex)
    then show ?thesis using assms
      by (auto simp: op renew_test_map_plan_lease_def dest!: renew_lease_tx_Inr lease_active_on_record split: sum.splits)
  next
    case (Op_Reset l r now ex)
    then obtain v db' where "reset_test_map_plan_with_lease sd clock l r now ex db = (Inr v, db')"
      using assms(2) op by (auto dest: ok)
    then show ?thesis using assms(1)
      by (cases rule: reset_cases) (auto simp: op Op_Reset dest!: renew_lease_tx_Inr lease_active_on_record)
  next
    case (Op_Task l t now ex)
    then obtain v db' where "update_task_with_lease sd clock l t now ex db = (Inr v, db')"
      using assms(2) op by (auto dest: ok)
    then show ?thesis using assms(1) unfolding update_task_with_lease_def
      by (cases rule: checkpoint_cases) (auto simp: op Op_Task dest!: renew_lease_tx_Inr lease_active_on_record)
  next
    case (Op_Instance l i now ex)
    then obtain v db' where "update_instance_with_lease sd clock l i now ex db = (Inr v, db')"
      using assms(2) op by (auto dest: ok)
    then show ?thesis using assms(1) unfolding update_instance_with_lease_def
      by (cases rule: checkpoint_cases) (auto simp: op Op_Instance dest!: renew_lease_tx_Inr lease_active_on_record)
  next
    case (Op_Release l i now)
    then obtain v db' where "release_test_map_plan_lease sd clock l i now db = (Inr v, db')"
      using assms(2) op by (auto dest: ok)
    then show ?thesis using assms(1)
      by (cases rule: release_cases) (auto simp: op Op_Release dest!: lease_active_on_record)
  qed (use assms in \<open>auto simp: op\<close>)
qed

lemma on_record_unset: "on_record (db\<lparr>db_leases := (db_leases db)(pid := None)\<rparr>) h \<Longrightarrow> on_record db h"
  by (auto simp: on_record_def split: prod.splits option.splits if_splits)

lemma prepare_lease_claim_Inr:
  "prepare_lease_claim clock l now = Inr (req, now') \<Longrightarrow>
     le_PlanID req = trim_space (le_PlanID l) \<and> le_OwnerID req = trim_space (le_OwnerID l) \<and>
     le_Token req = trim_space (le_Token l) \<and> le_ExpiresAt req = le_ExpiresAt l \<and>
     now' = now_or clock now \<and> now' < le_ExpiresAt req"
  by (auto simp: prepare_lease_claim_def Let_def split: if_splits)

lemma run_op_origin:
  assumes "on_record (snd (run_op sd op db)) h"
  shows "on_record db h \<or> op_claims op = Some h"
proof -
  obtain clock oper where op: "op = (clock, oper)" by fastforce
  note snd_out = snd_outcome
  show ?thesis
  proof (cases oper)
    case (Op_Save r)
    have "db_leases (snd (run_op sd op db)) = db_leases db \<or>
        (\<exists>pid. db_leases (snd (run_op sd op db)) = (db_leases db)(pid := None))"
      using save_leases [of clock r db] by (cases "save_test_map_plan clock r db") (auto simp: op Op_Save snd_out)
    then show ?thesis using assms
      by (auto simp: on_record_def split: prod.splits option.splits if_splits)
  next
    case (Op_Plain_Task t)
    have "db_leases (snd (run_op sd op db)) = db_leases db"
      using update_rows_leases(2) [of t db]
      by (auto simp: op Op_Plain_Task snd_out update_test_map_plan_task_def transaction_def split: sum.splits)
    then show ?thesis using assms on_record_cong by blast
  next
    case (Op_Plain_Instance i)
    have "db_leases (snd (run_op sd op db)) = db_leases db"
      using update_rows_leases(1) [of i db]
      by (auto simp: op Op_Plain_Instance snd_out update_test_map_plan_instance_def transaction_def split: sum.splits)
    then show ?thesis using assms on_record_cong by blast
  next
    case (Op_Claim sn l now allow)
    obtain r db' where r: "claim_lease_from sd clock sn l now allow db = (r, db')" by fastforce
    then show ?thesis
    proof (cases rule: claim_from_cases)
      case (failed e)
      then show ?thesis using assms r by (simp add: op Op_Claim snd_out)
    next
      case (good req now')
      have "db_leases db' = (db_leases db)(le_PlanID req \<mapsto> req\<lparr>le_UpdatedAt := now'\<rparr>)"
        using good(2,3) by (auto elim: take_lease_cases)
      then show ?thesis using assms r prepare_lease_claim_Inr [OF good(1)]
        by (auto simp: op Op_Claim snd_out on_record_def split: prod.splits option.splits if_splits)
    qed
  next
    case (Op_Renew l now ex)
    then show ?thesis using assms renew_on_record
      by (auto simp: op renew_test_map_plan_lease_def snd_out split: sum.splits prod.splits)
  next
    case (Op_Reset l rec now ex)
    obtain r db' where r: "reset_test_map_plan_with_lease sd clock l rec now ex db = (r, db')" by fastforce
    then show ?thesis
    proof (cases rule: reset_cases)
      case (good l' db1 db2)
      then have "db_leases db' = db_leases db1" using each_rows_leases(1) update_rows_leases(1) by metis
      moreover have "on_record db' h" using assms r by (simp add: op Op_Reset snd_out)
      ultimately have "on_record db1 h" using on_record_cong by blast
      then show ?thesis using renew_on_record [OF good(3)] by blast
    qed (use assms r in \<open>simp add: op Op_Reset snd_out\<close>)
  next
    case (Op_Task l t now ex)
    obtain r db' where r: "update_task_with_lease sd clock l t now ex db = (r, db')" by fastforce
    from r[unfolded update_task_with_lease_def] show ?thesis
    proof (cases rule: checkpoint_cases)
      case (good l' db1)
      then have "db_leases db' = db_leases db1" using update_rows_leases(2) by blast
      moreover have "on_record db' h" using assms r by (simp add: op Op_Task snd_out)
      ultimately have "on_record db1 h" using on_record_cong by blast
      then show ?thesis using renew_on_record [OF good(3)] by blast
    qed (use assms r in \<open>simp add: op Op_Task snd_out\<close>)
  next
    case (Op_Instance l i now ex)
    obtain r db' where r: "update_instance_with_lease sd clock l i now ex db = (r, db')" by fastforce
    from r[unfolded update_instance_with_lease_def] show ?thesis
    proof (cases rule: checkpoint_cases)
      case (good l' db1)
      then have "db_leases db' = db_leases db1" using update_rows_leases(1) by blast
      moreover have "on_record db' h" using assms r by (simp add: op Op_Instance snd_out)
      ultimately have "on_record db1 h" using on_record_cong by blast
      then show ?thesis using renew_on_record [OF good(3)] by blast
    qed (use assms r in \<open>simp add: op Op_Instance snd_out\<close>)
  next
    case (Op_Release l i now)
    obtain r db' where r: "release_test_map_plan_lease sd clock l i now db = (r, db')" by fastforce
    then show ?thesis
    proof (cases rule: release_cases)
      case (good db1)
      have "on_record db' h" using assms r by (simp add: op Op_Release snd_out)
      then have "on_record db1 h" unfolding good(5) by (rule on_record_unset)
      then show ?thesis using on_record_cong [OF update_rows_leases(1) [OF good(4)]] by blast
    qed (use assms r in \<open>simp add: op Op_Release snd_out\<close>)
  qed
qed

interpretation plan_leases: fenced_store "run_op sd" op_guard op_claims on_record "\<lambda>_. True" for sd
proof
  show "snd (run_op sd op db) = db" if "fst (run_op sd op db) \<noteq> None" for op db
    using that by (rule run_op_failed)
  show "on_record db h" if "op_guard op = Some h" "fst (run_op sd op db) = None" for op h db
    using that by (rule run_op_guard)
  show "on_record db h \<or> op_claims op = Some h" if "on_record (snd (run_op sd op db)) h" for op db h
    using that by (rule run_op_origin)
qed

section \<open>Fencing\<close>

definition run_ops :: "sql_dialect \<Rightarrow> (time \<times> store_op) list \<Rightarrow> plan_db \<Rightarrow> plan_db" where
  "run_ops sd ops db = fold (\<lambda>op d. snd (run_op sd op d)) ops db"

lemma run_all_run_ops: "plan_leases.run_all sd ops db = run_ops sd ops db"
  by (simp add: plan_leases.run_all_def run_ops_def)

lemma claim_records:
  assumes "claim_lease_from sd clock sn l now allow db = (Inr got, db')"
  shows "db_leases db' = (db_leases db)(le_PlanID got \<mapsto> got)"
  using assms
proof (cases rule: claim_from_cases)
  case (good req now')
  then have "got = req\<lparr>le_UpdatedAt := now'\<rparr>" by simp
  then show ?thesis using good(2) by (auto elim!: take_lease_cases)
qed simp

lemma on_record_claimed:
  "db_leases db' = (db_leases db)(le_PlanID got \<mapsto> got) \<Longrightarrow> fst h = le_PlanID got \<Longrightarrow>
     on_record db' h \<longleftrightarrow> h = lease_holder got"
  by (auto simp: on_record_def lease_holder_def)

text \<open>
  C5. A superseded executor is fenced off for good: once a claim of the plan has succeeded for
  another owner or token, no renewal, reset, checkpoint or release under the old lease succeeds
  in any later state, whatever operations ran in between (short of the old holder claiming the
  plan anew), and each such attempt leaves the store as it was.
\<close>

theorem superseded_lease_never_writes:
  assumes "claim_lease_from sd clock sn l now allow db = (Inr got, db1)"
    and "le_PlanID old = le_PlanID got" "lease_holder old \<noteq> lease_holder got"
    and "\<forall>op \<in> set ops. op_claims op \<noteq> Some (lease_holder old)"
    and "op_guard w = Some (lease_holder old)"
  shows "fst (run_op sd w (run_ops sd ops db1)) \<noteq> None \<and>
     snd (run_op sd w (run_ops sd ops db1)) = run_ops sd ops db1"
proof -
  have "\<not> on_record db1 (lease_holder old)"
    using on_record_claimed [OF claim_records [OF assms(1)], of "lease_holder old"] assms(2,3)
    by (simp add: lease_holder_def)
  from plan_leases.fenced [OF TrueI this assms(4,5)] show ?thesis by (simp add: run_all_run_ops)
qed

definition exact_dialect :: sql_dialect where
  "exact_dialect = \<lparr>sd_read = id, sd_after = (\<lambda>a b. b < a)\<rparr>"

definition demo_db :: plan_db where
  "demo_db = empty_db\<lparr>db_instances := [demo_instance]\<rparr>"

definition demo_lease :: "ident \<Rightarrow> time \<Rightarrow> lease" where
  "demo_lease tok expires = \<lparr>le_PlanID = ''plan.1'', le_OwnerID = ''o'', le_Token = tok,
     le_ExpiresAt = expires, le_UpdatedAt = zero_time\<rparr>"

definition demo_claimed :: plan_db where
  "demo_claimed = snd (claim_test_map_plan_lease exact_dialect 1 (demo_lease ''new'' 50) 20 False demo_db)"

lemma demo_claim:
  "claim_lease_from exact_dialect 1 (claim_read exact_dialect demo_db ''plan.1'') (demo_lease ''new'' 50) 20 False demo_db =
     (Inr ((demo_lease ''new'' 50)\<lparr>le_UpdatedAt := 20\<rparr>), demo_claimed)"
proof (rule prod_eqI)
  show "fst (claim_lease_from exact_dialect 1 (claim_read exact_dialect demo_db ''plan.1'') (demo_lease ''new'' 50) 20 False demo_db) =
      fst (Inr ((demo_lease ''new'' 50)\<lparr>le_UpdatedAt := 20\<rparr>), demo_claimed)"
    unfolding fst_conv by code_simp
  have "trim_space (le_PlanID (demo_lease ''new'' 50)) = ''plan.1''" by code_simp
  then show "snd (claim_lease_from exact_dialect 1 (claim_read exact_dialect demo_db ''plan.1'') (demo_lease ''new'' 50) 20 False demo_db) =
      snd (Inr ((demo_lease ''new'' 50)\<lparr>le_UpdatedAt := 20\<rparr>), demo_claimed)"
    by (simp add: demo_claimed_def claim_test_map_plan_lease_def)
qed

theorem superseded_lease_never_writes_witness:
  "fst (run_op exact_dialect (30, Op_Renew (demo_lease ''old'' 40) 30 60)
     (run_ops exact_dialect [(25, Op_Renew ((demo_lease ''new'' 50)\<lparr>le_UpdatedAt := 20\<rparr>) 25 55)] demo_claimed)) \<noteq> None"
  by (rule superseded_lease_never_writes [OF demo_claim, where old = "demo_lease ''old'' 40", THEN conjunct1])
    (simp_all add: demo_lease_def lease_holder_def)

text \<open>
  C21. A claim never takes a live lease, even when its reads are stale: whatever snapshot it
  decided on, a claim that succeeds finds the lease row absent or no longer running in the state
  it writes to, and leaves its own owner and token on record and the plan marked as running.
\<close>

theorem claim_takes_only_free_plans:
  assumes "claim_lease_from sd clock sn l now allow db = (Inr got, db')"
  shows "(case db_leases db (le_PlanID got) of None \<Rightarrow> True
        | Some row \<Rightarrow> \<not> sd_after sd (le_ExpiresAt row) (le_UpdatedAt got)) \<and>
     on_record db' (lease_holder got) \<and> le_UpdatedAt got < le_ExpiresAt got \<and>
     (\<forall>i \<in> set (db_instances db'). pi_ID i = le_PlanID got \<longrightarrow> pi_Status i = StatusRunning)"
  using assms
proof (cases rule: claim_from_cases)
  case (good req now')
  then have got: "got = req\<lparr>le_UpdatedAt := now'\<rparr>" by simp
  have "case db_leases db (le_PlanID got) of None \<Rightarrow> True | Some row \<Rightarrow> \<not> sd_after sd (le_ExpiresAt row) (le_UpdatedAt got)"
    using good(5) by (auto simp: got)
  moreover have "on_record db' (lease_holder got)"
    using on_record_claimed [OF claim_records [OF assms], of "lease_holder got"] by (simp add: lease_holder_def)
  moreover have "le_UpdatedAt got < le_ExpiresAt got"
    using prepare_lease_claim_Inr [OF good(1)] by (simp add: got)
  moreover have "\<forall>i \<in> set (db_instances db'). pi_ID i = le_PlanID got \<longrightarrow> pi_Status i = StatusRunning"
    using good(2) by (auto simp: got elim!: take_lease_cases)
  ultimately show ?thesis by blast
qed simp

theorem claim_takes_only_free_plans_witness:
  "\<exists>got. claim_lease_from exact_dialect 1 (claim_read exact_dialect demo_db ''plan.1'')
       (demo_lease ''new'' 50) 20 False demo_db = (Inr got, demo_claimed) \<and>
     on_record demo_claimed (lease_holder got)"
  using claim_takes_only_free_plans [OF demo_claim] demo_claim by blast



section \<open>A lease reaches one plan only\<close>

definition others :: "ident \<Rightarrow> plan_db \<Rightarrow> plan_instance list \<times> task_record list \<times> edge_record list \<times> (ident \<rightharpoonup> lease)" where
  "others pid db =
     (filter (\<lambda>i. trim_space (pi_ID i) \<noteq> trim_space pid) (db_instances db),
      filter (\<lambda>t. trim_space (tr_PlanID t) \<noteq> trim_space pid) (db_tasks db),
      db_edges db, (db_leases db)(pid := None))"

lemma filter_map_if:
  assumes "\<And>x. Q x \<Longrightarrow> \<not> P x \<and> \<not> P (f x)"
  shows "filter P (map (\<lambda>x. if Q x then f x else x) xs) = filter P xs"
  using assms by (induction xs) auto

lemma update_instance_others:
  assumes "update_instance_row i db = Inr db'" "trim_space (pi_ID i) = trim_space pid"
  shows "others pid db' = others pid db"
  using assms by (auto simp: update_instance_row_def others_def intro!: filter_map_if split: if_splits)

lemma update_task_others:
  assumes "update_task_row t db = Inr db'" "trim_space (tr_PlanID t) = trim_space pid"
  shows "others pid db' = others pid db"
  using assms by (auto simp: update_task_row_def others_def task_key_def intro!: filter_map_if split: if_splits)

lemma each_task_others:
  "each update_task_row ts db = Inr db' \<Longrightarrow> \<forall>t \<in> set ts. trim_space (tr_PlanID t) = trim_space pid \<Longrightarrow>
     others pid db' = others pid db"
proof (induction ts arbitrary: db)
  case (Cons t ts)
  then show ?case using update_task_others [of t db _ pid] by (auto split: sum.splits)
qed simp

lemma renew_others: "renew_lease_tx sd clock l now ex db = Inr (l', db') \<Longrightarrow> others (le_PlanID l) db' = others (le_PlanID l) db"
  by (drule renew_lease_tx_Inr) (simp add: others_def set_lease_def)

lemma validate_target_trim: "validate_lease_target l pid = None \<Longrightarrow> trim_space pid = trim_space (le_PlanID l)"
  by (auto simp: validate_lease_target_def split: if_splits)

lemma first_error_None: "first_error f xs = None \<Longrightarrow> \<forall>x \<in> set xs. f x = None"
  by (induction xs) (auto split: option.splits)

text \<open>
  An executor that holds a lease can only touch its own plan: a renewal, reset, checkpoint
  or release changes no instance, task or lease of any other plan and no dependency edge, even if
  it is handed a record that names another plan.
\<close>

theorem guarded_write_stays_in_plan:
  assumes "op_guard (clock, oper) = Some (pid, own, tok)"
  shows "others pid (snd (run_op sd (clock, oper) db)) = others pid db"
proof (cases oper)
  case (Op_Renew l now ex)
  then show ?thesis using assms renew_others
    by (auto simp: renew_test_map_plan_lease_def lease_holder_def split: sum.splits)
next
  case (Op_Reset l rec now ex)
  obtain r db' where r: "reset_test_map_plan_with_lease sd clock l rec now ex db = (r, db')" by fastforce
  then have "others (le_PlanID l) db' = others (le_PlanID l) db"
  proof (cases rule: reset_cases)
    case (good l' db1 db2)
    have "\<forall>t \<in> set (pr_Tasks rec). trim_space (tr_PlanID t) = trim_space (le_PlanID l)"
      "trim_space (pi_ID (pr_Instance rec)) = trim_space (le_PlanID l)"
      using first_error_None [OF good(2)] validate_target_trim by auto
    then show ?thesis
      using each_task_others [OF good(4)] update_instance_others [OF good(5)] renew_others [OF good(3)] by metis
  qed simp
  then show ?thesis using assms r by (simp add: Op_Reset snd_outcome lease_holder_def)
next
  case (Op_Task l t now ex)
  obtain r db' where r: "update_task_with_lease sd clock l t now ex db = (r, db')" by fastforce
  from r[unfolded update_task_with_lease_def] have "others (le_PlanID l) db' = others (le_PlanID l) db"
  proof (cases rule: checkpoint_cases)
    case (good l' db1)
    then show ?thesis using update_task_others [OF good(4) validate_target_trim [OF good(2)]] renew_others [OF good(3)]
      by simp
  qed simp
  then show ?thesis using assms r by (simp add: Op_Task snd_outcome lease_holder_def)
next
  case (Op_Instance l i now ex)
  obtain r db' where r: "update_instance_with_lease sd clock l i now ex db = (r, db')" by fastforce
  from r[unfolded update_instance_with_lease_def] have "others (le_PlanID l) db' = others (le_PlanID l) db"
  proof (cases rule: checkpoint_cases)
    case (good l' db1)
    then show ?thesis using update_instance_others [OF good(4) validate_target_trim [OF good(2)]] renew_others [OF good(3)]
      by simp
  qed simp
  then show ?thesis using assms r by (simp add: Op_Instance snd_outcome lease_holder_def)
next
  case (Op_Release l i now)
  obtain r db' where r: "release_test_map_plan_lease sd clock l i now db = (r, db')" by fastforce
  then have "others (le_PlanID l) db' = others (le_PlanID l) db"
  proof (cases rule: release_cases)
    case (good db1)
    then show ?thesis using update_instance_others [OF good(4) validate_target_trim [OF good(2)]]
      by (simp add: others_def)
  qed simp
  then show ?thesis using assms r by (simp add: Op_Release snd_outcome lease_holder_def)
qed (use assms in auto)

theorem guarded_write_stays_in_plan_witness:
  "others ''plan.1'' (snd (run_op exact_dialect (25, Op_Renew (demo_lease ''new'' 50) 25 55) demo_claimed)) =
     others ''plan.1'' demo_claimed"
  by (rule guarded_write_stays_in_plan [of _ _ _ "''o''" "''new''"]) (simp add: lease_holder_def demo_lease_def)

section \<open>Saving and loading a plan\<close>

lemma each_insert_task:
  "each insert_task ts db = Inr db' \<Longrightarrow> db' = db\<lparr>db_tasks := db_tasks db @ ts\<rparr>"
proof (induction ts arbitrary: db)
  case (Cons t ts)
  from Cons.prems have "insert_task t db = Inr (db\<lparr>db_tasks := db_tasks db @ [t]\<rparr>)"
    by (auto simp: insert_task_def split: if_splits)
  with Cons.prems Cons.IH [of "db\<lparr>db_tasks := db_tasks db @ [t]\<rparr>"] show ?case by simp
qed simp

lemma each_insert_edge:
  "each insert_edge es db = Inr db' \<Longrightarrow> db' = db\<lparr>db_edges := db_edges db @ es\<rparr>"
proof (induction es arbitrary: db)
  case (Cons e es)
  from Cons.prems have "insert_edge e db = Inr (db\<lparr>db_edges := db_edges db @ [e]\<rparr>)"
    by (auto simp: insert_edge_def split: if_splits)
  with Cons.prems Cons.IH [of "db\<lparr>db_edges := db_edges db @ [e]\<rparr>"] show ?case by simp
qed simp

lemma save_result:
  assumes "save_test_map_plan clock r db = (Inr (), db')"
  defines "p \<equiv> prepare_test_map_plan_record r clock"
  defines "db1 \<equiv> delete_test_map_plan (pi_ID (pr_Instance p)) db"
  shows "db' = db\<lparr>db_instances := db_instances db1 @ [pr_Instance p], db_tasks := db_tasks db1 @ pr_Tasks p,
     db_edges := db_edges db1 @ pr_TaskEdges p, db_leases := (db_leases db)(pi_ID (pr_Instance p) := None)\<rparr>"
  using assms(1)
proof (cases rule: save_cases)
  case (good d1 d2)
  then show ?thesis using each_insert_task [OF good(3)] each_insert_edge [OF good(4)]
    by (auto simp: insert_instance_def p_def [symmetric] db1_def [symmetric] split: if_splits)
      (simp add: db1_def delete_test_map_plan_def)
qed simp

lemma find_first_append: "find_first P xs = None \<Longrightarrow> find_first P (xs @ ys) = find_first P ys"
  by (induction xs) (auto split: if_splits)

lemma json_for_db_normal [simp]: "normalize_json_text (json_for_db s ''{}'') = json_for_db s ''{}''"
  "normalize_json_text (json_for_db s ''[]'') = json_for_db s ''[]''"
proof -
  have n: "normalize_json_text ''{}'' = ''{}''" "normalize_json_text ''[]'' = ''[]''" by code_simp+
  show "normalize_json_text (json_for_db s ''{}'') = json_for_db s ''{}''"
    "normalize_json_text (json_for_db s ''[]'') = json_for_db s ''[]''"
    using n by (simp_all add: json_for_db_def Let_def)
qed

text \<open>
  C29. A plan that was saved is loaded back as it was: on a database that keeps time stamps
  exactly, loading returns the prepared record, with its tasks in the order of their numbers and
  its edges in theirs, and nothing of an earlier plan with the same identifier.
\<close>

theorem get_after_save:
  assumes save: "save_test_map_plan clock r db = (Inr (), db')"
    and pid: "trim_space pid = pid" "pid \<noteq> []" "pi_ID (pr_Instance r) = pid"
    and rows: "\<forall>t \<in> set (pr_Tasks r). blank (tr_PlanID t) \<or> tr_PlanID t = pid"
      "\<forall>e \<in> set (pr_TaskEdges r). blank (er_PlanID e) \<or> er_PlanID e = pid"
    and exact: "sd_read sd = id"
  defines "p \<equiv> prepare_test_map_plan_record r clock"
  shows "get_test_map_plan sd db' pid = Inr \<lparr>pr_Instance = pr_Instance p,
     pr_Tasks = sort_key task_order (pr_Tasks p), pr_TaskEdges = sort_key edge_order (pr_TaskEdges p)\<rparr>"
proof -
  have id: "pi_ID (pr_Instance p) = pid"
    using pid(3) by (simp add: p_def prepare_test_map_plan_record_def prepare_instance_def Let_def)
  have tasks: "\<forall>t \<in> set (pr_Tasks p). tr_PlanID t = pid \<and> scan_task sd t = t"
    using rows(1) pid exact
    by (auto simp: p_def prepare_test_map_plan_record_def prepare_task_def prepare_instance_def Let_def
        scan_task_def string_default_def in_set_enumerate_eq)
  have edges: "\<forall>e \<in> set (pr_TaskEdges p). er_PlanID e = pid \<and> scan_edge e = e"
    using rows(2) pid
    by (auto simp: p_def prepare_test_map_plan_record_def prepare_edge_def prepare_instance_def Let_def
        scan_edge_def string_default_def in_set_enumerate_eq)
  have inst: "scan_instance sd (pr_Instance p) = pr_Instance p"
    using exact by (simp add: p_def prepare_test_map_plan_record_def prepare_instance_def scan_instance_def Let_def)
  note db' = save_result [OF save, folded p_def, unfolded id]
  have "find_first (\<lambda>i. pi_ID i = pid) (db_instances (delete_test_map_plan pid db)) = None"
    by (simp add: find_first_None_iff delete_test_map_plan_def)
  then have "find_first (\<lambda>i. pi_ID i = pid) (db_instances db') = Some (pr_Instance p)"
    by (simp add: db' find_first_append id)
  moreover have "filter (\<lambda>t. tr_PlanID t = pid) (db_tasks db') = pr_Tasks p"
    using tasks by (simp add: db' delete_test_map_plan_def filter_True filter_False)
  moreover have "filter (\<lambda>e. er_PlanID e = pid) (db_edges db') = pr_TaskEdges p"
    using edges by (simp add: db' delete_test_map_plan_def filter_True filter_False)
  moreover have "map (scan_task sd) (sort_key task_order (pr_Tasks p)) = sort_key task_order (pr_Tasks p)"
    using tasks by (intro map_idI) simp
  moreover have "map scan_edge (sort_key edge_order (pr_TaskEdges p)) = sort_key edge_order (pr_TaskEdges p)"
    using edges by (intro map_idI) simp
  ultimately show ?thesis using pid by (simp add: get_test_map_plan_def inst)
qed

definition demo_record :: plan_record where
  "demo_record = \<lparr>pr_Instance = demo_instance,
     pr_Tasks = [record_from_task ''plan.1'' 5 (blank_task\<lparr>tk_ID := ''t2'', tk_Index := 2\<rparr>),
       record_from_task ''plan.1'' 5 (blank_task\<lparr>tk_ID := ''t1'', tk_Index := 1\<rparr>)],
     pr_TaskEdges = []\<rparr>"

theorem get_after_save_witness:
  "\<exists>db' rec. save_test_map_plan 9 demo_record empty_db = (Inr (), db') \<and>
     get_test_map_plan exact_dialect db' ''plan.1'' = Inr rec \<and> map tr_ID (pr_Tasks rec) = [''t1'', ''t2'']"
proof -
  have "fst (save_test_map_plan 9 demo_record empty_db) = Inr ()" by code_simp
  then obtain db' where s: "save_test_map_plan 9 demo_record empty_db = (Inr (), db')" by (metis prod.collapse)
  have "trim_space ''plan.1'' = ''plan.1''" by code_simp
  moreover have "\<forall>t \<in> set (pr_Tasks demo_record). blank (tr_PlanID t) \<or> tr_PlanID t = ''plan.1''"
    by (simp add: demo_record_def record_from_task_def)
  moreover have "map tr_ID (sort_key task_order (pr_Tasks (prepare_test_map_plan_record demo_record 9))) = [''t1'', ''t2'']"
    by code_simp
  ultimately show ?thesis
    using get_after_save [OF s, of "''plan.1''" exact_dialect] s
    by (simp add: demo_record_def demo_instance_def exact_dialect_def)
qed

text \<open>
  Saving a plan under an existing identifier revokes its lease (the row goes with the
  instance it references): an executor that was running the old plan gets an error from its next
  write instead of mixing its results into the new plan.
\<close>

theorem save_revokes_lease:
  assumes "save_test_map_plan clock r db = (Inr (), db')"
    and "op_guard w = Some (pi_ID (pr_Instance r), own, tok)"
  shows "fst (run_op sd w db') \<noteq> None \<and> snd (run_op sd w db') = db'"
proof -
  have "pi_ID (pr_Instance (prepare_test_map_plan_record r clock)) = pi_ID (pr_Instance r)"
    by (simp add: prepare_test_map_plan_record_def prepare_instance_def Let_def)
  then have "\<not> on_record db' (pi_ID (pr_Instance r), own, tok)"
    using save_result [OF assms(1)] by (simp add: on_record_def)
  from plan_leases.fenced [OF TrueI this _ assms(2), of "[]" sd] show ?thesis by simp
qed

theorem save_revokes_lease_witness:
  "\<exists>db'. save_test_map_plan 9 demo_record demo_claimed = (Inr (), db') \<and>
     fst (run_op exact_dialect (25, Op_Renew (demo_lease ''new'' 50) 25 55) db') \<noteq> None"
proof -
  have "fst (save_test_map_plan 9 demo_record demo_claimed) = Inr ()" by code_simp
  then obtain db' where s: "save_test_map_plan 9 demo_record demo_claimed = (Inr (), db')" by (metis prod.collapse)
  then show ?thesis
    using save_revokes_lease [OF s, of "(25, Op_Renew (demo_lease ''new'' 50) 25 55)" "''o''" "''new''" exact_dialect]
    by (simp add: demo_record_def demo_instance_def demo_lease_def lease_holder_def)
qed

section \<open>Time stamps as text\<close>






end
