(* ===== verification/Map_Run_Prepare.thy ===== *)
theory Map_Run_Prepare
  imports Map_Store_Facts
begin

text \<open>
  What \<open>map run\<close> decides before it executes anything
  (\<open>cmd/agent-testbench/map_run_commands.go\<close>, \<open>map_run_report.go\<close>): the options and
  their conflicts, the plan it runs, the reset of a stored plan that is resumed, and which of its
  tasks may run again. The parsing of the command line itself is Go's \<open>flag\<close> package; the
  record \<open>run_options\<close> holds the flag values.
\<close>

section \<open>Options\<close>

record run_options =
  ro_mapID :: ident
  ro_planID :: ident
  ro_scope :: string
  ro_caseID :: ident
  ro_nodeID :: ident
  ro_pathID :: ident
  ro_workflowID :: ident
  ro_interfaceID :: ident
  ro_validationFamily :: string
  ro_environmentID :: ident
  ro_baseURL :: string
  ro_evidenceDir :: string
  ro_timeoutSeconds :: int
  ro_concurrency :: int
  ro_resumeRun :: bool
  ro_retryFailed :: bool
  ro_skipPassed :: bool
  ro_rerunTaskIDs :: "ident list"

datatype run_error =
    Positional_Arguments "string list"
  | Concurrency_Not_Positive
  | Resume_Needs_Plan
  | Target_With_Plan
  | Map_Or_Plan_Required
  | Map_Mismatch ident ident
  | Fingerprint_Mismatch
  | Rerun_Task_Not_Found ident
  | Planner_Error planner_error
  | Run_Store_Error store_error

text \<open>\<open>stringListFlag.Set\<close> and \<open>normalizeStringList\<close> (\<open>flags.go\<close>).\<close>

definition string_list_set :: "string list \<Rightarrow> string \<Rightarrow> string list" where
  "string_list_set vs v = (let t = trim_space v in if t = [] then vs else vs @ [t])"

fun normalize_string_list_from :: "string set \<Rightarrow> string list \<Rightarrow> string list" where
  "normalize_string_list_from seen [] = []"
| "normalize_string_list_from seen (v # vs) =
     (let t = trim_space v; key = to_lower t in
      if t = [] \<or> key \<in> seen then normalize_string_list_from seen vs
      else t # normalize_string_list_from (insert key seen) vs)"

definition normalize_string_list :: "string list \<Rightarrow> string list" where
  "normalize_string_list vs = normalize_string_list_from {} vs"

definition has_resume_controls :: "run_options \<Rightarrow> bool" where
  "has_resume_controls o1 \<longleftrightarrow> ro_resumeRun o1 \<or> ro_retryFailed o1 \<or> ro_skipPassed o1 \<or> ro_rerunTaskIDs o1 \<noteq> []"

definition has_concrete_target :: "run_options \<Rightarrow> bool" where
  "has_concrete_target o1 \<longleftrightarrow> \<not> blank (ro_caseID o1) \<or> \<not> blank (ro_nodeID o1) \<or> \<not> blank (ro_pathID o1) \<or>
     \<not> blank (ro_workflowID o1) \<or> \<not> blank (ro_interfaceID o1) \<or> \<not> blank (ro_validationFamily o1)"

definition parse_map_run_options :: "string list \<Rightarrow> run_options \<Rightarrow> run_error + run_options" where
  "parse_map_run_options positional flags =
     (let o1 = flags\<lparr>ro_mapID := trim_space (ro_mapID flags), ro_planID := trim_space (ro_planID flags),
        ro_scope := trim_space (ro_scope flags), ro_caseID := trim_space (ro_caseID flags),
        ro_nodeID := trim_space (ro_nodeID flags), ro_pathID := trim_space (ro_pathID flags),
        ro_workflowID := trim_space (ro_workflowID flags), ro_interfaceID := trim_space (ro_interfaceID flags),
        ro_validationFamily := trim_space (ro_validationFamily flags),
        ro_environmentID := trim_space (ro_environmentID flags), ro_baseURL := trim_space (ro_baseURL flags),
        ro_evidenceDir := trim_space (ro_evidenceDir flags),
        ro_rerunTaskIDs := normalize_string_list (fold (\<lambda>v vs. string_list_set vs v) (ro_rerunTaskIDs flags) [])\<rparr>
      in if positional \<noteq> [] then Inl (Positional_Arguments positional)
         else if ro_concurrency o1 \<le> 0 then Inl Concurrency_Not_Positive
         else if has_resume_controls o1 \<and> ro_planID o1 = [] then Inl Resume_Needs_Plan
         else if ro_planID o1 \<noteq> [] \<and> has_concrete_target o1 then Inl Target_With_Plan
         else Inr o1)"

section \<open>Which tasks run\<close>

definition StatusPassed :: string where "StatusPassed = ''passed''"
definition StatusFailed :: string where "StatusFailed = ''failed''"

definition InterruptedUnknownOutcome :: string where
  "InterruptedUnknownOutcome = ''interrupted-unknown-outcome''"

lemmas store_status_defs = StatusPassed_def StatusFailed_def

definition selected_task_ids :: "ident list \<Rightarrow> ident set" where
  "selected_task_ids ids = set (normalize_string_list ids)"

definition task_interrupted :: "task_record \<Rightarrow> bool" where
  "task_interrupted t \<longleftrightarrow> trim_space (tr_Reason t) = InterruptedUnknownOutcome \<or>
     value_string (obj_get (json_object_string (tr_SummaryJSON t)) ''failureCategory'') = InterruptedUnknownOutcome"

definition already_complete :: "string \<Rightarrow> bool" where
  "already_complete st \<longleftrightarrow> st = StatusPassed \<or> st = TaskStatusSkipped"

definition failed_or_blocked :: "string \<Rightarrow> bool" where
  "failed_or_blocked st \<longleftrightarrow> st = StatusFailed \<or> st = TaskStatusBlocked"

definition selected_for_execution :: "task_record \<Rightarrow> run_options \<Rightarrow> bool" where
  "selected_for_execution t o1 =
     (let sel = selected_task_ids (ro_rerunTaskIDs o1) in
      if tr_Kind t = TaskSkip \<or> tr_Status t = TaskStatusSkipped then False
      else if task_interrupted t then tr_ID t \<in> sel
      else if tr_ID t \<in> sel then True
      else if ro_retryFailed o1 \<and> failed_or_blocked (tr_Status t) then True
      else if ro_resumeRun o1 \<or> ro_skipPassed o1 then \<not> already_complete (tr_Status t)
      else if sel \<noteq> {} \<or> ro_retryFailed o1 then False
      else True)"

definition task_runnable :: "task_record \<Rightarrow> run_options \<Rightarrow> bool" where
  "task_runnable t o1 =
     (if tr_Status t = [] \<or> tr_Status t = TaskStatusPlanned \<or> tr_Status t = TaskStatusRunning then True
      else ro_retryFailed o1 \<and> failed_or_blocked (tr_Status t))"

definition keep_retry_status :: "task_record \<Rightarrow> run_options \<Rightarrow> bool" where
  "keep_retry_status t o1 \<longleftrightarrow> ro_retryFailed o1 \<and> \<not> ro_resumeRun o1 \<and> \<not> ro_skipPassed o1 \<and>
     ro_rerunTaskIDs o1 = [] \<and> failed_or_blocked (tr_Status t)"

definition interrupted_summary :: string where
  "interrupted_summary = json_marshal (JObj (obj_of [(''failureCategory'', JStr InterruptedUnknownOutcome),
     (''resumable'', JBool False)]))"

definition mark_interrupted :: "time \<Rightarrow> task_record \<Rightarrow> task_record" where
  "mark_interrupted now t =
     (if tr_Status t = TaskStatusRunning then t\<lparr>tr_Status := StatusFailed, tr_Reason := InterruptedUnknownOutcome,
        tr_SummaryJSON := interrupted_summary, tr_FinishedAt := now\<rparr> else t)"

definition prepare_existing_task :: "run_options \<Rightarrow> time \<Rightarrow> task_record \<Rightarrow> task_record" where
  "prepare_existing_task o1 now t0 =
     (let t = mark_interrupted now t0 in
      if task_interrupted t \<and> tr_ID t \<notin> selected_task_ids (ro_rerunTaskIDs o1) then t
      else if tr_Status t = TaskStatusSkipped \<or> tr_Kind t = TaskSkip then t\<lparr>tr_Status := TaskStatusSkipped\<rparr>
      else if has_resume_controls o1 \<and> \<not> selected_for_execution t o1 then t
      else
        (let t1 = (if \<not> keep_retry_status t o1 then t\<lparr>tr_Status := TaskStatusPlanned\<rparr> else t)
         in t1\<lparr>tr_WorkflowRunID := [], tr_APICaseRunID := [], tr_EvidenceRoot := [], tr_Reason := [],
              tr_StartedAt := zero_time, tr_FinishedAt := zero_time\<rparr>))"

definition prepare_existing_record_at :: "plan_record \<Rightarrow> run_options \<Rightarrow> time \<Rightarrow> plan_record" where
  "prepare_existing_record_at r o1 now = r\<lparr>
     pr_Instance := (pr_Instance r)\<lparr>pi_Mode := ModeRun, pi_Status := TaskStatusRunning,
       pi_EnvironmentID := (if \<not> blank (ro_environmentID o1) then ro_environmentID o1 else pi_EnvironmentID (pr_Instance r)),
       pi_StartedAt := now, pi_FinishedAt := zero_time\<rparr>,
     pr_Tasks := map (prepare_existing_task o1 now) (pr_Tasks r)\<rparr>"

text \<open>The order in which Go ranges over the missing identifiers is not fixed; the model reports the first one given.\<close>

definition validate_rerun_tasks :: "plan_record \<Rightarrow> run_options \<Rightarrow> run_error option" where
  "validate_rerun_tasks r o1 =
     (case filter (\<lambda>i. i \<notin> tr_ID ` set (pr_Tasks r)) (normalize_string_list (ro_rerunTaskIDs o1)) of
        [] \<Rightarrow> None
      | i # _ \<Rightarrow> Some (Rerun_Task_Not_Found i))"

definition task_until_node_id :: "task_record \<Rightarrow> ident" where
  "task_until_node_id t = value_string (obj_get (json_object_string (tr_SummaryJSON t)) ''untilNodeId'')"

section \<open>The plan to run\<close>

definition validate_map_run_plan_graph :: "hashes \<Rightarrow> plan_record \<Rightarrow> graph \<Rightarrow> run_error option" where
  "validate_map_run_plan_graph H r g =
     (let expected = value_string (obj_get (json_object_string (pi_PlannerOptionsJSON (pr_Instance r))) ''graphFingerprint'')
      in if expected = [] then None
         else if graph_fingerprint H g \<noteq> expected then Some Fingerprint_Mismatch else None)"

definition safe_report_id :: "string \<Rightarrow> string" where
  "safe_report_id v =
     (let out = map (\<lambda>c. if is_alnum c \<or> c = CHR ''.'' \<or> c = CHR ''_'' \<or> c = CHR ''-'' then c else CHR ''_'') v
      in if out = [] then ''item'' else out)"

definition run_query :: "run_options \<Rightarrow> query" where
  "run_query o1 = \<lparr>q_MapID = ro_mapID o1, q_EnvironmentID = ro_environmentID o1, q_Scope = ro_scope o1,
     q_TargetKind = [], q_TargetID = [], q_CaseID = ro_caseID o1, q_NodeID = ro_nodeID o1,
     q_PathID = ro_pathID o1, q_WorkflowID = ro_workflowID o1, q_InterfaceNodeID = ro_interfaceID o1,
     q_ValidationFamily = ro_validationFamily o1, q_Role = [], q_PlannerMode = ModeRun\<rparr>"

text \<open>The argument \<open>stamp\<close> is the text of the current time in the identifier of a new plan.\<close>

definition new_run_record :: "hashes \<Rightarrow> graph \<Rightarrow> run_options \<Rightarrow> time \<Rightarrow> string \<Rightarrow> run_error + plan_record" where
  "new_run_record H g o1 now stamp =
     (case explain H g (run_query o1) of
        Inl e \<Rightarrow> Inl (Planner_Error e)
      | Inr p \<Rightarrow>
          (case record_from_plan now (p\<lparr>pl_ID := ''runplan.'' @ safe_report_id (pl_MapID p) @ ''.'' @ stamp,
              pl_Mode := ModeRun, pl_Status := TaskStatusPlanned, pl_CreatedAt := now\<rparr>) now of
             Inl e \<Rightarrow> Inl (Planner_Error e)
           | Inr r \<Rightarrow> Inr (r\<lparr>
               pr_Instance := (pr_Instance r)\<lparr>pi_Status := TaskStatusPlanned, pi_StartedAt := zero_time,
                 pi_FinishedAt := zero_time\<rparr>,
               pr_Tasks := map (\<lambda>t. if tr_Status t = TaskStatusSkipped then t
                 else t\<lparr>tr_Status := TaskStatusPlanned\<rparr>) (pr_Tasks r)\<rparr>)))"

definition map_run_plan_record ::
  "hashes \<Rightarrow> sql_dialect \<Rightarrow> plan_db \<Rightarrow> graph \<Rightarrow> run_options \<Rightarrow> time \<Rightarrow> string \<Rightarrow> run_error + plan_record" where
  "map_run_plan_record H sd db g o1 now stamp =
     (if ro_planID o1 \<noteq> [] then
        (case get_test_map_plan sd db (ro_planID o1) of
           Inl e \<Rightarrow> Inl (Run_Store_Error e)
         | Inr r \<Rightarrow> (case validate_rerun_tasks r o1 of Some e \<Rightarrow> Inl e | None \<Rightarrow> Inr r))
      else new_run_record H g o1 now stamp)"

text \<open>\<open>openMapRunRuntime\<close>: the map of the run; \<open>graph_of\<close> is the store's \<open>GetTestPlanGraph\<close>.\<close>

definition open_map_run_runtime ::
  "hashes \<Rightarrow> sql_dialect \<Rightarrow> plan_db \<Rightarrow> (ident \<Rightarrow> store_error + graph) \<Rightarrow> run_options \<Rightarrow> run_error + graph" where
  "open_map_run_runtime H sd db graph_of o1 =
     (if ro_planID o1 \<noteq> [] then
        (case get_test_map_plan sd db (ro_planID o1) of
           Inl e \<Rightarrow> Inl (Run_Store_Error e)
         | Inr r \<Rightarrow>
             (let mid = pi_MapID (pr_Instance r) in
              if ro_mapID o1 \<noteq> [] \<and> ro_mapID o1 \<noteq> mid then Inl (Map_Mismatch (ro_mapID o1) mid)
              else if mid = [] then Inl Map_Or_Plan_Required
              else (case graph_of mid of Inl e \<Rightarrow> Inl (Run_Store_Error e) | Inr g \<Rightarrow>
                (case validate_map_run_plan_graph H r g of Some e \<Rightarrow> Inl e | None \<Rightarrow> Inr g))))
      else if ro_mapID o1 = [] then Inl Map_Or_Plan_Required
      else (case graph_of (ro_mapID o1) of Inl e \<Rightarrow> Inl (Run_Store_Error e) | Inr g \<Rightarrow> Inr g))"

section \<open>Report\<close>

record run_summary =
  rs_TotalTasks :: nat
  rs_PassedTasks :: nat
  rs_FailedTasks :: nat
  rs_SkippedTasks :: nat
  rs_BlockedTasks :: nat
  rs_WorkflowRuns :: nat
  rs_APICaseRuns :: nat

fun map_run_status_from :: "string \<Rightarrow> task_record list \<Rightarrow> string" where
  "map_run_status_from st [] = st"
| "map_run_status_from st (t # ts) =
     (if tr_Status t = StatusFailed then StatusFailed
      else if tr_Status t = TaskStatusBlocked then map_run_status_from TaskStatusBlocked ts
      else if tr_Status t = TaskStatusPlanned \<or> tr_Status t = TaskStatusRunning then
        map_run_status_from (if st \<noteq> TaskStatusBlocked then TaskStatusRunning else st) ts
      else map_run_status_from st ts)"

definition map_run_status :: "task_record list \<Rightarrow> string" where
  "map_run_status ts = map_run_status_from StatusPassed ts"

definition task_case_runs :: "task_record \<Rightarrow> nat" where
  "task_case_runs t =
     (if tr_APICaseRunID t \<noteq> [] then 1
      else
        (let s = json_object_string (tr_SummaryJSON t) in
         length (list_from_any (obj_get s ''steps'')) +
         (if value_string (obj_get (map_from_any (obj_get s ''result'')) ''caseRunId'') \<noteq> [] then 1 else 0)))"

definition count_task :: "task_record \<Rightarrow> run_summary \<Rightarrow> run_summary" where
  "count_task t s =
     (let s1 = (if tr_Status t = StatusPassed then s\<lparr>rs_PassedTasks := rs_PassedTasks s + 1\<rparr>
          else if tr_Status t = StatusFailed then s\<lparr>rs_FailedTasks := rs_FailedTasks s + 1\<rparr>
          else if tr_Status t = TaskStatusSkipped then s\<lparr>rs_SkippedTasks := rs_SkippedTasks s + 1\<rparr>
          else if tr_Status t = TaskStatusBlocked then s\<lparr>rs_BlockedTasks := rs_BlockedTasks s + 1\<rparr>
          else s)
      in s1\<lparr>rs_WorkflowRuns := rs_WorkflowRuns s1 + (if tr_WorkflowRunID t \<noteq> [] then 1 else 0),
           rs_APICaseRuns := rs_APICaseRuns s1 + task_case_runs t\<rparr>)"

definition map_run_summary :: "task_record list \<Rightarrow> run_summary" where
  "map_run_summary ts = fold count_task ts \<lparr>rs_TotalTasks = length ts, rs_PassedTasks = 0,
     rs_FailedTasks = 0, rs_SkippedTasks = 0, rs_BlockedTasks = 0, rs_WorkflowRuns = 0, rs_APICaseRuns = 0\<rparr>"

definition run_summary_json :: "run_summary \<Rightarrow> json" where
  "run_summary_json s = JObj [(''totalTasks'', jnat (rs_TotalTasks s)), (''passedTasks'', jnat (rs_PassedTasks s)),
     (''failedTasks'', jnat (rs_FailedTasks s)), (''skippedTasks'', jnat (rs_SkippedTasks s)),
     (''blockedTasks'', jnat (rs_BlockedTasks s)), (''workflowRuns'', jnat (rs_WorkflowRuns s)),
     (''apiCaseRuns'', jnat (rs_APICaseRuns s))]"

definition report_status :: "plan_record \<Rightarrow> string" where
  "report_status r = (if pi_Status (pr_Instance r) = [] then map_run_status (pr_Tasks r) else pi_Status (pr_Instance r))"

definition report_ok :: "plan_record \<Rightarrow> bool" where
  "report_ok r \<longleftrightarrow> report_status r = StatusPassed \<or> report_status r = TaskStatusSkipped"

end
