(* ===== verification/Map_Run_Facts.thy ===== *)
theory Map_Run_Facts
  imports Map_Run_Prepare
begin

text \<open>
  What \<open>map run\<close> guarantees before it executes: which tasks of a stored plan run again,
  what the status and the summary of a run say, and that a stored plan is only run on the graph
  it was made for.
\<close>

section \<open>Which tasks of a stored plan run again\<close>

definition will_run :: "run_options \<Rightarrow> task_record \<Rightarrow> bool" where
  "will_run o1 t \<longleftrightarrow> selected_for_execution t o1 \<and> task_runnable t o1"

lemma task_status_distinct [simp]:
  "TaskStatusPlanned \<noteq> TaskStatusSkipped" "TaskStatusPlanned \<noteq> TaskStatusRunning" "TaskStatusPlanned \<noteq> StatusFailed"
  "TaskStatusPlanned \<noteq> TaskStatusBlocked" "TaskStatusPlanned \<noteq> StatusPassed" "TaskStatusPlanned \<noteq> []"
  "StatusFailed \<noteq> TaskStatusSkipped" "StatusFailed \<noteq> TaskStatusRunning" "StatusFailed \<noteq> TaskStatusPlanned"
  "StatusFailed \<noteq> StatusPassed" "StatusFailed \<noteq> []" "StatusFailed \<noteq> TaskStatusBlocked"
  "TaskStatusSkipped \<noteq> TaskStatusRunning" "TaskStatusRunning \<noteq> TaskStatusSkipped" "TaskStatusRunning \<noteq> StatusFailed"
  "TaskStatusRunning \<noteq> TaskStatusPlanned" "TaskStatusBlocked \<noteq> TaskStatusSkipped" "TaskStatusBlocked \<noteq> StatusPassed"
  "StatusPassed \<noteq> StatusFailed" "StatusPassed \<noteq> TaskStatusBlocked" "StatusPassed \<noteq> TaskStatusRunning"
  "StatusPassed \<noteq> TaskStatusPlanned" "StatusPassed \<noteq> TaskStatusSkipped" "TaskStatusBlocked \<noteq> StatusFailed"
  "TaskStatusBlocked \<noteq> TaskStatusRunning" "TaskStatusBlocked \<noteq> TaskStatusPlanned" "TaskStatusRunning \<noteq> TaskStatusBlocked"
  "TaskStatusRunning \<noteq> StatusPassed" "TaskStatusSkipped \<noteq> TaskStatusPlanned" "TaskStatusSkipped \<noteq> StatusFailed"
  "TaskStatusSkipped \<noteq> TaskStatusBlocked" "TaskStatusSkipped \<noteq> StatusPassed"
  by (simp_all add: status_defs store_status_defs)

lemma trim_interrupted [simp]: "trim_space InterruptedUnknownOutcome = InterruptedUnknownOutcome"
  by code_simp

lemma mark_interrupted_fields [simp]:
  "tr_ID (mark_interrupted now t) = tr_ID t" "tr_Kind (mark_interrupted now t) = tr_Kind t"
  "tr_PlanID (mark_interrupted now t) = tr_PlanID t"
  "tr_Status (mark_interrupted now t) = (if tr_Status t = TaskStatusRunning then StatusFailed else tr_Status t)"
  "task_interrupted (mark_interrupted now t) \<longleftrightarrow> tr_Status t = TaskStatusRunning \<or> task_interrupted t"
  by (simp_all add: mark_interrupted_def task_interrupted_def)

lemma prepare_existing_task_fields [simp]:
  "tr_ID (prepare_existing_task o1 now t) = tr_ID t" "tr_Kind (prepare_existing_task o1 now t) = tr_Kind t"
  "tr_PlanID (prepare_existing_task o1 now t) = tr_PlanID t"
  by (simp_all add: prepare_existing_task_def Let_def)

lemma prepare_existing_cases:
  obtains (interrupted) "tr_Status t = TaskStatusRunning \<or> task_interrupted t"
      "tr_ID t \<notin> selected_task_ids (ro_rerunTaskIDs o1)"
      "prepare_existing_task o1 now t = mark_interrupted now t"
    | (skipped) "tr_Status t = TaskStatusSkipped \<or> tr_Kind t = TaskSkip"
      "tr_Status (prepare_existing_task o1 now t) = TaskStatusSkipped"
    | (kept) "tr_Status t \<noteq> TaskStatusSkipped" "tr_Kind t \<noteq> TaskSkip" "has_resume_controls o1"
      "\<not> selected_for_execution (mark_interrupted now t) o1"
      "prepare_existing_task o1 now t = mark_interrupted now t"
    | (reset) "tr_Status t \<noteq> TaskStatusSkipped" "tr_Kind t \<noteq> TaskSkip"
      "\<not> ((tr_Status t = TaskStatusRunning \<or> task_interrupted t) \<and> tr_ID t \<notin> selected_task_ids (ro_rerunTaskIDs o1))"
      "has_resume_controls o1 \<longrightarrow> selected_for_execution (mark_interrupted now t) o1"
      "tr_Status (prepare_existing_task o1 now t) =
        (if keep_retry_status (mark_interrupted now t) o1 then tr_Status (mark_interrupted now t) else TaskStatusPlanned)"
      "tr_Reason (prepare_existing_task o1 now t) = []"
      "tr_SummaryJSON (prepare_existing_task o1 now t) = tr_SummaryJSON (mark_interrupted now t)"
proof -
  let ?m = "mark_interrupted now t"
  consider "task_interrupted ?m \<and> tr_ID t \<notin> selected_task_ids (ro_rerunTaskIDs o1)"
    | "\<not> (task_interrupted ?m \<and> tr_ID t \<notin> selected_task_ids (ro_rerunTaskIDs o1))"
      "tr_Status ?m = TaskStatusSkipped \<or> tr_Kind t = TaskSkip"
    | "\<not> (task_interrupted ?m \<and> tr_ID t \<notin> selected_task_ids (ro_rerunTaskIDs o1))"
      "\<not> (tr_Status ?m = TaskStatusSkipped \<or> tr_Kind t = TaskSkip)"
      "has_resume_controls o1 \<and> \<not> selected_for_execution ?m o1"
    | "\<not> (task_interrupted ?m \<and> tr_ID t \<notin> selected_task_ids (ro_rerunTaskIDs o1))"
      "\<not> (tr_Status ?m = TaskStatusSkipped \<or> tr_Kind t = TaskSkip)"
      "\<not> (has_resume_controls o1 \<and> \<not> selected_for_execution ?m o1)" by blast
  then show ?thesis
  proof cases
    case 1
    then show ?thesis by (intro interrupted) (simp_all add: prepare_existing_task_def Let_def)
  next
    case 2
    then show ?thesis by (intro skipped) (auto simp: prepare_existing_task_def Let_def split: if_splits)
  next
    case 3
    then show ?thesis by (intro kept) (auto simp: prepare_existing_task_def Let_def split: if_splits)
  next
    case 4
    then show ?thesis by (intro reset) (auto simp: prepare_existing_task_def Let_def split: if_splits)
  qed
qed

text \<open>
  C6. A task whose outcome is unknown is never replayed on its own account. After the reset of a
  stored plan no task is running; a task that was running when the last run died, or that already
  carries the interrupted mark, stays out of every later execution, with whatever options, unless
  its identifier is given to \<open>--rerun-task\<close> explicitly.
\<close>

theorem interrupted_never_replayed:
  assumes "tr_Status t = TaskStatusRunning \<or> task_interrupted t"
    and "tr_ID t \<notin> selected_task_ids (ro_rerunTaskIDs o1)"
    and "tr_ID t \<notin> selected_task_ids (ro_rerunTaskIDs o2)"
  shows "tr_Status (prepare_existing_task o1 now t) \<noteq> TaskStatusRunning \<and>
     \<not> will_run o2 (prepare_existing_task o1 now t) \<and>
     \<not> will_run o2 (prepare_existing_task o2 now2 (prepare_existing_task o1 now t))"
proof -
  have p: "prepare_existing_task o1 now t = mark_interrupted now t"
    using assms(1,2) by (simp add: prepare_existing_task_def Let_def)
  have "task_interrupted (mark_interrupted now t)" using assms(1) by simp
  moreover from this have "prepare_existing_task o2 now2 (mark_interrupted now t) = mark_interrupted now2 (mark_interrupted now t)"
    using assms(3) by (simp add: prepare_existing_task_def Let_def)
  ultimately show ?thesis using assms(3) by (simp add: p will_run_def selected_for_execution_def Let_def)
qed

definition demo_options :: run_options where
  "demo_options = \<lparr>ro_mapID = [], ro_planID = ''plan.1'', ro_scope = [], ro_caseID = [], ro_nodeID = [],
     ro_pathID = [], ro_workflowID = [], ro_interfaceID = [], ro_validationFamily = [],
     ro_environmentID = [], ro_baseURL = [], ro_evidenceDir = [], ro_timeoutSeconds = 0,
     ro_concurrency = 1, ro_resumeRun = False, ro_retryFailed = False, ro_skipPassed = False,
     ro_rerunTaskIDs = []\<rparr>"

definition demo_task :: "ident \<Rightarrow> string \<Rightarrow> task_record" where
  "demo_task i st = (record_from_task ''plan.1'' 5 (blank_task\<lparr>tk_ID := i, tk_Kind := TaskRunCase\<rparr>))\<lparr>tr_Status := st\<rparr>"

theorem interrupted_never_replayed_witness:
  "\<not> will_run (demo_options\<lparr>ro_retryFailed := True\<rparr>)
     (prepare_existing_task (demo_options\<lparr>ro_resumeRun := True\<rparr>) 9 (demo_task ''t1'' TaskStatusRunning))"
  by (rule interrupted_never_replayed [THEN conjunct2, THEN conjunct1])
    (simp_all add: demo_task_def demo_options_def selected_task_ids_def normalize_string_list_def)

text \<open>
  Exactly these tasks of a stored plan run again: a skipped one never; an interrupted one only
  if it is named; any task that is named; with \<open>--resume\<close> or \<open>--skip-passed\<close> every task
  that is not complete; with \<open>--retry-failed\<close> alone the failed and blocked ones; and with no
  control at all every task. The hypothesis is what \<open>parseMapRunOptions\<close> gives.
\<close>

theorem prepared_task_will_run:
  assumes "ro_rerunTaskIDs o1 = [] \<or> selected_task_ids (ro_rerunTaskIDs o1) \<noteq> {}"
  shows "will_run o1 (prepare_existing_task o1 now t) \<longleftrightarrow>
     tr_Kind t \<noteq> TaskSkip \<and> tr_Status t \<noteq> TaskStatusSkipped \<and>
     (tr_ID t \<in> selected_task_ids (ro_rerunTaskIDs o1) \<or>
      \<not> (tr_Status t = TaskStatusRunning \<or> task_interrupted t) \<and>
      (if ro_resumeRun o1 \<or> ro_skipPassed o1 then \<not> already_complete (tr_Status t)
       else ro_rerunTaskIDs o1 = [] \<and> (ro_retryFailed o1 \<longrightarrow> failed_or_blocked (tr_Status t))))"
proof -
  let ?t' = "prepare_existing_task o1 now t" and ?sel = "selected_task_ids (ro_rerunTaskIDs o1)"
  have empty: "?sel = {} \<longleftrightarrow> ro_rerunTaskIDs o1 = []"
    using assms by (auto simp: selected_task_ids_def normalize_string_list_def)
  show ?thesis
  proof (cases rule: prepare_existing_cases [of t o1 now])
    case interrupted
    then show ?thesis by (auto simp: will_run_def selected_for_execution_def Let_def)
  next
    case skipped
    then show ?thesis by (auto simp: will_run_def selected_for_execution_def Let_def)
  next
    case kept
    have ctl: "tr_ID t \<notin> ?sel"
      using kept(1,2,4) by (auto simp: selected_for_execution_def Let_def split: if_splits)
    have st: "selected_for_execution (mark_interrupted now t) o1 = False" using kept(4) by simp
    show ?thesis
      using kept(1-3) st ctl empty unfolding kept(5) will_run_def has_resume_controls_def
      by (auto simp: selected_for_execution_def Let_def already_complete_def failed_or_blocked_def split: if_splits)
  next
    case reset
    have sum: "tr_Status t = TaskStatusRunning \<or> task_interrupted t" if "task_interrupted ?t'"
    proof (cases "tr_Status t = TaskStatusRunning")
      case False
      have "InterruptedUnknownOutcome \<noteq> []" by (simp add: InterruptedUnknownOutcome_def)
      then have "value_string (obj_get (json_object_string (tr_SummaryJSON t)) ''failureCategory'') = InterruptedUnknownOutcome"
        using that reset(6,7) False by (simp add: task_interrupted_def mark_interrupted_def)
      then show ?thesis by (simp add: task_interrupted_def)
    qed simp
    show ?thesis
    proof (cases "tr_ID t \<in> ?sel")
      case True
      then have "\<not> keep_retry_status (mark_interrupted now t) o1"
        using empty by (auto simp: keep_retry_status_def)
      then show ?thesis using True reset by (simp add: will_run_def selected_for_execution_def task_runnable_def Let_def)
    next
      case False
      then have ni: "\<not> (tr_Status t = TaskStatusRunning \<or> task_interrupted t)" using reset(3) by blast
      then have m: "mark_interrupted now t = t" by (simp add: mark_interrupted_def)
      have ti: "\<not> task_interrupted ?t'" using sum ni by blast
      show ?thesis
      proof (cases "keep_retry_status t o1")
        case True
        then show ?thesis using reset False ni ti unfolding m
          by (auto simp: will_run_def selected_for_execution_def task_runnable_def Let_def keep_retry_status_def)
      next
        case nk: False
        then show ?thesis using reset False ni ti empty unfolding m
          by (auto simp: will_run_def selected_for_execution_def task_runnable_def Let_def keep_retry_status_def
              has_resume_controls_def already_complete_def failed_or_blocked_def split: if_splits)
      qed
    qed
  qed
qed

theorem prepared_task_will_run_witness:
  "will_run (demo_options\<lparr>ro_retryFailed := True\<rparr>)
     (prepare_existing_task (demo_options\<lparr>ro_retryFailed := True\<rparr>) 9 (demo_task ''t1'' StatusFailed))"
proof -
  let ?o = "demo_options\<lparr>ro_retryFailed := True\<rparr>" and ?t = "demo_task ''t1'' StatusFailed"
  have "\<not> task_interrupted ?t" "tr_Kind ?t \<noteq> TaskSkip" by code_simp+
  then show ?thesis
    by (subst prepared_task_will_run) (simp_all add: demo_options_def demo_task_def failed_or_blocked_def)
qed

text \<open>
  C36. Combining \<open>--retry-failed\<close> with \<open>--rerun-task\<close> loses failures: a failed task that
  is not named is reset to \<open>planned\<close>, with its reason and run identifiers erased, and then does
  not run, although \<open>--retry-failed\<close> asks for it.
\<close>

theorem retry_with_rerun_drops_failures:
  assumes "ro_retryFailed o1" "\<not> ro_resumeRun o1" "\<not> ro_skipPassed o1"
    and "selected_task_ids (ro_rerunTaskIDs o1) \<noteq> {}" "tr_ID t \<notin> selected_task_ids (ro_rerunTaskIDs o1)"
    and "tr_Status t = StatusFailed" "\<not> task_interrupted t" "tr_Kind t \<noteq> TaskSkip"
  shows "tr_Status (prepare_existing_task o1 now t) = TaskStatusPlanned \<and>
     tr_Reason (prepare_existing_task o1 now t) = [] \<and> tr_APICaseRunID (prepare_existing_task o1 now t) = [] \<and>
     \<not> will_run o1 (prepare_existing_task o1 now t)"
proof -
  have m: "mark_interrupted now t = t" using assms(6) by (simp add: mark_interrupted_def)
  have ne: "ro_rerunTaskIDs o1 \<noteq> []" using assms(4) by (auto simp: selected_task_ids_def normalize_string_list_def)
  have sel: "selected_for_execution t o1"
    using assms by (simp add: selected_for_execution_def Let_def failed_or_blocked_def)
  have p: "prepare_existing_task o1 now t = t\<lparr>tr_Status := TaskStatusPlanned, tr_WorkflowRunID := [],
      tr_APICaseRunID := [], tr_EvidenceRoot := [], tr_Reason := [], tr_StartedAt := zero_time, tr_FinishedAt := zero_time\<rparr>"
    using assms(5-8) sel ne by (simp add: prepare_existing_task_def m Let_def keep_retry_status_def)
  have "\<not> will_run o1 (prepare_existing_task o1 now t)"
    using prepared_task_will_run [of o1 now t] assms ne by simp
  then show ?thesis by (simp add: p)
qed

theorem retry_with_rerun_drops_failures_witness:
  "\<not> will_run (demo_options\<lparr>ro_retryFailed := True, ro_rerunTaskIDs := [''t2'']\<rparr>)
     (prepare_existing_task (demo_options\<lparr>ro_retryFailed := True, ro_rerunTaskIDs := [''t2'']\<rparr>) 9 (demo_task ''t1'' StatusFailed))"
proof -
  let ?o = "demo_options\<lparr>ro_retryFailed := True, ro_rerunTaskIDs := [''t2'']\<rparr>" and ?t = "demo_task ''t1'' StatusFailed"
  have "\<not> task_interrupted ?t" "tr_Kind ?t \<noteq> TaskSkip" by code_simp+
  moreover have "normalize_string_list [''t2''] = [''t2'']" by code_simp
  ultimately show ?thesis
    by (intro retry_with_rerun_drops_failures [THEN conjunct2, THEN conjunct2, THEN conjunct2])
      (simp_all add: demo_options_def demo_task_def selected_task_ids_def record_from_task_def blank_task_def)
qed

section \<open>Status and summary of a run\<close>

lemma map_run_status_from_cases:
  "map_run_status_from st ts =
     (if \<exists>t \<in> set ts. tr_Status t = StatusFailed then StatusFailed
      else if st = TaskStatusBlocked \<or> (\<exists>t \<in> set ts. tr_Status t = TaskStatusBlocked) then TaskStatusBlocked
      else if \<exists>t \<in> set ts. tr_Status t = TaskStatusPlanned \<or> tr_Status t = TaskStatusRunning then TaskStatusRunning
      else st)"
  by (induction ts arbitrary: st) auto

abbreviation status_count :: "string \<Rightarrow> task_record list \<Rightarrow> nat" where
  "status_count s ts \<equiv> length (filter (\<lambda>t. tr_Status t = s) ts)"

lemma fold_count_task:
  "rs_TotalTasks (fold count_task ts s) = rs_TotalTasks s"
  "rs_PassedTasks (fold count_task ts s) = rs_PassedTasks s + status_count StatusPassed ts"
  "rs_FailedTasks (fold count_task ts s) = rs_FailedTasks s + status_count StatusFailed ts"
  "rs_SkippedTasks (fold count_task ts s) = rs_SkippedTasks s + status_count TaskStatusSkipped ts"
  "rs_BlockedTasks (fold count_task ts s) = rs_BlockedTasks s + status_count TaskStatusBlocked ts"
  by (induction ts arbitrary: s) (auto simp: count_task_def Let_def)

lemma map_run_summary_counts:
  "rs_TotalTasks (map_run_summary ts) = length ts"
  "rs_PassedTasks (map_run_summary ts) = status_count StatusPassed ts"
  "rs_FailedTasks (map_run_summary ts) = status_count StatusFailed ts"
  "rs_SkippedTasks (map_run_summary ts) = status_count TaskStatusSkipped ts"
  "rs_BlockedTasks (map_run_summary ts) = status_count TaskStatusBlocked ts"
  by (simp_all add: map_run_summary_def fold_count_task)

lemma status_count_le: "status_count StatusPassed ts + status_count TaskStatusSkipped ts \<le> length ts"
  by (induction ts) auto

lemma status_count_all:
  "status_count StatusPassed ts + status_count TaskStatusSkipped ts = length ts \<longleftrightarrow>
     (\<forall>t \<in> set ts. tr_Status t = StatusPassed \<or> tr_Status t = TaskStatusSkipped)"
proof (induction ts)
  case (Cons t ts)
  then show ?case using status_count_le [of ts] by auto
qed simp

definition known_status :: "string \<Rightarrow> bool" where
  "known_status s \<longleftrightarrow> s \<in> {TaskStatusPlanned, TaskStatusRunning, StatusPassed, StatusFailed, TaskStatusSkipped, TaskStatusBlocked}"

text \<open>
  The status and the summary of a run agree: a run is \<open>passed\<close> exactly when its passed and
  skipped tasks make up all its tasks, \<open>failed\<close> exactly when the summary counts a failed task,
  and \<open>blocked\<close> exactly when it counts a blocked task and no failed one.
\<close>

theorem run_status_matches_summary:
  assumes "\<forall>t \<in> set ts. known_status (tr_Status t)"
  defines "s \<equiv> map_run_summary ts"
  shows "(map_run_status ts = StatusPassed \<longleftrightarrow> rs_PassedTasks s + rs_SkippedTasks s = rs_TotalTasks s) \<and>
     (map_run_status ts = StatusFailed \<longleftrightarrow> rs_FailedTasks s > 0) \<and>
     (map_run_status ts = TaskStatusBlocked \<longleftrightarrow> rs_FailedTasks s = 0 \<and> rs_BlockedTasks s > 0)"
proof -
  have st: "tr_Status t = StatusPassed \<or> tr_Status t = TaskStatusSkipped \<longleftrightarrow>
      tr_Status t \<noteq> StatusFailed \<and> tr_Status t \<noteq> TaskStatusBlocked \<and> tr_Status t \<noteq> TaskStatusPlanned \<and>
      tr_Status t \<noteq> TaskStatusRunning" if "t \<in> set ts" for t
    using assms(1) that by (auto simp: known_status_def status_defs store_status_defs)
  have some: "0 < status_count k ts \<longleftrightarrow> (\<exists>t \<in> set ts. tr_Status t = k)" for k
    by (auto simp: filter_empty_conv)
  have passed: "map_run_status ts = StatusPassed \<longleftrightarrow> (\<forall>t \<in> set ts. tr_Status t = StatusPassed \<or> tr_Status t = TaskStatusSkipped)"
    using st by (auto simp: map_run_status_def map_run_status_from_cases)
  have failed: "map_run_status ts = StatusFailed \<longleftrightarrow> (\<exists>t \<in> set ts. tr_Status t = StatusFailed)"
    by (auto simp: map_run_status_def map_run_status_from_cases)
  have blocked: "map_run_status ts = TaskStatusBlocked \<longleftrightarrow>
      \<not> (\<exists>t \<in> set ts. tr_Status t = StatusFailed) \<and> (\<exists>t \<in> set ts. tr_Status t = TaskStatusBlocked)"
    by (auto simp: map_run_status_def map_run_status_from_cases)
  show ?thesis
    unfolding passed failed blocked s_def map_run_summary_counts status_count_all using some by auto
qed

theorem run_status_matches_summary_witness:
  "map_run_status [demo_task ''t1'' StatusPassed, demo_task ''t2'' TaskStatusBlocked] = TaskStatusBlocked"
proof -
  let ?ts = "[demo_task ''t1'' StatusPassed, demo_task ''t2'' TaskStatusBlocked]"
  have "\<forall>t \<in> set ?ts. known_status (tr_Status t)" by (simp add: demo_task_def known_status_def)
  from run_status_matches_summary [OF this] show ?thesis
    by (simp add: map_run_summary_counts demo_task_def)
qed

section \<open>A plan is tied to its graph\<close>

definition plan_header :: "plan \<Rightarrow> ident \<times> ident \<times> obj" where
  "plan_header p = (pl_MapID p, pl_ProfileID p, pl_PlannerOptions p)"

lemma append_task_header [simp]: "plan_header (append_task t p) = plan_header p"
  by (simp add: append_task_def Let_def plan_header_def)

lemma prepare_replay_group_header:
  "prepare_replay_group H n t b = (gid, reused, reusable, b') \<Longrightarrow> plan_header (b_plan b') = plan_header (b_plan b)"
  by (auto simp: prepare_replay_group_def Let_def plan_header_def split: if_splits option.splits)

lemma add_replay_group_task_header [simp]:
  "plan_header (b_plan (add_replay_group_task gid tid b)) = plan_header (b_plan b)"
  by (auto simp: add_replay_group_task_def plan_header_def split: option.splits)

lemma plan_header_edges [simp]: "plan_header (p\<lparr>pl_TaskEdges := es\<rparr>) = plan_header p"
  by (simp add: plan_header_def)

lemma plan_header_tasks [simp]: "plan_header (p\<lparr>pl_PhysicalTasks := ts\<rparr>) = plan_header p"
  by (simp add: plan_header_def)

lemma append_case_operation_header [simp]:
  "plan_header (b_plan (snd (append_case_operation H g n oper acc))) = plan_header (b_plan (snd acc))"
proof -
  obtain ct b where acc: "acc = (ct, b)" by fastforce
  obtain gid reused reusable b1 where prep: "prepare_replay_group H n (task_from_operation g oper) b = (gid, reused, reusable, b1)"
    by (metis prod_cases4)
  show ?thesis using prepare_replay_group_header [OF prep]
    by (simp add: acc append_case_operation_def prep Let_def)
qed

lemma append_case_tasks_header:
  "append_case_tasks H g n ops b = (ct, b') \<Longrightarrow> plan_header (b_plan b') = plan_header (b_plan b)"
proof -
  assume a: "append_case_tasks H g n ops b = (ct, b')"
  have "plan_header (b_plan (snd (fold (append_case_operation H g n) ops acc))) = plan_header (b_plan (snd acc))" for acc
    by (induction ops arbitrary: acc) simp_all
  then show ?thesis using a by (metis append_case_tasks_def snd_conv)
qed

lemma tag_case_tasks_header [simp]: "plan_header (b_plan (tag_case_tasks n start gid b)) = plan_header (b_plan b)"
proof -
  have "plan_header (b_plan (fold (tag_case_task n gid) js b)) = plan_header (b_plan b)" for js
    by (induction js arbitrary: b) (simp_all add: tag_case_task_def Let_def plan_header_tasks)
  then show ?thesis by (simp add: tag_case_tasks_def)
qed

lemma plan_case_node_header:
  assumes "plan_case_node H g n b = Inr b'"
  shows "plan_header (b_plan b') = plan_header (b_plan b)"
  using assms
proof (cases rule: plan_case_node_InrE)
  case (1 ex p1 ct b1)
  have "plan_header (b_plan b1) = plan_header p1" using append_case_tasks_header [OF 1(3)] by simp
  moreover have "plan_header p1 = plan_header (b_plan b)" by (simp add: 1(2) plan_header_def)
  moreover have "plan_header (b_plan b') = plan_header (b_plan (tag_case_tasks n (length (pl_PhysicalTasks p1)) (ct_group ct) b1))"
    by (simp add: 1(4) Let_def plan_header_def append_case_rule_traces_def)
  ultimately show ?thesis by simp
qed

lemma plan_case_nodes_header:
  "plan_header (b_plan (snd (plan_case_nodes H g q ns (m, b)))) = plan_header (b_plan b)"
proof (induction ns arbitrary: m b)
  case (Cons n ns)
  have "plan_header ((b_plan b)\<lparr>pl_RejectedPlans := r\<rparr>) = plan_header (b_plan b)" for r
    by (simp add: plan_header_def)
  then show ?case using Cons.IH plan_case_node_header by (auto split: sum.splits)
qed simp

lemma plan_workflow_paths_header:
  "plan_header (snd (plan_workflow_paths g q ps (m, pl))) = plan_header pl"
proof (induction ps arbitrary: m pl)
  case (Cons p ps)
  have "plan_header (plan_workflow_path g p pl) = plan_header pl"
    by (simp add: plan_workflow_path_def) (simp add: plan_header_def)
  then show ?case using Cons.IH by simp
qed simp

lemma plan_scope_header:
  assumes "plan_scope H g q b = Inr b'"
  shows "plan_header (b_plan b') = plan_header (b_plan b)"
proof -
  have wf: "plan_header (b_plan b2) = plan_header (b_plan b1)" if "plan_workflow_scope g q b1 = Inr b2" for b1 b2
    using that by (cases rule: plan_workflow_scope_InrE) (simp add: plan_workflow_paths_header, simp add: plan_header_def)
  have cs: "plan_header (b_plan b2) = plan_header (b_plan b1)" if "plan_case_scope H g q b1 = Inr b2" for b1 b2
  proof -
    let ?b = "b1\<lparr>b_plan := (b_plan b1)\<lparr>pl_LogicalPlan := pl_LogicalPlan (b_plan b1) @ [scan_cases_op q]\<rparr>\<rparr>"
    have "b2 = snd (plan_case_nodes H g q (gr_Nodes g) (0, ?b))"
      using that by (auto simp: plan_case_scope_def Let_def split: if_splits prod.splits)
    then show ?thesis using plan_case_nodes_header [of H g q "gr_Nodes g" 0 ?b] by (simp add: plan_header_def)
  qed
  have tg: "plan_header (b_plan b2) = plan_header (b_plan b1)" if "plan_target_case H g q b1 = Inr b2" for b1 b2
    using that by (auto simp: plan_target_case_def dest!: plan_case_node_header split: option.splits sum.splits)
      (simp add: plan_header_def)
  show ?thesis using assms wf cs tg
    by (auto simp: plan_scope_def split: if_splits sum.splits)
qed

lemma explain_header:
  assumes "explain H g q = Inr p"
  shows "plan_header p = plan_header (base_plan H g (normalize_query g q))"
proof -
  obtain b where "p = finish_plan (normalize_query g q) (b_plan b)"
    "plan_scope H g (normalize_query g q) \<lparr>b_plan = base_plan H g (normalize_query g q),
       b_replayGroupByKey = Map.empty, b_replayTaskByGroup = Map.empty\<rparr> = Inr b"
    using assms by (rule explain_state)
  with plan_scope_header show ?thesis by (fastforce simp: finish_plan_def Let_def plan_header_def)
qed

lemma json_wf_obj_of_strings:
  "json_wf (JObj (obj_of (map (\<lambda>(k, s). (k, JStr s)) kvs)))"
  by (rule json_wf_obj_of) auto

lemma planner_options_wf: "json_wf (JObj (pl_PlannerOptions (base_plan H g q)))"
  using json_wf_obj_of_strings [of "[(''scope'', q_Scope q), (''targetKind'', q_TargetKind q),
    (''targetId'', q_TargetID q), (''environmentId'', q_EnvironmentID q), (''interfaceNodeId'', q_InterfaceNodeID q),
    (''validationFamily'', q_ValidationFamily q), (''role'', q_Role q), (''graphFingerprint'', graph_fingerprint H g)]"]
  by (simp add: base_plan_def del: json_wf.simps)

lemma planner_options_fingerprint:
  "obj_get (pl_PlannerOptions (base_plan H g q)) ''graphFingerprint'' = JStr (graph_fingerprint H g)"
  by (simp add: base_plan_def obj_get_def map_of_obj_of)

lemma json_for_db_obj_text [simp]: "json_wf (JObj kvs) \<Longrightarrow> json_for_db (obj_text kvs) d = obj_text kvs"
  using json_for_db_marshal [of "JObj kvs" d] by (simp add: obj_text_def del: json_marshal.simps json_wf.simps)

lemma graph_fingerprint_not_Nil [simp]: "graph_fingerprint H g \<noteq> []"
  by (simp add: graph_fingerprint_def)

text \<open>
  A plan is tied to the graph it was made for, also after a round through the store: the record
  that \<open>map run\<close> builds, once prepared for the database, is accepted on its own graph, and on any
  other graph exactly when that graph has the same fingerprint.
\<close>

theorem saved_plan_tied_to_graph:
  assumes "new_run_record H g o1 now stamp = Inr r"
  shows "validate_map_run_plan_graph H (prepare_test_map_plan_record r clock) g' =
     (if graph_fingerprint H g' = graph_fingerprint H g then None else Some Fingerprint_Mismatch)"
proof -
  obtain p where p: "explain H g (run_query o1) = Inr p"
    using assms by (auto simp: new_run_record_def split: sum.splits)
  have opts: "pl_PlannerOptions p = pl_PlannerOptions (base_plan H g (normalize_query g (run_query o1)))"
    using explain_header [OF p] by (simp add: plan_header_def)
  have "pi_PlannerOptionsJSON (pr_Instance r) = obj_text (pl_PlannerOptions p)"
    using assms by (auto simp: new_run_record_def p record_from_plan_def Let_def instance_from_plan_def split: if_splits)
  then have "pi_PlannerOptionsJSON (pr_Instance (prepare_test_map_plan_record r clock)) = obj_text (pl_PlannerOptions p)"
    by (simp add: prepare_test_map_plan_record_def prepare_instance_def Let_def opts planner_options_wf del: json_wf.simps)
  then have "json_object_string (pi_PlannerOptionsJSON (pr_Instance (prepare_test_map_plan_record r clock))) =
      pl_PlannerOptions p"
    by (simp add: opts planner_options_wf del: json_wf.simps)
  then show ?thesis
    by (simp add: validate_map_run_plan_graph_def opts planner_options_fingerprint value_string_def)
qed

theorem saved_plan_tied_to_graph_witness:
  "\<exists>r. new_run_record demo_hashes demo_graph demo_options 7 ''now'' = Inr r \<and>
     validate_map_run_plan_graph demo_hashes (prepare_test_map_plan_record r 8) demo_graph = None"
proof -
  have "open_query demo_graph (run_query demo_options)" by code_simp
  then obtain p where p: "explain demo_hashes demo_graph (run_query demo_options) = Inr p" using explain_open by blast
  then obtain r where r: "new_run_record demo_hashes demo_graph demo_options 7 ''now'' = Inr r"
    by (auto simp: new_run_record_def record_from_plan_def Let_def blank_iff_all_space is_space_def)
  then show ?thesis using saved_plan_tied_to_graph [OF r, of 8 demo_graph] by simp
qed

section \<open>A task survives the store\<close>

text \<open>
  What the executor reads back of a freshly planned task is what the planner put there: after
  the record is made and prepared for the database, the node up to which a path prefix runs, the
  replay group and the validation family are the task's own.
\<close>

theorem planned_task_roundtrip:
  fixes t :: physical_task and pid :: ident and now :: time and k :: nat
  assumes "json_wf (JObj (tk_Summary t))"
    and "\<not> blank (tk_UntilNodeID t)" "\<not> blank (tk_ReplayGroupID t)" "\<not> blank (tk_ValidationFamily t)"
  defines "stored \<equiv> prepare_task pid now k (record_from_task pid now t)"
  shows "task_until_node_id stored = tk_UntilNodeID t \<and>
     value_string (obj_get (json_object_string (tr_SummaryJSON stored)) ''replayGroupId'') = tk_ReplayGroupID t \<and>
     value_string (obj_get (json_object_string (tr_SummaryJSON stored)) ''validationFamily'') = tk_ValidationFamily t"
proof -
  have wf: "json_wf (JObj (task_record_summary t))"
    using assms(1) by (simp add: task_record_summary_def del: json_wf.simps)
  then have "json_object_string (tr_SummaryJSON stored) = task_record_summary t"
    by (simp add: stored_def prepare_task_def record_from_task_def del: json_wf.simps)
  then show ?thesis using assms(2-4)
    by (simp add: task_until_node_id_def task_record_summary_def put_unless_blank_def value_string_def)
qed

theorem planned_task_roundtrip_witness:
  "task_until_node_id (prepare_task ''p'' 3 0 (record_from_task ''p'' 3
     (blank_task\<lparr>tk_UntilNodeID := ''b'', tk_ReplayGroupID := ''g'', tk_ValidationFamily := ''type''\<rparr>))) = ''b''"
proof -
  let ?t = "blank_task\<lparr>tk_UntilNodeID := ''b'', tk_ReplayGroupID := ''g'', tk_ValidationFamily := ''type''\<rparr>"
  have "json_wf (JObj (tk_Summary ?t))" by (simp add: blank_task_def)
  moreover have "\<not> blank ''b''" "\<not> blank ''g''" "\<not> blank ''type''" by code_simp+
  ultimately show ?thesis using planned_task_roundtrip [of ?t "''p''" 3 0] by simp
qed

end
