(* ===== verification/Map_Waves.thy ===== *)
theory Map_Waves
  imports Map_Run_Facts
begin

text \<open>
  The schedule of an execution (\<open>mapRunTaskExecutionWaves\<close> of
  \<open>cmd/agent-testbench/map_run_executor.go\<close>): tasks are grouped into waves by Kahn's
  algorithm over the required edges, and tasks of one wave may run concurrently. The loop is given
  one round per task and one more; \<open>waves_returned\<close> shows that this is always enough.
\<close>

section \<open>The code\<close>

fun task_index_from :: "nat \<Rightarrow> task_record list \<Rightarrow> (ident \<rightharpoonup> nat) \<Rightarrow> ident \<rightharpoonup> nat" where
  "task_index_from i [] m = m"
| "task_index_from i (t # ts) m = task_index_from (Suc i) ts (m(tr_ID t \<mapsto> i))"

definition task_index :: "task_record list \<Rightarrow> ident \<rightharpoonup> nat" where
  "task_index ts = task_index_from 0 ts Map.empty"

fun required_links :: "(ident \<rightharpoonup> nat) \<Rightarrow> edge_record list \<Rightarrow> (nat \<times> nat) list" where
  "required_links idx [] = []"
| "required_links idx (e # es) =
     (if \<not> er_Required e then required_links idx es
      else case idx (er_FromTaskID e) of None \<Rightarrow> required_links idx es
      | Some from_i \<Rightarrow> (case idx (er_ToTaskID e) of None \<Rightarrow> required_links idx es
          | Some to_i \<Rightarrow> (from_i, to_i) # required_links idx es))"

text \<open>The maps \<open>indegree\<close> and \<open>dependents\<close>.\<close>

type_synonym degrees = "(nat \<Rightarrow> int) \<times> (nat \<Rightarrow> nat list)"

definition count_link :: "nat \<times> nat \<Rightarrow> degrees \<Rightarrow> degrees" where
  "count_link l st = ((fst st)(snd l := fst st (snd l) + 1), (snd st)(fst l := snd st (fst l) @ [snd l]))"

definition link_degrees :: "(nat \<times> nat) list \<Rightarrow> degrees" where
  "link_degrees ls = fold count_link ls (\<lambda>_. 0, \<lambda>_. [])"

definition decrement :: "nat \<Rightarrow> (nat \<Rightarrow> int) \<times> nat list \<Rightarrow> (nat \<Rightarrow> int) \<times> nat list" where
  "decrement d st = (let ind = (fst st)(d := fst st d - 1)
     in (ind, if ind d = 0 then snd st @ [d] else snd st))"

definition release_wave ::
  "(nat \<Rightarrow> nat list) \<Rightarrow> nat list \<Rightarrow> (nat \<Rightarrow> int) \<Rightarrow> (nat \<Rightarrow> int) \<times> nat list" where
  "release_wave deps wave ind = fold (\<lambda>current. fold decrement (deps current)) wave (ind, [])"

fun wave_loop ::
  "nat \<Rightarrow> (nat \<Rightarrow> nat list) \<Rightarrow> (nat \<Rightarrow> int) \<Rightarrow> nat list \<Rightarrow> nat set \<Rightarrow> (nat list list \<times> nat set) option" where
  "wave_loop fuel deps ind [] queued = Some ([], queued)"
| "wave_loop 0 deps ind (r # rs) queued = None"
| "wave_loop (Suc fuel) deps ind (r # rs) queued =
     (let wave = sort (r # rs); released = release_wave deps wave ind in
      case wave_loop fuel deps (fst released) (snd released) (queued \<union> set wave) of
        None \<Rightarrow> None
      | Some (waves, q) \<Rightarrow> Some (wave # waves, q))"

definition map_run_task_execution_waves :: "task_record list \<Rightarrow> edge_record list \<Rightarrow> nat list list option" where
  "map_run_task_execution_waves ts es =
     (let n = length ts; degs = link_degrees (required_links (task_index ts) es) in
      case wave_loop (Suc n) (snd degs) (fst degs) (filter (\<lambda>i. fst degs i = 0) [0..<n]) {} of
        None \<Rightarrow> None
      | Some (waves, queued) \<Rightarrow> Some (waves @ map (\<lambda>i. [i]) (filter (\<lambda>i. i \<notin> queued) [0..<n])))"

section \<open>Degrees\<close>

lemma task_index_from_less:
  "task_index_from i ts m k = Some j \<Longrightarrow> m k = Some j \<or> (i \<le> j \<and> j < i + length ts)"
  by (induction i ts m rule: task_index_from.induct) (fastforce split: if_splits)+

lemma task_index_less: "task_index ts k = Some j \<Longrightarrow> j < length ts"
  using task_index_from_less [of 0 ts Map.empty k j] by (simp add: task_index_def)

lemma required_links_bound:
  "(i, j) \<in> set (required_links idx es) \<Longrightarrow> \<exists>a b. idx a = Some i \<and> idx b = Some j"
  by (induction es) (auto split: if_splits option.splits)

lemma required_links_less:
  "(i, j) \<in> set (required_links (task_index ts) es) \<Longrightarrow> i < length ts \<and> j < length ts"
  using required_links_bound task_index_less by blast

lemma required_links_mem:
  assumes "e \<in> set es" "er_Required e" "idx (er_FromTaskID e) = Some i" "idx (er_ToTaskID e) = Some j"
  shows "(i, j) \<in> set (required_links idx es)"
  using assms by (induction es) (auto split: option.splits)

text \<open>How many links into \<open>v\<close> come from sources that satisfy \<open>P\<close>.\<close>

definition links_into :: "(nat \<times> nat) list \<Rightarrow> (nat \<Rightarrow> bool) \<Rightarrow> nat \<Rightarrow> nat" where
  "links_into ls P v = length (filter (\<lambda>l. snd l = v \<and> P (fst l)) ls)"

lemma links_into_zero_iff: "links_into ls P v = 0 \<longleftrightarrow> (\<forall>i. (i, v) \<in> set ls \<longrightarrow> \<not> P i)"
  by (auto simp: links_into_def filter_empty_conv)

lemma link_degrees_snoc: "link_degrees (ls @ [l]) = count_link l (link_degrees ls)"
  by (simp add: link_degrees_def)

lemma link_degrees_fst: "fst (link_degrees ls) v = int (links_into ls (\<lambda>_. True) v)"
  by (induction ls rule: rev_induct)
    (auto simp: link_degrees_snoc count_link_def links_into_def link_degrees_def)

lemma link_degrees_snd: "snd (link_degrees ls) i = map snd (filter (\<lambda>l. fst l = i) ls)"
  by (induction ls rule: rev_induct)
    (auto simp: link_degrees_snoc count_link_def link_degrees_def)

lemma count_list_dependents:
  "count_list (map snd (filter (\<lambda>l. fst l = i) ls)) v = links_into ls (\<lambda>a. a = i) v"
  by (induction ls) (auto simp: links_into_def)

lemma links_into_disjoint:
  "(\<And>a. \<not> (P a \<and> Q a)) \<Longrightarrow> links_into ls (\<lambda>a. P a \<or> Q a) v = links_into ls P v + links_into ls Q v"
  by (induction ls) (auto simp: links_into_def)

lemma count_list_released:
  assumes "distinct wave"
  shows "count_list (concat (map (snd (link_degrees ls)) wave)) v = links_into ls (\<lambda>a. a \<in> set wave) v"
  using assms
proof (induction wave)
  case Nil
  then show ?case by (simp add: links_into_def)
next
  case (Cons w ws)
  have "links_into ls (\<lambda>a. a \<in> set (w # ws)) v = links_into ls (\<lambda>a. a = w \<or> a \<in> set ws) v" by simp
  also have "\<dots> = links_into ls (\<lambda>a. a = w) v + links_into ls (\<lambda>a. a \<in> set ws) v"
    using Cons.prems by (intro links_into_disjoint) auto
  finally show ?case using Cons by (simp add: link_degrees_snd count_list_dependents)
qed

lemma links_into_pending:
  assumes "set wave \<inter> q = {}"
  shows "links_into ls (\<lambda>a. a \<notin> q) v =
    links_into ls (\<lambda>a. a \<notin> q \<union> set wave) v + links_into ls (\<lambda>a. a \<in> set wave) v"
proof -
  have "links_into ls (\<lambda>a. a \<notin> q) v = links_into ls (\<lambda>a. a \<notin> q \<union> set wave \<or> a \<in> set wave) v"
    using assms by (intro arg_cong [where f = "\<lambda>P. links_into ls P v"]) auto
  then show ?thesis by (simp add: links_into_disjoint)
qed

section \<open>One round\<close>

lemma fold_fold_concat: "fold (\<lambda>i. fold f (g i)) xs st = fold f (concat (map g xs)) st"
  by (induction xs arbitrary: st) simp_all

lemma fold_decrement:
  assumes "\<And>v. int (count_list ds v) \<le> ind v"
  shows "(\<forall>v. fst (fold decrement ds (ind, nx)) v = ind v - int (count_list ds v)) \<and>
    (\<exists>r. snd (fold decrement ds (ind, nx)) = nx @ r \<and> distinct r \<and>
      set r = {v \<in> set ds. ind v = int (count_list ds v)})"
  using assms
proof (induction ds rule: rev_induct)
  case Nil
  then show ?case by simp
next
  case (snoc d ds)
  have le: "int (count_list ds v) \<le> ind v" for v
    using snoc.prems [of v] by (simp split: if_splits)
  have lt: "int (count_list ds d) < ind d"
    using snoc.prems [of d] by simp
  obtain r where ind: "\<And>v. fst (fold decrement ds (ind, nx)) v = ind v - int (count_list ds v)"
    and r: "snd (fold decrement ds (ind, nx)) = nx @ r" "distinct r"
      "set r = {v \<in> set ds. ind v = int (count_list ds v)}"
    using snoc.IH [OF le] by blast
  have d: "d \<notin> set r" using lt r(3) by auto
  let ?r = "if ind d - int (count_list ds d) - 1 = 0 then r @ [d] else r"
  have "fst (fold decrement (ds @ [d]) (ind, nx)) v = ind v - int (count_list (ds @ [d]) v)" for v
    by (simp add: decrement_def ind Let_def)
  moreover have "snd (fold decrement (ds @ [d]) (ind, nx)) = nx @ ?r"
    by (simp add: decrement_def ind Let_def r(1))
  moreover have "distinct ?r" using d r(2) by simp
  moreover have "set ?r = {v \<in> set (ds @ [d]). ind v = int (count_list (ds @ [d]) v)}"
  proof (intro set_eqI)
    fix v
    show "v \<in> set ?r \<longleftrightarrow> v \<in> {v \<in> set (ds @ [d]). ind v = int (count_list (ds @ [d]) v)}"
    proof (cases "v = d")
      case True
      then show ?thesis using d by auto
    next
      case False
      then show ?thesis using r(3) by auto
    qed
  qed
  ultimately show ?case by blast
qed

text \<open>What holds at the head of the loop.\<close>

definition wave_inv :: "nat \<Rightarrow> (nat \<times> nat) list \<Rightarrow> (nat \<Rightarrow> int) \<Rightarrow> nat list \<Rightarrow> nat set \<Rightarrow> bool" where
  "wave_inv n ls ind ready queued \<longleftrightarrow> queued \<subseteq> {0..<n} \<and> distinct ready \<and>
     (\<forall>v. ind v = int (links_into ls (\<lambda>a. a \<notin> queued) v)) \<and>
     (\<forall>v \<in> queued. ind v = 0) \<and> set ready = {v. v < n \<and> v \<notin> queued \<and> ind v = 0}"

lemma wave_inv_step:
  assumes inv: "wave_inv n ls ind ready queued" and bound: "\<forall>(i, j) \<in> set ls. i < n \<and> j < n"
  defines "released \<equiv> release_wave (snd (link_degrees ls)) (sort ready) ind"
  shows "wave_inv n ls (fst released) (snd released) (queued \<union> set ready)"
proof -
  let ?ds = "concat (map (snd (link_degrees ls)) (sort ready))"
  let ?q = "queued \<union> set ready"
  have dis: "distinct (sort ready)" and rset: "set ready = {v. v < n \<and> v \<notin> queued \<and> ind v = 0}"
    and indv: "\<And>v. ind v = int (links_into ls (\<lambda>a. a \<notin> queued) v)"
    and q0: "\<And>v. v \<in> queued \<Longrightarrow> ind v = 0" and qn: "queued \<subseteq> {0..<n}"
    using inv by (auto simp: wave_inv_def)
  have cnt: "count_list ?ds v = links_into ls (\<lambda>a. a \<in> set ready) v" for v
    using count_list_released [OF dis, of ls v] by simp
  have pend: "ind v = int (links_into ls (\<lambda>a. a \<notin> ?q) v) + int (count_list ?ds v)" for v
    using links_into_pending [of ready queued ls v] rset by (simp add: indv cnt disjoint_iff)
  have rel: "released = fold decrement ?ds (ind, [])"
    by (simp add: released_def release_wave_def fold_fold_concat)
  have le: "int (count_list ?ds v) \<le> ind v" for v using pend [of v] by simp
  obtain r where fi: "\<And>v. fst released v = ind v - int (count_list ?ds v)"
    and r: "snd released = r" "distinct r" "set r = {v \<in> set ?ds. ind v = int (count_list ?ds v)}"
    using fold_decrement [of ?ds ind "[]", OF le] unfolding rel by auto
  have new: "fst released v = int (links_into ls (\<lambda>a. a \<notin> ?q) v)" for v
    using pend [of v] fi [of v] by simp
  have zero: "fst released v = 0" if "v \<in> ?q" for v
  proof -
    have "ind v = 0" using that rset q0 by auto
    then show ?thesis using new [of v] pend [of v] by simp
  qed
  have dsn: "v < n" if "v \<in> set ?ds" for v
    using that bound by (auto simp: link_degrees_snd)
  have pos: "v \<in> set ?ds \<longleftrightarrow> 0 < count_list ?ds v" for v
    using count_list_0_iff [of ?ds v] by auto
  have "v \<in> set r \<longleftrightarrow> v < n \<and> v \<notin> ?q \<and> fst released v = 0" for v
  proof
    assume v: "v \<in> set r"
    then have "v < n" "0 < ind v" "fst released v = 0" using r(3) dsn pos fi by auto
    moreover then have "v \<notin> ?q" using q0 rset by fastforce
    ultimately show "v < n \<and> v \<notin> ?q \<and> fst released v = 0" by blast
  next
    assume v: "v < n \<and> v \<notin> ?q \<and> fst released v = 0"
    then have "ind v \<noteq> 0" using rset by auto
    then have "0 < count_list ?ds v" using v fi [of v] by simp
    then show "v \<in> set r" using r(3) pos v fi [of v] by auto
  qed
  then have "set (snd released) = {v. v < n \<and> v \<notin> ?q \<and> fst released v = 0}"
    using r(1) by auto
  moreover have "?q \<subseteq> {0..<n}" using qn rset by auto
  ultimately show ?thesis
    using new zero r(1,2) unfolding wave_inv_def by blast
qed

section \<open>The whole schedule\<close>

lemma wave_loop_returns:
  assumes "wave_inv n ls ind ready queued" "\<forall>(i, j) \<in> set ls. i < n \<and> j < n" "n < fuel + card queued"
  shows "\<exists>waves q. wave_loop fuel (snd (link_degrees ls)) ind ready queued = Some (waves, q)"
  using assms
proof (induction fuel arbitrary: ind ready queued)
  case 0
  have "queued \<subseteq> {0..<n}" using 0(1) by (simp add: wave_inv_def)
  then have "card queued \<le> n" using card_mono [of "{0..<n}" queued] by simp
  then show ?case using 0(3) by simp
next
  case (Suc fuel)
  show ?case
  proof (cases ready)
    case Nil
    then show ?thesis by simp
  next
    case (Cons r rs)
    let ?rel = "release_wave (snd (link_degrees ls)) (sort ready) ind"
    have inv: "wave_inv n ls (fst ?rel) (snd ?rel) (queued \<union> set ready)"
      by (rule wave_inv_step [OF Suc.prems(1,2)])
    have "finite queued" "set ready \<inter> queued = {}" "r \<in> set ready"
      using Suc.prems(1) Cons by (auto simp: wave_inv_def intro: finite_subset)
    then have "card queued < card (queued \<union> set ready)"
      by (intro psubset_card_mono) auto
    then have "n < fuel + card (queued \<union> set ready)" using Suc.prems(3) by simp
    from Suc.IH [OF inv Suc.prems(2) this] show ?thesis
      using Cons by (auto simp: Let_def simp del: sort_key_simps)
  qed
qed

text \<open>
  The order the waves keep: \<open>waves_ordered ls done ws\<close> holds when every link into a wave comes
  from \<open>done\<close> or an earlier wave.
\<close>

fun waves_ordered :: "(nat \<times> nat) list \<Rightarrow> nat set \<Rightarrow> nat list list \<Rightarrow> bool" where
  "waves_ordered ls q [] \<longleftrightarrow> True"
| "waves_ordered ls q (w # ws) \<longleftrightarrow> (\<forall>(i, j) \<in> set ls. j \<in> set w \<longrightarrow> i \<in> q) \<and> waves_ordered ls (q \<union> set w) ws"

lemma wave_inv_done:
  assumes "wave_inv n ls ind [] q" "v < n" "v \<notin> q"
  shows "\<exists>i. (i, v) \<in> set ls \<and> i \<notin> q"
proof -
  have "ind v \<noteq> 0" "ind v = int (links_into ls (\<lambda>a. a \<notin> q) v)"
    using assms by (auto simp: wave_inv_def)
  then have "links_into ls (\<lambda>a. a \<notin> q) v \<noteq> 0" by simp
  then show ?thesis unfolding links_into_zero_iff by blast
qed

lemma wave_inv_bound: "wave_inv n ls ind ready q \<Longrightarrow> q \<subseteq> {0..<n}"
  by (simp add: wave_inv_def)

lemma wave_loop_correct:
  assumes "wave_inv n ls ind ready queued" "\<forall>(i, j) \<in> set ls. i < n \<and> j < n"
    "wave_loop fuel (snd (link_degrees ls)) ind ready queued = Some (waves, q)"
  shows "distinct (concat waves) \<and> set (concat waves) = q - queued \<and> queued \<subseteq> q \<and> q \<subseteq> {0..<n} \<and>
    waves_ordered ls queued waves \<and> (\<forall>v < n. v \<notin> q \<longrightarrow> (\<exists>i. (i, v) \<in> set ls \<and> i \<notin> q))"
  using assms
proof (induction fuel arbitrary: ind ready queued waves q)
  case 0
  then have "ready = []" "waves = []" "q = queued" by (cases ready; simp)+
  then show ?case using wave_inv_done [of n ls ind queued] wave_inv_bound [OF 0(1)] 0(1) by simp
next
  case (Suc fuel)
  show ?case
  proof (cases ready)
    case Nil
    then have "waves = []" "q = queued" using Suc.prems by simp_all
    then show ?thesis
      using wave_inv_done [of n ls ind queued] wave_inv_bound [OF Suc.prems(1)] Suc.prems(1) Nil by simp
  next
    case (Cons r rs)
    let ?rel = "release_wave (snd (link_degrees ls)) (sort ready) ind"
    have inv: "wave_inv n ls (fst ?rel) (snd ?rel) (queued \<union> set ready)"
      by (rule wave_inv_step [OF Suc.prems(1,2)])
    obtain ws where ws: "wave_loop fuel (snd (link_degrees ls)) (fst ?rel) (snd ?rel) (queued \<union> set ready) = Some (ws, q)"
      "waves = sort ready # ws"
      using Suc.prems(3) Cons by (auto simp: Let_def simp del: sort_key_simps split: option.splits)
    note IH = Suc.IH [OF inv Suc.prems(2) ws(1)]
    have ord: "\<forall>(i, j) \<in> set ls. j \<in> set ready \<longrightarrow> i \<in> queued"
      using Suc.prems(1) by (auto simp: wave_inv_def links_into_zero_iff)
    have "set ready \<inter> queued = {}" "distinct ready" using Suc.prems(1) by (auto simp: wave_inv_def)
    then show ?thesis using IH ord unfolding ws(2) by auto
  qed
qed

lemma wave_inv_init:
  "wave_inv n ls (fst (link_degrees ls)) (filter (\<lambda>i. fst (link_degrees ls) i = 0) [0..<n]) {}"
  by (auto simp: wave_inv_def link_degrees_fst)

lemma waves_cases:
  assumes "ls = required_links (task_index ts) es" "n = length ts"
  obtains waves q where
    "map_run_task_execution_waves ts es = Some (waves @ map (\<lambda>i. [i]) (filter (\<lambda>i. i \<notin> q) [0..<n]))"
    "distinct (concat waves)" "set (concat waves) = q" "q \<subseteq> {0..<n}" "waves_ordered ls {} waves"
    "\<And>v. v < n \<Longrightarrow> v \<notin> q \<Longrightarrow> \<exists>i. (i, v) \<in> set ls \<and> i \<notin> q"
proof -
  have bound: "\<forall>(i, j) \<in> set ls. i < n \<and> j < n"
    using required_links_less assms by auto
  obtain waves q where w: "wave_loop (Suc n) (snd (link_degrees ls)) (fst (link_degrees ls))
      (filter (\<lambda>i. fst (link_degrees ls) i = 0) [0..<n]) {} = Some (waves, q)"
    using wave_loop_returns [OF wave_inv_init bound, of "Suc n"] by auto
  have eq: "map_run_task_execution_waves ts es = Some (waves @ map (\<lambda>i. [i]) (filter (\<lambda>i. i \<notin> q) [0..<n]))"
    using w assms by (simp add: map_run_task_execution_waves_def Let_def)
  show ?thesis
    using wave_loop_correct [OF wave_inv_init bound w] by (intro that [OF eq]) auto
qed

lemma concat_singletons [simp]: "concat (map (\<lambda>i. [i]) xs) = xs"
  by (induction xs) simp_all

lemma waves_ordered_index:
  assumes "waves_ordered ls q ws" "(i, j) \<in> set ls" "b < length ws" "j \<in> set (ws ! b)"
  shows "i \<in> q \<or> (\<exists>a < b. i \<in> set (ws ! a))"
  using assms
proof (induction ls q ws arbitrary: b rule: waves_ordered.induct)
  case (2 ls q w ws)
  show ?case
  proof (cases b)
    case 0
    then show ?thesis using 2(2-5) by auto
  next
    case (Suc b')
    then have "i \<in> q \<union> set w \<or> (\<exists>a < b'. i \<in> set (ws ! a))"
      using 2 by (intro 2(1)) auto
    then show ?thesis
    proof (elim disjE exE conjE UnE)
      fix a assume "a < b'" "i \<in> set (ws ! a)"
      then show ?thesis using Suc by (intro disjI2 exI [of _ "Suc a"]) simp
    qed (use Suc in auto)
  qed
qed simp

lemma acyclic_waves_complete:
  assumes "acyclic (set ls)" "\<forall>(i, j) \<in> set ls. i < n \<and> j < n"
    "\<And>v. v < n \<Longrightarrow> v \<notin> q \<Longrightarrow> \<exists>i. (i, v) \<in> set ls \<and> i \<notin> q" "v < (n :: nat)"
  shows "v \<in> q"
proof (rule ccontr)
  assume v: "v \<notin> q"
  have "wf (set ls)" using assms(1) by (simp add: finite_acyclic_wf)
  moreover have "v \<in> {v. v < n \<and> v \<notin> q}" using v assms(4) by simp
  ultimately obtain z where z: "z \<in> {v. v < n \<and> v \<notin> q}" "\<And>y. (y, z) \<in> set ls \<Longrightarrow> y \<notin> {v. v < n \<and> v \<notin> q}"
    by (rule wfE_min) blast
  then obtain i where "(i, z) \<in> set ls" "i \<notin> q" using assms(3) by blast
  then show False using z(2) [of i] assms(2) by auto
qed

section \<open>The schedule is complete and respects the required edges\<close>

lemma waves_each_once:
  "\<exists>ws. map_run_task_execution_waves ts es = Some ws \<and> distinct (concat ws) \<and>
     set (concat ws) = {0..<length ts}"
proof -
  obtain waves q where w: "map_run_task_execution_waves ts es =
      Some (waves @ map (\<lambda>i. [i]) (filter (\<lambda>i. i \<notin> q) [0..<length ts]))"
    "distinct (concat waves)" "set (concat waves) = q" "q \<subseteq> {0..<length ts}"
    using waves_cases [OF refl refl, of ts es] by metis
  let ?ws = "waves @ map (\<lambda>i. [i]) (filter (\<lambda>i. i \<notin> q) [0..<length ts])"
  have "distinct (concat ?ws)" using w(2,3) by auto
  moreover have "set (concat ?ws) = {0..<length ts}" using w(3,4) by auto
  ultimately show ?thesis using w(1) by blast
qed

text \<open>
  C24. The scheduling loop always ends, for any tasks and edges, cyclic ones included, and the
  waves it returns name every task of the plan exactly once: no task is dropped and none is run
  twice.
\<close>

theorem waves_schedule_every_task_once:
  "\<exists>ws. map_run_task_execution_waves ts es = Some ws \<and> distinct (concat ws) \<and>
     set (concat ws) = {0..<length ts}"
  by (rule waves_each_once)

text \<open>
  C23. When the required edges of a plan have no cycle, every required edge between two of its
  tasks goes from a wave to a strictly later one. So a task is never started in the same wave as
  a task it requires, at any concurrency.
\<close>

theorem waves_follow_required_edges:
  assumes "acyclic (set (required_links (task_index ts) es))"
    and "e \<in> set es" "er_Required e"
    and "task_index ts (er_FromTaskID e) = Some i" "task_index ts (er_ToTaskID e) = Some j"
  shows "\<exists>ws a b. map_run_task_execution_waves ts es = Some ws \<and> a < b \<and> b < length ws \<and>
    i \<in> set (ws ! a) \<and> j \<in> set (ws ! b)"
proof -
  let ?ls = "required_links (task_index ts) es"
  obtain waves q where w: "map_run_task_execution_waves ts es =
      Some (waves @ map (\<lambda>i. [i]) (filter (\<lambda>i. i \<notin> q) [0..<length ts]))"
    and q: "set (concat waves) = q" and ord: "waves_ordered ?ls {} waves"
    and left: "\<And>v. v < length ts \<Longrightarrow> v \<notin> q \<Longrightarrow> \<exists>i. (i, v) \<in> set ?ls \<and> i \<notin> q"
    by (rule waves_cases [OF refl refl, of ts es]) blast
  have bound: "\<forall>(i, j) \<in> set ?ls. i < length ts \<and> j < length ts" using required_links_less by auto
  have all: "v \<in> q" if "v < length ts" for v
    using acyclic_waves_complete [OF assms(1) bound left that] by blast
  then have ws: "map_run_task_execution_waves ts es = Some waves" using w by auto
  have link: "(i, j) \<in> set ?ls" using required_links_mem [OF assms(2-5)] .
  have "j \<in> q" using all task_index_less [OF assms(5)] by blast
  then obtain w where "w \<in> set waves" "j \<in> set w" using q by auto
  then obtain b where b: "b < length waves" "j \<in> set (waves ! b)" by (metis in_set_conv_nth)
  then obtain a where "a < b" "i \<in> set (waves ! a)"
    using waves_ordered_index [OF ord link] by auto
  then show ?thesis using ws b by blast
qed

definition plain_record :: "ident \<Rightarrow> task_record" where
  "plain_record i = \<lparr>tr_PlanID = ''p'', tr_ID = i, tr_Index = 0, tr_Kind = TaskRunCase, tr_Operation = [],
     tr_PathID = [], tr_WorkflowID = [], tr_NodeID = [], tr_CaseID = i, tr_MaterializationID = [],
     tr_RequiredPropertyJSON = ''{}'', tr_ProvidedPropertyJSON = ''{}'', tr_CostJSON = ''{}'',
     tr_Status = TaskStatusPlanned, tr_Reason = [], tr_WorkflowRunID = [], tr_APICaseRunID = [],
     tr_EvidenceRoot = [], tr_SummaryJSON = ''{}'', tr_StartedAt = 0, tr_FinishedAt = 0, tr_CreatedAt = 0\<rparr>"

definition requires :: "ident \<Rightarrow> ident \<Rightarrow> edge_record" where
  "requires a b = \<lparr>er_PlanID = ''p'', er_FromTaskID = a, er_ToTaskID = b, er_Kind = ''control'',
     er_Required = True, er_MappingsJSON = ''[]'', er_SummaryJSON = ''{}'', er_SortOrder = 0\<rparr>"

theorem waves_follow_required_edges_witness:
  "\<exists>ws a b. map_run_task_execution_waves [plain_record ''b'', plain_record ''c'', plain_record ''a'']
     [requires ''a'' ''b'', requires ''b'' ''c''] = Some ws \<and> a < b \<and> b < length ws \<and>
     2 \<in> set (ws ! a) \<and> 0 \<in> set (ws ! b)"
proof -
  let ?ts = "[plain_record ''b'', plain_record ''c'', plain_record ''a'']"
  let ?es = "[requires ''a'' ''b'', requires ''b'' ''c'']"
  have idx: "task_index ?ts ''a'' = Some 2" "task_index ?ts ''b'' = Some 0" "task_index ?ts ''c'' = Some 1"
    by (simp_all add: task_index_def plain_record_def)
  have ls: "required_links (task_index ?ts) ?es = [(2, 0), (0, 1)]"
    by (simp add: requires_def idx)
  have "acyclic {(2 :: nat, 0), (0, 1)}"
    by (rule wf_acyclic [OF wf_subset [OF wf_measure [of "\<lambda>v. if v = 2 then 0 else Suc v"]]]) auto
  then have "acyclic (set (required_links (task_index ?ts) ?es))" unfolding ls by simp
  moreover have "er_FromTaskID (requires ''a'' ''b'') = ''a''" "er_ToTaskID (requires ''a'' ''b'') = ''b''"
    "er_Required (requires ''a'' ''b'')"
    by (simp_all add: requires_def)
  ultimately show ?thesis
    using idx by (intro waves_follow_required_edges [where e = "requires ''a'' ''b''"]) simp_all
qed

end
