(* ===== verification/Workflow_Values.thy ===== *)
theory Workflow_Values
  imports Json
begin

text \<open>
  How values travel between the steps of a path and between tasks: the exports a step declares
  (\<open>cmd/agent-testbench/workflow_shared_helpers.go\<close>), dotted paths into decoded JSON, and the
  overrides a reused fixture provides (\<open>map_run_materialization.go\<close>). The result of a case is
  read as decoded JSON; a nil map and an empty one are the same object here.
\<close>

section \<open>Numbers and decoding\<close>

text \<open>
  \<open>strconv.Atoi\<close>: an optional sign and decimal digits. Values outside 64 bits are an error.
\<close>

definition atoi :: "string \<Rightarrow> int option" where
  "atoi s =
     (let neg = prefix ''-'' s; digits = (if neg \<or> prefix ''+'' s then tl s else s);
          v = (if neg then - int (nat_of_digits digits) else int (nat_of_digits digits))
      in if digits = [] \<or> \<not> list_all is_digit digits \<or> v < - (2 ^ 63) \<or> 2 ^ 63 \<le> v then None else Some v)"

text \<open>
  \<open>intFromReportAny\<close>. The literal of a number stands for the Go value: an integral literal is
  that integer, and a literal with a fraction or an exponent gives 0, as \<open>json.Number\<close> does.
\<close>

definition int_from_any :: "json \<Rightarrow> int" where
  "int_from_any v = (case v of JNum l \<Rightarrow> (case atoi l of Some n \<Rightarrow> n | None \<Rightarrow> 0) | _ \<Rightarrow> 0)"

text \<open>\<open>rawJSONObject\<close>: \<open>Decode\<close> reads the first value of the text and ignores what follows it.\<close>

definition raw_json_object :: "string \<Rightarrow> obj" where
  "raw_json_object s =
     (if blank s then []
      else case parse_value (Suc (length s)) s of Some (JObj kvs, r) \<Rightarrow> kvs | _ \<Rightarrow> [])"

fun first_report_value :: "obj \<Rightarrow> string list \<Rightarrow> json" where
  "first_report_value values [] = JNull"
| "first_report_value values (k # ks) =
     (case map_of values k of Some v \<Rightarrow> v | None \<Rightarrow> first_report_value values ks)"

section \<open>Paths\<close>

fun value_at_parts :: "json \<Rightarrow> string list \<Rightarrow> json" where
  "value_at_parts current [] = current"
| "value_at_parts current (part # parts) =
     (let next = (case current of
          JObj kvs \<Rightarrow> obj_get kvs part
        | JArr xs \<Rightarrow> (case atoi part of
            None \<Rightarrow> JNull
          | Some i \<Rightarrow> if i < 0 \<or> int (length xs) \<le> i then JNull else xs ! nat i)
        | _ \<Rightarrow> JNull)
      in if next = JNull then JNull else value_at_parts next parts)"

definition workflow_value_at_path :: "json \<Rightarrow> string \<Rightarrow> json" where
  "workflow_value_at_path root path =
     (if blank path then root else value_at_parts root (split_on (CHR ''.'') path))"

definition workflow_export_root :: "obj \<Rightarrow> string \<Rightarrow> json" where
  "workflow_export_root result source =
     (let block = map_from_any (obj_get result ''result'');
          request = map_from_any (obj_get block ''request'');
          response = map_from_any (obj_get block ''response'');
          response_body = JObj (raw_json_object (value_string (obj_get response ''body'')))
      in if source = ''request'' \<or> source = ''requestBody'' then first_report_value request [''body'']
         else if source = ''requestQuery'' then first_report_value request [''query'']
         else if source = ''responseHeaders'' then first_report_value response [''headers'']
         else response_body)"

definition export_value :: "obj \<Rightarrow> json \<Rightarrow> obj \<Rightarrow> obj" where
  "export_value result raw out =
     (let item = map_from_any raw; name = value_string (obj_get item ''name'') in
      if name = [] then out
      else
        (let v = workflow_value_at_path
           (workflow_export_root result (value_string (obj_get item ''from'')))
           (value_string (obj_get item ''path''))
         in if v \<noteq> JNull then obj_put name v out else out))"

definition workflow_exported_values :: "obj \<Rightarrow> obj \<Rightarrow> obj" where
  "workflow_exported_values step result =
     fold (export_value result) (list_from_any (obj_get step ''exports'')) []"

definition put_all :: "obj \<Rightarrow> obj \<Rightarrow> obj" where
  "put_all vs out = fold (\<lambda>(k, v). obj_put k v) vs out"

section \<open>Overrides of a fixture\<close>

definition json_path_key :: "string \<Rightarrow> string" where
  "json_path_key path = trim_prefix ''$'' (trim_prefix ''$.'' (trim_space path))"

definition map_run_json_path_value :: "obj \<Rightarrow> string \<Rightarrow> json" where
  "map_run_json_path_value root path =
     (let p = json_path_key path in
      if p = [] then JObj root else workflow_value_at_path (JObj root) p)"

definition map_run_override_keys :: "string \<Rightarrow> string list" where
  "map_run_override_keys path =
     (let trimmed = json_path_key path in
      if trimmed = [] then []
      else
        (let leaf = last (split_on (CHR ''.'') trimmed) in
         trimmed # (if leaf \<noteq> [] \<and> leaf \<noteq> trimmed then [leaf] else [])))"

definition list_of_maps :: "string \<Rightarrow> obj list" where
  "list_of_maps raw =
     (if blank raw then []
      else case json_unmarshal raw of
        Some (JArr xs) \<Rightarrow>
          if list_all (\<lambda>x. case x of JObj _ \<Rightarrow> True | JNull \<Rightarrow> True | _ \<Rightarrow> False) xs
          then map map_from_any xs else []
      | _ \<Rightarrow> [])"

definition apply_mapping :: "obj \<Rightarrow> obj \<Rightarrow> obj \<Rightarrow> obj" where
  "apply_mapping data mapping out =
     (let v = map_run_json_path_value data (value_string (obj_get mapping ''from'')) in
      if v = JNull then out
      else fold (\<lambda>key. obj_put key v) (map_run_override_keys (value_string (obj_get mapping ''to''))) out)"

definition map_run_materialized_overrides :: "string \<Rightarrow> obj list \<Rightarrow> obj option" where
  "map_run_materialized_overrides raw mappings =
     (case (if blank raw then Some [] else unmarshal_map raw) of
        None \<Rightarrow> None
      | Some data \<Rightarrow> Some (fold (apply_mapping data) mappings data))"

definition map_run_sorted_keys :: "obj \<Rightarrow> string list" where
  "map_run_sorted_keys kvs = sort (map fst kvs)"

section \<open>Lemmas\<close>

lemma obj_wf_fold_put: "obj_wf out \<Longrightarrow> obj_wf (fold (\<lambda>key. obj_put key v) ks out)"
  by (induction ks arbitrary: out) simp_all

lemma obj_wf_put_all [simp]: "obj_wf out \<Longrightarrow> obj_wf (put_all vs out)"
  by (induction vs arbitrary: out) (auto simp: put_all_def)

lemma put_all_Nil [simp]: "put_all [] out = out"
  by (simp add: put_all_def)

lemma obj_get_fold_put:
  "obj_get (fold (\<lambda>key. obj_put key v) ks out) k = (if k \<in> set ks then v else obj_get out k)"
  by (induction ks arbitrary: out) auto

lemma value_at_parts_append:
  "parts \<noteq> [] \<Longrightarrow> more \<noteq> [] \<Longrightarrow>
   value_at_parts root (parts @ more) = value_at_parts (value_at_parts root parts) more"
proof (induction root parts rule: value_at_parts.induct)
  case (2 current part parts)
  have null: "value_at_parts JNull more = JNull" using 2(3) by (cases more) simp_all
  show ?case
  proof (cases "parts = []")
    case True
    then show ?thesis using null by (auto simp: Let_def)
  next
    case False
    then show ?thesis using 2 null by (auto simp: Let_def)
  qed
qed simp

end
