(* ===== verification/Catalog.thy ===== *)
theory Catalog
  imports TB_Prelude
begin

text \<open>
  The records of the profile catalog (\<open>internal/domain/catalog/records.go\<close>) that the graph
  import and the executor of a plan read. Services and the fields of interfaces, which neither
  looks at, are left out of \<open>profile_catalog\<close>. A Go slice that may be \<open>nil\<close> and is
  printed as JSON is an option.
\<close>

record workflow =
  wf_ID :: ident
  wf_DisplayName :: string
  wf_Description :: string
  wf_BaseStepTimeoutMs :: int
  wf_TimeoutOffsetMs :: int

record api_case =
  ac_ID :: ident
  ac_DisplayName :: string
  ac_Description :: string
  ac_NodeID :: ident
  ac_CaseType :: string
  ac_Scenario :: string
  ac_Tags :: "string list option"
  ac_Priority :: string
  ac_Owner :: string
  ac_PayloadTemplateJSON :: string
  ac_RequestTemplateID :: ident
  ac_PatchJSON :: string
  ac_RenderMode :: string
  ac_ExpectedJSON :: string
  ac_RequiredForAdmission :: bool
  ac_Status :: string
  ac_SortOrder :: int
  ac_CasePath :: string
  ac_SourceKind :: string
  ac_SourcePath :: string
  ac_ExecutorID :: ident
  ac_BaseURL :: string
  ac_EvidenceDir :: string
  ac_TimeoutSeconds :: int
  ac_DefaultOverridesJSON :: string

record workflow_binding =
  wb_WorkflowID :: ident
  wb_StepID :: ident
  wb_NodeID :: ident
  wb_CaseID :: ident
  wb_Required :: bool
  wb_SortOrder :: int

record case_dependency =
  cd_ID :: ident
  cd_CaseID :: ident
  cd_FixtureID :: ident
  cd_MappingsJSON :: string
  cd_Required :: bool
  cd_Status :: string
  cd_SortOrder :: int

record fixture =
  fx_ID :: ident
  fx_DisplayName :: string
  fx_Kind :: string
  fx_DataJSON :: string
  fx_SourceWorkflowID :: ident
  fx_SourceUntilStep :: ident
  fx_TTLSeconds :: int
  fx_Status :: string
  fx_SortOrder :: int

record template_config =
  tc_ID :: ident
  tc_TemplateID :: ident
  tc_NodeID :: ident
  tc_WorkflowID :: ident
  tc_ScopeType :: string
  tc_ScopeID :: ident
  tc_Title :: string
  tc_Description :: string
  tc_ConfigJSON :: string
  tc_Status :: string
  tc_SortOrder :: int

record profile_catalog =
  pc_ProfileID :: ident
  pc_IndexedAt :: time
  pc_Workflows :: "workflow list"
  pc_APICases :: "api_case list"
  pc_WorkflowBindings :: "workflow_binding list"
  pc_CaseDependencies :: "case_dependency list"
  pc_Fixtures :: "fixture list"
  pc_TemplateConfigs :: "template_config list"

text \<open>Go's \<open>item.Status == "" (trimmed) or "active"\<close>, which the executor asks of an entry.\<close>

definition StatusActive :: string where "StatusActive = ''active''"

definition blank_or_active :: "string \<Rightarrow> bool" where
  "blank_or_active st \<longleftrightarrow> blank st \<or> st = StatusActive"

end
