(* ===== verification/Map_Execute.thy ===== *)
theory Map_Execute
  imports Map_Waves Workflow_Values Catalog
begin

text \<open>
  The executor of a plan (\<open>map_run_executor.go\<close>, \<open>map_run_lease.go\<close>,
  \<open>map_run_materialization.go\<close>, \<open>map_run_case_runner.go\<close> and
  \<open>runMapRun\<close> of \<open>map_run_commands.go\<close>).

  \<open>exec_state\<close> is what the Go executor shares between its goroutines: the recorded error,
  the lease, the status and the exports per task, with the plan tables and, for the properties,
  the log of the requests sent and the runs stored. \<open>exec_env\<close> is everything the executor
  does not control: the clock, the outcome of each case request, the catalog, other connections
  that commit between two of its own operations, the ticks of the heartbeat and the cancellation of
  the context. Each may answer differently at every step of the execution: \<open>advance\<close> is
  such a step, taken before each operation on the store or on the network. The tasks of a wave run
  one after the other in the order \<open>en_order\<close> picks; overlapping steps of two tasks of one
  wave are not modelled.
\<close>

section \<open>State and environment\<close>

definition map_run_lease_duration :: time where
  "map_run_lease_duration = 30 * 1000000000"

datatype exec_error =
    Lease_Error store_error
  | Lease_Released ident
  | Context_Cancelled

record case_request =
  cq_ProfileID :: ident
  cq_CaseID :: ident
  cq_WorkflowID :: ident
  cq_StepID :: ident
  cq_Overrides :: obj
  cq_TimeoutSeconds :: int
  cq_BaseURL :: string
  cq_EvidenceDir :: string
  cq_RunID :: ident
  cq_EnvironmentID :: ident
  cq_TestPlanMapID :: ident
  cq_TestPlanPathID :: ident
  cq_TestPlanNodeID :: ident
  cq_TestPlanOperation :: string
  cq_PlannerSummary :: obj
  cq_InlineTraceCollect :: bool

record run_row =
  rn_ID :: ident
  rn_ProfileID :: ident
  rn_EnvironmentID :: ident
  rn_WorkflowID :: ident
  rn_Status :: string
  rn_TestPlanMapID :: ident
  rn_TestPlanPathID :: ident
  rn_PlannerSummaryJSON :: string
  rn_SummaryJSON :: string
  rn_StartedAt :: time
  rn_FinishedAt :: time
  rn_CreatedAt :: time
  rn_UpdatedAt :: time

text \<open>An event carries the task it is for, and the lease row of the plan and the time when it happens.\<close>

datatype exec_event =
    Case_Requested ident case_request "lease option" time
  | Run_Created ident run_row "lease option" time

fun event_task :: "exec_event \<Rightarrow> ident" where
  "event_task (Case_Requested t _ _ _) = t"
| "event_task (Run_Created t _ _ _) = t"

record exec_state =
  xs_db :: plan_db
  xs_lease :: "lease option"
  xs_released :: bool
  xs_heartbeat :: bool
  xs_cancelled :: bool
  xs_error :: "exec_error option"
  xs_status :: "ident \<rightharpoonup> string"
  xs_exports :: "ident \<Rightarrow> obj"
  xs_tick :: nat
  xs_log :: "exec_event list"

record exec_env =
  en_clock :: "nat \<Rightarrow> time"
  en_interfere :: "nat \<Rightarrow> plan_db \<Rightarrow> plan_db"
  en_heartbeat :: "nat \<Rightarrow> bool"
  en_cancel :: "nat \<Rightarrow> bool"
  en_case :: "nat \<Rightarrow> case_request \<Rightarrow> string + obj"
  en_create_run :: "nat \<Rightarrow> run_row \<Rightarrow> string option"
  en_catalog :: "nat \<Rightarrow> string + profile_catalog"
  en_order :: "nat list \<Rightarrow> nat list"
  en_text :: "exec_error \<Rightarrow> string"
  en_stamp :: "time \<Rightarrow> string"
  en_json_error :: "string \<Rightarrow> string"

record executor =
  ex_graph :: graph
  ex_options :: run_options
  ex_env :: exec_env
  ex_dialect :: sql_dialect
  ex_hashes :: hashes

definition clock :: "executor \<Rightarrow> exec_state \<Rightarrow> time" where
  "clock ex st = en_clock (ex_env ex) (xs_tick st)"

section \<open>Errors and the lease\<close>

definition record_checkpoint_error :: "exec_error \<Rightarrow> exec_state \<Rightarrow> exec_state" where
  "record_checkpoint_error e st = (if xs_error st = None then st\<lparr>xs_error := Some e\<rparr> else st)"

definition record_lease_error :: "exec_error \<Rightarrow> exec_state \<Rightarrow> exec_state" where
  "record_lease_error e st =
     (let st' = record_checkpoint_error e st in
      if xs_lease st' \<noteq> None then st'\<lparr>xs_cancelled := True\<rparr> else st')"

definition execution_error :: "exec_state \<Rightarrow> exec_error option" where
  "execution_error st = (case xs_error st of Some e \<Rightarrow> Some e
     | None \<Rightarrow> if xs_cancelled st then Some Context_Cancelled else None)"

text \<open>The operations of the store fail without an effect once the context is cancelled.\<close>

definition renew_lease :: "executor \<Rightarrow> exec_state \<Rightarrow> exec_error option \<times> exec_state" where
  "renew_lease ex st =
     (case xs_lease st of
        None \<Rightarrow> (None, st)
      | Some l \<Rightarrow>
          if xs_released st then (None, st)
          else if xs_cancelled st then (Some Context_Cancelled, st)
          else
            (let now = clock ex st in
             case renew_test_map_plan_lease (ex_dialect ex) now l now (now + map_run_lease_duration) (xs_db st) of
               (Inl e, db) \<Rightarrow> (Some (Lease_Error e), st\<lparr>xs_db := db\<rparr>)
             | (Inr l', db) \<Rightarrow> (None, st\<lparr>xs_db := db, xs_lease := Some l'\<rparr>)))"

definition heartbeat :: "executor \<Rightarrow> exec_state \<Rightarrow> exec_state" where
  "heartbeat ex st =
     (if xs_cancelled st then st\<lparr>xs_heartbeat := False\<rparr>
      else case renew_lease ex st of
        (None, st') \<Rightarrow> st'
      | (Some e, st') \<Rightarrow> (record_lease_error e st')\<lparr>xs_heartbeat := False\<rparr>)"

definition advance :: "executor \<Rightarrow> exec_state \<Rightarrow> exec_state" where
  "advance ex st =
     (let n = Suc (xs_tick st);
          st' = st\<lparr>xs_tick := n, xs_db := en_interfere (ex_env ex) n (xs_db st),
                   xs_cancelled := xs_cancelled st \<or> en_cancel (ex_env ex) n\<rparr>
      in if xs_heartbeat st' \<and> en_heartbeat (ex_env ex) n then heartbeat ex st' else st')"

definition fence_map_run_ownership :: "executor \<Rightarrow> exec_state \<Rightarrow> exec_error option \<times> exec_state" where
  "fence_map_run_ownership ex st =
     (case execution_error st of
        Some e \<Rightarrow> (Some e, st)
      | None \<Rightarrow>
          if xs_lease st = None then (None, st)
          else (case renew_lease ex (advance ex st) of
             (Some e, st') \<Rightarrow> (Some e, record_lease_error e st')
           | (None, st') \<Rightarrow> (execution_error st', st')))"

definition checkpoint_claimed_task ::
  "executor \<Rightarrow> task_record \<Rightarrow> lease \<Rightarrow> exec_state \<Rightarrow> exec_error option \<times> exec_state" where
  "checkpoint_claimed_task ex t l st =
     (if xs_released st then (Some (Lease_Released (le_PlanID l)), st)
      else if xs_cancelled st then (Some Context_Cancelled, st)
      else
        (let now = clock ex st in
         case update_task_with_lease (ex_dialect ex) now l t now (now + map_run_lease_duration) (xs_db st) of
           (Inl e, db) \<Rightarrow> (Some (Lease_Error e), st\<lparr>xs_db := db\<rparr>)
         | (Inr l', db) \<Rightarrow> (None, st\<lparr>xs_db := db, xs_lease := Some l'\<rparr>)))"

definition checkpoint_task :: "executor \<Rightarrow> task_record \<Rightarrow> exec_state \<Rightarrow> exec_state" where
  "checkpoint_task ex t st0 =
     (if xs_error st0 \<noteq> None then st0
      else
        (let st = advance ex st0 in
         case xs_lease st of
           Some l \<Rightarrow> (case checkpoint_claimed_task ex t l st of
               (None, st') \<Rightarrow> st' | (Some e, st') \<Rightarrow> record_lease_error e st')
         | None \<Rightarrow>
             if xs_cancelled st then record_checkpoint_error Context_Cancelled st
             else (case update_test_map_plan_task t (xs_db st) of
               (Inl e, db) \<Rightarrow> record_checkpoint_error (Lease_Error e) (st\<lparr>xs_db := db\<rparr>)
             | (Inr _, db) \<Rightarrow> st\<lparr>xs_db := db\<rparr>)))"

definition checkpoint_instance :: "executor \<Rightarrow> plan_instance \<Rightarrow> exec_state \<Rightarrow> exec_state" where
  "checkpoint_instance ex i st0 =
     (if xs_error st0 \<noteq> None then st0
      else
        (let st = advance ex st0 in
         if xs_cancelled st then record_checkpoint_error Context_Cancelled st
         else (case update_test_map_plan_instance i (xs_db st) of
           (Inl e, db) \<Rightarrow> record_checkpoint_error (Lease_Error e) (st\<lparr>xs_db := db\<rparr>)
         | (Inr _, db) \<Rightarrow> st\<lparr>xs_db := db\<rparr>)))"

definition finish_claimed_instance :: "executor \<Rightarrow> plan_instance \<Rightarrow> exec_state \<Rightarrow> exec_error option \<times> exec_state" where
  "finish_claimed_instance ex i st0 =
     (case xs_lease st0 of
        None \<Rightarrow> (None, st0)
      | Some _ \<Rightarrow>
          (let st = (advance ex st0)\<lparr>xs_heartbeat := False\<rparr> in
           case xs_error st of
             Some e \<Rightarrow> (Some e, st)
           | None \<Rightarrow>
               (case xs_lease st of
                  None \<Rightarrow> (None, st)
                | Some l \<Rightarrow>
                    if xs_released st then (Some (Lease_Released (le_PlanID l)), st)
                    else if xs_cancelled st then (Some Context_Cancelled, st)
                    else (case release_test_map_plan_lease (ex_dialect ex) (clock ex st) l i (clock ex st) (xs_db st) of
                        (Inl e, db) \<Rightarrow> (Some (Lease_Error e), st\<lparr>xs_db := db\<rparr>)
                      | (Inr _, db) \<Rightarrow> (None, st\<lparr>xs_db := db, xs_released := True\<rparr>)))))"

definition set_task_status :: "ident \<Rightarrow> string \<Rightarrow> exec_state \<Rightarrow> exec_state" where
  "set_task_status i s st = st\<lparr>xs_status := (xs_status st)(i \<mapsto> s)\<rparr>"

definition task_status :: "exec_state \<Rightarrow> ident \<Rightarrow> string" where
  "task_status st i = (case xs_status st i of Some s \<Rightarrow> s | None \<Rightarrow> [])"

definition set_task_exports :: "ident \<Rightarrow> obj \<Rightarrow> exec_state \<Rightarrow> exec_state" where
  "set_task_exports i kvs st = st\<lparr>xs_exports := (xs_exports st)(i := kvs)\<rparr>"

section \<open>Texts, identifiers and summaries\<close>

definition string_of_int :: "int \<Rightarrow> string" where
  "string_of_int z = (if z < 0 then ''-'' @ string_of_nat (nat (- z)) else string_of_nat (nat z))"

text \<open>The verb \<open>%q\<close> of \<open>fmt\<close>, on bytes.\<close>

definition go_quote_char :: "char \<Rightarrow> string" where
  "go_quote_char c =
     (let n = (of_char c :: nat) in
      if n = 34 then [CHR 0x5C, CHR 0x22] else if n = 92 then [CHR 0x5C, CHR 0x5C]
      else if n = 7 then CHR 0x5C # ''a'' else if n = 8 then CHR 0x5C # ''b''
      else if n = 9 then CHR 0x5C # ''t'' else if n = 10 then CHR 0x5C # ''n''
      else if n = 11 then CHR 0x5C # ''v'' else if n = 12 then CHR 0x5C # ''f''
      else if n = 13 then CHR 0x5C # ''r''
      else if n < 32 \<or> n = 127 then CHR 0x5C # ''x'' @ [hex_char (n div 16), hex_char (n mod 16)]
      else [c])"

definition go_quote :: "string \<Rightarrow> string" where
  "go_quote s = CHR 0x22 # concat (map go_quote_char s) @ [CHR 0x22]"

definition safe_bounded_report_id :: "hashes \<Rightarrow> string \<Rightarrow> nat \<Rightarrow> string" where
  "safe_bounded_report_id H v limit =
     (let safe = safe_report_id v in
      if limit = 0 \<or> length safe \<le> limit then safe
      else
        (let hash = take 8 (hash_sha1 H safe) in
         if limit < length hash + 2 then take limit hash
         else take (limit - length hash - 1) safe @ ''-'' @ hash))"

definition task_run_id :: "executor \<Rightarrow> plan_instance \<Rightarrow> task_record \<Rightarrow> time \<Rightarrow> ident" where
  "task_run_id ex i t now =
     (let run_id = ''run.'' @ safe_bounded_report_id (ex_hashes ex) (pi_ID i) 96 @ ''.'' @
            safe_bounded_report_id (ex_hashes ex) (tr_ID t) 64
      in if \<not> blank (ro_planID (ex_options ex)) then run_id @ ''.attempt.'' @ en_stamp (ex_env ex) now else run_id)"

definition must_compact_json :: "json \<Rightarrow> string" where
  "must_compact_json v = json_marshal v"

fun keep_metadata :: "obj \<Rightarrow> string list \<Rightarrow> obj \<Rightarrow> obj" where
  "keep_metadata existing [] out = out"
| "keep_metadata existing (key # keys) out =
     (if obj_has out key then keep_metadata existing keys out
      else
        (let v = value_string (obj_get existing key) in
         keep_metadata existing keys (if v \<noteq> [] then obj_put key (JStr v) out else out)))"

definition task_summary_with_planner_metadata :: "string \<Rightarrow> obj \<Rightarrow> obj" where
  "task_summary_with_planner_metadata existing_raw summary =
     keep_metadata (json_object_string existing_raw)
       [''replayGroupId'', ''interfaceNodeId'', ''anchorNodeId'', ''validationFamily''] summary"

definition finish_task :: "string \<Rightarrow> obj \<Rightarrow> time \<Rightarrow> task_record \<Rightarrow> task_record" where
  "finish_task status summary finished t0 =
     (let t1 = t0\<lparr>tr_Status := status, tr_FinishedAt := finished\<rparr>;
          t2 = (if tr_StartedAt t1 = zero_time then t1\<lparr>tr_StartedAt := finished\<rparr> else t1);
          summary' = (if summary \<noteq> [] then task_summary_with_planner_metadata (tr_SummaryJSON t2) summary else summary);
          t3 = (if summary \<noteq> [] then t2\<lparr>tr_SummaryJSON := must_compact_json (JObj summary')\<rparr> else t2)
      in if status = StatusFailed \<or> status = TaskStatusBlocked
           then t3\<lparr>tr_Reason := first_non_empty [value_string (obj_get summary' ''error''), tr_Reason t3]\<rparr>
         else t3)"

definition map_run_case_step :: "task_record \<Rightarrow> path_step" where
  "map_run_case_step t = \<lparr>ps_MapID = [], ps_PathID = tr_PathID t, ps_StepIndex = 0,
     ps_StepID = first_non_empty [tr_NodeID t, tr_CaseID t], ps_NodeID = tr_NodeID t,
     ps_CaseID = tr_CaseID t, ps_Required = False, ps_MaterializeAfter = False, ps_SummaryJSON = []\<rparr>"

definition map_run_evidence_root :: "obj \<Rightarrow> string" where
  "map_run_evidence_root result =
     (let root = value_string (obj_get result ''evidenceRoot'') in
      if \<not> blank root then root
      else (let viewer = value_string (obj_get result ''viewerUrl'') in if blank viewer then [] else viewer))"

section \<open>Running a case\<close>

datatype case_runner = HTTP_Runner | Unsupported_Runner string string

definition map_case_runner_http :: string where "map_case_runner_http = ''http''"

definition map_case_runner_id :: "api_case \<Rightarrow> string" where
  "map_case_runner_id c =
     (if \<not> blank (ac_ExecutorID c) then trim_space (ac_ExecutorID c)
      else if \<not> blank (ac_SourceKind c) then trim_space (ac_SourceKind c)
      else map_case_runner_http)"

definition map_case_runner_supported_by_http :: "string \<Rightarrow> bool" where
  "map_case_runner_supported_by_http rid \<longleftrightarrow> to_lower (trim_space rid) \<in>
     {'''', ''http'', ''https'', ''openapi'', ''karate'', ''executor.http'', ''executor.openapi'', ''executor.karate''}"

definition catalog_api_case :: "executor \<Rightarrow> exec_state \<Rightarrow> ident \<Rightarrow> api_case option" where
  "catalog_api_case ex st cid =
     (case en_catalog (ex_env ex) (xs_tick st) of Inl _ \<Rightarrow> None
      | Inr cat \<Rightarrow> find_first (\<lambda>c. ac_ID c = cid) (pc_APICases cat))"

definition map_case_runner_for_case :: "executor \<Rightarrow> exec_state \<Rightarrow> ident \<Rightarrow> case_runner" where
  "map_case_runner_for_case ex st cid =
     (case catalog_api_case ex st cid of
        None \<Rightarrow> HTTP_Runner
      | Some c \<Rightarrow> if map_case_runner_supported_by_http (map_case_runner_id c) then HTTP_Runner
          else Unsupported_Runner (map_case_runner_id c) (ac_SourceKind c))"

definition catalog_case_payload ::
  "executor \<Rightarrow> plan_instance \<Rightarrow> task_record \<Rightarrow> path_step \<Rightarrow> ident \<Rightarrow> ident \<Rightarrow> obj \<Rightarrow> case_request" where
  "catalog_case_payload ex i t step cid run_id overrides =
     (let o1 = ex_options ex in \<lparr>cq_ProfileID = trim_space (pi_ProfileID i), cq_CaseID = cid,
        cq_WorkflowID = first_non_empty [tr_WorkflowID t, cid],
        cq_StepID = first_non_empty [ps_StepID step, tr_NodeID t, tr_CaseID t],
        cq_Overrides = overrides,
        cq_TimeoutSeconds = (if ro_timeoutSeconds o1 \<le> 0 then 0 else ro_timeoutSeconds o1),
        cq_BaseURL = ro_baseURL o1, cq_EvidenceDir = ro_evidenceDir o1, cq_RunID = run_id,
        cq_EnvironmentID = pi_EnvironmentID i, cq_TestPlanMapID = pi_MapID i,
        cq_TestPlanPathID = tr_PathID t,
        cq_TestPlanNodeID = first_non_empty [ps_NodeID step, tr_NodeID t],
        cq_TestPlanOperation = tr_Operation t,
        cq_PlannerSummary = obj_of [(''planId'', JStr (pi_ID i)), (''taskId'', JStr (tr_ID t)),
          (''taskKind'', JStr (tr_Kind t)), (''pathId'', JStr (tr_PathID t))],
        cq_InlineTraceCollect = False\<rparr>)"

text \<open>
  A case gives a result, \<open>JNull\<close> when the Go map is nil, and the text of an error. The
  request itself (\<open>controlplane.RunTrustedTestKitCase\<close>) is \<open>en_case\<close>.
\<close>

definition run_catalog_case_on_runtime :: "executor \<Rightarrow> exec_state \<Rightarrow> case_request \<Rightarrow> json \<times> string option" where
  "run_catalog_case_on_runtime ex st req =
     (case en_case (ex_env ex) (xs_tick st) req of
        Inl e \<Rightarrow> (JNull, Some e)
      | Inr result \<Rightarrow>
          (let status = int_from_any (obj_get result ''httpStatus'') in
           if status < 200 \<or> 300 \<le> status
             then (JObj result, Some (''case run failed with http status '' @ string_of_int status @ '': '' @
               value_string (obj_get result ''error'')))
           else (JObj result, None)))"

definition log_event :: "exec_event \<Rightarrow> exec_state \<Rightarrow> exec_state" where
  "log_event ev st = st\<lparr>xs_log := xs_log st @ [ev]\<rparr>"

definition run_with :: "executor \<Rightarrow> case_runner \<Rightarrow> task_record \<Rightarrow> case_request \<Rightarrow> exec_state \<Rightarrow>
  (json \<times> string option) \<times> exec_state" where
  "run_with ex runner t req st =
     (case runner of
        HTTP_Runner \<Rightarrow>
          (let st1 = advance ex (log_event (Case_Requested (tr_ID t) req (db_leases (xs_db st) (tr_PlanID t)) (clock ex st)) st)
           in (run_catalog_case_on_runtime ex st1 req, st1))
      | Unsupported_Runner rid kind \<Rightarrow>
          (let e = ''unsupported map case runner '' @ go_quote rid @ '' for sourceKind='' @ go_quote kind
           in ((JObj [(''error'', JStr e), (''status'', JStr StatusFailed)], Some e), st)))"

definition run_catalog_case ::
  "executor \<Rightarrow> plan_instance \<Rightarrow> task_record \<Rightarrow> path_step \<Rightarrow> ident \<Rightarrow> obj \<Rightarrow> exec_state \<Rightarrow>
   (json \<times> string option) \<times> exec_state" where
  "run_catalog_case ex i t step run_id overrides st0 =
     (let cid = first_non_empty [ps_CaseID step, tr_CaseID t];
          st1 = advance ex st0;
          runner = map_case_runner_for_case ex st1 cid;
          req = catalog_case_payload ex i t step cid run_id overrides
      in case fence_map_run_ownership ex st1 of
           (Some e, st2) \<Rightarrow> ((JObj [(''error'', JStr (en_text (ex_env ex) e)), (''status'', JStr StatusFailed)],
             Some (en_text (ex_env ex) e)), st2)
         | (None, st2) \<Rightarrow>
             (let (res, st3) = run_with ex runner t req st2 in
              case execution_error st3 of
                Some e \<Rightarrow> ((fst res, Some (''map plan ownership changed during case execution: '' @
                  en_text (ex_env ex) e)), st3)
              | None \<Rightarrow> (res, st3)))"

section \<open>Tasks that run a path\<close>

record step_result =
  sr_StepID :: ident
  sr_NodeID :: ident
  sr_CaseID :: ident
  sr_RunID :: ident
  sr_APICaseRunID :: ident
  sr_Status :: string
  sr_Error :: string
  sr_Raw :: obj

definition step_result_json :: "step_result \<Rightarrow> json" where
  "step_result_json r = JObj ([(''stepId'', JStr (sr_StepID r)), (''nodeId'', JStr (sr_NodeID r)),
     (''caseId'', JStr (sr_CaseID r)), (''runId'', JStr (sr_RunID r)),
     (''apiCaseRunId'', JStr (sr_APICaseRunID r)), (''status'', JStr (sr_Status r))] @
     opt_str ''error'' (sr_Error r))"

definition steps_json :: "step_result list \<Rightarrow> json" where
  "steps_json rs = JArr (map step_result_json rs)"

definition path_steps_by_id :: "graph \<Rightarrow> ident \<Rightarrow> path_step list" where
  "path_steps_by_id g pid = sort_key ps_StepIndex (filter (\<lambda>s. ps_PathID s = pid) (gr_PathSteps g))"

definition steps_for_task :: "graph \<Rightarrow> task_record \<Rightarrow> ident \<Rightarrow> path_step list" where
  "steps_for_task g t until =
     (let steps = path_steps_by_id g (tr_PathID t) in
      if blank until then (if tr_Kind t = TaskRunPathPrefix then [] else steps)
      else (case take_through (\<lambda>s. ps_NodeID s = until) steps of Some ss \<Rightarrow> ss | None \<Rightarrow> []))"

definition node_case_id :: "graph \<Rightarrow> ident \<Rightarrow> ident" where
  "node_case_id g nid = (case index_by nd_ID (gr_Nodes g) nid of Some n \<Rightarrow> nd_CaseID n | None \<Rightarrow> [])"

definition execute_step_case ::
  "executor \<Rightarrow> plan_instance \<Rightarrow> task_record \<Rightarrow> path_step \<Rightarrow> ident \<Rightarrow> obj \<Rightarrow> exec_state \<Rightarrow>
   step_result \<times> exec_state" where
  "execute_step_case ex i t step workflow_run_id overrides st =
     (let cid = first_non_empty [ps_CaseID step, node_case_id (ex_graph ex) (ps_NodeID step)];
          sid = first_non_empty [ps_StepID step, ps_NodeID step, cid];
          run_id = workflow_run_id @ ''.'' @ safe_bounded_report_id (ex_hashes ex) sid 40;
          step_task = t\<lparr>tr_NodeID := first_non_empty [ps_NodeID step, tr_NodeID t], tr_CaseID := cid\<rparr>;
          ((res, err), st') = run_catalog_case ex i step_task step run_id overrides st;
          result = map_from_any res;
          status = value_string (obj_get result ''status'');
          out = \<lparr>sr_StepID = sid, sr_NodeID = ps_NodeID step, sr_CaseID = cid, sr_RunID = run_id,
            sr_APICaseRunID = value_string (obj_get result ''caseRunId''),
            sr_Status = (if status = [] then StatusFailed else status), sr_Error = [], sr_Raw = result\<rparr>
      in (case err of
            Some e \<Rightarrow> out\<lparr>sr_Status := StatusFailed, sr_Error := e\<rparr>
          | None \<Rightarrow> out\<lparr>sr_Error := value_string (obj_get result ''error'')\<rparr>, st'))"

text \<open>
  \<open>stepExecutionConfig\<close>: the configuration of the step itself, or else the first one of its
  case; \<open>None\<close> for a configuration text that is \<open>null\<close>, which leaves the search open.
\<close>

fun step_config_loop :: "ident \<Rightarrow> ident \<Rightarrow> ident \<Rightarrow> template_config list \<Rightarrow> obj option \<Rightarrow> obj option" where
  "step_config_loop wid sid cid [] found = found"
| "step_config_loop wid sid cid (c # cs) found =
     (if \<not> blank_or_active (tc_Status c) then step_config_loop wid sid cid cs found
      else case json_unmarshal (tc_ConfigJSON c) of
        Some (JObj kvs) \<Rightarrow>
          if tc_WorkflowID c = wid \<and> \<not> blank sid \<and> tc_ScopeID c = sid then Some kvs
          else step_config_loop wid sid cid cs
            (if found = None \<and> (tc_ScopeID c = cid \<or> value_string (obj_get kvs ''caseId'') = cid) then Some kvs else found)
      | Some JNull \<Rightarrow>
          if tc_WorkflowID c = wid \<and> \<not> blank sid \<and> tc_ScopeID c = sid then None
          else step_config_loop wid sid cid cs found
      | _ \<Rightarrow> step_config_loop wid sid cid cs found)"

definition step_execution_config :: "executor \<Rightarrow> exec_state \<Rightarrow> task_record \<Rightarrow> path_step \<Rightarrow> obj" where
  "step_execution_config ex st t step =
     (case en_catalog (ex_env ex) (xs_tick st) of
        Inl _ \<Rightarrow> []
      | Inr cat \<Rightarrow>
          (case step_config_loop (tr_WorkflowID t) (ps_StepID step) (first_non_empty [ps_CaseID step, tr_CaseID t])
             (pc_TemplateConfigs cat) None of Some kvs \<Rightarrow> kvs | None \<Rightarrow> []))"

definition step_exported_values :: "executor \<Rightarrow> exec_state \<Rightarrow> task_record \<Rightarrow> path_step \<Rightarrow> obj \<Rightarrow> obj" where
  "step_exported_values ex st t step result =
     (let config = step_execution_config ex st t step in
      if config = [] then [] else workflow_exported_values config result)"

record path_run =
  pr_state :: exec_state
  pr_task :: task_record
  pr_results :: "step_result list"
  pr_overrides :: obj
  pr_status :: string

definition step_checkpoint_json :: "step_result list \<Rightarrow> string" where
  "step_checkpoint_json rs = must_compact_json (JObj (obj_of [(''steps'', steps_json rs), (''checkpoint'', JBool True)]))"

fun path_loop :: "executor \<Rightarrow> plan_instance \<Rightarrow> ident \<Rightarrow> path_step list \<Rightarrow> path_run \<Rightarrow> path_run" where
  "path_loop ex i run_id [] p = p"
| "path_loop ex i run_id (step # steps) p =
     (if execution_error (pr_state p) \<noteq> None then p\<lparr>pr_status := StatusFailed\<rparr>
      else
        (let (result, st1) = execute_step_case ex i (pr_task p) step run_id (pr_overrides p) (pr_state p);
             results = pr_results p @ [result];
             t1 = (pr_task p)\<lparr>tr_SummaryJSON := step_checkpoint_json results\<rparr>;
             st2 = checkpoint_task ex t1 st1;
             p1 = p\<lparr>pr_state := st2, pr_task := t1, pr_results := results\<rparr>
         in case execution_error st2 of
              Some e \<Rightarrow> p1\<lparr>pr_results := pr_results p @
                  [result\<lparr>sr_Status := StatusFailed, sr_Error := ''persist step checkpoint: '' @ en_text (ex_env ex) e\<rparr>],
                pr_status := StatusFailed\<rparr>
            | None \<Rightarrow>
                if sr_Status result \<noteq> StatusPassed then p1\<lparr>pr_status := StatusFailed\<rparr>
                else
                  (let st3 = advance ex st2 in
                   path_loop ex i run_id steps (p1\<lparr>pr_state := st3, pr_overrides :=
                     put_all (step_exported_values ex st3 t1 step (sr_Raw result)) (pr_overrides p)\<rparr>))))"

definition first_result_error :: "step_result list \<Rightarrow> string" where
  "first_result_error rs = (case find_first (\<lambda>r. sr_Error r \<noteq> []) rs of Some r \<Rightarrow> sr_Error r | None \<Rightarrow> [])"

definition path_run_row ::
  "plan_instance \<Rightarrow> task_record \<Rightarrow> ident \<Rightarrow> string \<Rightarrow> obj \<Rightarrow> time \<Rightarrow> run_row" where
  "path_run_row i t run_id status run_summary finished = \<lparr>rn_ID = run_id, rn_ProfileID = pi_ProfileID i,
     rn_EnvironmentID = pi_EnvironmentID i, rn_WorkflowID = tr_WorkflowID t, rn_Status = status,
     rn_TestPlanMapID = pi_MapID i, rn_TestPlanPathID = tr_PathID t,
     rn_PlannerSummaryJSON = must_compact_json (JObj (obj_of [(''planId'', JStr (pi_ID i)),
       (''taskId'', JStr (tr_ID t)), (''kind'', JStr (tr_Kind t))])),
     rn_SummaryJSON = must_compact_json (JObj run_summary), rn_StartedAt = tr_StartedAt t,
     rn_FinishedAt = finished, rn_CreatedAt = tr_StartedAt t, rn_UpdatedAt = finished\<rparr>"

definition finish_path_task ::
  "executor \<Rightarrow> plan_instance \<Rightarrow> ident \<Rightarrow> path_step list \<Rightarrow> path_run \<Rightarrow> task_record \<times> exec_state" where
  "finish_path_task ex i run_id steps p =
     (let t = pr_task p; status = pr_status p; results = pr_results p;
          exports = (if status = StatusPassed then pr_overrides p else []);
          st = (if exports \<noteq> [] then set_task_exports (tr_ID t) exports (pr_state p) else pr_state p);
          finished = clock ex st
      in if steps = [] then
           (finish_task TaskStatusSkipped (obj_of [(''steps'', steps_json results),
              (''reason'', JStr ''path has no executable steps'')]) finished t, st)
         else
           (let with_exports = (\<lambda>kvs. if exports \<noteq> [] then obj_put ''exports'' (JObj exports) kvs else kvs);
                run_summary = with_exports (obj_of [(''kind'', JStr (tr_Kind t)), (''steps'', steps_json results)]);
                task_summary = with_exports (obj_of [(''steps'', steps_json results)])
            in case fence_map_run_ownership ex st of
                 (Some e, st1) \<Rightarrow> (finish_task StatusFailed (obj_put ''error''
                   (JStr (''map plan ownership changed before aggregate run persistence: '' @ en_text (ex_env ex) e))
                   task_summary) finished t, st1)
               | (None, st1) \<Rightarrow>
                   (let row = path_run_row i t run_id status run_summary finished;
                        st2 = advance ex (log_event (Run_Created (tr_ID t) row (db_leases (xs_db st1) (tr_PlanID t)) (clock ex st1)) st1);
                        err = en_create_run (ex_env ex) (xs_tick st2) row;
                        t1 = t\<lparr>tr_WorkflowRunID := run_id\<rparr>;
                        status1 = (if err \<noteq> None then StatusFailed else status);
                        summary1 = (if status1 = StatusFailed \<and> first_result_error results \<noteq> []
                          then obj_put ''error'' (JStr (first_result_error results)) task_summary else task_summary);
                        summary2 = (case err of Some e \<Rightarrow> obj_put ''error'' (JStr e) summary1 | None \<Rightarrow> summary1)
                    in (finish_task status1 summary2 finished t1, st2))))"

definition execute_path_task ::
  "executor \<Rightarrow> plan_instance \<Rightarrow> ident \<Rightarrow> task_record \<Rightarrow> exec_state \<Rightarrow> task_record \<times> exec_state" where
  "execute_path_task ex i until t st =
     (let steps = steps_for_task (ex_graph ex) t until;
          run_id = task_run_id ex i t (clock ex st)
      in finish_path_task ex i run_id steps (path_loop ex i run_id steps
           \<lparr>pr_state = st, pr_task = t, pr_results = [], pr_overrides = [], pr_status = StatusPassed\<rparr>))"

section \<open>Tasks that run one case\<close>

definition dependency_overrides :: "edge_record list \<Rightarrow> ident \<Rightarrow> exec_state \<Rightarrow> obj" where
  "dependency_overrides es tid st =
     fold (\<lambda>e out. if er_ToTaskID e \<noteq> tid \<or> \<not> er_Required e then out
       else put_all (xs_exports st (er_FromTaskID e)) out) es []"

definition execute_case_task ::
  "executor \<Rightarrow> plan_instance \<Rightarrow> edge_record list \<Rightarrow> task_record \<Rightarrow> exec_state \<Rightarrow> task_record \<times> exec_state" where
  "execute_case_task ex i es t st =
     (let run_id = task_run_id ex i t (clock ex st);
          ((res, err), st') = run_catalog_case ex i t (map_run_case_step t) run_id (dependency_overrides es (tr_ID t) st) st;
          result = map_from_any res;
          status0 = value_string (obj_get result ''status'');
          status = (if err \<noteq> None \<or> status0 = [] then StatusFailed else status0);
          summary = (case err of Some e \<Rightarrow> obj_put ''error'' (JStr e) [(''result'', res)] | None \<Rightarrow> [(''result'', res)]);
          t1 = t\<lparr>tr_APICaseRunID := value_string (obj_get result ''caseRunId''),
                 tr_EvidenceRoot := map_run_evidence_root result\<rparr>
      in (finish_task status summary (clock ex st') t1, st'))"

section \<open>Tasks that reuse a fixture\<close>

definition catalog_fixture :: "executor \<Rightarrow> exec_state \<Rightarrow> ident \<Rightarrow> string + fixture option" where
  "catalog_fixture ex st fid =
     (case en_catalog (ex_env ex) (xs_tick st) of
        Inl e \<Rightarrow> Inl e
      | Inr cat \<Rightarrow>
          (case find_first (\<lambda>f. fx_ID f = fid) (pc_Fixtures cat) of
             None \<Rightarrow> Inr None
           | Some f \<Rightarrow> if \<not> blank_or_active (fx_Status f) then Inl (''fixture is not active: '' @ fx_ID f)
               else Inr (Some f)))"

definition materialization_target_case_ids :: "graph \<Rightarrow> ident \<Rightarrow> ident set" where
  "materialization_target_case_ids g mid =
     set (filter (\<lambda>c. \<not> blank c)
       (map (\<lambda>e. first_non_empty [node_case_id g (ed_ToNodeID e), ed_ToNodeID e])
         (filter (\<lambda>e. ed_MaterializationID e = mid \<and> ed_Required e) (gr_Edges g))))"

definition materialization_mappings :: "executor \<Rightarrow> exec_state \<Rightarrow> ident \<Rightarrow> ident \<Rightarrow> obj list" where
  "materialization_mappings ex st mid fid =
     (let g = ex_graph ex; targets = materialization_target_case_ids g mid;
          edge_mappings = concat (map (\<lambda>e. list_of_maps (ed_MappingsJSON e))
            (filter (\<lambda>e. ed_MaterializationID e = mid \<and> ed_Required e) (gr_Edges g)))
      in case en_catalog (ex_env ex) (xs_tick st) of
           Inl _ \<Rightarrow> edge_mappings
         | Inr cat \<Rightarrow> edge_mappings @ concat (map (\<lambda>d. list_of_maps (cd_MappingsJSON d))
             (filter (\<lambda>d. cd_FixtureID d = fid \<and> cd_Required d \<and> blank_or_active (cd_Status d) \<and>
               (targets = {} \<or> cd_CaseID d \<in> targets)) (pc_CaseDependencies cat))))"

definition execute_materialized_task :: "executor \<Rightarrow> task_record \<Rightarrow> exec_state \<Rightarrow> task_record \<times> exec_state" where
  "execute_materialized_task ex t st0 =
     (let failed = (\<lambda>e st. (finish_task StatusFailed [(''error'', JStr e)] (clock ex st) t, st)) in
      case index_by mz_ID (gr_Materializations (ex_graph ex)) (tr_MaterializationID t) of
        None \<Rightarrow> failed (''materialization not found: '' @ tr_MaterializationID t) st0
      | Some m \<Rightarrow>
         (let st1 = advance ex st0 in
          case catalog_fixture ex st1 (mz_FixtureID m) of
            Inl e \<Rightarrow> failed e st1
          | Inr None \<Rightarrow> failed (''fixture not found: '' @ mz_FixtureID m) st1
          | Inr (Some f) \<Rightarrow>
             (let st2 = advance ex st1 in
              case map_run_materialized_overrides (fx_DataJSON f) (materialization_mappings ex st2 (mz_ID m) (fx_ID f)) of
                None \<Rightarrow> failed (''decode materialized fixture data: '' @ en_json_error (ex_env ex) (fx_DataJSON f)) st2
              | Some overrides \<Rightarrow>
                  (finish_task StatusPassed (obj_of [(''materializationId'', JStr (mz_ID m)),
                     (''fixtureId'', JStr (fx_ID f)), (''sourcePathId'', JStr (mz_SourcePathID m)),
                     (''sourceWorkflowId'', JStr (mz_SourceWorkflowID m)),
                     (''sourceUntilNodeId'', JStr (mz_SourceUntilNodeID m)),
                     (''overrides'', JArr (map JStr (map_run_sorted_keys overrides))),
                     (''exports'', JObj overrides)]) (clock ex st2) t,
                   set_task_exports (tr_ID t) overrides st2))))"

section \<open>One task\<close>

definition restore_task_exports :: "task_record \<Rightarrow> exec_state \<Rightarrow> exec_state" where
  "restore_task_exports t st =
     (if tr_Status t \<noteq> StatusPassed then st
      else
        (let exports = map_from_any (obj_get (json_object_string (tr_SummaryJSON t)) ''exports'') in
         if exports = [] then st else set_task_exports (tr_ID t) exports st))"

fun blocked_by_dependency :: "exec_state \<Rightarrow> edge_record list \<Rightarrow> ident \<Rightarrow> string" where
  "blocked_by_dependency st [] tid = []"
| "blocked_by_dependency st (e # es) tid =
     (if er_ToTaskID e \<noteq> tid \<or> \<not> er_Required e then blocked_by_dependency st es tid
      else if task_status st (er_FromTaskID e) = StatusPassed \<or> task_status st (er_FromTaskID e) = TaskStatusSkipped
        then blocked_by_dependency st es tid
      else ''required dependency did not pass: '' @ er_FromTaskID e)"

definition run_task ::
  "executor \<Rightarrow> plan_instance \<Rightarrow> edge_record list \<Rightarrow> task_record \<Rightarrow> exec_state \<Rightarrow> task_record \<times> exec_state" where
  "run_task ex i es t st =
     (if tr_Kind t = TaskRunPath then execute_path_task ex i [] t st
      else if tr_Kind t = TaskRunPathPrefix then execute_path_task ex i (task_until_node_id t) t st
      else if tr_Kind t = TaskRunCase then execute_case_task ex i es t st
      else if tr_Kind t = TaskReuseMaterialized then execute_materialized_task ex t st
      else (finish_task StatusFailed [(''error'', JStr (''unsupported map task kind: '' @ tr_Kind t))] (tr_StartedAt t) t, st))"

definition execute_task ::
  "executor \<Rightarrow> plan_instance \<Rightarrow> edge_record list \<Rightarrow> time \<Rightarrow> task_record \<Rightarrow> exec_state \<Rightarrow> task_record \<times> exec_state" where
  "execute_task ex i es now t st =
     (if execution_error st \<noteq> None then (t, st)
      else if tr_Status t = TaskStatusSkipped \<or> tr_Kind t = TaskSkip then
        (t, set_task_status (tr_ID t) TaskStatusSkipped (restore_task_exports t st))
      else if \<not> selected_for_execution t (ex_options ex) \<or> \<not> task_runnable t (ex_options ex) then
        (t, set_task_status (tr_ID t) (tr_Status t) (restore_task_exports t st))
      else if blocked_by_dependency st es (tr_ID t) \<noteq> [] then
        (let t' = finish_task TaskStatusBlocked [(''error'', JStr (blocked_by_dependency st es (tr_ID t)))] now t
         in (t', set_task_status (tr_ID t) (tr_Status t') (checkpoint_task ex t' st)))
      else
        (let t1 = t\<lparr>tr_StartedAt := clock ex st, tr_Status := TaskStatusRunning\<rparr>;
             st1 = checkpoint_task ex t1 st
         in case execution_error st1 of
              Some e \<Rightarrow>
                (let t' = finish_task StatusFailed (obj_of [(''error'', JStr (''persist running task checkpoint: '' @
                       en_text (ex_env ex) e)), (''failureCategory'', JStr ''checkpoint-persistence-error'')]) (clock ex st1) t1
                 in (t', set_task_status (tr_ID t) (tr_Status t') st1))
            | None \<Rightarrow>
                (let (t', st2) = run_task ex i es t1 st1
                 in (t', checkpoint_task ex t' (set_task_status (tr_ID t) (tr_Status t') st2)))))"

section \<open>A whole plan\<close>

fun execute_indices ::
  "executor \<Rightarrow> plan_instance \<Rightarrow> edge_record list \<Rightarrow> time \<Rightarrow> nat list \<Rightarrow> task_record list \<Rightarrow> exec_state \<Rightarrow>
   task_record list \<times> exec_state" where
  "execute_indices ex i es now [] ts st = (ts, st)"
| "execute_indices ex i es now (k # ks) ts st =
     (if execution_error st \<noteq> None then (ts, st)
      else
        (let (t, st') = execute_task ex i es now (ts ! k) st
         in execute_indices ex i es now ks (ts[k := t]) st'))"

fun execute_waves ::
  "executor \<Rightarrow> plan_instance \<Rightarrow> edge_record list \<Rightarrow> time \<Rightarrow> nat list list \<Rightarrow> task_record list \<Rightarrow> exec_state \<Rightarrow>
   task_record list \<times> exec_state" where
  "execute_waves ex i es now [] ts st = (ts, st)"
| "execute_waves ex i es now (w # ws) ts st =
     (if execution_error st \<noteq> None then (ts, st)
      else
        (let wave = (if ro_concurrency (ex_options ex) \<le> 1 \<or> length w = 1 then w else en_order (ex_env ex) w);
             (ts', st') = execute_indices ex i es now wave ts st
         in execute_waves ex i es now ws ts' st'))"

definition finish_record :: "executor \<Rightarrow> plan_record \<Rightarrow> exec_state \<Rightarrow> plan_record \<times> exec_state" where
  "finish_record ex r st =
     (let i = (pr_Instance r)\<lparr>pi_FinishedAt := clock ex st, pi_Status := map_run_status (pr_Tasks r),
            pi_SummaryJSON := must_compact_json (run_summary_json (map_run_summary (pr_Tasks r)))\<rparr>;
          r' = r\<lparr>pr_Instance := i\<rparr>
      in if xs_lease st \<noteq> None
           then (case finish_claimed_instance ex i st of
               (None, st') \<Rightarrow> (r', st') | (Some e, st') \<Rightarrow> (r', record_lease_error e st'))
         else (r', checkpoint_instance ex i st))"

definition execute :: "executor \<Rightarrow> plan_record \<Rightarrow> exec_state \<Rightarrow> plan_record \<times> exec_state" where
  "execute ex r st =
     (let now = clock ex st;
          waves = (case map_run_task_execution_waves (pr_Tasks r) (pr_TaskEdges r) of Some ws \<Rightarrow> ws | None \<Rightarrow> []);
          (ts, st1) = execute_waves ex (pr_Instance r) (pr_TaskEdges r) now waves (pr_Tasks r) st
      in finish_record ex (r\<lparr>pr_Tasks := ts\<rparr>) st1)"

section \<open>Claim, execute, release\<close>

text \<open>\<open>claimMapRunPlan\<close>; the identity of the executor is drawn at random.\<close>

definition claim_map_run_plan ::
  "sql_dialect \<Rightarrow> time \<Rightarrow> ident \<Rightarrow> ident \<Rightarrow> run_options \<Rightarrow> plan_record \<Rightarrow> plan_db \<Rightarrow>
   (store_error + lease \<times> plan_record) \<times> plan_db" where
  "claim_map_run_plan sd now owner token o1 r db0 =
     (case (if ro_planID o1 = [] then save_test_map_plan now r db0 else (Inr (), db0)) of
        (Inl e, db) \<Rightarrow> (Inl e, db)
      | (Inr _, db1) \<Rightarrow>
         (case claim_test_map_plan_lease sd now \<lparr>le_PlanID = pi_ID (pr_Instance r), le_OwnerID = owner,
               le_Token = token, le_ExpiresAt = now + map_run_lease_duration, le_UpdatedAt = zero_time\<rparr> now
             (ro_planID o1 \<noteq> [] \<and> ro_resumeRun o1) db1 of
            (Inl e, db) \<Rightarrow> (Inl e, db)
          | (Inr l, db2) \<Rightarrow>
             (if ro_planID o1 \<noteq> [] then
                (let r' = prepare_existing_record_at r o1 now in
                 case reset_test_map_plan_with_lease sd now l r' now (now + map_run_lease_duration) db2 of
                   (Inl e, db) \<Rightarrow> (Inl e, db)
                 | (Inr l', db3) \<Rightarrow> (Inr (l', r'), db3))
              else (Inr (l, r\<lparr>pr_Instance := (pr_Instance r)\<lparr>pi_Mode := ModeRun, pi_Status := TaskStatusRunning,
                     pi_StartedAt := now, pi_FinishedAt := zero_time\<rparr>\<rparr>), db2))))"

definition initial_state :: "plan_db \<Rightarrow> lease option \<Rightarrow> exec_state" where
  "initial_state db l = \<lparr>xs_db = db, xs_lease = l, xs_released = False, xs_heartbeat = l \<noteq> None,
     xs_cancelled = False, xs_error = None, xs_status = Map.empty, xs_exports = (\<lambda>_. []),
     xs_tick = 0, xs_log = []\<rparr>"

text \<open>\<open>validateTrustedTestKitRunID\<close> of \<open>internal/server/controlplane/test_kit.go\<close>: what the runner accepts.\<close>

definition valid_trusted_run_id :: "string \<Rightarrow> bool" where
  "valid_trusted_run_id raw =
     (let rid = trim_space raw in
      if rid = [] then True
      else if rid = ''.'' \<or> rid = ''..'' then False
      else list_all (\<lambda>c. is_alnum c \<or> c = CHR ''.'' \<or> c = CHR ''-'' \<or> c = CHR ''_'') rid)"

datatype run_outcome =
    Run_Not_Claimed store_error
  | Run_Checkpoint_Error exec_error
  | Run_Failed plan_record
  | Run_Passed plan_record

text \<open>\<open>runMapRun\<close> after the plan to run is known.\<close>

definition run_map_plan :: "executor \<Rightarrow> ident \<Rightarrow> ident \<Rightarrow> plan_record \<Rightarrow> plan_db \<Rightarrow> run_outcome \<times> plan_db \<times> exec_event list" where
  "run_map_plan ex owner token r db0 =
     (case claim_map_run_plan (ex_dialect ex) (en_clock (ex_env ex) 0) owner token (ex_options ex) r db0 of
        (Inl e, db) \<Rightarrow> (Run_Not_Claimed e, db, [])
      | (Inr (l, r1), db) \<Rightarrow>
         (let (r2, st) = execute ex r1 (initial_state db (Some l))
          in case xs_error st of
               Some e \<Rightarrow> (Run_Checkpoint_Error e, xs_db st, xs_log st)
             | None \<Rightarrow> (if report_ok r2 then Run_Passed r2 else Run_Failed r2, xs_db st, xs_log st)))"

end
