(* ===== verification/Map_Execute_Facts.thy ===== *)
theory Map_Execute_Facts
  imports Map_Execute
begin

text \<open>
  What an execution guarantees. The lemmas about every function of the executor are proved once,
  in the locale \<open>execution_monitor\<close>: an invariant of the state that the executor's own
  operations and its environment keep, and a property of events that holds for what is sent right
  after a successful fence, hold for a whole execution. It is interpreted for the lease
  (\<open>lease_monitor\<close>), for the identifiers of runs (\<open>run_id_monitor\<close>) and for the
  frame of one task (\<open>task_monitor\<close>).
\<close>

declare first_non_empty.simps [simp del]

section \<open>What the operations leave alone\<close>

definition same_books :: "exec_state \<Rightarrow> exec_state \<Rightarrow> bool" where
  "same_books st st' \<longleftrightarrow> xs_log st' = xs_log st \<and> xs_status st' = xs_status st \<and> xs_exports st' = xs_exports st"

lemma same_books_refl [simp]: "same_books st st"
  by (simp add: same_books_def)

lemma same_books_trans: "same_books a b \<Longrightarrow> same_books b c \<Longrightarrow> same_books a c"
  by (simp add: same_books_def)

lemma same_books_error [simp]:
  "same_books st (record_checkpoint_error e st') \<longleftrightarrow> same_books st st'"
  "same_books st (record_lease_error e st') \<longleftrightarrow> same_books st st'"
  by (simp_all add: same_books_def record_checkpoint_error_def record_lease_error_def Let_def)

lemma same_books_update [simp]:
  "same_books st (st'\<lparr>xs_db := db\<rparr>) \<longleftrightarrow> same_books st st'"
  "same_books st (st'\<lparr>xs_lease := l\<rparr>) \<longleftrightarrow> same_books st st'"
  "same_books st (st'\<lparr>xs_heartbeat := h\<rparr>) \<longleftrightarrow> same_books st st'"
  "same_books st (st'\<lparr>xs_released := h\<rparr>) \<longleftrightarrow> same_books st st'"
  "same_books st (st'\<lparr>xs_cancelled := h\<rparr>) \<longleftrightarrow> same_books st st'"
  "same_books st (st'\<lparr>xs_tick := n\<rparr>) \<longleftrightarrow> same_books st st'"
  by (simp_all add: same_books_def)

lemma same_books_renew: "same_books st (snd (renew_lease ex st))"
  by (auto simp: renew_lease_def Let_def split: option.splits prod.splits sum.splits)

lemma same_books_heartbeat: "same_books st (heartbeat ex st)"
  using same_books_renew [of st ex]
  by (auto simp: heartbeat_def split: prod.splits option.splits)

lemma same_books_advance: "same_books st (advance ex st)"
proof -
  let ?st = "st\<lparr>xs_tick := Suc (xs_tick st), xs_db := en_interfere (ex_env ex) (Suc (xs_tick st)) (xs_db st),
    xs_cancelled := xs_cancelled st \<or> en_cancel (ex_env ex) (Suc (xs_tick st))\<rparr>"
  have "same_books st ?st" by simp
  moreover have "same_books ?st (heartbeat ex ?st)" by (rule same_books_heartbeat)
  ultimately have "same_books st (heartbeat ex ?st)" by (rule same_books_trans)
  then show ?thesis unfolding advance_def Let_def by simp
qed

lemma same_books_fence: "same_books st (snd (fence_map_run_ownership ex st))"
proof -
  have "same_books st (snd (renew_lease ex (advance ex st)))"
    using same_books_trans [OF same_books_advance same_books_renew] .
  then show ?thesis by (auto simp: fence_map_run_ownership_def split: option.splits prod.splits)
qed

lemma same_books_claimed: "same_books st (snd (checkpoint_claimed_task ex t l st))"
  by (auto simp: checkpoint_claimed_task_def Let_def split: prod.splits sum.splits)

lemma same_books_checkpoint: "same_books st (checkpoint_task ex t st)"
proof -
  have a: "same_books st (advance ex st)" by (rule same_books_advance)
  have "same_books st (snd (checkpoint_claimed_task ex t l (advance ex st)))" for l
    by (rule same_books_trans [OF a same_books_claimed])
  then show ?thesis using a
    by (auto simp: checkpoint_task_def Let_def split: option.splits prod.splits sum.splits)
       (metis snd_conv same_books_error(2))+
qed

lemma log_simps [simp]:
  "xs_log (advance ex st) = xs_log st"
  "xs_log (checkpoint_task ex t st) = xs_log st"
  "xs_log (snd (fence_map_run_ownership ex st)) = xs_log st"
  using same_books_advance same_books_checkpoint same_books_fence unfolding same_books_def by blast+

lemma status_simps [simp]:
  "xs_status (advance ex st) = xs_status st"
  "xs_status (checkpoint_task ex t st) = xs_status st"
  "xs_status (snd (fence_map_run_ownership ex st)) = xs_status st"
  using same_books_advance same_books_checkpoint same_books_fence unfolding same_books_def by blast+

lemma log_setters [simp]:
  "xs_log (set_task_status i s st) = xs_log st" "xs_log (set_task_exports i kvs st) = xs_log st"
  "xs_status (set_task_exports i kvs st) = xs_status st"
  "xs_log (log_event ev st) = xs_log st @ [ev]" "xs_status (log_event ev st) = xs_status st"
  by (simp_all add: set_task_status_def set_task_exports_def log_event_def)

lemma finish_task_keeps [simp]:
  "tr_ID (finish_task s kvs f t) = tr_ID t" "tr_PlanID (finish_task s kvs f t) = tr_PlanID t"
  "tr_Kind (finish_task s kvs f t) = tr_Kind t" "tr_Status (finish_task s kvs f t) = s"
  by (simp_all add: finish_task_def Let_def)

section \<open>The monitor\<close>

definition logged :: "(exec_event \<Rightarrow> bool) \<Rightarrow> exec_state \<Rightarrow> bool" where
  "logged Q st \<longleftrightarrow> (\<forall>ev \<in> set (xs_log st). Q ev)"

definition generated_run_id :: "executor \<Rightarrow> ident \<Rightarrow> bool" where
  "generated_run_id ex rid \<longleftrightarrow> (\<exists>i t now. rid = task_run_id ex i t now \<or>
     (\<exists>sid. rid = task_run_id ex i t now @ ''.'' @ safe_bounded_report_id (ex_hashes ex) sid 40))"

lemma generated_run_idI [simp]:
  "generated_run_id ex (task_run_id ex i t now)"
  "generated_run_id ex (task_run_id ex i t now @ CHR ''.'' # safe_bounded_report_id (ex_hashes ex) sid 40)"
  by (auto simp: generated_run_id_def)

text \<open>
  The cases that a task asks the runner for: those of its steps, or its own. \<open>covered_task\<close>
  says that every one of them is among the pairs of a task and a case that \<open>asks\<close> admits.
\<close>

definition step_case :: "executor \<Rightarrow> path_step \<Rightarrow> ident" where
  "step_case ex step = first_non_empty [ps_CaseID step, node_case_id (ex_graph ex) (ps_NodeID step)]"

definition covered_task :: "executor \<Rightarrow> (ident \<Rightarrow> ident \<Rightarrow> bool) \<Rightarrow> task_record \<Rightarrow> bool" where
  "covered_task ex asks t \<longleftrightarrow>
     (tr_Kind t = TaskRunPath \<longrightarrow> list_all (\<lambda>s. asks (tr_ID t) (step_case ex s)) (steps_for_task (ex_graph ex) t [])) \<and>
     (tr_Kind t = TaskRunPathPrefix \<longrightarrow>
       list_all (\<lambda>s. asks (tr_ID t) (step_case ex s)) (steps_for_task (ex_graph ex) t (task_until_node_id t))) \<and>
     (tr_Kind t = TaskRunCase \<longrightarrow> asks (tr_ID t) (first_non_empty [tr_CaseID t]))"

lemma covered_task_True [simp]: "covered_task ex (\<lambda>_ _. True) t"
  by (simp add: covered_task_def list_all_iff)

lemma covered_task_started [simp]:
  "covered_task ex asks (t\<lparr>tr_StartedAt := a, tr_Status := s\<rparr>) \<longleftrightarrow> covered_task ex asks t"
  by (simp add: covered_task_def steps_for_task_def task_until_node_id_def Let_def)

locale execution_monitor =
  fixes ex :: executor and Inv :: "exec_state \<Rightarrow> bool" and okt :: "task_record \<Rightarrow> bool"
    and asks :: "ident \<Rightarrow> ident \<Rightarrow> bool" and Q :: "exec_event \<Rightarrow> bool"
  assumes okt_cong: "okt t \<Longrightarrow> tr_ID t' = tr_ID t \<Longrightarrow> tr_PlanID t' = tr_PlanID t \<Longrightarrow> okt t'"
    and inv_advance: "Inv st \<Longrightarrow> Inv (advance ex st)"
    and inv_checkpoint: "Inv st \<Longrightarrow> Inv (checkpoint_task ex t st)"
    and inv_fence: "Inv st \<Longrightarrow> Inv (snd (fence_map_run_ownership ex st))"
    and inv_log: "Inv st \<Longrightarrow> Inv (log_event ev st)"
    and inv_exports: "Inv st \<Longrightarrow> Inv (set_task_exports tid kvs st)"
    and sent: "Inv st \<Longrightarrow> fence_map_run_ownership ex st = (None, st') \<Longrightarrow> okt t \<Longrightarrow> generated_run_id ex rid \<Longrightarrow>
      asks (tr_ID t) cid \<Longrightarrow> Q (Case_Requested (tr_ID t) (catalog_case_payload ex i t step cid rid ov)
        (db_leases (xs_db st') (tr_PlanID t)) (clock ex st'))"
    and stored: "Inv st \<Longrightarrow> fence_map_run_ownership ex st = (None, st') \<Longrightarrow> okt t \<Longrightarrow> generated_run_id ex rid \<Longrightarrow>
      Q (Run_Created (tr_ID t) (path_run_row i t rid status summ fin)
        (db_leases (xs_db st') (tr_PlanID t)) (clock ex st'))"
begin

lemma run_catalog_case_keeps:
  assumes "Inv st" "logged Q st" "okt t" "generated_run_id ex rid"
    and asked: "asks (tr_ID t) (first_non_empty [ps_CaseID step, tr_CaseID t])"
  shows "Inv (snd (run_catalog_case ex i t step rid ov st))"
    "logged Q (snd (run_catalog_case ex i t step rid ov st))"
proof -
  let ?st1 = "advance ex st"
  let ?cid = "first_non_empty [ps_CaseID step, tr_CaseID t]"
  let ?req = "catalog_case_payload ex i t step ?cid rid ov"
  obtain e st2 where f: "fence_map_run_ownership ex ?st1 = (e, st2)" by fastforce
  have i1: "Inv ?st1" using inv_advance assms(1) .
  have i2: "Inv st2" using inv_fence [OF i1] f by simp
  have l2: "logged Q st2" using assms(2) log_simps(3) [of ex ?st1] f by (simp add: logged_def)
  have both: "Inv (snd (run_catalog_case ex i t step rid ov st)) \<and>
    logged Q (snd (run_catalog_case ex i t step rid ov st))"
  proof (cases e)
    case (Some err)
    then show ?thesis using f i2 l2 by (simp add: run_catalog_case_def Let_def)
  next
    case None
    let ?ev = "Case_Requested (tr_ID t) ?req (db_leases (xs_db st2) (tr_PlanID t)) (clock ex st2)"
    have q: "Q ?ev" using sent [OF i1 _ assms(3,4) asked] f None by simp
    have "Inv (advance ex (log_event ?ev st2))" using i2 by (intro inv_advance inv_log)
    moreover have "logged Q (advance ex (log_event ?ev st2))" using l2 q by (simp add: logged_def)
    ultimately have "Inv (snd (run_with ex runner t ?req st2)) \<and> logged Q (snd (run_with ex runner t ?req st2))" for runner
      using i2 l2 by (cases runner) (simp_all add: run_with_def Let_def)
    then show ?thesis using f None
      by (simp add: run_catalog_case_def Let_def case_prod_unfold split: option.splits)
  qed
  then show "Inv (snd (run_catalog_case ex i t step rid ov st))"
    "logged Q (snd (run_catalog_case ex i t step rid ov st))" by blast+
qed

lemma execute_step_case_keeps:
  assumes "Inv st" "logged Q st" "okt t" "asks (tr_ID t) (step_case ex step)"
  shows "Inv (snd (execute_step_case ex i t step (task_run_id ex i0 t0 now) ov st))"
    "logged Q (snd (execute_step_case ex i t step (task_run_id ex i0 t0 now) ov st))"
proof -
  have "first_non_empty [ps_CaseID step, step_case ex step] = step_case ex step"
    by (simp add: step_case_def first_non_empty.simps)
  then show "Inv (snd (execute_step_case ex i t step (task_run_id ex i0 t0 now) ov st))"
    "logged Q (snd (execute_step_case ex i t step (task_run_id ex i0 t0 now) ov st))"
    using assms
    by (auto simp: execute_step_case_def step_case_def [symmetric] Let_def case_prod_unfold
        intro!: run_catalog_case_keeps intro: okt_cong [OF assms(3)])
qed

lemma path_loop_keeps:
  assumes "Inv (pr_state p)" "logged Q (pr_state p)" "okt (pr_task p)"
    "list_all (\<lambda>s. asks (tr_ID (pr_task p)) (step_case ex s)) steps"
    and rid: "rid = task_run_id ex i0 t0 now"
  shows "Inv (pr_state (path_loop ex i rid steps p)) \<and> logged Q (pr_state (path_loop ex i rid steps p)) \<and>
    tr_ID (pr_task (path_loop ex i rid steps p)) = tr_ID (pr_task p) \<and>
    tr_PlanID (pr_task (path_loop ex i rid steps p)) = tr_PlanID (pr_task p)"
  using assms(1-4)
proof (induction steps arbitrary: p)
  case (Cons step steps)
  show ?case
  proof (cases "execution_error (pr_state p) = None")
    case False
    then show ?thesis using Cons.prems by simp
  next
    case True
    obtain result st1 where es: "execute_step_case ex i (pr_task p) step rid (pr_overrides p) (pr_state p) = (result, st1)"
      by fastforce
    let ?rs = "pr_results p @ [result]"
    let ?t1 = "(pr_task p)\<lparr>tr_SummaryJSON := step_checkpoint_json ?rs\<rparr>"
    let ?st2 = "checkpoint_task ex ?t1 st1"
    have st1: "Inv st1" "logged Q st1"
      using execute_step_case_keeps [OF Cons.prems(1-3), of step i i0 t0 now "pr_overrides p"] Cons.prems(4) es
      unfolding rid by simp_all
    have st2: "Inv ?st2" "logged Q ?st2" using st1 inv_checkpoint by (simp_all add: logged_def)
    have st3: "Inv (advance ex ?st2)" "logged Q (advance ex ?st2)" using st2 inv_advance by (simp_all add: logged_def)
    have t1: "okt ?t1" using okt_cong [OF Cons.prems(3)] by simp
    show ?thesis
    proof (cases "execution_error ?st2 = None \<and> sr_Status result = StatusPassed")
      case False
      then show ?thesis using True es st2 by (auto simp: Let_def split: option.splits)
    next
      case True': True
      let ?p' = "p\<lparr>pr_state := ?st2, pr_task := ?t1, pr_results := ?rs\<rparr>\<lparr>pr_state := advance ex ?st2,
        pr_overrides := put_all (step_exported_values ex (advance ex ?st2) ?t1 step (sr_Raw result)) (pr_overrides p)\<rparr>"
      have "path_loop ex i rid (step # steps) p = path_loop ex i rid steps ?p'"
        using True True' es by (simp add: Let_def)
      then show ?thesis using Cons.IH [of ?p'] Cons.prems(4) st3 t1 by simp
    qed
  qed
qed simp

lemma finish_path_task_keeps:
  assumes "Inv (pr_state p)" "logged Q (pr_state p)" "okt (pr_task p)"
    and rid: "rid = task_run_id ex i0 t0 now"
  shows "Inv (snd (finish_path_task ex i rid steps p))" "logged Q (snd (finish_path_task ex i rid steps p))"
proof -
  let ?exports = "if pr_status p = StatusPassed then pr_overrides p else []"
  let ?st = "if ?exports \<noteq> [] then set_task_exports (tr_ID (pr_task p)) ?exports (pr_state p) else pr_state p"
  have st: "Inv ?st" "logged Q ?st" using assms inv_exports by (auto simp: logged_def)
  obtain e st1 where f: "fence_map_run_ownership ex ?st = (e, st1)" by fastforce
  have st1: "Inv st1" "logged Q st1"
    using inv_fence [OF st(1)] f st(2) log_simps(3) [of ex ?st] by (auto simp: logged_def)
  have ev: "Inv (advance ex (log_event ev st1)) \<and> logged Q (advance ex (log_event ev st1))" if "Q ev" for ev
    using st1 that inv_advance inv_log by (simp add: logged_def)
  have run: "Q (Run_Created (tr_ID (pr_task p)) (path_run_row i (pr_task p) rid s m fin)
     (db_leases (xs_db st1) (tr_PlanID (pr_task p))) (clock ex st1))" if "e = None" for s m fin
    using stored [OF st(1) _ assms(3)] f that rid by simp
  have both: "Inv (snd (finish_path_task ex i rid steps p)) \<and> logged Q (snd (finish_path_task ex i rid steps p))"
  proof (cases "steps = []")
    case True
    then show ?thesis using st by (simp add: finish_path_task_def Let_def)
  next
    case False
    then show ?thesis using f st1 ev run
      by (cases e) (simp_all add: finish_path_task_def Let_def)
  qed
  then show "Inv (snd (finish_path_task ex i rid steps p))" "logged Q (snd (finish_path_task ex i rid steps p))"
    by blast+
qed

lemma execute_path_task_keeps:
  assumes "Inv st" "logged Q st" "okt t"
    "list_all (\<lambda>s. asks (tr_ID t) (step_case ex s)) (steps_for_task (ex_graph ex) t until)"
  shows "Inv (snd (execute_path_task ex i until t st))" "logged Q (snd (execute_path_task ex i until t st))"
proof -
  let ?rid = "task_run_id ex i t (clock ex st)"
  let ?p = "\<lparr>pr_state = st, pr_task = t, pr_results = [], pr_overrides = [], pr_status = StatusPassed\<rparr>"
  note loop = path_loop_keeps [of ?p "steps_for_task (ex_graph ex) t until" ?rid i t "clock ex st" i, simplified, OF assms]
  have "okt (pr_task (path_loop ex i ?rid (steps_for_task (ex_graph ex) t until) ?p))"
    using okt_cong [OF assms(3)] loop by simp
  then show "Inv (snd (execute_path_task ex i until t st))" "logged Q (snd (execute_path_task ex i until t st))"
    using finish_path_task_keeps [OF _ _ _ refl] loop by (simp_all add: execute_path_task_def Let_def)
qed

lemma execute_case_task_keeps:
  assumes "Inv st" "logged Q st" "okt t" "asks (tr_ID t) (first_non_empty [tr_CaseID t])"
  shows "Inv (snd (execute_case_task ex i es t st))" "logged Q (snd (execute_case_task ex i es t st))"
proof -
  have "first_non_empty [ps_CaseID (map_run_case_step t), tr_CaseID t] = first_non_empty [tr_CaseID t]"
    by (simp add: map_run_case_step_def first_non_empty.simps)
  then show "Inv (snd (execute_case_task ex i es t st))" "logged Q (snd (execute_case_task ex i es t st))"
    using run_catalog_case_keeps [OF assms(1-3), where step = "map_run_case_step t"] assms(4)
    by (simp_all add: execute_case_task_def Let_def case_prod_unfold)
qed

lemma execute_materialized_task_keeps:
  assumes "Inv st" "logged Q st"
  shows "Inv (snd (execute_materialized_task ex t st))" "logged Q (snd (execute_materialized_task ex t st))"
  using assms
  by (auto simp: execute_materialized_task_def Let_def logged_def intro: inv_advance inv_exports
      split: option.splits sum.splits)

lemma run_task_keeps:
  assumes "Inv st" "logged Q st" "okt t" "covered_task ex asks t"
  shows "Inv (snd (run_task ex i es t st))" "logged Q (snd (run_task ex i es t st))"
  using assms execute_path_task_keeps [OF assms(1-3)] execute_case_task_keeps [OF assms(1-3)]
    execute_materialized_task_keeps [OF assms(1,2)]
  by (simp_all add: run_task_def covered_task_def)

end

section \<open>What a task keeps\<close>

definition summary_only :: "task_record \<Rightarrow> task_record \<Rightarrow> bool" where
  "summary_only t t' \<longleftrightarrow> (\<exists>s. t' = t\<lparr>tr_SummaryJSON := s\<rparr>)"

lemma summary_onlyI [simp]: "summary_only t t" "summary_only t (t\<lparr>tr_SummaryJSON := s\<rparr>)"
proof -
  have "t = t\<lparr>tr_SummaryJSON := tr_SummaryJSON t\<rparr>" by simp
  then show "summary_only t t" unfolding summary_only_def by blast
qed (auto simp: summary_only_def)

lemma summary_only_trans: "summary_only t u \<Longrightarrow> summary_only u v \<Longrightarrow> summary_only t v"
  by (auto simp: summary_only_def)

text \<open>One round of the loop over the steps: it ends with the state it returns, or it goes on.\<close>

lemma path_loop_round:
  obtains (stopped) "execution_error (pr_state p) \<noteq> None"
      "path_loop ex i rid (step # steps) p = p\<lparr>pr_status := StatusFailed\<rparr>"
  | (ended) result st1 p' where "execution_error (pr_state p) = None"
      "execute_step_case ex i (pr_task p) step rid (pr_overrides p) (pr_state p) = (result, st1)"
      "path_loop ex i rid (step # steps) p = p'" "pr_status p' = StatusFailed"
      "pr_task p' = (pr_task p)\<lparr>tr_SummaryJSON := step_checkpoint_json (pr_results p @ [result])\<rparr>"
      "pr_results p' \<noteq> []"
  | (passed) result st1 p' where "execution_error (pr_state p) = None"
      "execute_step_case ex i (pr_task p) step rid (pr_overrides p) (pr_state p) = (result, st1)"
      "path_loop ex i rid (step # steps) p = path_loop ex i rid steps p'" "pr_status p' = pr_status p"
      "pr_task p' = (pr_task p)\<lparr>tr_SummaryJSON := step_checkpoint_json (pr_results p @ [result])\<rparr>"
      "pr_results p' = pr_results p @ [result]"
proof -
  obtain result st1 where es: "execute_step_case ex i (pr_task p) step rid (pr_overrides p) (pr_state p) = (result, st1)"
    by fastforce
  let ?rs = "pr_results p @ [result]"
  let ?t1 = "(pr_task p)\<lparr>tr_SummaryJSON := step_checkpoint_json ?rs\<rparr>"
  let ?st2 = "checkpoint_task ex ?t1 st1"
  show ?thesis
  proof (cases "execution_error (pr_state p)")
    case None
    show ?thesis
    proof (cases "execution_error ?st2")
      case (Some e)
      show ?thesis by (rule ended [OF None es refl]) (use None es Some in \<open>simp_all add: Let_def\<close>)
    next
      case ok: None
      show ?thesis
      proof (cases "sr_Status result = StatusPassed")
        case True
        let ?p' = "p\<lparr>pr_state := ?st2, pr_task := ?t1, pr_results := ?rs\<rparr>\<lparr>pr_state := advance ex ?st2,
          pr_overrides := put_all (step_exported_values ex (advance ex ?st2) ?t1 step (sr_Raw result)) (pr_overrides p)\<rparr>"
        have "path_loop ex i rid (step # steps) p = path_loop ex i rid steps ?p'"
          using None es ok True by (simp add: Let_def)
        then show ?thesis by (rule passed [OF None es]) simp_all
      next
        case False
        show ?thesis by (rule ended [OF None es refl]) (use None es ok False in \<open>simp_all add: Let_def\<close>)
      qed
    qed
  qed (rule stopped; simp)
qed

lemma path_loop_task: "summary_only (pr_task p) (pr_task (path_loop ex i rid steps p))"
proof (induction steps arbitrary: p)
  case (Cons step steps)
  show ?case
  proof (cases rule: path_loop_round [of p ex i rid step steps])
    case (passed result st1 p')
    have "summary_only (pr_task p) (pr_task p')" using passed(5) by simp
    then show ?thesis using Cons.IH [of p'] summary_only_trans unfolding passed(3) by blast
  qed simp_all
qed simp

definition same_task :: "task_record \<Rightarrow> task_record \<Rightarrow> bool" where
  "same_task t t' \<longleftrightarrow> tr_ID t' = tr_ID t \<and> tr_PlanID t' = tr_PlanID t \<and> tr_Kind t' = tr_Kind t"

lemma same_task_simps [simp]:
  "same_task t t" "same_task t (finish_task s kvs f t') \<longleftrightarrow> same_task t t'"
  "same_task t (t'\<lparr>tr_WorkflowRunID := x\<rparr>) \<longleftrightarrow> same_task t t'"
  "same_task t (t'\<lparr>tr_APICaseRunID := x\<rparr>) \<longleftrightarrow> same_task t t'"
  "same_task t (t'\<lparr>tr_EvidenceRoot := x\<rparr>) \<longleftrightarrow> same_task t t'"
  "same_task (t\<lparr>tr_StartedAt := z, tr_Status := x\<rparr>) t' \<longleftrightarrow> same_task t t'"
  "same_task t (t'\<lparr>tr_StartedAt := z, tr_Status := x\<rparr>) \<longleftrightarrow> same_task t t'"
  by (simp_all add: same_task_def)

lemma summary_only_same_task: "summary_only t t' \<Longrightarrow> same_task t t'"
  by (auto simp: summary_only_def same_task_def)

lemma finish_path_task_same: "same_task (pr_task p) (fst (finish_path_task ex i rid steps p))"
  by (simp add: finish_path_task_def Let_def split: prod.splits option.splits)

lemma execute_path_task_same: "same_task t (fst (execute_path_task ex i until t st))"
proof -
  let ?rid = "task_run_id ex i t (clock ex st)"
  let ?steps = "steps_for_task (ex_graph ex) t until"
  let ?p = "\<lparr>pr_state = st, pr_task = t, pr_results = [], pr_overrides = [], pr_status = StatusPassed\<rparr>"
  have "same_task t (pr_task (path_loop ex i ?rid ?steps ?p))"
    using summary_only_same_task [OF path_loop_task, of ?p] by simp
  then show ?thesis
    using finish_path_task_same [of "path_loop ex i ?rid ?steps ?p" ex i ?rid ?steps]
    by (simp add: execute_path_task_def Let_def same_task_def)
qed

lemma run_task_same: "same_task t (fst (run_task ex i es t st))"
proof -
  have "same_task t (fst (execute_case_task ex i es t st))"
    by (simp add: execute_case_task_def Let_def case_prod_unfold)
  moreover have "same_task t (fst (execute_materialized_task ex t st))"
    by (simp add: execute_materialized_task_def Let_def split: option.splits sum.splits)
  ultimately show ?thesis using execute_path_task_same by (simp add: run_task_def)
qed

lemma execute_task_same: "same_task t (fst (execute_task ex i es now t st))"
  using run_task_same [of "t\<lparr>tr_StartedAt := clock ex st, tr_Status := TaskStatusRunning\<rparr>"]
  by (auto simp: execute_task_def Let_def case_prod_unfold split: option.splits)

section \<open>Monitoring a whole run\<close>

definition plan_waves :: "plan_record \<Rightarrow> nat list list" where
  "plan_waves r = (case map_run_task_execution_waves (pr_Tasks r) (pr_TaskEdges r) of Some ws \<Rightarrow> ws | None \<Rightarrow> [])"

definition wave_order :: "executor \<Rightarrow> nat list \<Rightarrow> nat list" where
  "wave_order ex w = (if ro_concurrency (ex_options ex) \<le> 1 \<or> length w = 1 then w else en_order (ex_env ex) w)"

text \<open>The scheduler may run a wave in any order, but each of its tasks once.\<close>

definition fair_order :: "executor \<Rightarrow> bool" where
  "fair_order ex \<longleftrightarrow> (\<forall>w. mset (en_order (ex_env ex) w) = mset w)"

lemma mset_wave_order: "fair_order ex \<Longrightarrow> mset (wave_order ex w) = mset w"
  by (simp add: fair_order_def wave_order_def)

lemma set_wave_order: "fair_order ex \<Longrightarrow> set (wave_order ex w) = set w"
  using mset_wave_order mset_eq_setD by blast

text \<open>Execution over the waves is execution over the concatenation of their orders.\<close>

lemma execute_indices_stopped:
  "execution_error st \<noteq> None \<Longrightarrow> execute_indices ex i es now ks ts st = (ts, st)"
  by (cases ks) auto

lemma execute_indices_append:
  "execute_indices ex i es now (ks @ ls) ts st =
     (let (ts', st') = execute_indices ex i es now ks ts st in execute_indices ex i es now ls ts' st')"
proof (induction ks arbitrary: ts st)
  case (Cons k ks)
  show ?case
  proof (cases "execution_error st = None")
    case True
    then show ?thesis using Cons.IH by (simp add: case_prod_unfold Let_def)
  next
    case False
    then show ?thesis by (cases ls) simp_all
  qed
qed simp

lemma execute_waves_indices:
  "execute_waves ex i es now ws ts st = execute_indices ex i es now (concat (map (wave_order ex) ws)) ts st"
proof (induction ws arbitrary: ts st)
  case (Cons w ws)
  show ?case
  proof (cases "execution_error st = None")
    case True
    then show ?thesis
      using Cons by (simp add: execute_indices_append wave_order_def case_prod_unfold Let_def)
  next
    case False
    then show ?thesis by (simp add: execute_indices_stopped)
  qed
qed simp

definition plan_order :: "executor \<Rightarrow> plan_record \<Rightarrow> nat list" where
  "plan_order ex r = concat (map (wave_order ex) (plan_waves r))"

lemma plan_order_perm:
  assumes "fair_order ex"
  shows "distinct (plan_order ex r)" "set (plan_order ex r) = {0..<length (pr_Tasks r)}"
proof -
  obtain ws where ws: "plan_waves r = ws" "distinct (concat ws)" "set (concat ws) = {0..<length (pr_Tasks r)}"
    using waves_each_once [of "pr_Tasks r" "pr_TaskEdges r"] by (auto simp: plan_waves_def)
  have "mset (plan_order ex r) = mset (concat ws)"
    unfolding plan_order_def ws(1) by (induction ws) (simp_all add: mset_wave_order [OF assms])
  then show "distinct (plan_order ex r)" "set (plan_order ex r) = {0..<length (pr_Tasks r)}"
    using ws(2,3) mset_eq_imp_distinct_iff mset_eq_setD by metis+
qed

lemma execute_unfold:
  "execute ex r st = (let (ts, st1) = execute_indices ex (pr_Instance r) (pr_TaskEdges r) (clock ex st)
      (plan_order ex r) (pr_Tasks r) st in finish_record ex (r\<lparr>pr_Tasks := ts\<rparr>) st1)"
  by (simp add: execute_def plan_order_def plan_waves_def execute_waves_indices Let_def)

locale whole_run_monitor = execution_monitor +
  assumes inv_status: "Inv st \<Longrightarrow> Inv (set_task_status tid s st)"
begin

lemma restore_keeps: "Inv st \<Longrightarrow> Inv (restore_task_exports t st)"
  by (simp add: restore_task_exports_def Let_def inv_exports)

lemma restore_logged: "logged Q (restore_task_exports t st) \<longleftrightarrow> logged Q st"
  by (simp add: restore_task_exports_def Let_def logged_def)

lemma execute_task_keeps:
  assumes "Inv st" "logged Q st" "okt t" "covered_task ex asks t"
  shows "Inv (snd (execute_task ex i es now t st)) \<and> logged Q (snd (execute_task ex i es now t st))"
proof -
  let ?t1 = "t\<lparr>tr_StartedAt := clock ex st, tr_Status := TaskStatusRunning\<rparr>"
  let ?st1 = "checkpoint_task ex ?t1 st"
  have t1: "okt ?t1" using okt_cong [OF assms(3)] by simp
  have st1: "Inv ?st1" "logged Q ?st1" using assms inv_checkpoint by (simp_all add: logged_def)
  have "covered_task ex asks ?t1" using assms(4) by (simp only: covered_task_started)
  note run = run_task_keeps [OF st1 t1 this, of i es]
  have cp: "Inv (checkpoint_task ex t' (set_task_status k s st')) \<and> logged Q (checkpoint_task ex t' (set_task_status k s st'))"
    if "Inv st'" "logged Q st'" for t' k s st'
    using that inv_checkpoint inv_status by (simp add: logged_def)
  have cq: "Inv (set_task_status k s st') \<and> logged Q (set_task_status k s st')" if "Inv st'" "logged Q st'" for k s st'
    using that inv_status by (simp add: logged_def)
  have "Inv (checkpoint_task ex t' st) \<and> logged Q (checkpoint_task ex t' st)" for t'
    using assms inv_checkpoint by (simp add: logged_def)
  then show ?thesis
    using assms(1,2) run cp cq restore_keeps restore_logged st1
    by (simp add: execute_task_def Let_def case_prod_unfold split: option.splits)
qed

lemma execute_indices_keeps:
  assumes "Inv st" "logged Q st" "\<forall>k \<in> set ks. k < length ts" "\<forall>t \<in> set ts. okt t"
    "distinct ks" "\<forall>k \<in> set ks. covered_task ex asks (ts ! k)"
  shows "Inv (snd (execute_indices ex i es now ks ts st)) \<and> logged Q (snd (execute_indices ex i es now ks ts st))"
  using assms
proof (induction ks arbitrary: ts st)
  case (Cons k ks)
  let ?r = "execute_task ex i es now (ts ! k) st"
  have k: "okt (ts ! k)" using Cons.prems(3,4) by simp
  have c: "covered_task ex asks (ts ! k)" using Cons.prems(6) by simp
  note st = execute_task_keeps [OF Cons.prems(1,2) k c, of i es now]
  have "okt (fst ?r)" using okt_cong [OF k] execute_task_same [of "ts ! k"] by (simp add: same_task_def)
  then have "\<forall>t \<in> set (ts[k := fst ?r]). okt t"
    using Cons.prems(4) set_update_subset_insert [of ts k "fst ?r"] by auto
  moreover have "\<forall>j \<in> set ks. covered_task ex asks (ts[k := fst ?r] ! j)"
    using Cons.prems(5,6) by (metis distinct.simps(2) list.set_intros(2) nth_list_update_neq)
  ultimately show ?case
    using Cons.IH [of "snd ?r" "ts[k := fst ?r]"] st Cons.prems(1,2,3,5) by (simp add: case_prod_unfold Let_def)
qed simp

end

lemma same_books_finish_record: "same_books st (snd (finish_record ex r st))"
proof -
  have a: "same_books st (advance ex st)" by (rule same_books_advance)
  have "same_books st (snd (finish_claimed_instance ex i st))" for i
    using a by (auto simp: finish_claimed_instance_def Let_def split: option.splits prod.splits sum.splits)
  moreover have "same_books st (checkpoint_instance ex i st)" for i
    using a by (auto simp: checkpoint_instance_def Let_def split: prod.splits sum.splits)
  ultimately show ?thesis
    by (simp add: finish_record_def Let_def case_prod_unfold split: option.splits)
qed

lemma log_execute:
  "xs_log (snd (execute ex r st)) = xs_log (snd (execute_indices ex (pr_Instance r) (pr_TaskEdges r) (clock ex st)
     (plan_order ex r) (pr_Tasks r) st))"
  using same_books_finish_record by (simp add: execute_unfold case_prod_unfold Let_def same_books_def)

context whole_run_monitor begin

lemma execute_logged:
  assumes "Inv st" "logged Q st" "fair_order ex" "\<forall>t \<in> set (pr_Tasks r). okt t"
    "\<forall>t \<in> set (pr_Tasks r). covered_task ex asks t"
  shows "logged Q (snd (execute ex r st))"
proof -
  have "\<forall>k \<in> set (plan_order ex r). k < length (pr_Tasks r)"
    by (simp add: plan_order_perm(2) [OF assms(3)])
  moreover have "\<forall>k \<in> set (plan_order ex r). covered_task ex asks (pr_Tasks r ! k)"
    using assms(5) calculation by simp
  ultimately show ?thesis
    using execute_indices_keeps [OF assms(1,2) _ assms(4) plan_order_perm(1) [OF assms(3)]]
    by (simp add: logged_def log_execute)
qed

end

section \<open>The lease during an execution\<close>

text \<open>The executor holds a lease of the plan \<open>p\<close>, claimed as owner \<open>ow\<close> with the token \<open>tk\<close>.\<close>

definition lease_is :: "ident \<Rightarrow> ident \<Rightarrow> ident \<Rightarrow> lease \<Rightarrow> bool" where
  "lease_is p ow tk l \<longleftrightarrow> le_PlanID l = p \<and> le_OwnerID l = ow \<and> le_Token l = tk"

definition held :: "ident \<Rightarrow> ident \<Rightarrow> ident \<Rightarrow> exec_state \<Rightarrow> bool" where
  "held p ow tk st \<longleftrightarrow> \<not> xs_released st \<and> (\<exists>l. xs_lease st = Some l \<and> lease_is p ow tk l)"

fun fenced_by :: "ident \<Rightarrow> ident \<Rightarrow> exec_event \<Rightarrow> bool" where
  "fenced_by ow tk (Case_Requested t r row now) \<longleftrightarrow>
     (\<exists>l. row = Some l \<and> le_OwnerID l = ow \<and> le_Token l = tk \<and> le_ExpiresAt l = now + map_run_lease_duration)"
| "fenced_by ow tk (Run_Created t r row now) \<longleftrightarrow>
     (\<exists>l. row = Some l \<and> le_OwnerID l = ow \<and> le_Token l = tk \<and> le_ExpiresAt l = now + map_run_lease_duration)"

lemma now_or_same [simp]: "now_or n n = n"
  by (simp add: now_or_def)

lemma lease_is_renewed: "lease_is p ow tk l \<Longrightarrow> lease_is p ow tk (l\<lparr>le_ExpiresAt := a, le_UpdatedAt := b\<rparr>)"
  by (simp add: lease_is_def)

lemma renew_Inr:
  assumes "renew_test_map_plan_lease sd now l now ex db = (Inr l', db')" "lease_is p ow tk l"
  shows "lease_is p ow tk l' \<and> (\<exists>row. db_leases db' p = Some row \<and> le_OwnerID row = ow \<and> le_Token row = tk \<and> le_ExpiresAt row = ex)"
proof -
  have tx: "renew_lease_tx sd now l now ex db = Inr (l', db')"
    using assms(1) by (auto simp: renew_test_map_plan_lease_def split: sum.splits prod.splits)
  note r = renew_lease_tx_Inr [OF tx]
  then show ?thesis using assms(2)
    by (auto simp: lease_is_def lease_active_def set_lease_def split: option.splits)
qed

lemma held_errors [simp]:
  "held p ow tk (record_checkpoint_error e st) \<longleftrightarrow> held p ow tk st"
  "held p ow tk (record_lease_error e st) \<longleftrightarrow> held p ow tk st"
  by (simp_all add: held_def record_checkpoint_error_def record_lease_error_def Let_def)

lemma held_updates [simp]:
  "held p ow tk (st\<lparr>xs_db := db\<rparr>) \<longleftrightarrow> held p ow tk st"
  "held p ow tk (st\<lparr>xs_heartbeat := h\<rparr>) \<longleftrightarrow> held p ow tk st"
  "held p ow tk (st\<lparr>xs_tick := n, xs_db := db, xs_cancelled := c\<rparr>) \<longleftrightarrow> held p ow tk st"
  "held p ow tk (log_event ev st) \<longleftrightarrow> held p ow tk st"
  "held p ow tk (set_task_exports i kvs st) \<longleftrightarrow> held p ow tk st"
  "held p ow tk (set_task_status i s st) \<longleftrightarrow> held p ow tk st"
  by (simp_all add: held_def log_event_def set_task_exports_def set_task_status_def)

lemma held_lease: "\<not> xs_released st \<Longrightarrow> lease_is p ow tk l \<Longrightarrow> held p ow tk (st\<lparr>xs_db := db, xs_lease := Some l\<rparr>)"
  by (simp add: held_def)

lemma renew_lease_held:
  assumes "held p ow tk st"
  shows "held p ow tk (snd (renew_lease ex st))"
    and "fst (renew_lease ex st) = None \<Longrightarrow> \<exists>row. db_leases (xs_db (snd (renew_lease ex st))) p = Some row \<and>
      le_OwnerID row = ow \<and> le_Token row = tk \<and>
      le_ExpiresAt row = clock ex (snd (renew_lease ex st)) + map_run_lease_duration"
proof -
  obtain l where l: "xs_lease st = Some l" "lease_is p ow tk l" "\<not> xs_released st"
    using assms by (auto simp: held_def)
  obtain r db where r: "renew_test_map_plan_lease (ex_dialect ex) (clock ex st) l (clock ex st)
      (clock ex st + map_run_lease_duration) (xs_db st) = (r, db)" by fastforce
  show "held p ow tk (snd (renew_lease ex st))"
    using l r assms renew_Inr [OF _ l(2)]
    by (cases r) (auto simp: renew_lease_def Let_def intro!: held_lease)
  show "\<exists>row. db_leases (xs_db (snd (renew_lease ex st))) p = Some row \<and>
      le_OwnerID row = ow \<and> le_Token row = tk \<and>
      le_ExpiresAt row = clock ex (snd (renew_lease ex st)) + map_run_lease_duration"
    if "fst (renew_lease ex st) = None"
    using l r that renew_Inr [OF _ l(2)]
    by (cases r) (auto simp: renew_lease_def Let_def clock_def split: if_splits)
qed

lemma held_advance: "held p ow tk st \<Longrightarrow> held p ow tk (advance ex st)"
proof -
  assume h: "held p ow tk st"
  have "held p ow tk (heartbeat ex st')" if "held p ow tk st'" for st'
    using that renew_lease_held(1) [OF that, of ex]
    by (auto simp: heartbeat_def split: prod.splits option.splits)
  then show ?thesis using h by (simp add: advance_def Let_def)
qed

lemma held_fence: "held p ow tk st \<Longrightarrow> held p ow tk (snd (fence_map_run_ownership ex st))"
  using renew_lease_held(1) [OF held_advance, of p ow tk st ex ex]
  by (auto simp: fence_map_run_ownership_def split: option.splits prod.splits)

lemma held_checkpoint:
  assumes "held p ow tk st"
  shows "held p ow tk (checkpoint_task ex t st)"
proof -
  let ?st = "advance ex st"
  have h: "held p ow tk ?st" using held_advance [OF assms] .
  then obtain l where l: "xs_lease ?st = Some l" "lease_is p ow tk l" "\<not> xs_released ?st"
    by (auto simp: held_def)
  obtain r db where r: "update_task_with_lease (ex_dialect ex) (clock ex ?st) l t (clock ex ?st)
      (clock ex ?st + map_run_lease_duration) (xs_db ?st) = (r, db)" by fastforce
  have id: "lease_is p ow tk l'" if "r = Inr l'" for l'
    using r l(2) that unfolding update_task_with_lease_def
    by (cases rule: checkpoint_cases) (auto dest: renew_lease_tx_Inr intro: lease_is_renewed)
  show ?thesis
    using assms h l r id
    by (cases r) (auto simp: checkpoint_task_def checkpoint_claimed_task_def Let_def intro!: held_lease)
qed

lemma fence_None:
  assumes "held p ow tk st" "fence_map_run_ownership ex st = (None, st')"
  shows "\<exists>row. db_leases (xs_db st') p = Some row \<and> le_OwnerID row = ow \<and> le_Token row = tk \<and>
      le_ExpiresAt row = clock ex st' + map_run_lease_duration"
proof -
  have lease: "xs_lease st \<noteq> None" using assms(1) by (auto simp: held_def)
  have e: "execution_error st = None"
    using assms(2) by (auto simp: fence_map_run_ownership_def split: option.splits)
  obtain r st1 where r: "renew_lease ex (advance ex st) = (r, st1)" by fastforce
  have "r = None \<and> st' = st1"
    using assms(2) e lease r by (cases r) (auto simp: fence_map_run_ownership_def)
  then show ?thesis using renew_lease_held(2) [OF held_advance [OF assms(1)], of ex ex] r by simp
qed

section \<open>The monitors of the model\<close>

interpretation lease_monitor: whole_run_monitor ex "held p ow tk" "\<lambda>t. tr_PlanID t = p" "\<lambda>_ _. True" "fenced_by ow tk"
  for ex p ow tk
proof (unfold_locales, goal_cases)
  case (7 st st' t)
  then show ?case using fence_None by simp
next
  case (8 st st' t)
  then show ?case using fence_None by simp
qed (simp_all add: held_advance held_checkpoint held_fence)

fun event_run_id :: "exec_event \<Rightarrow> ident" where
  "event_run_id (Case_Requested _ req _ _) = cq_RunID req"
| "event_run_id (Run_Created _ row _ _) = rn_ID row"

interpretation run_id_monitor: whole_run_monitor ex "\<lambda>_. True" "\<lambda>_. True" "\<lambda>_ _. True" "\<lambda>ev. generated_run_id ex (event_run_id ev)"
  for ex
  by unfold_locales (simp_all add: catalog_case_payload_def path_run_row_def Let_def)

interpretation task_monitor: execution_monitor ex "\<lambda>st. xs_status st = \<sigma>" "\<lambda>t. tr_ID t = tid" "\<lambda>_ _. True"
    "\<lambda>ev. event_task ev = tid \<or> ev \<in> logged_before"
  for ex \<sigma> tid logged_before
  by unfold_locales simp_all

end
