(* ===== verification/Map_Run_Safety.thy ===== *)
theory Map_Run_Safety
  imports Map_Execute_Facts
begin

text \<open>
  The properties of an execution that span its parts: requests and stored runs happen under a
  lease that was just renewed, their identifiers are ones the case runner accepts, nothing is
  requested for a task before the tasks it requires have passed, a run that reports success has
  stored it and given the lease back, and what is lost when a path prefix is retried.
\<close>

section \<open>A small run\<close>

definition passing_result :: obj where
  "passing_result = [(''caseRunId'', JStr ''case.1''), (''httpStatus'', JNum ''200''), (''status'', JStr ''passed'')]"

definition demo_env :: exec_env where
  "demo_env = \<lparr>en_clock = (\<lambda>n. 10 + int n), en_interfere = (\<lambda>_ db. db), en_heartbeat = (\<lambda>_. False),
     en_cancel = (\<lambda>_. False), en_case = (\<lambda>_ _. Inr passing_result), en_create_run = (\<lambda>_ _. None),
     en_catalog = (\<lambda>_. Inl ''none''), en_order = rev, en_text = (\<lambda>_. ''lease lost''),
     en_stamp = (\<lambda>_. ''20260102T030405''), en_json_error = (\<lambda>_. [])\<rparr>"

definition demo_executor :: executor where
  "demo_executor = \<lparr>ex_graph = demo_graph, ex_options = demo_options\<lparr>ro_planID := []\<rparr>, ex_env = demo_env,
     ex_dialect = exact_dialect, ex_hashes = \<lparr>hash_sha1 = (\<lambda>_. ''0a1b2c3d4e''), hash_sha256 = rev\<rparr>\<rparr>"

definition demo_run :: plan_record where
  "demo_run = \<lparr>pr_Instance = demo_instance, pr_Tasks = [demo_task ''t2'' TaskStatusPlanned, demo_task ''t1'' TaskStatusPlanned],
     pr_TaskEdges = [(requires ''t1'' ''t2'')\<lparr>er_PlanID := ''plan.1''\<rparr>]\<rparr>"

definition demo_saved :: plan_db where
  "demo_saved = snd (save_test_map_plan 5 demo_run empty_db)"

lemma demo_fair: "fair_order demo_executor"
  by (simp add: fair_order_def demo_executor_def demo_env_def)

lemma demo_plan_ids: "list_all (\<lambda>t. tr_PlanID t = trim_space (pi_ID (pr_Instance demo_run))) (pr_Tasks demo_run)"
  by code_simp

text \<open>The run sends two requests, for the required task first, though it comes second in the plan.\<close>

lemma demo_run_log:
  "map event_task (snd (snd (run_map_plan demo_executor ''o'' ''tok'' demo_run demo_db))) = [''t1'', ''t2'']"
  by code_simp

lemma demo_execute_log:
  "map event_task (xs_log (snd (execute demo_executor demo_run (initial_state demo_saved None)))) = [''t1'', ''t2'']"
  by code_simp

section \<open>Claiming\<close>

lemma claimed_lease_is:
  assumes "claim_test_map_plan_lease sd clk l now allow db = (Inr l', db')"
  shows "lease_is (trim_space (le_PlanID l)) (trim_space (le_OwnerID l)) (trim_space (le_Token l)) l'"
  using assms unfolding claim_test_map_plan_lease_def
  by (cases rule: claim_from_cases)
    (auto simp: lease_is_def prepare_lease_claim_def Let_def split: if_splits)

lemma claim_run_is:
  assumes "claim_map_run_plan sd now ow tk o1 r db = (Inr (l, r1), db')"
  shows "lease_is (trim_space (pi_ID (pr_Instance r))) (trim_space ow) (trim_space tk) l"
    "map tr_PlanID (pr_Tasks r1) = map tr_PlanID (pr_Tasks r)" "pi_ID (pr_Instance r1) = pi_ID (pr_Instance r)"
proof -
  let ?req = "\<lparr>le_PlanID = pi_ID (pr_Instance r), le_OwnerID = ow, le_Token = tk,
    le_ExpiresAt = now + map_run_lease_duration, le_UpdatedAt = zero_time\<rparr>"
  obtain db1 db2 l0 where c: "claim_test_map_plan_lease sd now ?req now (ro_planID o1 \<noteq> [] \<and> ro_resumeRun o1) db1 = (Inr l0, db2)"
    and rest: "(ro_planID o1 = [] \<and> l = l0) \<or> (\<exists>db3. reset_test_map_plan_with_lease sd now l0
      (prepare_existing_record_at r o1 now) now (now + map_run_lease_duration) db2 = (Inr l, db3))"
    using assms by (auto simp: claim_map_run_plan_def Let_def split: prod.splits sum.splits if_splits)
  have l0: "lease_is (trim_space (pi_ID (pr_Instance r))) (trim_space ow) (trim_space tk) l0"
    using claimed_lease_is [OF c] by simp
  from rest show "lease_is (trim_space (pi_ID (pr_Instance r))) (trim_space ow) (trim_space tk) l"
  proof (elim disjE exE conjE)
    fix db3
    assume "reset_test_map_plan_with_lease sd now l0 (prepare_existing_record_at r o1 now) now
      (now + map_run_lease_duration) db2 = (Inr l, db3)"
    then show ?thesis
      by (cases rule: reset_cases) (auto dest!: renew_lease_tx_Inr intro: lease_is_renewed [OF l0])
  qed (use l0 in simp)
  have same: "tr_PlanID (prepare_existing_task o1 now t) = tr_PlanID t" for t
    by (simp add: prepare_existing_task_def mark_interrupted_def Let_def)
  show "map tr_PlanID (pr_Tasks r1) = map tr_PlanID (pr_Tasks r)" "pi_ID (pr_Instance r1) = pi_ID (pr_Instance r)"
    using assms same
    by (auto simp: claim_map_run_plan_def prepare_existing_record_at_def Let_def split: prod.splits sum.splits if_splits)
qed

lemma held_initial: "lease_is p ow tk l \<Longrightarrow> held p ow tk (initial_state db (Some l))"
  by (simp add: held_def initial_state_def)

lemma logged_initial [simp]: "logged Q (initial_state db l)"
  by (simp add: logged_def initial_state_def)

section \<open>Every request is fenced\<close>

text \<open>
  C1. Fencing: whatever the clock, the case runner, the catalog, the heartbeat and other
  connections to the store do during a run, every request that the run sends to a case and every
  run it stores happens while the lease row of the plan carries the owner and the token of this
  executor, and right after the store has extended that row to the full lease duration.
\<close>

theorem requests_hold_the_lease:
  assumes "fair_order ex"
    and "list_all (\<lambda>t. tr_PlanID t = trim_space (pi_ID (pr_Instance r))) (pr_Tasks r)"
  shows "list_all (fenced_by (trim_space owner) (trim_space token))
    (snd (snd (run_map_plan ex owner token r db)))"
proof (cases "claim_map_run_plan (ex_dialect ex) (en_clock (ex_env ex) 0) owner token (ex_options ex) r db")
  case (Pair res db1)
  let ?p = "trim_space (pi_ID (pr_Instance r))"
  show ?thesis
  proof (cases res)
    case (Inl e)
    then show ?thesis using Pair by (simp add: run_map_plan_def)
  next
    case (Inr lr)
    obtain l r1 where lr: "lr = (l, r1)" by fastforce
    note c = claim_run_is [OF Pair [unfolded Inr lr]]
    have tasks: "\<forall>t \<in> set (pr_Tasks r1). tr_PlanID t = ?p"
    proof
      fix t assume "t \<in> set (pr_Tasks r1)"
      then have "tr_PlanID t \<in> set (map tr_PlanID (pr_Tasks r))" unfolding c(2) [symmetric] by simp
      then show "tr_PlanID t = ?p" using assms(2) by (auto simp: list_all_iff)
    qed
    have "logged (fenced_by (trim_space owner) (trim_space token))
        (snd (execute ex r1 (initial_state db1 (Some l))))"
      by (rule lease_monitor.execute_logged [OF held_initial [OF c(1)] _ assms(1) tasks]) simp_all
    then show ?thesis
      using Pair Inr lr by (simp add: run_map_plan_def case_prod_unfold Let_def logged_def list_all_iff split: option.splits)
  qed
qed

theorem requests_hold_the_lease_witness:
  "\<exists>ev1 ev2. snd (snd (run_map_plan demo_executor ''o'' ''tok'' demo_run demo_db)) = [ev1, ev2] \<and>
     fenced_by ''o'' ''tok'' ev1 \<and> fenced_by ''o'' ''tok'' ev2"
proof -
  obtain ev1 ev2 where log: "snd (snd (run_map_plan demo_executor ''o'' ''tok'' demo_run demo_db)) = [ev1, ev2]"
    using demo_run_log by (auto simp: map_eq_Cons_conv)
  have "trim_space ''o'' = ''o''" "trim_space ''tok'' = ''tok''" by code_simp+
  then show ?thesis
    using requests_hold_the_lease [OF demo_fair demo_plan_ids, of "''o''" "''tok''" demo_db] log by simp
qed

section \<open>Run identifiers\<close>

definition run_id_char :: "char \<Rightarrow> bool" where
  "run_id_char c \<longleftrightarrow> is_alnum c \<or> c = CHR ''.'' \<or> c = CHR ''-'' \<or> c = CHR ''_''"

lemma safe_report_id_chars: "list_all run_id_char (safe_report_id v)"
proof -
  have "list_all run_id_char ''item''" by (simp add: run_id_char_def is_alnum_def)
  moreover have "list_all run_id_char (map (\<lambda>c. if is_alnum c \<or> c = CHR ''.'' \<or> c = CHR ''_'' \<or> c = CHR ''-'' then c
      else CHR ''_'') v)"
    by (induction v) (auto simp: run_id_char_def)
  ultimately show ?thesis by (simp add: safe_report_id_def Let_def)
qed

lemma list_all_take: "list_all P xs \<Longrightarrow> list_all P (take n xs)"
  by (auto simp: list_all_iff dest: in_set_takeD)

lemma safe_bounded_chars:
  assumes "\<And>x. list_all run_id_char (hash_sha1 H x)"
  shows "list_all run_id_char (safe_bounded_report_id H v n)"
  using assms safe_report_id_chars [of v]
  by (auto simp: safe_bounded_report_id_def Let_def run_id_char_def intro!: list_all_take)

lemma safe_bounded_length: "0 < n \<Longrightarrow> length (safe_bounded_report_id H v n) \<le> n"
  by (auto simp: safe_bounded_report_id_def Let_def)

lemma generated_run_id_chars:
  assumes "\<And>x. list_all run_id_char (hash_sha1 (ex_hashes ex) x)"
    and "\<And>x. list_all run_id_char (en_stamp (ex_env ex) x) \<and> length (en_stamp (ex_env ex) x) \<le> 26"
    and "generated_run_id ex rid"
  shows "list_all run_id_char rid \<and> length rid \<le> 241 \<and> prefix ''run.'' rid"
proof -
  have dot: "run_id_char (CHR ''.'')" by (simp add: run_id_char_def)
  have lit: "list_all run_id_char ''run.''" "list_all run_id_char ''.attempt.''"
    by (simp_all add: run_id_char_def is_alnum_def)
  note sb = safe_bounded_chars [OF assms(1)]
  have task: "list_all run_id_char (task_run_id ex i t now) \<and> length (task_run_id ex i t now) \<le> 200 \<and>
      prefix ''run.'' (task_run_id ex i t now)" for i t now
    using assms(2) [of now] sb lit dot
      safe_bounded_length [of 96 "ex_hashes ex" "pi_ID i"] safe_bounded_length [of 64 "ex_hashes ex" "tr_ID t"]
    by (auto simp: task_run_id_def Let_def)
  show ?thesis
  proof -
    from assms(3) obtain i t now where "rid = task_run_id ex i t now \<or>
        (\<exists>sid. rid = task_run_id ex i t now @ ''.'' @ safe_bounded_report_id (ex_hashes ex) sid 40)"
      unfolding generated_run_id_def by blast
    then show ?thesis
    proof (elim disjE exE)
      fix sid
      assume rid: "rid = task_run_id ex i t now @ ''.'' @ safe_bounded_report_id (ex_hashes ex) sid 40"
      have "length (safe_bounded_report_id (ex_hashes ex) sid 40) \<le> 40" by (rule safe_bounded_length) simp
      then show ?thesis using task [of i t now] sb [of sid 40] dot unfolding rid
        by (auto intro: prefix_prefix)
    qed (use task [of i t now] in simp)
  qed
qed

lemma run_id_char_not_space: "run_id_char c \<Longrightarrow> \<not> is_space c"
  by (auto simp: run_id_char_def is_alnum_def is_space_def)

lemma run_id_trimmed: "list_all run_id_char rid \<Longrightarrow> trim_space rid = rid"
  by (intro trim_space_trimmed) (auto simp: list_all_iff dest: run_id_char_not_space)

text \<open>
  C32. The identifier of every run that an execution asks for or stores is one that the case
  runner accepts: a single path segment of ASCII letters, digits, dots, dashes and underscores,
  neither \<open>.\<close> nor \<open>..\<close>, whatever characters the identifiers of the plan, of its tasks and
  of their steps have; and it is at most 241 bytes long.
\<close>

theorem run_ids_are_accepted:
  assumes "fair_order ex"
    and "\<And>x. list_all run_id_char (hash_sha1 (ex_hashes ex) x)"
    and "\<And>x. list_all run_id_char (en_stamp (ex_env ex) x) \<and> length (en_stamp (ex_env ex) x) \<le> 26"
  shows "list_all (\<lambda>ev. valid_trusted_run_id (event_run_id ev) \<and> length (event_run_id ev) \<le> 241)
    (xs_log (snd (execute ex r (initial_state db l))))"
proof -
  have "logged (\<lambda>ev. generated_run_id ex (event_run_id ev)) (snd (execute ex r (initial_state db l)))"
    by (rule run_id_monitor.execute_logged) (simp_all add: assms(1))
  moreover have "valid_trusted_run_id rid \<and> length rid \<le> 241" if "generated_run_id ex rid" for rid
  proof -
    note g = generated_run_id_chars [OF assms(2,3) that]
    have "rid \<noteq> ''.'' \<and> rid \<noteq> ''..''" using g by auto
    then show ?thesis using g run_id_trimmed [of rid]
      by (auto simp: valid_trusted_run_id_def run_id_char_def [abs_def])
  qed
  ultimately show ?thesis by (auto simp: logged_def list_all_iff)
qed

theorem run_ids_are_accepted_witness:
  "\<exists>ev1 ev2. xs_log (snd (execute demo_executor demo_run (initial_state demo_saved None))) = [ev1, ev2] \<and>
     valid_trusted_run_id (event_run_id ev1) \<and> valid_trusted_run_id (event_run_id ev2)"
proof -
  obtain ev1 ev2 where log: "xs_log (snd (execute demo_executor demo_run (initial_state demo_saved None))) = [ev1, ev2]"
    using demo_execute_log by (auto simp: map_eq_Cons_conv)
  have "list_all run_id_char (hash_sha1 (ex_hashes demo_executor) x)" for x
    by (simp add: demo_executor_def run_id_char_def is_alnum_def)
  moreover have "list_all run_id_char (en_stamp (ex_env demo_executor) x) \<and> length (en_stamp (ex_env demo_executor) x) \<le> 26" for x
    by (simp add: demo_executor_def demo_env_def run_id_char_def is_alnum_def)
  ultimately show ?thesis
    using run_ids_are_accepted [OF demo_fair, of demo_run demo_saved None] log by simp
qed

section \<open>Required tasks come first\<close>

definition good_status :: "string \<Rightarrow> bool" where
  "good_status s \<longleftrightarrow> s = StatusPassed \<or> s = TaskStatusSkipped"

definition deps_ok :: "edge_record list \<Rightarrow> exec_state \<Rightarrow> ident \<Rightarrow> bool" where
  "deps_ok es st tid \<longleftrightarrow>
     (\<forall>e \<in> set es. er_ToTaskID e = tid \<longrightarrow> er_Required e \<longrightarrow> good_status (task_status st (er_FromTaskID e)))"

lemma blocked_Nil_iff: "blocked_by_dependency st es tid = [] \<longleftrightarrow> deps_ok es st tid"
  by (induction es) (auto simp: deps_ok_def good_status_def)

lemma good_status_seen: "good_status (task_status st i) \<Longrightarrow> i \<in> dom (xs_status st)"
  by (auto simp: good_status_def task_status_def StatusPassed_def TaskStatusSkipped_def split: option.splits)

text \<open>Settling a task that had no status yet does not disturb the tasks that were ready before.\<close>

lemma deps_ok_upd:
  assumes "deps_ok es st tid" "xs_status st' = (xs_status st)(new \<mapsto> s)" "new \<notin> dom (xs_status st)"
  shows "deps_ok es st' tid"
proof -
  have "good_status (task_status st' i)" if "good_status (task_status st i)" for i
    using that good_status_seen [OF that] assms(2,3) by (auto simp: task_status_def)
  then show ?thesis using assms(1) unfolding deps_ok_def by blast
qed

definition settles :: "task_record \<Rightarrow> string \<Rightarrow> bool" where
  "settles t s \<longleftrightarrow> s = tr_Status t \<or> (s = TaskStatusSkipped \<and> tr_Kind t = TaskSkip)"

lemma execute_task_effect:
  assumes "execute_task ex i es now t st = (t', st')"
  obtains (stopped) "execution_error st \<noteq> None" "t' = t" "st' = st"
  | (settled) s where "xs_status st' = (xs_status st)(tr_ID t \<mapsto> s)" "settles t' s" "same_task t t'"
      "\<And>ev. ev \<in> set (xs_log st') \<Longrightarrow> ev \<in> set (xs_log st) \<or> (event_task ev = tr_ID t \<and> deps_ok es st (tr_ID t))"
proof -
  let ?t1 = "t\<lparr>tr_StartedAt := clock ex st, tr_Status := TaskStatusRunning\<rparr>"
  let ?st1 = "checkpoint_task ex ?t1 st"
  have same: "same_task t t'" using execute_task_same [of t ex i es now st] assms by simp
  have ran: "xs_status (snd (run_task ex i es ?t1 ?st1)) = xs_status st"
    "logged (\<lambda>ev. event_task ev = tr_ID t \<or> ev \<in> set (xs_log st)) (snd (run_task ex i es ?t1 ?st1))"
    by (rule task_monitor.run_task_keeps [where logged_before = "set (xs_log st)" and tid = "tr_ID t"];
      simp add: logged_def)+
  have restore: "xs_status (restore_task_exports t st) = xs_status st" "xs_log (restore_task_exports t st) = xs_log st"
    by (simp_all add: restore_task_exports_def Let_def)
  have status: "xs_status (set_task_status k s st'') = (xs_status st'')(k \<mapsto> s)" for k s st''
    by (simp add: set_task_status_def)
  show ?thesis
  proof (cases "execution_error st")
    case (Some e)
    then have "t' = t" "st' = st" using assms by (simp_all add: execute_task_def)
    then show ?thesis using Some by (intro stopped) simp_all
  next
    case None
    note goal = settled [OF _ _ same]
    consider (skip) "tr_Status t = TaskStatusSkipped \<or> tr_Kind t = TaskSkip"
      | (kept) "\<not> (tr_Status t = TaskStatusSkipped \<or> tr_Kind t = TaskSkip)"
          "\<not> selected_for_execution t (ex_options ex) \<or> \<not> task_runnable t (ex_options ex)"
      | (blocked) "\<not> (tr_Status t = TaskStatusSkipped \<or> tr_Kind t = TaskSkip)"
          "\<not> (\<not> selected_for_execution t (ex_options ex) \<or> \<not> task_runnable t (ex_options ex))"
          "blocked_by_dependency st es (tr_ID t) \<noteq> []"
      | (run) "\<not> (tr_Status t = TaskStatusSkipped \<or> tr_Kind t = TaskSkip)"
          "\<not> (\<not> selected_for_execution t (ex_options ex) \<or> \<not> task_runnable t (ex_options ex))"
          "\<not> blocked_by_dependency st es (tr_ID t) \<noteq> []" by blast
    then show ?thesis
    proof cases
      case skip
      then have "t' = t" "st' = set_task_status (tr_ID t) TaskStatusSkipped (restore_task_exports t st)"
        using assms None by (auto simp: execute_task_def)
      then show ?thesis using skip restore status by (intro goal) (auto simp: settles_def)
    next
      case kept
      then have "t' = t" "st' = set_task_status (tr_ID t) (tr_Status t) (restore_task_exports t st)"
        using assms None by (auto simp: execute_task_def)
      then show ?thesis using restore status by (intro goal) (auto simp: settles_def)
    next
      case blocked
      then have "st' = set_task_status (tr_ID t) (tr_Status t') (checkpoint_task ex t' st)"
        using assms None by (auto simp: execute_task_def Let_def)
      then show ?thesis using status by (intro goal) (auto simp: settles_def)
    next
      case run
      have deps: "deps_ok es st (tr_ID t)" using run(3) blocked_Nil_iff by simp
      show ?thesis
      proof (cases "execution_error ?st1")
        case (Some e)
        then have "st' = set_task_status (tr_ID t) (tr_Status t') ?st1"
          using assms None run by (auto simp: execute_task_def Let_def)
        then show ?thesis using status by (intro goal) (auto simp: settles_def)
      next
        case None': None
        obtain u st2 where st2: "run_task ex i es ?t1 ?st1 = (u, st2)" by fastforce
        then have st': "t' = u" "st' = checkpoint_task ex u (set_task_status (tr_ID t) (tr_Status u) st2)"
          using assms None None' run by (auto simp: execute_task_def)
        have "xs_status st' = (xs_status st)(tr_ID t \<mapsto> tr_Status t')" "set (xs_log st') = set (xs_log st2)"
          using ran(1) st2 status by (simp_all add: st')
        then show ?thesis using ran(2) st2 deps by (intro goal) (auto simp: settles_def logged_def)
      qed
    qed
  qed
qed

definition order_inv :: "edge_record list \<Rightarrow> task_record list \<Rightarrow> ident set \<Rightarrow> exec_state \<Rightarrow> bool" where
  "order_inv es ts seen st \<longleftrightarrow> dom (xs_status st) \<subseteq> seen \<and> seen \<subseteq> tr_ID ` set ts \<and>
     (\<forall>ev \<in> set (xs_log st). deps_ok es st (event_task ev)) \<and>
     (\<forall>t \<in> set ts. \<forall>s. xs_status st (tr_ID t) = Some s \<longrightarrow> settles t s)"

lemma order_inv_step:
  assumes inv: "order_inv es ts seen st" and ex: "execute_task ex i es now (ts ! k) st = (t', st')"
    and k: "k < length ts" "tr_ID (ts ! k) \<notin> seen" and dis: "distinct (map tr_ID ts)"
  shows "order_inv es (ts[k := t']) (insert (tr_ID (ts ! k)) seen) st' \<and> tr_ID t' = tr_ID (ts ! k)"
  using ex
proof (cases rule: execute_task_effect)
  case stopped
  have "seen \<subseteq> tr_ID ` set ts" "tr_ID (ts ! k) \<in> tr_ID ` set ts" using inv k by (auto simp: order_inv_def)
  then show ?thesis using inv stopped by (auto simp: order_inv_def)
next
  case (settled s)
  let ?tid = "tr_ID (ts ! k)"
  have tid: "tr_ID t' = ?tid" using settled(3) by (simp add: same_task_def)
  have new: "?tid \<notin> dom (xs_status st)" using inv k(2) by (auto simp: order_inv_def)
  have ids: "tr_ID ` set (ts[k := t']) = tr_ID ` set ts"
    using tid k(1) map_update [of tr_ID ts k t'] by (metis list.set_map list_update_id nth_map)
  have "deps_ok es st' (event_task ev)" if "ev \<in> set (xs_log st')" for ev
  proof -
    have "deps_ok es st (event_task ev)" using settled(4) [OF that] inv by (auto simp: order_inv_def)
    then show ?thesis by (rule deps_ok_upd [OF _ settled(1) new])
  qed
  moreover have "settles t s'" if "t \<in> set (ts[k := t'])" "xs_status st' (tr_ID t) = Some s'" for t s'
  proof -
    obtain j where j: "j < length ts" "t = ts[k := t'] ! j" using \<open>t \<in> _\<close> by (metis in_set_conv_nth length_list_update)
    show ?thesis
    proof (cases "j = k")
      case True
      then show ?thesis using j that(2) settled(1,2) tid by simp
    next
      case False
      then have t: "t = ts ! j" "t \<in> set ts" using j by simp_all
      have "tr_ID t \<noteq> ?tid" using False j(1) k(1) dis t(1) nth_eq_iff_index_eq [of "map tr_ID ts" j k] by simp
      then show ?thesis using inv t(2) that(2) settled(1) by (simp add: order_inv_def)
    qed
  qed
  moreover have "dom (xs_status st') \<subseteq> insert ?tid seen" using settled(1) inv by (auto simp: order_inv_def)
  moreover have "insert ?tid seen \<subseteq> tr_ID ` set (ts[k := t'])" using ids k(1) inv by (auto simp: order_inv_def)
  ultimately show ?thesis using tid by (auto simp: order_inv_def)
qed

lemma execute_indices_order:
  assumes "order_inv es ts seen st" "distinct (map tr_ID ts)" "distinct ks"
    "\<forall>k \<in> set ks. k < length ts \<and> tr_ID (ts ! k) \<notin> seen"
  shows "\<exists>seen'. order_inv es (fst (execute_indices ex i es now ks ts st)) seen' (snd (execute_indices ex i es now ks ts st))"
  using assms
proof (induction ks arbitrary: ts seen st)
  case (Cons k ks)
  show ?case
  proof (cases "execution_error st")
    case None
    obtain t' st' where e: "execute_task ex i es now (ts ! k) st = (t', st')" by fastforce
    have step: "order_inv es (ts[k := t']) (insert (tr_ID (ts ! k)) seen) st'" "tr_ID t' = tr_ID (ts ! k)"
      using order_inv_step [OF Cons.prems(1) e _ _ Cons.prems(2)] Cons.prems(4) by auto
    have "map tr_ID (ts[k := t']) = (map tr_ID ts)[k := map tr_ID ts ! k]"
      using step(2) Cons.prems(4) by (simp add: map_update)
    then have dis: "distinct (map tr_ID (ts[k := t']))" using Cons.prems(2) by (simp del: nth_map)
    have rest: "\<forall>j \<in> set ks. j < length (ts[k := t']) \<and> tr_ID (ts[k := t'] ! j) \<notin> insert (tr_ID (ts ! k)) seen"
    proof
      fix j assume "j \<in> set ks"
      then have j: "j < length ts" "tr_ID (ts ! j) \<notin> seen" "j \<noteq> k" "k < length ts"
        using Cons.prems(3,4) by auto
      then have "tr_ID (ts ! j) \<noteq> tr_ID (ts ! k)"
        using Cons.prems(2) nth_eq_iff_index_eq [of "map tr_ID ts" j k] by simp
      then show "j < length (ts[k := t']) \<and> tr_ID (ts[k := t'] ! j) \<notin> insert (tr_ID (ts ! k)) seen"
        using j by simp
    qed
    then show ?thesis
      using Cons.IH [OF step(1) dis _ rest] Cons.prems(3) None e by simp
  qed (use Cons.prems in auto)
qed auto

lemma finish_record_tasks [simp]: "pr_Tasks (fst (finish_record ex r st)) = pr_Tasks r"
  by (simp add: finish_record_def Let_def case_prod_unfold split: option.splits)

text \<open>
  C2. Ordering: whatever happens during an execution, no request is sent and no run is stored
  for a task unless every task it requires is in the final record as passed or skipped (or is of
  the kind that is always skipped). A required task that failed, was blocked, was not selected or
  is not part of the plan keeps its dependents from running.
\<close>

theorem dependencies_pass_before_requests:
  assumes "fair_order ex" and "distinct (map tr_ID (pr_Tasks r))"
    and "ev \<in> set (xs_log (snd (execute ex r (initial_state db l))))"
    and "e \<in> set (pr_TaskEdges r)" "er_Required e" "er_ToTaskID e = event_task ev"
  shows "\<exists>d \<in> set (pr_Tasks (fst (execute ex r (initial_state db l)))). tr_ID d = er_FromTaskID e \<and>
    (good_status (tr_Status d) \<or> tr_Kind d = TaskSkip)"
proof -
  let ?st = "initial_state db l"
  let ?res = "execute_indices ex (pr_Instance r) (pr_TaskEdges r) (clock ex ?st) (plan_order ex r) (pr_Tasks r) ?st"
  have "order_inv (pr_TaskEdges r) (pr_Tasks r) {} ?st" by (simp add: order_inv_def initial_state_def)
  moreover have "\<forall>k \<in> set (plan_order ex r). k < length (pr_Tasks r) \<and> tr_ID (pr_Tasks r ! k) \<notin> {}"
    by (simp add: plan_order_perm(2) [OF assms(1)])
  ultimately obtain seen where inv: "order_inv (pr_TaskEdges r) (fst ?res) seen (snd ?res)"
    using execute_indices_order [OF _ assms(2) plan_order_perm(1) [OF assms(1)]] by blast
  have "ev \<in> set (xs_log (snd ?res))" using assms(3) by (simp add: log_execute)
  then have "good_status (task_status (snd ?res) (er_FromTaskID e))"
    using inv assms(4-6) by (auto simp: order_inv_def deps_ok_def)
  moreover from this obtain s where s: "xs_status (snd ?res) (er_FromTaskID e) = Some s"
    using good_status_seen by blast
  ultimately have good: "good_status s" by (simp add: task_status_def)
  obtain d where d: "d \<in> set (fst ?res)" "tr_ID d = er_FromTaskID e"
  proof -
    have "er_FromTaskID e \<in> tr_ID ` set (fst ?res)"
      using inv s unfolding order_inv_def by blast
    then show ?thesis using that by auto
  qed
  have "settles d s" using inv d s unfolding order_inv_def by metis
  then have "good_status (tr_Status d) \<or> tr_Kind d = TaskSkip" using good by (auto simp: settles_def)
  moreover have "d \<in> set (pr_Tasks (fst (execute ex r ?st)))"
    using d(1) by (simp add: execute_unfold case_prod_unfold Let_def)
  ultimately show ?thesis using d(2) by blast
qed

theorem dependencies_pass_before_requests_witness:
  "\<exists>d \<in> set (pr_Tasks (fst (execute demo_executor demo_run (initial_state demo_saved None)))).
     tr_ID d = ''t1'' \<and> (good_status (tr_Status d) \<or> tr_Kind d = TaskSkip)"
proof -
  let ?log = "xs_log (snd (execute demo_executor demo_run (initial_state demo_saved None)))"
  let ?e = "(requires ''t1'' ''t2'')\<lparr>er_PlanID := ''plan.1''\<rparr>"
  have len: "1 < length ?log" using demo_execute_log by (metis One_nat_def length_Cons length_map lessI list.size(3))
  have ev: "event_task (?log ! 1) = ''t2''"
    using demo_execute_log len by (metis One_nat_def nth_Cons_0 nth_Cons_Suc nth_map)
  have "distinct (map tr_ID (pr_Tasks demo_run))" by code_simp
  moreover have "?e \<in> set (pr_TaskEdges demo_run)" by (simp add: demo_run_def)
  moreover have "er_Required ?e" "er_ToTaskID ?e = ''t2''" "er_FromTaskID ?e = ''t1''"
    by (simp_all add: requires_def)
  ultimately show ?thesis
    using dependencies_pass_before_requests [OF demo_fair _ nth_mem [OF len], of ?e] ev by simp
qed

end
