(* ===== verification/Map_Run_Outcomes.thy ===== *)
theory Map_Run_Outcomes
  imports Map_Run_Safety
begin

text \<open>
  How a run ends: what the store holds when a run is reported, and what becomes of a task that
  runs the prefix of a path when it is retried.
\<close>

section \<open>What a reported run has stored\<close>

lemma status_distinct:
  "StatusPassed \<noteq> StatusFailed" "StatusPassed \<noteq> TaskStatusBlocked" "StatusPassed \<noteq> TaskStatusPlanned"
  "StatusPassed \<noteq> TaskStatusRunning" "StatusPassed \<noteq> TaskStatusSkipped" "StatusFailed \<noteq> TaskStatusSkipped"
  "TaskStatusBlocked \<noteq> TaskStatusSkipped" "TaskStatusRunning \<noteq> TaskStatusSkipped"
  by (simp_all add: store_status_defs status_defs)

lemma map_run_status_from_passed:
  "map_run_status_from st ts = StatusPassed \<Longrightarrow>
   st = StatusPassed \<and> (\<forall>t \<in> set ts. tr_Status t \<notin> {StatusFailed, TaskStatusBlocked, TaskStatusPlanned, TaskStatusRunning})"
proof (induction ts arbitrary: st)
  case (Cons t ts)
  from Cons.prems have "tr_Status t \<noteq> StatusFailed" using status_distinct by auto
  moreover have "tr_Status t \<noteq> TaskStatusBlocked"
    using Cons.prems Cons.IH [of TaskStatusBlocked] status_distinct by auto
  moreover have "tr_Status t \<noteq> TaskStatusPlanned \<and> tr_Status t \<noteq> TaskStatusRunning"
    using Cons.prems Cons.IH [of TaskStatusRunning] Cons.IH [of st] status_distinct calculation
    by (auto split: if_splits)
  ultimately show ?case using Cons.prems Cons.IH [of st] by simp
qed simp

lemma map_run_status_from_skipped: "map_run_status_from st ts = TaskStatusSkipped \<Longrightarrow> st = TaskStatusSkipped"
proof (induction ts arbitrary: st)
  case (Cons t ts)
  from Cons.prems have f: "tr_Status t \<noteq> StatusFailed" using status_distinct by auto
  have "tr_Status t \<noteq> TaskStatusBlocked"
    using Cons.prems f Cons.IH [of TaskStatusBlocked] status_distinct by auto
  then show ?case
    using Cons.prems f Cons.IH [of st] Cons.IH [of TaskStatusRunning] status_distinct
    by (cases "st = TaskStatusBlocked"; cases "tr_Status t = TaskStatusPlanned \<or> tr_Status t = TaskStatusRunning") auto
qed simp

lemma update_instance_row_stored:
  assumes "update_instance_row item db = Inr db'"
  shows "\<exists>row \<in> set (db_instances db'). pi_ID row = pi_ID item \<and> pi_Status row = pi_Status item \<and>
    pi_FinishedAt row = pi_FinishedAt item"
proof -
  let ?f = "\<lambda>i. if pi_ID i = pi_ID item
    then i\<lparr>pi_Status := pi_Status item, pi_SummaryJSON := json_for_db (pi_SummaryJSON item) ''{}'',
      pi_StartedAt := pi_StartedAt item, pi_FinishedAt := pi_FinishedAt item\<rparr> else i"
  have has: "has_instance db (pi_ID item)" and db': "db_instances db' = map ?f (db_instances db)"
    using assms by (auto simp: update_instance_row_def split: if_splits)
  then obtain i where i: "i \<in> set (db_instances db)" "pi_ID i = pi_ID item"
    by (auto simp: has_instance_def)
  then have "?f i \<in> set (db_instances db')" unfolding db' by simp
  then show ?thesis using i(2) by (intro bexI [of _ "?f i"]) simp_all
qed

lemma recorded_error: "xs_error (record_lease_error e st) \<noteq> None"
  by (simp add: record_lease_error_def record_checkpoint_error_def Let_def)

lemma finish_record_released:
  assumes h: "held p ow tk st" and ok: "xs_error (snd (finish_record ex r st)) = None"
  defines "r' \<equiv> fst (finish_record ex r st)" and "st' \<equiv> snd (finish_record ex r st)"
  shows "db_leases (xs_db st') p = None \<and> pi_Status (pr_Instance r') = map_run_status (pr_Tasks r') \<and>
    (\<exists>row \<in> set (db_instances (xs_db st')). pi_ID row = pi_ID (pr_Instance r') \<and>
       pi_Status row = map_run_status (pr_Tasks r') \<and> pi_FinishedAt row = pi_FinishedAt (pr_Instance r'))"
proof -
  let ?i = "(pr_Instance r)\<lparr>pi_FinishedAt := clock ex st, pi_Status := map_run_status (pr_Tasks r),
    pi_SummaryJSON := must_compact_json (run_summary_json (map_run_summary (pr_Tasks r)))\<rparr>"
  let ?st = "(advance ex st)\<lparr>xs_heartbeat := False\<rparr>"
  have lease: "xs_lease st \<noteq> None" using h by (auto simp: held_def)
  obtain e st2 where f: "finish_claimed_instance ex ?i st = (e, st2)" by fastforce
  have e: "e = None"
    using ok lease f recorded_error by (cases e) (auto simp: finish_record_def Let_def)
  have r': "r' = r\<lparr>pr_Instance := ?i\<rparr>" "st' = st2"
    using lease f e by (simp_all add: r'_def st'_def finish_record_def Let_def)
  have "held p ow tk ?st" using held_advance [OF h] by simp
  then obtain l where l: "xs_lease ?st = Some l" "le_PlanID l = p" by (auto simp: held_def lease_is_def)
  obtain res db where rel: "release_test_map_plan_lease (ex_dialect ex) (clock ex ?st) l ?i (clock ex ?st) (xs_db ?st) = (res, db)"
    by fastforce
  have db: "xs_db st2 = db" "res = Inr ()"
    using f e lease l rel by (auto simp: finish_claimed_instance_def Let_def split: option.splits if_splits sum.splits)
  obtain db1 where db1: "update_instance_row ?i (xs_db ?st) = Inr db1" "db = db1\<lparr>db_leases := (db_leases db1)(le_PlanID l := None)\<rparr>"
    using rel db(2) by (cases rule: release_cases) auto
  show ?thesis
    using update_instance_row_stored [OF db1(1)] r' db(1) db1(2) l(2) by simp
qed

text \<open>
  C25. Consistency of the report with the store: when a run ends with a report, whether of success
  or of failure, the store has dropped the lease of the plan and the stored instance carries the
  status and the finishing time of the report; and a run is reported as passed only when no task is
  failed, blocked, planned or running.
\<close>

theorem reported_run_is_stored:
  assumes "fair_order ex"
    and "list_all (\<lambda>t. tr_PlanID t = trim_space (pi_ID (pr_Instance r))) (pr_Tasks r)"
    and "run_map_plan ex owner token r db = (out, db', log)"
    and "out = Run_Passed r2 \<or> out = Run_Failed r2"
  shows "db_leases db' (trim_space (pi_ID (pr_Instance r))) = None \<and>
    (\<exists>row \<in> set (db_instances db'). pi_ID row = pi_ID (pr_Instance r2) \<and>
       pi_Status row = map_run_status (pr_Tasks r2) \<and> pi_FinishedAt row = pi_FinishedAt (pr_Instance r2)) \<and>
    (out = Run_Passed r2 \<longrightarrow> (\<forall>t \<in> set (pr_Tasks r2).
       tr_Status t \<notin> {StatusFailed, TaskStatusBlocked, TaskStatusPlanned, TaskStatusRunning}))"
proof -
  let ?p = "trim_space (pi_ID (pr_Instance r))" and ?ow = "trim_space owner" and ?tk = "trim_space token"
  obtain l r1 db1 where c: "claim_map_run_plan (ex_dialect ex) (en_clock (ex_env ex) 0) owner token (ex_options ex) r db =
      (Inr (l, r1), db1)"
    using assms(3,4) by (auto simp: run_map_plan_def split: prod.splits sum.splits)
  note cl = claim_run_is [OF c]
  let ?st = "initial_state db1 (Some l)"
  let ?res = "execute_indices ex (pr_Instance r1) (pr_TaskEdges r1) (clock ex ?st) (plan_order ex r1) (pr_Tasks r1) ?st"
  have tasks: "\<forall>t \<in> set (pr_Tasks r1). tr_PlanID t = ?p"
  proof
    fix t assume "t \<in> set (pr_Tasks r1)"
    then have "tr_PlanID t \<in> set (map tr_PlanID (pr_Tasks r))" unfolding cl(2) [symmetric] by simp
    then show "tr_PlanID t = ?p" using assms(2) by (auto simp: list_all_iff)
  qed
  have "\<forall>k \<in> set (plan_order ex r1). k < length (pr_Tasks r1)" by (simp add: plan_order_perm(2) [OF assms(1)])
  from lease_monitor.execute_indices_keeps [OF held_initial [OF cl(1)] _ this tasks plan_order_perm(1) [OF assms(1)]]
  have held: "held ?p ?ow ?tk (snd ?res)" by simp
  define fin where "fin = finish_record ex (r1\<lparr>pr_Tasks := fst ?res\<rparr>) (snd ?res)"
  have ex: "execute ex r1 ?st = fin" by (simp add: fin_def execute_unfold case_prod_unfold Let_def)
  have fin_out: "xs_error (snd fin) = None" "r2 = fst fin" "db' = xs_db (snd fin)"
    "out = Run_Passed r2 \<longrightarrow> report_ok r2"
    using assms(3,4) c ex by (auto simp: run_map_plan_def case_prod_unfold Let_def split: option.splits if_splits)
  note rel = finish_record_released [OF held, of ex "r1\<lparr>pr_Tasks := fst ?res\<rparr>", folded fin_def, OF fin_out(1), folded fin_out(2,3)]
  have passed: "map_run_status (pr_Tasks r2) = StatusPassed" if "report_ok r2"
  proof -
    have "report_status r2 = map_run_status (pr_Tasks r2)" using rel by (simp add: report_status_def)
    moreover have "map_run_status (pr_Tasks r2) \<noteq> TaskStatusSkipped"
      using map_run_status_from_skipped [of StatusPassed] status_distinct(5) by (auto simp: map_run_status_def)
    ultimately show ?thesis using that by (auto simp: report_ok_def)
  qed
  have "\<forall>t \<in> set (pr_Tasks r2). tr_Status t \<notin> {StatusFailed, TaskStatusBlocked, TaskStatusPlanned, TaskStatusRunning}"
    if "out = Run_Passed r2"
    using map_run_status_from_passed passed fin_out(4) that unfolding map_run_status_def by blast
  then show ?thesis using rel by blast
qed

theorem reported_run_is_stored_witness:
  "\<exists>r2 db' log. run_map_plan demo_executor ''o'' ''tok'' demo_run demo_db = (Run_Passed r2, db', log) \<and>
     db_leases db' ''plan.1'' = None \<and> (\<exists>row \<in> set (db_instances db'). pi_Status row = map_run_status (pr_Tasks r2))"
proof -
  let ?run = "run_map_plan demo_executor ''o'' ''tok'' demo_run demo_db"
  have "case fst ?run of Run_Passed _ \<Rightarrow> True | _ \<Rightarrow> False" by code_simp
  then obtain r2 where "fst ?run = Run_Passed r2" by (cases "fst ?run") simp_all
  then have run: "?run = (Run_Passed r2, fst (snd ?run), snd (snd ?run))" by (simp add: prod_eq_iff)
  have "trim_space (pi_ID (pr_Instance demo_run)) = ''plan.1''" by code_simp
  then have "db_leases (fst (snd ?run)) ''plan.1'' = None \<and>
      (\<exists>row \<in> set (db_instances (fst (snd ?run))). pi_Status row = map_run_status (pr_Tasks r2))"
    using reported_run_is_stored [OF demo_fair demo_plan_ids run, of r2] by auto
  with run show ?thesis by blast
qed

section \<open>Retrying a path prefix\<close>

lemma path_loop_checkpoints:
  assumes "steps \<noteq> []" "execution_error (pr_state p) = None"
  shows "\<exists>rs. tr_SummaryJSON (pr_task (path_loop ex i rid steps p)) = step_checkpoint_json rs"
  using assms
proof (induction steps arbitrary: p)
  case (Cons step steps)
  show ?case
  proof (cases rule: path_loop_round [of p ex i rid step steps])
    case (passed result st1 p')
    show ?thesis
    proof (cases "steps = [] \<or> execution_error (pr_state p') \<noteq> None")
      case True
      then have "pr_task (path_loop ex i rid steps p') = pr_task p'" by (cases steps) auto
      then show ?thesis using passed(3,5) by auto
    next
      case False
      then show ?thesis using Cons.IH [of p'] passed(3) by simp
    qed
  qed (use Cons.prems in auto)
qed simp

lemma obj_has_keep_metadata:
  "obj_has (keep_metadata existing keys out) k \<Longrightarrow> obj_has out k \<or> k \<in> set keys"
  by (induction existing keys out rule: keep_metadata.induct) (auto simp: Let_def split: if_splits)

lemma json_ok_put: "json_ok (JObj kvs) \<Longrightarrow> json_ok v \<Longrightarrow> json_ok (JObj (obj_put k v kvs))"
  by (induction k v kvs rule: obj_put.induct) auto

lemma json_ok_keep_metadata:
  "json_ok (JObj out) \<Longrightarrow> json_ok (JObj (keep_metadata existing keys out))"
proof (induction existing keys out rule: keep_metadata.induct)
  case (2 existing key keys out)
  have "json_ok (JObj (obj_put key (JStr v) out))" for v by (rule json_ok_put [OF 2(3)]) simp
  then show ?case using 2 by (simp add: Let_def del: json_ok.simps)
qed simp

text \<open>What a summary that the executor wrote says, read back.\<close>

lemma summary_without_key:
  assumes "json_ok (JObj kvs)" "\<not> obj_has kvs k"
  shows "obj_get (json_object_string (must_compact_json (JObj kvs))) k = JNull"
proof -
  have "json_object_string (must_compact_json (JObj kvs)) = obj_of (map (\<lambda>kv. (fst kv, canon (snd kv))) kvs)"
    using assms(1) json_unmarshal_marshal_canon [OF assms(1)]
    by (simp add: json_object_string_def string_default_def unmarshal_map_def must_compact_json_def
        obj_text_not_blank [unfolded obj_text_def] del: json_marshal.simps)
  moreover have "map_of (rev (map (\<lambda>kv. (fst kv, canon (snd kv))) kvs)) k = None"
    using assms(2) by (simp add: obj_has_def map_of_eq_None_iff image_image)
  ultimately show ?thesis by (simp add: obj_get_def map_of_obj_of)
qed

lemma keep_metadata_none:
  "\<forall>k \<in> set keys. obj_get existing k = JNull \<Longrightarrow> keep_metadata existing keys out = out"
  by (induction existing keys out rule: keep_metadata.induct) auto

lemma json_ok_steps [simp]: "json_ok (steps_json rs)"
  by (auto simp: steps_json_def step_result_json_def opt_str_def)

lemma checkpoint_metadata:
  assumes "k \<noteq> ''steps''" "k \<noteq> ''checkpoint''"
  shows "obj_get (json_object_string (step_checkpoint_json rs)) k = JNull"
  unfolding step_checkpoint_json_def
  by (rule summary_without_key) (use assms in \<open>auto simp: obj_of_def obj_has_def\<close>)

lemma finish_task_after_checkpoint:
  assumes "tr_SummaryJSON t = step_checkpoint_json rs" "json_ok (JObj summ)" "summ \<noteq> []" "\<not> obj_has summ k"
  shows "obj_get (json_object_string (tr_SummaryJSON (finish_task s summ f t))) k = JNull"
proof -
  have "task_summary_with_planner_metadata (tr_SummaryJSON t) summ = summ"
    unfolding task_summary_with_planner_metadata_def assms(1)
    by (rule keep_metadata_none) (simp add: checkpoint_metadata)
  then have "tr_SummaryJSON (finish_task s summ f t) = must_compact_json (JObj summ)"
    using assms(3) by (simp add: finish_task_def Let_def)
  then show ?thesis using summary_without_key [OF assms(2,4)] by simp
qed

lemma put_not_Nil [simp]: "obj_put k v kvs \<noteq> []"
  by (induction k v kvs rule: obj_put.induct) auto

text \<open>The three ways a path task that ran a step ends, as one summary.\<close>

lemma finish_path_task_summary:
  assumes "steps \<noteq> []" "finish_path_task ex i rid steps p = (t', st')"
    and "json_ok (JObj (xs_exports st' (tr_ID (pr_task p))))"
  shows "\<exists>s f t summ. t' = finish_task s summ f t \<and> tr_SummaryJSON t = tr_SummaryJSON (pr_task p) \<and>
    json_ok (JObj summ) \<and> summ \<noteq> [] \<and> (\<forall>k. obj_has summ k \<longrightarrow> k \<in> {''steps'', ''exports'', ''error''})"
proof -
  let ?t = "pr_task p"
  define exports where "exports = (if pr_status p = StatusPassed then pr_overrides p else [])"
  define st where "st = (if exports \<noteq> [] then set_task_exports (tr_ID ?t) exports (pr_state p) else pr_state p)"
  define base where "base = (if exports \<noteq> [] then obj_put ''exports'' (JObj exports) (obj_of [(''steps'', steps_json (pr_results p))])
    else obj_of [(''steps'', steps_json (pr_results p))])"
  obtain e st1 where f: "fence_map_run_ownership ex st = (e, st1)" by fastforce
  have st1: "xs_exports st1 = xs_exports st"
    using same_books_fence [of st ex] f by (simp add: same_books_def)
  have adv: "xs_exports (advance ex (log_event ev st1)) = xs_exports st1" for ev
    using same_books_advance [of "log_event ev st1" ex] by (simp add: same_books_def log_event_def)
  note unf = finish_path_task_def Let_def exports_def [symmetric] st_def [symmetric]
  have "xs_exports st' = xs_exports st"
    using assms(1,2) f st1 adv unfolding unf by (cases e) auto
  then have "json_ok (JObj exports)"
    using assms(3) by (cases "exports = []") (simp_all add: st_def set_task_exports_def)
  then have base: "json_ok (JObj base)" "base \<noteq> []" "\<And>k. obj_has base k \<Longrightarrow> k \<in> {''steps'', ''exports''}"
    unfolding base_def by (auto simp: obj_of_def obj_has_def split: if_splits)
  have one: "json_ok (JObj (obj_put ''error'' (JStr x) base))" for x
    by (rule json_ok_put [OF base(1)]) simp
  have two: "json_ok (JObj (obj_put ''error'' (JStr x) (obj_put ''error'' (JStr y) base)))" for x y
    by (rule json_ok_put [OF one]) simp
  have "\<exists>s f t summ. t' = finish_task s summ f t \<and> tr_SummaryJSON t = tr_SummaryJSON ?t \<and>
    (summ = base \<or> (\<exists>x. summ = obj_put ''error'' (JStr x) base) \<or>
      (\<exists>x y. summ = obj_put ''error'' (JStr x) (obj_put ''error'' (JStr y) base)))"
  proof (cases e)
    case (Some err)
    have "t' = finish_task StatusFailed (obj_put ''error'' (JStr (''map plan ownership changed before aggregate run persistence: '' @
        en_text (ex_env ex) err)) base) (clock ex st) ?t"
      using assms(1,2) f Some unfolding unf base_def by auto
    then show ?thesis by blast
  next
    case None
    obtain s summ fin rid' where "t' = finish_task s summ fin (?t\<lparr>tr_WorkflowRunID := rid'\<rparr>)"
      "summ = base \<or> (\<exists>x. summ = obj_put ''error'' (JStr x) base) \<or>
      (\<exists>x y. summ = obj_put ''error'' (JStr x) (obj_put ''error'' (JStr y) base))"
      using assms(1,2) f None unfolding unf base_def [symmetric]
      by (simp split: option.splits if_splits) blast+
    then show ?thesis by (intro exI conjI) (assumption | simp)+
  qed
  then obtain s f' t summ where t: "t' = finish_task s summ f' t" "tr_SummaryJSON t = tr_SummaryJSON ?t"
    and summ: "summ = base \<or> (\<exists>x. summ = obj_put ''error'' (JStr x) base) \<or>
      (\<exists>x y. summ = obj_put ''error'' (JStr x) (obj_put ''error'' (JStr y) base))" by blast
  have "json_ok (JObj summ) \<and> summ \<noteq> [] \<and> (\<forall>k. obj_has summ k \<longrightarrow> k \<in> {''steps'', ''exports'', ''error''})"
    using summ base one two by (elim disjE exE) (auto simp del: json_ok.simps)
  then show ?thesis using t by blast
qed

definition task_replay_group :: "task_record \<Rightarrow> ident" where
  "task_replay_group t = value_string (obj_get (json_object_string (tr_SummaryJSON t)) ''replayGroupId'')"

text \<open>
  C35. What a retry of a path prefix loses: once such a task has run a step, its stored summary no
  longer names the node the prefix ends at, nor any other planner metadata (its summary has only
  steps, exports and an error). When the task failed and the plan is run again in any mode that
  selects it, the task therefore finds no step to execute: it sends no request and ends as skipped,
  which its dependents take for success.
\<close>

theorem retried_prefix_is_skipped:
  assumes "tr_Kind t = TaskRunPathPrefix" "execution_error st = None"
    and "steps_for_task (ex_graph ex) t until \<noteq> []"
    and "execute_path_task ex i until t st = (t', st')" "tr_Status t' = StatusFailed"
    and "json_ok (JObj (xs_exports st' (tr_ID t)))"
    and again: "again = run_task ex2 i2 es (prepare_existing_task o1 now t') st2"
  shows "task_until_node_id t' = [] \<and> task_replay_group t' = [] \<and>
    tr_Status (fst again) = TaskStatusSkipped \<and> xs_log (snd again) = xs_log st2"
proof -
  let ?rid = "task_run_id ex i t (clock ex st)"
  let ?steps = "steps_for_task (ex_graph ex) t until"
  let ?init = "\<lparr>pr_state = st, pr_task = t, pr_results = [], pr_overrides = [], pr_status = StatusPassed\<rparr>"
  let ?p = "path_loop ex i ?rid ?steps ?init"
  obtain rs where rs: "tr_SummaryJSON (pr_task ?p) = step_checkpoint_json rs"
    using path_loop_checkpoints [of ?steps ?init ex i ?rid] assms(2,3) by auto
  have id: "tr_ID (pr_task ?p) = tr_ID t"
    using path_loop_task [of ?init ex i ?rid ?steps] by (auto simp: summary_only_def)
  have fin: "finish_path_task ex i ?rid ?steps ?p = (t', st')"
    using assms(4) by (simp add: execute_path_task_def Let_def)
  obtain s f u summ where u: "t' = finish_task s summ f u" "tr_SummaryJSON u = step_checkpoint_json rs"
    "json_ok (JObj summ)" "summ \<noteq> []" "\<forall>k. obj_has summ k \<longrightarrow> k \<in> {''steps'', ''exports'', ''error''}"
    using finish_path_task_summary [OF assms(3) fin] assms(6) id rs by auto
  have lost: "obj_get (json_object_string (tr_SummaryJSON t')) k = JNull" if "k \<notin> {''steps'', ''exports'', ''error''}" for k
    unfolding u(1) by (rule finish_task_after_checkpoint [OF u(2-4)]) (use u(5) that in blast)
  have until: "task_until_node_id t' = []" "task_replay_group t' = []"
    using lost [of "''untilNodeId''"] lost [of "''replayGroupId''"] by (simp_all add: task_until_node_id_def task_replay_group_def)
  let ?t2 = "prepare_existing_task o1 now t'"
  have kind: "tr_Kind t' = TaskRunPathPrefix"
    using execute_path_task_same [of t ex i until st] assms(1,4) by (simp add: same_task_def)
  have run: "tr_Status t' \<noteq> TaskStatusRunning"
    using assms(5) by (simp add: StatusFailed_def TaskStatusRunning_def)
  have t2: "tr_Kind ?t2 = TaskRunPathPrefix" "tr_SummaryJSON ?t2 = tr_SummaryJSON t'"
    using kind run by (simp_all add: prepare_existing_task_def mark_interrupted_def Let_def)
  have "task_until_node_id ?t2 = []" using until t2(2) by (simp add: task_until_node_id_def)
  then have "again = execute_path_task ex2 i2 [] ?t2 st2"
    using t2(1) by (simp add: again run_task_def TaskRunPath_def TaskRunPathPrefix_def)
  then show ?thesis
    using until t2(1) by (simp add: execute_path_task_def steps_for_task_def finish_path_task_def Let_def)
qed

text \<open>A prefix of the demo path whose request fails.\<close>

definition prefix_task :: task_record where
  "prefix_task = (demo_task ''t1'' TaskStatusRunning)\<lparr>tr_Kind := TaskRunPathPrefix, tr_PathID := ''flow''\<rparr>"

definition failing_executor :: executor where
  "failing_executor = demo_executor\<lparr>ex_env := demo_env\<lparr>en_case := (\<lambda>_ req. if cq_CaseID req = ''a'' then Inl ''refused''
     else Inr passing_result)\<rparr>\<rparr>"

theorem retried_prefix_is_skipped_witness:
  "tr_Status (fst (run_task demo_executor demo_instance [] (prepare_existing_task (demo_options\<lparr>ro_retryFailed := True\<rparr>) 99
     (fst (execute_path_task failing_executor demo_instance ''a'' prefix_task (initial_state demo_saved None))))
     (initial_state demo_saved None))) = TaskStatusSkipped"
proof -
  let ?r = "execute_path_task failing_executor demo_instance ''a'' prefix_task (initial_state demo_saved None)"
  have a: "tr_Kind prefix_task = TaskRunPathPrefix" "execution_error (initial_state demo_saved None) = None"
    by (simp_all add: prefix_task_def initial_state_def execution_error_def)
  have b: "steps_for_task (ex_graph failing_executor) prefix_task ''a'' \<noteq> []" by code_simp
  have c: "?r = (fst ?r, snd ?r)" by simp
  have d: "tr_Status (fst ?r) = StatusFailed" by code_simp
  have e: "json_ok (JObj (xs_exports (snd ?r) (tr_ID prefix_task)))" by code_simp
  show ?thesis
    by (rule retried_prefix_is_skipped [OF a b c d e refl, THEN conjunct2, THEN conjunct2, THEN conjunct1])
qed

end
