(* ===== verification/Graph_Import.thy ===== *)
theory Graph_Import
  imports Map_Planner Catalog
begin

text \<open>
  The import of a profile catalog as a test map (\<open>internal/domain/plangraph/import.go\<close>).
  The maps of \<open>graphBuilder\<close> are association lists in key order, as the code only ranges over
  them to sort what it collects by keys that end in the identifier. The arguments \<open>H\<close> and
  \<open>clock\<close> are the hash and the current time; \<open>ord\<close> is the order in which
  \<open>ValidateDAG\<close> ranges over its map.
\<close>

section \<open>Texts\<close>

definition trimmed_default :: "string \<Rightarrow> string \<Rightarrow> string" where
  "trimmed_default v d = (let t = trim_space v in if t = [] then d else t)"

definition json_default :: "string \<Rightarrow> string \<Rightarrow> string" where
  "json_default v d =
     (let t = trim_space v in
      if t = [] then d
      else (case json_unmarshal t of None \<Rightarrow> t | Some j \<Rightarrow> json_marshal j))"

definition is_active_status :: "string \<Rightarrow> bool" where
  "is_active_status st \<longleftrightarrow> to_lower (trim_space st) \<in> {'''', ''active'', ''verified'', ''published''}"

definition has_validation_semantics :: "api_case \<Rightarrow> bool" where
  "has_validation_semantics c =
     (let t = to_lower (trim_space (ac_CaseType c @ '' '' @ ac_Scenario c)) in
      str_contains t ''negative'' \<or> str_contains t ''invalid'' \<or> str_contains t ''failure'' \<or>
      str_contains t ''error'' \<or> str_contains t ''boundary'' \<or> str_contains t ''validation'')"

definition is_diff_case :: "api_case \<Rightarrow> bool" where
  "is_diff_case c =
     (if equal_fold (trim_space (ac_RenderMode c)) ''template_patch'' then True
      else (let patch = trim_space (ac_PatchJSON c) in patch \<noteq> [] \<and> patch \<noteq> ''[]'' \<and> patch \<noteq> ''{}''))"

definition case_needs_validation_role :: "api_case \<Rightarrow> bool \<Rightarrow> bool" where
  "case_needs_validation_role c in_path = (if has_validation_semantics c then True else \<not> in_path \<and> is_diff_case c)"

definition short_id_hash :: "hashes \<Rightarrow> string list \<Rightarrow> string" where
  "short_id_hash H parts = take 16 (hash_sha256 H (concat (map (\<lambda>p. p @ [CHR 0x00]) parts)))"

definition trim_right_chars :: "string \<Rightarrow> string \<Rightarrow> string" where
  "trim_right_chars chars s = rev (dropWhile (\<lambda>c. c \<in> set chars) (rev s))"

definition truncate_id_part :: "string \<Rightarrow> nat \<Rightarrow> string" where
  "truncate_id_part v0 n =
     (let v = trim_space v0 in if length v \<le> n then v else trim_right_chars ''.-_'' (take n v))"

definition control_edge_id :: "hashes \<Rightarrow> ident \<Rightarrow> nat \<Rightarrow> ident \<Rightarrow> ident \<Rightarrow> ident" where
  "control_edge_id H pid i from_id to_id =
     (let raw = pid @ ''.'' @ pad3 i @ ''.'' @ from_id @ ''.'' @ to_id in
      if length raw \<le> 128 then raw
      else
        (let hash = short_id_hash H [pid, pad3 i, from_id, to_id]; pre = truncate_id_part pid 80
         in if pre = [] then ''edge.'' @ pad3 i @ ''.'' @ hash
            else ''edge.'' @ pre @ ''.'' @ pad3 i @ ''.'' @ hash))"

definition fixture_edge_id :: "hashes \<Rightarrow> ident \<Rightarrow> ident \<Rightarrow> ident" where
  "fixture_edge_id H mid target =
     (let raw = ''edge.'' @ mid @ ''.'' @ target in
      if length raw \<le> 128 then raw
      else
        (let hash = short_id_hash H [''fixture'', mid, target]; pre = truncate_id_part mid 80
         in if pre = [] then ''edge.fixture.'' @ hash else ''edge.'' @ pre @ ''.'' @ hash))"

section \<open>The builder\<close>

record import_options =
  im_MapID :: ident
  im_DisplayName :: string
  im_Description :: string
  im_WorkflowIDs :: "ident list"
  im_Now :: time

record graph_builder =
  gb_catalog :: profile_catalog
  gb_mapID :: ident
  gb_steps :: "path_step list"
  gb_caseByID :: "(ident \<times> api_case) list"
  gb_workflowByID :: "(ident \<times> workflow) list"
  gb_bindingsByPath :: "(ident \<times> workflow_binding list) list"
  gb_boundCaseIDs :: "ident set"
  gb_workflowFilter :: "(ident \<times> bool) list"
  gb_nodeByID :: "(ident \<times> node) list"
  gb_pathByID :: "(ident \<times> plan_path) list"
  gb_edgeByID :: "(ident \<times> edge) list"
  gb_matByID :: "(ident \<times> materialization) list"

definition normalized_workflow_id_set :: "string list \<Rightarrow> (ident \<times> bool) list" where
  "normalized_workflow_id_set vs =
     fold (\<lambda>raw out. let i = trim_space raw in if i = [] then out else obj_put i True out) vs []"

definition index_cases :: "api_case list \<Rightarrow> (ident \<times> api_case) list" where
  "index_cases cs = fold (\<lambda>c out. let i = trim_space (ac_ID c) in
     if i = [] \<or> \<not> is_active_status (ac_Status c) then out else obj_put i (c\<lparr>ac_ID := i\<rparr>) out) cs []"

definition index_workflows :: "workflow list \<Rightarrow> (ident \<times> workflow) list" where
  "index_workflows ws = fold (\<lambda>w out. let i = trim_space (wf_ID w) in
     if i = [] then out else obj_put i (w\<lparr>wf_ID := i\<rparr>) out) ws []"

definition bindings_of :: "(ident \<times> workflow_binding list) list \<Rightarrow> ident \<Rightarrow> workflow_binding list" where
  "bindings_of m i = (case map_of m i of Some bs \<Rightarrow> bs | None \<Rightarrow> [])"

definition keep_binding :: "(ident \<times> bool) list \<Rightarrow> workflow_binding \<Rightarrow> workflow_binding option" where
  "keep_binding flt item =
     (let b = item\<lparr>wb_WorkflowID := trim_space (wb_WorkflowID item), wb_CaseID := trim_space (wb_CaseID item)\<rparr> in
      if wb_WorkflowID b = [] \<or> wb_CaseID b = [] then None
      else if flt \<noteq> [] \<and> \<not> obj_has flt (wb_WorkflowID b) then None
      else Some b)"

definition index_bindings :: "(ident \<times> bool) list \<Rightarrow> workflow_binding list \<Rightarrow> (ident \<times> workflow_binding list) list" where
  "index_bindings flt bs = fold (\<lambda>item out. case keep_binding flt item of
       None \<Rightarrow> out
     | Some b \<Rightarrow> obj_put (wb_WorkflowID b) (bindings_of out (wb_WorkflowID b) @ [b]) out) bs []"

definition bound_case_ids :: "(ident \<times> bool) list \<Rightarrow> workflow_binding list \<Rightarrow> ident set" where
  "bound_case_ids flt bs = set (map wb_CaseID (List.map_filter (keep_binding flt) bs))"

definition new_graph_builder :: "profile_catalog \<Rightarrow> ident \<Rightarrow> ident list \<Rightarrow> graph_builder" where
  "new_graph_builder cat mid wids =
     (let flt = normalized_workflow_id_set wids in
      \<lparr>gb_catalog = cat, gb_mapID = mid, gb_steps = [], gb_caseByID = index_cases (pc_APICases cat),
       gb_workflowByID = index_workflows (pc_Workflows cat),
       gb_bindingsByPath = index_bindings flt (pc_WorkflowBindings cat),
       gb_boundCaseIDs = bound_case_ids flt (pc_WorkflowBindings cat), gb_workflowFilter = flt,
       gb_nodeByID = [], gb_pathByID = [], gb_edgeByID = [], gb_matByID = []\<rparr>)"

definition sort_workflow_bindings :: "workflow_binding list \<Rightarrow> workflow_binding list" where
  "sort_workflow_bindings bs = sort_key (\<lambda>b. (wb_SortOrder b, wb_StepID b)) bs"

section \<open>Nodes\<close>

definition base_case_for :: "graph_builder \<Rightarrow> api_case \<Rightarrow> ident" where
  "base_case_for b c =
     (let nid = trim_space (ac_NodeID c) in
      if nid = [] then []
      else
        (let candidates = filter (\<lambda>d. \<not> (ac_ID d = ac_ID c \<or> trim_space (ac_NodeID d) \<noteq> nid) \<and>
               \<not> case_needs_validation_role d (ac_ID d \<in> gb_boundCaseIDs b)) (map snd (gb_caseByID b))
         in case sort_key (\<lambda>d. (ac_ID d \<notin> gb_boundCaseIDs b, ac_SortOrder d, ac_ID d)) candidates of
              [] \<Rightarrow> []
            | d # _ \<Rightarrow> ac_ID d))"

text \<open>A nil slice of tags prints as \<open>null\<close>.\<close>

definition tags_json :: "string list option \<Rightarrow> json" where
  "tags_json ts = (case ts of None \<Rightarrow> JNull | Some xs \<Rightarrow> JArr (map JStr xs))"

definition case_node :: "graph_builder \<Rightarrow> api_case \<Rightarrow> bool \<Rightarrow> node" where
  "case_node b c in_path =
     (let nid = trim_space (ac_ID c); validation = case_needs_validation_role c in_path;
          effect = (if validation then StateEffectUnchanged else StateEffectAdvance);
          base = (if validation then base_case_for b c else []);
          required = (if validation then [(''caseId'', JStr nid), (''samePreconditionAsCase'', JStr base),
            (''stateEffect'', JStr StateEffectUnchanged)] else [(''caseId'', JStr nid)])
      in \<lparr>nd_MapID = gb_mapID b, nd_ID = nid, nd_CaseID = nid, nd_InterfaceNodeID = trim_space (ac_NodeID c),
          nd_RequestTemplateID = trim_space (ac_RequestTemplateID c), nd_BaseCaseID = base, nd_AnchorNodeID = base,
          nd_Role = (if validation then NodeRoleValidation else NodeRolePrimary), nd_StateEffect = effect,
          nd_RenderMode = trim_space (ac_RenderMode c), nd_PatchJSON = json_default (ac_PatchJSON c) [],
          nd_ExpectedJSON = json_default (ac_ExpectedJSON c) [],
          nd_RequiredPropertyJSON = obj_text required,
          nd_ProvidedPropertyJSON = obj_text [(''caseId'', JStr nid), (''stateEffect'', JStr effect)],
          nd_SummaryJSON = obj_text [(''caseType'', JStr (ac_CaseType c)), (''displayName'', JStr (ac_DisplayName c)),
            (''scenario'', JStr (ac_Scenario c)), (''tags'', tags_json (ac_Tags c))],
          nd_SortOrder = ac_SortOrder c\<rparr>)"

text \<open>The cases come from \<open>caseByID\<close>, so the node of a case without an identifier never occurs.\<close>

definition upsert_case_node :: "api_case \<Rightarrow> bool \<Rightarrow> graph_builder \<Rightarrow> ident \<times> graph_builder" where
  "upsert_case_node c in_path b =
     (let nid = trim_space (ac_ID c) in
      if nid = [] then ([], b)
      else (case map_of (gb_nodeByID b) nid of
          Some n \<Rightarrow> (nd_ID n, b)
        | None \<Rightarrow> (nid, b\<lparr>gb_nodeByID := obj_put nid (case_node b c in_path) (gb_nodeByID b)\<rparr>)))"

section \<open>Paths\<close>

definition import_path_step :: "ident \<Rightarrow> nat \<Rightarrow> workflow_binding \<Rightarrow> ident \<Rightarrow> graph_builder \<Rightarrow> graph_builder" where
  "import_path_step pid i wb nid b = b\<lparr>gb_steps := gb_steps b @ [\<lparr>ps_MapID = gb_mapID b, ps_PathID = pid,
     ps_StepIndex = int i, ps_StepID = wb_StepID wb, ps_NodeID = nid, ps_CaseID = nid,
     ps_Required = wb_Required wb, ps_MaterializeAfter = False, ps_SummaryJSON = ''{}''\<rparr>]\<rparr>"

definition add_control_edge :: "hashes \<Rightarrow> ident \<Rightarrow> nat \<Rightarrow> ident \<Rightarrow> ident \<Rightarrow> graph_builder \<Rightarrow> graph_builder" where
  "add_control_edge H pid i from_id to_id b =
     (let eid = control_edge_id H pid i from_id to_id in
      b\<lparr>gb_edgeByID := obj_put eid \<lparr>ed_MapID = gb_mapID b, ed_ID = eid, ed_FromNodeID = from_id,
         ed_ToNodeID = to_id, ed_Kind = EdgeKindControl, ed_PathID = pid, ed_MaterializationID = [],
         ed_Required = True, ed_MappingsJSON = ''[]'', ed_SummaryJSON = ''{}'',
         ed_SortOrder = int (length (gb_edgeByID b)) + 1\<rparr> (gb_edgeByID b)\<rparr>)"

fun import_bindings :: "hashes \<Rightarrow> ident \<Rightarrow> workflow_binding list \<Rightarrow> ident \<Rightarrow> nat \<Rightarrow> graph_builder \<Rightarrow>
  graph_error + nat \<times> graph_builder" where
  "import_bindings H pid [] prev i b = Inr (i, b)"
| "import_bindings H pid (wb # wbs) prev i b =
     (case map_of (gb_caseByID b) (wb_CaseID wb) of
        None \<Rightarrow> if wb_Required wb then Inl (Missing_Required_Case pid (trim_space (wb_StepID wb)) (wb_CaseID wb))
          else import_bindings H pid wbs prev i b
      | Some c \<Rightarrow>
          (let (nid, b1) = upsert_case_node c True b;
               b2 = import_path_step pid (Suc i) wb nid b1;
               b3 = (if prev \<noteq> [] then add_control_edge H pid i prev nid b2 else b2)
           in import_bindings H pid wbs nid (Suc i) b3))"

definition import_path :: "ident \<Rightarrow> nat \<Rightarrow> graph_builder \<Rightarrow> plan_path" where
  "import_path pid index b =
     (let name = (case map_of (gb_workflowByID b) pid of Some w \<Rightarrow> wf_DisplayName w | None \<Rightarrow> []) in
      \<lparr>pa_MapID = gb_mapID b, pa_ID = pid, pa_WorkflowID = pid, pa_DisplayName = trimmed_default name pid,
       pa_Status = ''active'', pa_RequiredPropertyJSON = obj_text [(''pathId'', JStr pid)],
       pa_ProvidedPropertyJSON = obj_text [(''pathId'', JStr pid), (''stateEffect'', JStr StateEffectAdvance)],
       pa_SummaryJSON = obj_text [(''stepCount'', jnat 0)], pa_SortOrder = int index\<rparr>)"

fun import_path_list :: "hashes \<Rightarrow> nat \<Rightarrow> (ident \<times> workflow_binding list) list \<Rightarrow> graph_builder \<Rightarrow>
  graph_error + graph_builder" where
  "import_path_list H index [] b = Inr b"
| "import_path_list H index ((pid, wbs) # rest) b =
     (let path = import_path pid (Suc index) b;
          b1 = b\<lparr>gb_pathByID := obj_put pid path (gb_pathByID b)\<rparr>
      in case import_bindings H pid (sort_workflow_bindings wbs) [] 0 b1 of
           Inl e \<Rightarrow> Inl e
         | Inr (n, b2) \<Rightarrow> import_path_list H (Suc index) rest
             (b2\<lparr>gb_pathByID := obj_put pid (path\<lparr>pa_SummaryJSON := obj_text [(''stepCount'', jnat n)]\<rparr>) (gb_pathByID b2)\<rparr>))"

definition import_paths :: "hashes \<Rightarrow> graph_builder \<Rightarrow> graph_error + graph_builder" where
  "import_paths H b =
     (if gb_workflowFilter b \<noteq> [] \<and> gb_bindingsByPath b = []
        then Inl (No_Bindings_Matched (map fst (gb_workflowFilter b)))
      else import_path_list H 0 (gb_bindingsByPath b) b)"

section \<open>Validation cases and materializations\<close>

definition import_validation_case :: "api_case \<Rightarrow> graph_builder \<Rightarrow> graph_builder" where
  "import_validation_case c b =
     (if ac_ID c \<in> gb_boundCaseIDs b \<or> \<not> case_needs_validation_role c False then b
      else if gb_workflowFilter b \<noteq> [] \<and> base_case_for b c \<notin> gb_boundCaseIDs b then b
      else snd (upsert_case_node c False b))"

definition import_validation_cases :: "graph_builder \<Rightarrow> graph_builder" where
  "import_validation_cases b = fold import_validation_case (map snd (gb_caseByID b)) b"

definition node_id_for_workflow_step :: "graph_builder \<Rightarrow> ident \<Rightarrow> ident \<Rightarrow> ident" where
  "node_id_for_workflow_step b wid sid =
     (case find_first (\<lambda>wb. trim_space (wb_StepID wb) = sid)
         (sort_workflow_bindings (bindings_of (gb_bindingsByPath b) wid)) of
        Some wb \<Rightarrow> trim_space (wb_CaseID wb)
      | None \<Rightarrow> [])"

definition import_fixture :: "fixture \<Rightarrow> graph_builder \<Rightarrow> graph_builder" where
  "import_fixture f b =
     (if \<not> is_active_status (fx_Status f) \<or> \<not> equal_fold (trim_space (fx_Kind f)) ''workflow_prefix'' then b
      else
        (let source = trim_space (fx_SourceWorkflowID f); until_step = trim_space (fx_SourceUntilStep f);
             until_node = node_id_for_workflow_step b source until_step
         in if source = [] \<or> until_step = [] \<or> until_node = [] then b
            else
              (let mid = trimmed_default (fx_ID f) (source @ ''.'' @ until_step) in
               b\<lparr>gb_matByID := obj_put mid \<lparr>mz_MapID = gb_mapID b, mz_ID = mid, mz_FixtureID = fx_ID f,
                  mz_SourcePathID = source, mz_SourceWorkflowID = source, mz_SourceUntilStep = until_step,
                  mz_SourceUntilNodeID = until_node, mz_SnapshotKind = ''workflow_prefix'',
                  mz_TTLSeconds = fx_TTLSeconds f, mz_Status = trimmed_default (fx_Status f) ''active'',
                  mz_SummaryJSON = obj_text [(''displayName'', JStr (fx_DisplayName f))],
                  mz_SortOrder = fx_SortOrder f\<rparr> (gb_matByID b)\<rparr>)))"

definition dependency_target :: "ident \<Rightarrow> graph_builder \<Rightarrow> (ident \<times> graph_builder) option" where
  "dependency_target cid b =
     (case map_of (gb_nodeByID b) cid of
        Some n \<Rightarrow> Some (nd_ID n, b)
      | None \<Rightarrow> map_option (\<lambda>c. upsert_case_node c False b) (map_of (gb_caseByID b) cid))"

definition import_dependency :: "hashes \<Rightarrow> case_dependency \<Rightarrow> graph_builder \<Rightarrow> graph_builder" where
  "import_dependency H d b =
     (if \<not> is_active_status (cd_Status d) then b
      else case dependency_target (trim_space (cd_CaseID d)) b of
        None \<Rightarrow> b
      | Some (target, b1) \<Rightarrow>
          (case map_of (gb_matByID b1) (trim_space (cd_FixtureID d)) of
             None \<Rightarrow> b1
           | Some m \<Rightarrow>
               (let mid = trim_space (cd_FixtureID d);
                    eid = (if trim_space (cd_ID d) = [] then fixture_edge_id H mid target else trim_space (cd_ID d))
                in b1\<lparr>gb_edgeByID := obj_put eid \<lparr>ed_MapID = gb_mapID b1, ed_ID = eid,
                     ed_FromNodeID = mz_SourceUntilNodeID m, ed_ToNodeID = target, ed_Kind = EdgeKindFixture,
                     ed_PathID = [], ed_MaterializationID = mz_ID m, ed_Required = cd_Required d,
                     ed_MappingsJSON = json_default (cd_MappingsJSON d) ''[]'', ed_SummaryJSON = ''{}'',
                     ed_SortOrder = int (length (gb_edgeByID b1)) + 1\<rparr> (gb_edgeByID b1)\<rparr>)))"

definition import_materializations :: "hashes \<Rightarrow> graph_builder \<Rightarrow> graph_builder" where
  "import_materializations H b =
     fold (import_dependency H) (sort_key (\<lambda>d. (cd_SortOrder d, cd_ID d)) (pc_CaseDependencies (gb_catalog b)))
       (fold import_fixture (sort_key (\<lambda>f. (fx_SortOrder f, fx_ID f)) (pc_Fixtures (gb_catalog b))) b)"

section \<open>The graph\<close>

definition finalize :: "plan_map \<Rightarrow> graph_builder \<Rightarrow> graph" where
  "finalize mp b =
     (let nodes = sort_key (\<lambda>n. (nd_SortOrder n, nd_ID n)) (map snd (gb_nodeByID b));
          edges = sort_key (\<lambda>e. (ed_SortOrder e, ed_ID e)) (map snd (gb_edgeByID b));
          paths = sort_key (\<lambda>p. (pa_SortOrder p, pa_ID p)) (map snd (gb_pathByID b));
          steps = sort_key (\<lambda>s. (ps_PathID s, ps_StepIndex s)) (gb_steps b);
          mats = sort_key (\<lambda>m. (mz_SortOrder m, mz_ID m)) (map snd (gb_matByID b))
      in \<lparr>gr_Map = mp\<lparr>mp_SummaryJSON := obj_text [(''edges'', jnat (length edges)),
            (''materializations'', jnat (length mats)), (''nodes'', jnat (length nodes)),
            (''pathSteps'', jnat (length steps)), (''paths'', jnat (length paths))]\<rparr>,
          gr_Nodes = nodes, gr_Edges = edges, gr_Paths = paths, gr_PathSteps = steps,
          gr_Materializations = mats\<rparr>)"

definition import_map_id :: "profile_catalog \<Rightarrow> import_options \<Rightarrow> ident" where
  "import_map_id cat opts =
     (if trim_space (im_MapID opts) = [] then ''map.'' @ trim_space (pc_ProfileID cat) else trim_space (im_MapID opts))"

definition import_map :: "time \<Rightarrow> profile_catalog \<Rightarrow> import_options \<Rightarrow> plan_map" where
  "import_map clock cat opts =
     (let profile_id = trim_space (pc_ProfileID cat);
          now = (if im_Now opts \<noteq> zero_time then im_Now opts
                 else if pc_IndexedAt cat \<noteq> zero_time then pc_IndexedAt cat else clock)
      in \<lparr>mp_ID = import_map_id cat opts, mp_ProfileID = profile_id,
          mp_DisplayName = trimmed_default (im_DisplayName opts) (profile_id @ '' workflow map''),
          mp_Description = trim_space (im_Description opts), mp_Status = ''active'', mp_SummaryJSON = ''{}'',
          mp_CreatedAt = now, mp_UpdatedAt = now\<rparr>)"

definition import_catalog :: "hashes \<Rightarrow> time \<Rightarrow> (ident list \<Rightarrow> ident list) \<Rightarrow> profile_catalog \<Rightarrow> import_options \<Rightarrow>
  graph_error + graph" where
  "import_catalog H clock ord cat opts =
     (if trim_space (pc_ProfileID cat) = [] then Inl Profile_ID_Required
      else
        (case import_paths H (new_graph_builder cat (import_map_id cat opts) (im_WorkflowIDs opts)) of
           Inl e \<Rightarrow> Inl e
         | Inr b \<Rightarrow>
             (let g = finalize (import_map clock cat opts) (import_materializations H (import_validation_cases b)) in
              case validate_dag ord g of Inl e \<Rightarrow> Inl e | Inr _ \<Rightarrow> Inr g)))"

end
