(* ===== verification/Graph_Import_Facts.thy ===== *)
theory Graph_Import_Facts
  imports Graph_Import Plan_Graph
begin

text \<open>
  What the import of a catalog guarantees of the map it returns: the graph is closed (every
  reference to a node, path or materialization the import makes is one of the graph, with the one
  exception of the source of a materialization), acyclic and has distinct identifiers, and each
  path is the list of the active bindings of its workflow in order. \<open>path_bindings\<close> and
  \<open>steps_of_path\<close> are the reference definitions, over the catalog and without the builder.
\<close>

section \<open>Indexes\<close>

definition path_bindings :: "profile_catalog \<Rightarrow> ident list \<Rightarrow> ident \<Rightarrow> workflow_binding list" where
  "path_bindings cat wids pid = sort_workflow_bindings (filter (\<lambda>wb. wb_WorkflowID wb = pid)
     (List.map_filter (keep_binding (normalized_workflow_id_set wids)) (pc_WorkflowBindings cat)))"

definition case_active :: "profile_catalog \<Rightarrow> ident \<Rightarrow> bool" where
  "case_active cat k \<longleftrightarrow> map_of (index_cases (pc_APICases cat)) k \<noteq> None"

definition steps_of_path :: "ident \<Rightarrow> ident \<Rightarrow> nat \<Rightarrow> workflow_binding list \<Rightarrow> path_step list" where
  "steps_of_path mid pid i0 wbs = map (\<lambda>(i, wb). \<lparr>ps_MapID = mid, ps_PathID = pid, ps_StepIndex = int i,
     ps_StepID = wb_StepID wb, ps_NodeID = wb_CaseID wb, ps_CaseID = wb_CaseID wb,
     ps_Required = wb_Required wb, ps_MaterializeAfter = False, ps_SummaryJSON = ''{}''\<rparr>) (enumerate (Suc i0) wbs)"

lemma index_cases_snoc: "index_cases (cs @ [c]) = (let i = trim_space (ac_ID c) in
    if i = [] \<or> \<not> is_active_status (ac_Status c) then index_cases cs else obj_put i (c\<lparr>ac_ID := i\<rparr>) (index_cases cs))"
  by (simp add: index_cases_def Let_def)

lemma index_cases_SomeD:
  "map_of (index_cases cs) k = Some c \<Longrightarrow> ac_ID c = k \<and> trim_space k = k \<and> k \<noteq> [] \<and> is_active_status (ac_Status c)"
  by (induction cs rule: rev_induct) (auto simp: index_cases_snoc Let_def index_cases_def split: if_splits)

lemma obj_wf_index_cases: "obj_wf (index_cases cs)"
  by (induction cs rule: rev_induct) (auto simp: index_cases_snoc Let_def index_cases_def)

lemma case_active_iff:
  "case_active cat k \<longleftrightarrow> k \<noteq> [] \<and> (\<exists>c \<in> set (pc_APICases cat). trim_space (ac_ID c) = k \<and> is_active_status (ac_Status c))"
proof -
  have "map_of (index_cases cs) k \<noteq> None \<longleftrightarrow>
      k \<noteq> [] \<and> (\<exists>c \<in> set cs. trim_space (ac_ID c) = k \<and> is_active_status (ac_Status c))" for cs
    by (induction cs rule: rev_induct) (auto simp: index_cases_snoc Let_def index_cases_def split: if_splits)
  then show ?thesis by (simp add: case_active_def)
qed

lemma map_filter_snoc: "List.map_filter f (xs @ [x]) = List.map_filter f xs @ (case f x of None \<Rightarrow> [] | Some y \<Rightarrow> [y])"
  by (simp add: List.map_filter_def split: option.splits)

lemma index_bindings_snoc: "index_bindings flt (bs @ [b]) = (case keep_binding flt b of
      None \<Rightarrow> index_bindings flt bs
    | Some x \<Rightarrow> obj_put (wb_WorkflowID x) (bindings_of (index_bindings flt bs) (wb_WorkflowID x) @ [x]) (index_bindings flt bs))"
  by (simp add: index_bindings_def split: option.split)

lemma map_of_index_bindings:
  "map_of (index_bindings flt bs) pid =
     (let xs = filter (\<lambda>wb. wb_WorkflowID wb = pid) (List.map_filter (keep_binding flt) bs)
      in if xs = [] then None else Some xs)"
proof (induction bs arbitrary: pid rule: rev_induct)
  case (snoc b bs)
  have eq: "bindings_of (index_bindings flt bs) p =
      filter (\<lambda>wb. wb_WorkflowID wb = p) (List.map_filter (keep_binding flt) bs)" for p
    using snoc [of p] by (simp add: bindings_of_def Let_def split: option.splits)
  show ?case
    using snoc [of pid] by (auto simp: index_bindings_snoc map_filter_snoc eq Let_def split: option.splits)
qed (simp add: index_bindings_def)

lemma obj_wf_index_bindings [simp]: "obj_wf (index_bindings flt bs)"
  by (induction bs rule: rev_induct) (auto simp: index_bindings_snoc split: option.splits simp: index_bindings_def)

lemma obj_wf_distinct: "obj_wf kvs \<Longrightarrow> distinct (map fst kvs)"
  by (simp add: obj_wf_def strict_sorted_iff)

lemma bindings_of_index: "bindings_of (index_bindings flt bs) pid =
    filter (\<lambda>wb. wb_WorkflowID wb = pid) (List.map_filter (keep_binding flt) bs)"
  by (simp add: bindings_of_def map_of_index_bindings Let_def)

section \<open>The invariant of the builder\<close>

definition edge_ok :: "graph_builder \<Rightarrow> edge \<Rightarrow> bool" where
  "edge_ok b e \<longleftrightarrow> map_of (gb_nodeByID b) (ed_ToNodeID e) \<noteq> None \<and>
     (if ed_Kind e = EdgeKindControl
      then map_of (gb_nodeByID b) (ed_FromNodeID e) \<noteq> None \<and> map_of (gb_pathByID b) (ed_PathID e) \<noteq> None
      else ed_Kind e = EdgeKindFixture \<and>
        (\<exists>m. map_of (gb_matByID b) (ed_MaterializationID e) = Some m \<and> ed_FromNodeID e = mz_SourceUntilNodeID m))"

definition keyed :: "('v \<Rightarrow> ident) \<Rightarrow> (ident \<times> 'v) list \<Rightarrow> bool" where
  "keyed key kvs \<longleftrightarrow> obj_wf kvs \<and> (\<forall>(k, v) \<in> set kvs. key v = k)"

definition builder_ok :: "graph_builder \<Rightarrow> bool" where
  "builder_ok b \<longleftrightarrow> keyed nd_ID (gb_nodeByID b) \<and> keyed ed_ID (gb_edgeByID b) \<and> keyed pa_ID (gb_pathByID b) \<and>
     keyed mz_ID (gb_matByID b) \<and> (\<forall>e \<in> snd ` set (gb_edgeByID b). edge_ok b e) \<and>
     (\<forall>m \<in> snd ` set (gb_matByID b). map_of (gb_pathByID b) (mz_SourcePathID m) \<noteq> None) \<and>
     (\<forall>s \<in> set (gb_steps b). map_of (gb_nodeByID b) (ps_NodeID s) \<noteq> None \<and> map_of (gb_pathByID b) (ps_PathID s) \<noteq> None)"

definition cases_indexed :: "graph_builder \<Rightarrow> bool" where
  "cases_indexed b \<longleftrightarrow> obj_wf (gb_caseByID b) \<and> (\<forall>k c. map_of (gb_caseByID b) k = Some c \<longrightarrow> ac_ID c = k \<and> trim_space k = k \<and> k \<noteq> [])"

lemma snd_obj_put: "snd ` set (obj_put k v kvs) \<subseteq> insert v (snd ` set kvs)"
  by (induction k v kvs rule: obj_put.induct) auto

lemma ball_obj_put: "(\<forall>x \<in> snd ` set kvs. P x) \<Longrightarrow> P v \<Longrightarrow> \<forall>x \<in> snd ` set (obj_put k v kvs). P x"
  using snd_obj_put [of k v kvs] by blast

lemma set_obj_put: "set (obj_put k v kvs) \<subseteq> insert (k, v) (set kvs)"
  by (induction k v kvs rule: obj_put.induct) auto

lemma keyed_Nil [simp]: "keyed key []"
  by (simp add: keyed_def)

lemma keyed_put [simp]: "keyed key kvs \<Longrightarrow> key v = k \<Longrightarrow> keyed key (obj_put k v kvs)"
  using set_obj_put [of k v kvs] by (auto simp: keyed_def)

lemma keyed_SomeD: "keyed key kvs \<Longrightarrow> map_of kvs k = Some v \<Longrightarrow> key v = k"
  by (auto simp: keyed_def dest: map_of_SomeD)


lemma keyed_snd: "keyed key kvs \<Longrightarrow> map_of kvs k \<noteq> None \<longleftrightarrow> k \<in> key ` snd ` set kvs"
proof -
  assume k: "keyed key kvs"
  have "fst ` set kvs = key ` snd ` set kvs"
    using k by (force simp: keyed_def image_image intro!: image_cong)
  then show ?thesis by (simp add: map_of_eq_None_iff)
qed

lemma edge_ok_put_node: "edge_ok b e \<Longrightarrow> edge_ok (b\<lparr>gb_nodeByID := obj_put k n (gb_nodeByID b)\<rparr>) e"
  by (auto simp: edge_ok_def)

lemma edge_ok_put_path: "edge_ok b e \<Longrightarrow> edge_ok (b\<lparr>gb_pathByID := obj_put k p (gb_pathByID b)\<rparr>) e"
  by (auto simp: edge_ok_def)

lemma builder_ok_put_node:
  "builder_ok b \<Longrightarrow> nd_ID n = k \<Longrightarrow> builder_ok (b\<lparr>gb_nodeByID := obj_put k n (gb_nodeByID b)\<rparr>)"
  by (auto simp: builder_ok_def edge_ok_put_node)

lemma builder_ok_put_path:
  "builder_ok b \<Longrightarrow> pa_ID p = k \<Longrightarrow> builder_ok (b\<lparr>gb_pathByID := obj_put k p (gb_pathByID b)\<rparr>)"
  by (auto simp: builder_ok_def edge_ok_put_path)

lemma builder_ok_put_edge:
  assumes "builder_ok b" "ed_ID e = k" "edge_ok b e"
  shows "builder_ok (b\<lparr>gb_edgeByID := obj_put k e (gb_edgeByID b)\<rparr>)"
proof -
  have eq: "edge_ok (b\<lparr>gb_edgeByID := es\<rparr>) = edge_ok b" for es by (simp add: edge_ok_def fun_eq_iff)
  have "\<forall>x \<in> snd ` set (obj_put k e (gb_edgeByID b)). edge_ok b x"
    using assms by (intro ball_obj_put) (auto simp: builder_ok_def)
  then show ?thesis using assms by (simp add: builder_ok_def eq)
qed

lemma builder_ok_put_mat:
  assumes "builder_ok b" "mz_ID m = k" "map_of (gb_pathByID b) (mz_SourcePathID m) \<noteq> None"
    "\<forall>e \<in> snd ` set (gb_edgeByID b). ed_Kind e = EdgeKindControl"
  shows "builder_ok (b\<lparr>gb_matByID := obj_put k m (gb_matByID b)\<rparr>)"
proof -
  have "\<forall>e \<in> snd ` set (gb_edgeByID b). edge_ok (b\<lparr>gb_matByID := obj_put k m (gb_matByID b)\<rparr>) e"
    using assms(1,4) by (auto simp: builder_ok_def edge_ok_def)
  moreover have "\<forall>x \<in> snd ` set (obj_put k m (gb_matByID b)). map_of (gb_pathByID b) (mz_SourcePathID x) \<noteq> None"
    using assms by (intro ball_obj_put) (auto simp: builder_ok_def)
  ultimately show ?thesis using assms by (simp add: builder_ok_def)
qed

lemma upsert_case_node:
  assumes "builder_ok b" "cases_indexed b" "map_of (gb_caseByID b) k = Some c"
  shows "\<exists>ns. upsert_case_node c ip b = (k, b\<lparr>gb_nodeByID := ns\<rparr>) \<and> builder_ok (b\<lparr>gb_nodeByID := ns\<rparr>) \<and>
    map_of ns k \<noteq> None \<and> dom (map_of (gb_nodeByID b)) \<subseteq> dom (map_of ns)"
proof -
  have k: "ac_ID c = k" "trim_space k = k" "k \<noteq> []" using assms(2,3) by (auto simp: cases_indexed_def)
  show ?thesis
  proof (cases "map_of (gb_nodeByID b) k")
    case None
    let ?ns = "obj_put k (case_node b c ip) (gb_nodeByID b)"
    have "nd_ID (case_node b c ip) = k" using k by (simp add: case_node_def Let_def)
    then have "builder_ok (b\<lparr>gb_nodeByID := ?ns\<rparr>)" using assms(1) by (intro builder_ok_put_node)
    then show ?thesis using None k by (intro exI [of _ ?ns]) (auto simp: upsert_case_node_def)
  next
    case (Some n)
    then have "nd_ID n = k" using assms(1) by (auto simp: builder_ok_def dest: keyed_SomeD)
    then show ?thesis using Some k assms(1) by (intro exI [of _ "gb_nodeByID b"]) (simp add: upsert_case_node_def)
  qed
qed

section \<open>Paths\<close>

definition same_catalog :: "graph_builder \<Rightarrow> graph_builder \<Rightarrow> bool" where
  "same_catalog b b' \<longleftrightarrow> gb_catalog b' = gb_catalog b \<and> gb_mapID b' = gb_mapID b \<and> gb_caseByID b' = gb_caseByID b \<and>
     gb_workflowByID b' = gb_workflowByID b \<and> gb_bindingsByPath b' = gb_bindingsByPath b \<and>
     gb_boundCaseIDs b' = gb_boundCaseIDs b \<and> gb_workflowFilter b' = gb_workflowFilter b"

lemma same_catalog_refl [simp]: "same_catalog b b"
  by (simp add: same_catalog_def)

lemma same_catalog_trans: "same_catalog b c \<Longrightarrow> same_catalog c d \<Longrightarrow> same_catalog b d"
  by (simp add: same_catalog_def)

definition control_only :: "graph_builder \<Rightarrow> bool" where
  "control_only b \<longleftrightarrow> (\<forall>e \<in> snd ` set (gb_edgeByID b). ed_Kind e = EdgeKindControl)"

definition path_builder :: "graph_builder \<Rightarrow> bool" where
  "path_builder b \<longleftrightarrow> builder_ok b \<and> cases_indexed b \<and> control_only b"

definition binding_active :: "graph_builder \<Rightarrow> workflow_binding \<Rightarrow> bool" where
  "binding_active b wb \<longleftrightarrow> map_of (gb_caseByID b) (wb_CaseID wb) \<noteq> None"

lemma steps_of_path_simps [simp]:
  "steps_of_path mid pid i [] = []"
  "steps_of_path mid pid i (wb # wbs) = \<lparr>ps_MapID = mid, ps_PathID = pid, ps_StepIndex = int (Suc i),
     ps_StepID = wb_StepID wb, ps_NodeID = wb_CaseID wb, ps_CaseID = wb_CaseID wb,
     ps_Required = wb_Required wb, ps_MaterializeAfter = False, ps_SummaryJSON = ''{}''\<rparr> #
     steps_of_path mid pid (Suc i) wbs"
  by (simp_all add: steps_of_path_def)

lemma builder_ok_step:
  assumes "builder_ok b" "map_of (gb_nodeByID b) nid \<noteq> None" "map_of (gb_pathByID b) pid \<noteq> None"
  shows "builder_ok (import_path_step pid i wb nid b)"
proof -
  let ?b = "import_path_step pid i wb nid b"
  have "edge_ok ?b = edge_ok b" by (simp add: edge_ok_def fun_eq_iff import_path_step_def)
  moreover have "\<forall>s \<in> set (gb_steps ?b). map_of (gb_nodeByID b) (ps_NodeID s) \<noteq> None \<and> map_of (gb_pathByID b) (ps_PathID s) \<noteq> None"
    using assms by (simp add: builder_ok_def import_path_step_def)
  ultimately show ?thesis using assms(1) unfolding builder_ok_def by (simp add: import_path_step_def)
qed

lemma builder_ok_control_edge:
  assumes "builder_ok b" "map_of (gb_nodeByID b) f \<noteq> None" "map_of (gb_nodeByID b) t \<noteq> None"
    "map_of (gb_pathByID b) pid \<noteq> None"
  shows "builder_ok (add_control_edge H pid i f t b)"
  unfolding add_control_edge_def Let_def using assms
  by (intro builder_ok_put_edge) (auto simp: edge_ok_def)

lemma control_only_put:
  assumes "control_only b" "ed_Kind e = EdgeKindControl"
  shows "control_only (b\<lparr>gb_edgeByID := obj_put k e (gb_edgeByID b)\<rparr>)"
proof -
  have "gb_edgeByID (b\<lparr>gb_edgeByID := obj_put k e (gb_edgeByID b)\<rparr>) = obj_put k e (gb_edgeByID b)" by simp
  then show ?thesis unfolding control_only_def
    by (simp only:) (rule ball_obj_put [OF assms(1) [unfolded control_only_def] assms(2)])
qed

lemma control_only_add: "control_only b \<Longrightarrow> control_only (add_control_edge H pid i f t b)"
  unfolding add_control_edge_def Let_def by (rule control_only_put) simp_all

lemma import_one_binding:
  assumes b: "path_builder b" and c: "map_of (gb_caseByID b) (wb_CaseID wb) = Some c"
    and pid: "map_of (gb_pathByID b) pid \<noteq> None" and prev: "prev = [] \<or> map_of (gb_nodeByID b) prev \<noteq> None"
  obtains b' where "\<And>wbs. import_bindings H pid (wb # wbs) prev i b = import_bindings H pid wbs (wb_CaseID wb) (Suc i) b'"
    "path_builder b'" "map_of (gb_nodeByID b') (wb_CaseID wb) \<noteq> None" "gb_pathByID b' = gb_pathByID b"
    "same_catalog b b'" "gb_steps b' = gb_steps b @ steps_of_path (gb_mapID b) pid i [wb]" "gb_matByID b' = gb_matByID b"
proof -
  obtain ns where ns: "upsert_case_node c True b = (wb_CaseID wb, b\<lparr>gb_nodeByID := ns\<rparr>)"
    "builder_ok (b\<lparr>gb_nodeByID := ns\<rparr>)" "map_of ns (wb_CaseID wb) \<noteq> None"
    "dom (map_of (gb_nodeByID b)) \<subseteq> dom (map_of ns)"
    using upsert_case_node [where ip = True] b c unfolding path_builder_def by blast
  define b2 where "b2 = import_path_step pid (Suc i) wb (wb_CaseID wb) (b\<lparr>gb_nodeByID := ns\<rparr>)"
  define b3 where "b3 = (if prev \<noteq> [] then add_control_edge H pid i prev (wb_CaseID wb) b2 else b2)"
  have b2: "builder_ok b2" unfolding b2_def using ns pid by (intro builder_ok_step) auto
  have nodes: "gb_nodeByID b2 = ns" "gb_nodeByID b3 = ns" "gb_pathByID b2 = gb_pathByID b" "gb_pathByID b3 = gb_pathByID b"
    by (simp_all add: b2_def b3_def import_path_step_def add_control_edge_def Let_def)
  have "prev \<noteq> [] \<Longrightarrow> map_of ns prev \<noteq> None" using prev ns(4) by blast
  then have ok: "builder_ok b3"
    using b2 ns(3) pid nodes unfolding b3_def by (auto intro!: builder_ok_control_edge)
  have "control_only b2" using b by (simp add: b2_def import_path_step_def control_only_def path_builder_def)
  then have ctl: "control_only b3" by (simp add: b3_def control_only_add)
  have idx: "same_catalog b b3"
    by (simp add: b3_def b2_def import_path_step_def add_control_edge_def Let_def same_catalog_def)
  then have "cases_indexed b3" using b by (simp add: path_builder_def cases_indexed_def same_catalog_def)
  with ok ctl have pb: "path_builder b3" by (simp add: path_builder_def)
  have run: "import_bindings H pid (wb # wbs) prev i b = import_bindings H pid wbs (wb_CaseID wb) (Suc i) b3" for wbs
    by (simp add: c ns(1) b2_def b3_def)
  show thesis
    by (rule that [OF run pb _ nodes(4) idx])
      (use ns(3) nodes in \<open>simp_all add: b3_def b2_def import_path_step_def add_control_edge_def Let_def\<close>)
qed

lemma import_bindings_Inr:
  assumes "import_bindings H pid wbs prev i b = Inr (n, b')" "path_builder b"
    "map_of (gb_pathByID b) pid \<noteq> None" "prev = [] \<or> map_of (gb_nodeByID b) prev \<noteq> None"
  shows "path_builder b' \<and> same_catalog b b' \<and> gb_pathByID b' = gb_pathByID b \<and> gb_matByID b' = gb_matByID b \<and>
    n = i + length (filter (binding_active b) wbs) \<and>
    gb_steps b' = gb_steps b @ steps_of_path (gb_mapID b) pid i (filter (binding_active b) wbs)"
  using assms
proof (induction wbs arbitrary: prev i b)
  case (Cons wb wbs)
  show ?case
  proof (cases "map_of (gb_caseByID b) (wb_CaseID wb)")
    case None
    with Cons.prems(1) have "import_bindings H pid wbs prev i b = Inr (n, b')" by (auto split: if_splits)
    from Cons.IH [OF this Cons.prems(2-4)] None show ?thesis by (simp add: binding_active_def)
  next
    case (Some c)
    obtain b1 where b1: "\<And>wbs. import_bindings H pid (wb # wbs) prev i b = import_bindings H pid wbs (wb_CaseID wb) (Suc i) b1"
      "path_builder b1" "map_of (gb_nodeByID b1) (wb_CaseID wb) \<noteq> None" "gb_pathByID b1 = gb_pathByID b"
      "same_catalog b b1" "gb_steps b1 = gb_steps b @ steps_of_path (gb_mapID b) pid i [wb]" "gb_matByID b1 = gb_matByID b"
      using import_one_binding [OF Cons.prems(2) Some Cons.prems(3,4), where H = H and i = i] by metis
    have act: "binding_active b1 = binding_active b" "gb_mapID b1 = gb_mapID b"
      using b1(5) by (auto simp: binding_active_def same_catalog_def)
    have "import_bindings H pid wbs (wb_CaseID wb) (Suc i) b1 = Inr (n, b')" using Cons.prems(1) b1(1) by metis
    from Cons.IH [OF this b1(2)] b1(3,4) Cons.prems(3)
    have ih: "path_builder b' \<and> same_catalog b1 b' \<and> gb_pathByID b' = gb_pathByID b \<and> gb_matByID b' = gb_matByID b1 \<and>
        n = Suc i + length (filter (binding_active b) wbs) \<and>
        gb_steps b' = gb_steps b1 @ steps_of_path (gb_mapID b) pid (Suc i) (filter (binding_active b) wbs)"
      by (simp add: act)
    have "binding_active b wb" using Some by (simp add: binding_active_def)
    with ih b1(5-7) show ?thesis using same_catalog_trans [OF b1(5)] by simp
  qed
qed simp

lemma import_bindings_Inl:
  assumes "path_builder b" "map_of (gb_pathByID b) pid \<noteq> None" "prev = [] \<or> map_of (gb_nodeByID b) prev \<noteq> None"
  shows "case import_bindings H pid wbs prev i b of
      Inl e \<Rightarrow> \<exists>wb \<in> set wbs. wb_Required wb \<and> \<not> binding_active b wb \<and>
        e = Missing_Required_Case pid (trim_space (wb_StepID wb)) (wb_CaseID wb)
    | Inr _ \<Rightarrow> \<forall>wb \<in> set wbs. wb_Required wb \<longrightarrow> binding_active b wb"
  using assms
proof (induction wbs arbitrary: prev i b)
  case (Cons wb wbs)
  show ?case
  proof (cases "map_of (gb_caseByID b) (wb_CaseID wb)")
    case None
    then show ?thesis using Cons.IH [OF Cons.prems, of i]
      by (auto simp: binding_active_def split: sum.splits)
  next
    case (Some c)
    obtain b1 where b1: "\<And>wbs. import_bindings H pid (wb # wbs) prev i b = import_bindings H pid wbs (wb_CaseID wb) (Suc i) b1"
      "path_builder b1" "map_of (gb_nodeByID b1) (wb_CaseID wb) \<noteq> None" "gb_pathByID b1 = gb_pathByID b"
      "same_catalog b b1"
      using import_one_binding [OF Cons.prems(1) Some Cons.prems(2,3), where H = H and i = i] by metis
    have act: "binding_active b1 = binding_active b"
      using b1(5) by (auto simp: binding_active_def same_catalog_def)
    have "binding_active b wb" using Some by (simp add: binding_active_def)
    moreover have "map_of (gb_pathByID b1) pid \<noteq> None" using b1(4) Cons.prems(2) by simp
    ultimately show ?thesis
      using Cons.IH [OF b1(2) _ disjI2, of "wb_CaseID wb" "Suc i"] b1(3) unfolding b1(1) act
      by (auto split: sum.splits)
  qed
qed simp

lemma path_builder_put_path:
  assumes "path_builder b" "pa_ID p = k"
  shows "path_builder (b\<lparr>gb_pathByID := obj_put k p (gb_pathByID b)\<rparr>)"
proof -
  have "cases_indexed (b\<lparr>gb_pathByID := ps\<rparr>) = cases_indexed b" "control_only (b\<lparr>gb_pathByID := ps\<rparr>) = control_only b" for ps
    by (simp_all add: cases_indexed_def control_only_def)
  then show ?thesis using assms builder_ok_put_path unfolding path_builder_def by metis
qed

lemma same_catalog_put_path [simp]: "same_catalog b (b\<lparr>gb_pathByID := ps\<rparr>)"
  by (simp add: same_catalog_def)

lemma set_sort_workflow_bindings [simp]: "set (sort_workflow_bindings wbs) = set wbs"
  by (simp add: sort_workflow_bindings_def)

text \<open>One path of the loop: its bindings are imported into the builder that already has the path.\<close>

lemma import_path_list_Cons:
  assumes b: "path_builder b"
  obtains b1 where "path_builder b1" "same_catalog b b1" "gb_steps b1 = gb_steps b" "gb_matByID b1 = gb_matByID b"
    "dom (map_of (gb_pathByID b1)) = insert pid (dom (map_of (gb_pathByID b)))"
    "\<And>e. import_bindings H pid (sort_workflow_bindings wbs) [] 0 b1 = Inl e \<Longrightarrow>
       import_path_list H index ((pid, wbs) # ps) b = Inl e"
    "\<And>n b2. import_bindings H pid (sort_workflow_bindings wbs) [] 0 b1 = Inr (n, b2) \<Longrightarrow>
       \<exists>p. pa_ID p = pid \<and> import_path_list H index ((pid, wbs) # ps) b =
         import_path_list H (Suc index) ps (b2\<lparr>gb_pathByID := obj_put pid p (gb_pathByID b2)\<rparr>)"
proof
  let ?b1 = "b\<lparr>gb_pathByID := obj_put pid (import_path pid (Suc index) b) (gb_pathByID b)\<rparr>"
  have pa: "pa_ID (import_path pid i b) = pid" for i by (simp add: import_path_def Let_def)
  show "path_builder ?b1" by (rule path_builder_put_path [OF b pa])
  fix n b2 assume "import_bindings H pid (sort_workflow_bindings wbs) [] 0 ?b1 = Inr (n, b2)"
  then show "\<exists>p. pa_ID p = pid \<and> import_path_list H index ((pid, wbs) # ps) b =
         import_path_list H (Suc index) ps (b2\<lparr>gb_pathByID := obj_put pid p (gb_pathByID b2)\<rparr>)"
    by (intro exI [of _ "import_path pid (Suc index) b\<lparr>pa_SummaryJSON := obj_text [(''stepCount'', jnat n)]\<rparr>"])
      (simp add: Let_def pa)
qed (simp_all add: Let_def)

definition kept_steps :: "graph_builder \<Rightarrow> (ident \<times> workflow_binding list) list \<Rightarrow> path_step list" where
  "kept_steps b ps = concat (map (\<lambda>(pid, wbs).
     steps_of_path (gb_mapID b) pid 0 (filter (binding_active b) (sort_workflow_bindings wbs))) ps)"

definition required_missing :: "graph_builder \<Rightarrow> workflow_binding \<Rightarrow> bool" where
  "required_missing b wb \<longleftrightarrow> wb_Required wb \<and> \<not> binding_active b wb"

lemma same_catalog_active:
  assumes "same_catalog b b'"
  shows "binding_active b' = binding_active b" "required_missing b' = required_missing b" "kept_steps b' = kept_steps b"
proof -
  show a: "binding_active b' = binding_active b" using assms by (simp add: same_catalog_def binding_active_def fun_eq_iff)
  show "required_missing b' = required_missing b" by (simp add: required_missing_def fun_eq_iff a)
  show "kept_steps b' = kept_steps b" using assms by (simp add: kept_steps_def fun_eq_iff a same_catalog_def)
qed

lemma import_path_list_Inr:
  assumes "import_path_list H index ps b = Inr b'" "path_builder b"
  shows "path_builder b' \<and> same_catalog b b' \<and> gb_matByID b' = gb_matByID b \<and>
    gb_steps b' = gb_steps b @ kept_steps b ps \<and>
    dom (map_of (gb_pathByID b')) = dom (map_of (gb_pathByID b)) \<union> fst ` set ps"
  using assms
proof (induction ps arbitrary: index b)
  case (Cons pw rest)
  obtain pid wbs where pw: "pw = (pid, wbs)" by fastforce
  obtain b1 where b1: "path_builder b1" "same_catalog b b1" "gb_steps b1 = gb_steps b" "gb_matByID b1 = gb_matByID b"
    "dom (map_of (gb_pathByID b1)) = insert pid (dom (map_of (gb_pathByID b)))"
    and err: "\<And>e. import_bindings H pid (sort_workflow_bindings wbs) [] 0 b1 = Inl e \<Longrightarrow>
       import_path_list H index ((pid, wbs) # rest) b = Inl e"
    and ok: "\<And>n b2. import_bindings H pid (sort_workflow_bindings wbs) [] 0 b1 = Inr (n, b2) \<Longrightarrow>
       \<exists>p. pa_ID p = pid \<and> import_path_list H index ((pid, wbs) # rest) b =
         import_path_list H (Suc index) rest (b2\<lparr>gb_pathByID := obj_put pid p (gb_pathByID b2)\<rparr>)"
    using import_path_list_Cons [OF Cons.prems(2), where H = H and pid = pid and wbs = wbs and index = index and ps = rest] by metis
  obtain n b2 where r: "import_bindings H pid (sort_workflow_bindings wbs) [] 0 b1 = Inr (n, b2)"
    using err Cons.prems(1) pw by (cases "import_bindings H pid (sort_workflow_bindings wbs) [] 0 b1") auto
  obtain p where p: "pa_ID p = pid"
    "import_path_list H (Suc index) rest (b2\<lparr>gb_pathByID := obj_put pid p (gb_pathByID b2)\<rparr>) = Inr b'"
    using ok [OF r] Cons.prems(1) pw by auto
  let ?b3 = "b2\<lparr>gb_pathByID := obj_put pid p (gb_pathByID b2)\<rparr>"
  have "map_of (gb_pathByID b1) pid \<noteq> None" using b1(5) by (metis domIff insertI1)
  then have b2: "path_builder b2" "same_catalog b1 b2" "gb_pathByID b2 = gb_pathByID b1" "gb_matByID b2 = gb_matByID b1"
    "gb_steps b2 = gb_steps b1 @ steps_of_path (gb_mapID b1) pid 0 (filter (binding_active b1) (sort_workflow_bindings wbs))"
    using import_bindings_Inr [OF r b1(1)] by blast+
  have b3: "path_builder ?b3" by (rule path_builder_put_path [OF b2(1) p(1)])
  have cat: "same_catalog b ?b3"
    using same_catalog_trans [OF same_catalog_trans [OF b1(2) b2(2)] same_catalog_put_path] .
  have ih: "path_builder b' \<and> same_catalog ?b3 b' \<and> gb_matByID b' = gb_matByID ?b3 \<and>
      gb_steps b' = gb_steps ?b3 @ kept_steps b rest \<and>
      dom (map_of (gb_pathByID b')) = dom (map_of (gb_pathByID ?b3)) \<union> fst ` set rest"
    using Cons.IH [OF p(2) b3] by (simp only: same_catalog_active [OF cat])
  have "gb_mapID b1 = gb_mapID b" using b1(2) by (simp add: same_catalog_def)
  then have "gb_steps ?b3 @ kept_steps b rest = gb_steps b @ kept_steps b (pw # rest)"
    using b2(5) b1(3) same_catalog_active [OF b1(2)] by (simp add: kept_steps_def pw)
  moreover have "dom (map_of (gb_pathByID ?b3)) \<union> fst ` set rest = dom (map_of (gb_pathByID b)) \<union> fst ` set (pw # rest)"
    using b1(5) b2(3) pw by auto
  ultimately show ?case using ih same_catalog_trans [OF cat] b2(4) b1(4) by simp
qed (simp add: kept_steps_def)

lemma import_path_list_error:
  assumes "path_builder b"
  shows "case import_path_list H index ps b of
      Inl e \<Rightarrow> \<exists>(pid, wbs) \<in> set ps. \<exists>wb \<in> set wbs. required_missing b wb \<and>
        e = Missing_Required_Case pid (trim_space (wb_StepID wb)) (wb_CaseID wb)
    | Inr _ \<Rightarrow> \<forall>(pid, wbs) \<in> set ps. \<forall>wb \<in> set wbs. \<not> required_missing b wb"
  using assms
proof (induction ps arbitrary: index b)
  case (Cons pw rest)
  obtain pid wbs where pw: "pw = (pid, wbs)" by fastforce
  obtain b1 where b1: "path_builder b1" "same_catalog b b1"
    "dom (map_of (gb_pathByID b1)) = insert pid (dom (map_of (gb_pathByID b)))"
    and err: "\<And>e. import_bindings H pid (sort_workflow_bindings wbs) [] 0 b1 = Inl e \<Longrightarrow>
       import_path_list H index ((pid, wbs) # rest) b = Inl e"
    and ok: "\<And>n b2. import_bindings H pid (sort_workflow_bindings wbs) [] 0 b1 = Inr (n, b2) \<Longrightarrow>
       \<exists>p. pa_ID p = pid \<and> import_path_list H index ((pid, wbs) # rest) b =
         import_path_list H (Suc index) rest (b2\<lparr>gb_pathByID := obj_put pid p (gb_pathByID b2)\<rparr>)"
    using import_path_list_Cons [OF Cons.prems, where H = H and pid = pid and wbs = wbs and index = index and ps = rest] by metis
  have path: "map_of (gb_pathByID b1) pid \<noteq> None" using b1(3) by (metis domIff insertI1)
  have bs: "case import_bindings H pid (sort_workflow_bindings wbs) [] 0 b1 of
      Inl e \<Rightarrow> \<exists>wb \<in> set wbs. required_missing b wb \<and> e = Missing_Required_Case pid (trim_space (wb_StepID wb)) (wb_CaseID wb)
    | Inr _ \<Rightarrow> \<forall>wb \<in> set wbs. \<not> required_missing b wb"
    using import_bindings_Inl [OF b1(1) path disjI1 [OF refl], where H = H and wbs = "sort_workflow_bindings wbs" and i = 0]
    unfolding same_catalog_active(2) [OF b1(2), symmetric] by (auto simp: required_missing_def split: sum.splits)
  show ?case
  proof (cases "import_bindings H pid (sort_workflow_bindings wbs) [] 0 b1")
    case (Inl e)
    then show ?thesis using err [OF Inl] bs by (simp add: pw del: import_path_list.simps)
  next
    case (Inr r)
    obtain n b2 where r: "r = (n, b2)" by fastforce
    obtain p where p: "pa_ID p = pid" "import_path_list H index (pw # rest) b =
        import_path_list H (Suc index) rest (b2\<lparr>gb_pathByID := obj_put pid p (gb_pathByID b2)\<rparr>)"
      using ok Inr r pw by blast
    let ?b3 = "b2\<lparr>gb_pathByID := obj_put pid p (gb_pathByID b2)\<rparr>"
    have b2: "path_builder b2" "same_catalog b1 b2"
      using import_bindings_Inr [OF Inr [unfolded r] b1(1) path] by blast+
    have cat: "same_catalog b ?b3"
      using same_catalog_trans [OF same_catalog_trans [OF b1(2) b2(2)] same_catalog_put_path] .
    have "\<forall>wb \<in> set wbs. \<not> required_missing b wb" using bs Inr by simp
    then show ?thesis
      using Cons.IH [OF path_builder_put_path [OF b2(1) p(1)], of "Suc index"] pw
      unfolding p(2) same_catalog_active(2) [OF cat] by (auto split: sum.splits)
  qed
qed simp

section \<open>Validation cases, fixtures and dependencies\<close>

definition same_paths :: "graph_builder \<Rightarrow> graph_builder \<Rightarrow> bool" where
  "same_paths b b' \<longleftrightarrow> same_catalog b b' \<and> gb_steps b' = gb_steps b \<and> gb_pathByID b' = gb_pathByID b"

lemma same_paths_refl [simp]: "same_paths b b"
  by (simp add: same_paths_def)

lemma same_paths_trans: "same_paths b c \<Longrightarrow> same_paths c d \<Longrightarrow> same_paths b d"
  by (auto simp: same_paths_def intro: same_catalog_trans)

lemma fold_invariant:
  assumes "\<And>x s. x \<in> set xs \<Longrightarrow> P s \<Longrightarrow> P (f x s)" "P s"
  shows "P (fold f xs s)"
  using assms by (induction xs arbitrary: s) auto

lemma same_paths_cases: "same_paths b b' \<Longrightarrow> cases_indexed b' = cases_indexed b"
  by (simp add: same_paths_def same_catalog_def cases_indexed_def)

lemma upsert_same_paths:
  assumes "builder_ok b" "cases_indexed b" "map_of (gb_caseByID b) k = Some c"
  shows "\<exists>b'. upsert_case_node c ip b = (k, b') \<and> builder_ok b' \<and> map_of (gb_nodeByID b') k \<noteq> None \<and>
    same_paths b b' \<and> gb_edgeByID b' = gb_edgeByID b"
  using upsert_case_node [OF assms, of ip] by (auto simp: same_paths_def same_catalog_def)

lemma indexed_case:
  "cases_indexed b \<Longrightarrow> c \<in> set (map snd (gb_caseByID b)) \<Longrightarrow> \<exists>k. map_of (gb_caseByID b) k = Some c"
  by (auto simp: cases_indexed_def dest!: obj_wf_distinct intro: map_of_is_SomeI)

lemma import_validation_cases_ok:
  assumes "path_builder b"
  shows "path_builder (import_validation_cases b) \<and> same_paths b (import_validation_cases b)"
  unfolding import_validation_cases_def
proof (rule fold_invariant)
  fix c s assume c: "c \<in> set (map snd (gb_caseByID b))" and s: "path_builder s \<and> same_paths b s"
  have "cases_indexed b" using assms by (simp add: path_builder_def)
  then obtain k where "map_of (gb_caseByID b) k = Some c" using indexed_case c by blast
  then have k: "map_of (gb_caseByID s) k = Some c" using s by (simp add: same_paths_def same_catalog_def)
  obtain s' where s': "upsert_case_node c False s = (k, s')" "builder_ok s'" "same_paths s s'" "gb_edgeByID s' = gb_edgeByID s"
    using upsert_same_paths [OF _ _ k] s unfolding path_builder_def by blast
  have "path_builder s'" using s s' same_paths_cases [OF s'(3)] by (simp add: path_builder_def control_only_def)
  then show "path_builder (import_validation_case c s) \<and> same_paths b (import_validation_case c s)"
    using s s'(1,3) by (auto simp: import_validation_case_def intro: same_paths_trans)
qed (simp add: assms)

definition sources_have_paths :: "graph_builder \<Rightarrow> bool" where
  "sources_have_paths b \<longleftrightarrow> (\<forall>k. bindings_of (gb_bindingsByPath b) k \<noteq> [] \<longrightarrow> map_of (gb_pathByID b) k \<noteq> None)"

lemma same_paths_sources: "same_paths b b' \<Longrightarrow> sources_have_paths b' = sources_have_paths b"
  by (simp add: same_paths_def same_catalog_def sources_have_paths_def)

lemma node_id_source: "node_id_for_workflow_step b w s \<noteq> [] \<Longrightarrow> bindings_of (gb_bindingsByPath b) w \<noteq> []"
  by (auto simp: node_id_for_workflow_step_def sort_workflow_bindings_def)

lemma import_fixture_ok:
  assumes "path_builder b" "sources_have_paths b"
  shows "path_builder (import_fixture f b) \<and> same_paths b (import_fixture f b)"
proof -
  have put: "path_builder (b\<lparr>gb_matByID := obj_put k m (gb_matByID b)\<rparr>)"
    if "mz_ID m = k" "map_of (gb_pathByID b) (mz_SourcePathID m) \<noteq> None" for k m
  proof -
    have "builder_ok (b\<lparr>gb_matByID := obj_put k m (gb_matByID b)\<rparr>)"
      using assms(1) that by (intro builder_ok_put_mat) (simp_all add: path_builder_def control_only_def)
    then show ?thesis using assms(1) by (simp add: path_builder_def cases_indexed_def control_only_def)
  qed
  have path: "map_of (gb_pathByID b) w \<noteq> None" if "node_id_for_workflow_step b w s \<noteq> []" for w s
    using node_id_source [OF that] assms(2) by (simp add: sources_have_paths_def)
  have "same_paths b (b\<lparr>gb_matByID := ms\<rparr>)" for ms by (simp add: same_paths_def same_catalog_def)
  then show ?thesis
    unfolding import_fixture_def Let_def using assms(1)
    by (auto simp del: not_None_eq intro!: put path)
qed

lemma import_dependency_ok:
  assumes "builder_ok b" "cases_indexed b"
  shows "builder_ok (import_dependency H d b) \<and> same_paths b (import_dependency H d b)"
proof (cases "is_active_status (cd_Status d)")
  case True
  have target: "builder_ok b1 \<and> same_paths b b1 \<and> map_of (gb_nodeByID b1) t \<noteq> None"
    if t: "dependency_target (trim_space (cd_CaseID d)) b = Some (t, b1)" for t b1
  proof (cases "map_of (gb_nodeByID b) (trim_space (cd_CaseID d))")
    case None
    then obtain c where "map_of (gb_caseByID b) (trim_space (cd_CaseID d)) = Some c"
      "upsert_case_node c False b = (t, b1)"
      using t by (auto simp: dependency_target_def)
    then show ?thesis using upsert_same_paths [OF assms, of "trim_space (cd_CaseID d)" c False] by auto
  next
    case (Some n)
    then have "nd_ID n = trim_space (cd_CaseID d)" using assms(1) by (auto simp: builder_ok_def dest: keyed_SomeD)
    then show ?thesis using t Some assms(1) by (auto simp: dependency_target_def)
  qed
  have edge: "builder_ok (b1\<lparr>gb_edgeByID := obj_put k e (gb_edgeByID b1)\<rparr>)"
    if "builder_ok b1" "map_of (gb_nodeByID b1) (ed_ToNodeID e) \<noteq> None" "ed_ID e = k" "ed_Kind e = EdgeKindFixture"
      "map_of (gb_matByID b1) mid = Some m" "ed_MaterializationID e = mz_ID m" "ed_FromNodeID e = mz_SourceUntilNodeID m" for b1 k e mid m
  proof -
    have "mz_ID m = mid" using that(1,5) by (auto simp: builder_ok_def dest: keyed_SomeD)
    then show ?thesis using that
      by (intro builder_ok_put_edge) (simp_all add: edge_ok_def EdgeKindControl_def EdgeKindFixture_def)
  qed
  have same: "same_paths b b1 \<Longrightarrow> same_paths b (b1\<lparr>gb_edgeByID := es\<rparr>)" for b1 es
    by (simp add: same_paths_def same_catalog_def)
  show ?thesis
    unfolding import_dependency_def Let_def
    using True assms target by (auto split: option.splits intro!: edge same)
qed (simp add: import_dependency_def assms)

lemma import_materializations_ok:
  assumes "path_builder b" "sources_have_paths b"
  shows "builder_ok (import_materializations H b) \<and> same_paths b (import_materializations H b)"
proof -
  let ?fs = "sort_key (\<lambda>f. (fx_SortOrder f, fx_ID f)) (pc_Fixtures (gb_catalog b))"
  let ?b1 = "fold import_fixture ?fs b"
  have fixtures: "path_builder ?b1 \<and> same_paths b ?b1"
  proof (rule fold_invariant)
    fix f s assume s: "path_builder s \<and> same_paths b s"
    then have "sources_have_paths s" using assms(2) same_paths_sources by blast
    then show "path_builder (import_fixture f s) \<and> same_paths b (import_fixture f s)"
      using import_fixture_ok s same_paths_trans by blast
  qed (simp add: assms)
  have "builder_ok (fold (import_dependency H) ds ?b1) \<and> cases_indexed (fold (import_dependency H) ds ?b1) \<and>
      same_paths b (fold (import_dependency H) ds ?b1)" for ds
  proof (rule fold_invariant)
    fix d s assume "builder_ok s \<and> cases_indexed s \<and> same_paths b s"
    then show "builder_ok (import_dependency H d s) \<and> cases_indexed (import_dependency H d s) \<and>
        same_paths b (import_dependency H d s)"
      using import_dependency_ok same_paths_cases same_paths_trans by metis
  qed (use fixtures in \<open>simp add: path_builder_def\<close>)
  then show ?thesis unfolding import_materializations_def by blast
qed

section \<open>The whole import\<close>

lemma new_builder_ok: "path_builder (new_graph_builder cat mid wids)"
  using obj_wf_index_cases [of "pc_APICases cat"]
  by (auto simp: path_builder_def builder_ok_def cases_indexed_def control_only_def new_graph_builder_def Let_def
    dest: index_cases_SomeD)

lemma filter_steps_of_path: "filter (\<lambda>s. ps_PathID s = p) (steps_of_path mid pid i wbs) =
    (if p = pid then steps_of_path mid pid i wbs else [])"
  by (induction wbs arbitrary: i) auto

lemma filter_kept_steps:
  assumes "distinct (map fst ps)"
  shows "filter (\<lambda>s. ps_PathID s = p) (kept_steps b ps) = (case map_of ps p of None \<Rightarrow> []
    | Some wbs \<Rightarrow> steps_of_path (gb_mapID b) p 0 (filter (binding_active b) (sort_workflow_bindings wbs)))"
  using assms
proof (induction ps)
  case (Cons pw ps)
  then show ?case
    by (cases pw) (auto simp: kept_steps_def filter_steps_of_path map_of_eq_None_iff split: option.splits
      dest: map_of_SomeD intro: rev_image_eqI)
qed (simp add: kept_steps_def)

lemma sorted_steps_of_path: "sorted (map (\<lambda>s. (ps_PathID s, ps_StepIndex s)) (steps_of_path mid pid i wbs))"
proof (induction wbs arbitrary: i)
  case (Cons wb wbs)
  have "\<forall>s \<in> set (steps_of_path mid pid j wbs). ps_PathID s = pid \<and> int j < ps_StepIndex s" for j
    by (induction wbs arbitrary: j) fastforce+
  then show ?case using Cons by (auto simp: less_eq_prod_def) (metis less_imp_le of_nat_Suc)
qed simp


lemma import_catalog_Inr:
  assumes "import_catalog H clock ord cat opts = Inr g"
  shows "\<exists>b. trim_space (pc_ProfileID cat) \<noteq> [] \<and>
    import_paths H (new_graph_builder cat (import_map_id cat opts) (im_WorkflowIDs opts)) = Inr b \<and>
    g = finalize (import_map clock cat opts) (import_materializations H (import_validation_cases b)) \<and>
    validate_dag ord g = Inr ()"
  using assms by (auto simp: import_catalog_def Let_def split: if_splits sum.splits)

text \<open>The builder at the end of a successful import, in one place.\<close>

lemma imported_builder:
  assumes "import_catalog H clock ord cat opts = Inr g"
  obtains b where "g = finalize (import_map clock cat opts) b" "builder_ok b" "validate_dag ord g = Inr ()"
    "gb_steps b = kept_steps (new_graph_builder cat (import_map_id cat opts) (im_WorkflowIDs opts))
       (index_bindings (normalized_workflow_id_set (im_WorkflowIDs opts)) (pc_WorkflowBindings cat))"
    "dom (map_of (gb_pathByID b)) = dom (map_of (index_bindings (normalized_workflow_id_set (im_WorkflowIDs opts)) (pc_WorkflowBindings cat)))"
proof -
  let ?b0 = "new_graph_builder cat (import_map_id cat opts) (im_WorkflowIDs opts)"
  obtain b1 where b1: "import_paths H ?b0 = Inr b1" and v: "validate_dag ord g = Inr ()"
    and g: "g = finalize (import_map clock cat opts) (import_materializations H (import_validation_cases b1))"
    using import_catalog_Inr [OF assms] by blast
  let ?bs = "index_bindings (normalized_workflow_id_set (im_WorkflowIDs opts)) (pc_WorkflowBindings cat)"
  have bs: "gb_bindingsByPath ?b0 = ?bs" "gb_steps ?b0 = []" "gb_pathByID ?b0 = []"
    by (simp_all add: new_graph_builder_def Let_def)
  have "import_path_list H 0 ?bs ?b0 = Inr b1" using b1 by (simp add: import_paths_def bs split: if_splits)
  from import_path_list_Inr [OF this new_builder_ok]
  have p1: "path_builder b1" "same_catalog ?b0 b1" "gb_steps b1 = kept_steps ?b0 ?bs"
    "dom (map_of (gb_pathByID b1)) = fst ` set ?bs"
    using bs by auto
  let ?b2 = "import_validation_cases b1" let ?b3 = "import_materializations H ?b2"
  have b2: "path_builder ?b2" "same_paths b1 ?b2" using import_validation_cases_ok [OF p1(1)] by simp_all
  have bs1: "gb_bindingsByPath b1 = ?bs" using p1(2) bs(1) by (simp add: same_catalog_def)
  have "sources_have_paths b1"
    unfolding sources_have_paths_def
  proof (intro allI impI)
    fix k assume "bindings_of (gb_bindingsByPath b1) k \<noteq> []"
    then have "map_of ?bs k \<noteq> None" by (auto simp: bs1 bindings_of_def split: option.splits)
    then have "k \<in> fst ` set ?bs" by (metis map_of_eq_None_iff)
    then show "map_of (gb_pathByID b1) k \<noteq> None" using p1(4) by blast
  qed
  then have "sources_have_paths ?b2" using same_paths_sources [OF b2(2)] by simp
  from import_materializations_ok [OF b2(1) this]
  have b3: "builder_ok ?b3" "same_paths b1 ?b3" using same_paths_trans [OF b2(2)] by blast+
  show thesis
  proof (rule that [OF g b3(1) v])
    show "gb_steps ?b3 = kept_steps ?b0 ?bs" using b3(2) p1(3) by (simp add: same_paths_def)
    show "dom (map_of (gb_pathByID ?b3)) = dom (map_of ?bs)"
      using b3(2) p1(4) by (simp add: same_paths_def dom_map_of_conv_image_fst)
  qed
qed




lemma finalize_path_steps:
  assumes "builder_ok b" "gb_steps b = kept_steps b0 ps" "distinct (map fst ps)"
  shows "path_steps (finalize mp b) p = (case map_of ps p of None \<Rightarrow> []
    | Some wbs \<Rightarrow> steps_of_path (gb_mapID b0) p 0 (filter (binding_active b0) (sort_workflow_bindings wbs)))"
proof -
  have "path_steps (finalize mp b) p = sort_key (\<lambda>s. (ps_PathID s, ps_StepIndex s)) (filter (\<lambda>s. ps_PathID s = p) (kept_steps b0 ps))"
    by (simp add: path_steps_def finalize_def Let_def assms(2) filter_sort)
  then show ?thesis
    by (simp add: filter_kept_steps [OF assms(3)] sort_key_id_if_sorted sorted_steps_of_path split: option.split)
qed


lemma import_steps:
  assumes "import_catalog H clock ord cat opts = Inr g"
  shows "path_steps g pid = steps_of_path (import_map_id cat opts) pid 0
      (filter (\<lambda>wb. case_active cat (wb_CaseID wb)) (path_bindings cat (im_WorkflowIDs opts) pid)) \<and>
    pa_ID ` set (gr_Paths g) = {p. path_bindings cat (im_WorkflowIDs opts) p \<noteq> []}"
proof -
  let ?b0 = "new_graph_builder cat (import_map_id cat opts) (im_WorkflowIDs opts)"
  let ?flt = "normalized_workflow_id_set (im_WorkflowIDs opts)" let ?bs = "index_bindings ?flt (pc_WorkflowBindings cat)"
  obtain b where b: "g = finalize (import_map clock cat opts) b" "builder_ok b"
    "gb_steps b = kept_steps ?b0 ?bs" "dom (map_of (gb_pathByID b)) = dom (map_of ?bs)"
    using imported_builder [OF assms] by metis
  have "binding_active ?b0 = (\<lambda>wb. case_active cat (wb_CaseID wb))" "gb_mapID ?b0 = import_map_id cat opts"
    by (simp_all add: binding_active_def case_active_def new_graph_builder_def Let_def fun_eq_iff)
  then have "path_steps g pid = steps_of_path (import_map_id cat opts) pid 0
      (filter (\<lambda>wb. case_active cat (wb_CaseID wb)) (path_bindings cat (im_WorkflowIDs opts) pid))"
    unfolding b(1) finalize_path_steps [OF b(2,3) obj_wf_distinct [OF obj_wf_index_bindings]]
    by (simp add: map_of_index_bindings path_bindings_def Let_def sort_workflow_bindings_def)
  moreover have "pa_ID ` set (gr_Paths g) = {p. path_bindings cat (im_WorkflowIDs opts) p \<noteq> []}"
  proof -
  have "keyed pa_ID (gb_pathByID b)" using b(2) by (simp add: builder_ok_def)
  then have "pa_ID ` set (gr_Paths g) = dom (map_of (gb_pathByID b))"
    unfolding b(1) using keyed_snd [of pa_ID "gb_pathByID b"] by (auto simp: finalize_def Let_def dom_def)
  moreover have "dom (map_of ?bs) = {p. path_bindings cat (im_WorkflowIDs opts) p \<noteq> []}"
    by (auto simp: map_of_index_bindings path_bindings_def Let_def dom_def sort_workflow_bindings_def simp flip: set_empty)
  ultimately show ?thesis using b(4) by simp
  qed
  ultimately show ?thesis ..
qed

text \<open>Every way in which the import can end.\<close>

definition import_outcome :: "profile_catalog \<Rightarrow> ident list \<Rightarrow> graph_error + graph \<Rightarrow> bool" where
  "import_outcome cat wids r =
     (let flt = normalized_workflow_id_set wids;
          kept = List.map_filter (keep_binding flt) (pc_WorkflowBindings cat);
          missing = (\<lambda>wb. wb_Required wb \<and> \<not> case_active cat (wb_CaseID wb))
      in case r of
           Inr g \<Rightarrow> \<not> blank (pc_ProfileID cat) \<and> (flt = [] \<or> kept \<noteq> []) \<and> \<not> list_ex missing kept
         | Inl Profile_ID_Required \<Rightarrow> blank (pc_ProfileID cat)
         | Inl (No_Bindings_Matched ids) \<Rightarrow> flt \<noteq> [] \<and> kept = [] \<and> ids = map fst flt
         | Inl (Missing_Required_Case pid sid cid) \<Rightarrow>
             list_ex (\<lambda>wb. missing wb \<and> wb_WorkflowID wb = pid \<and> trim_space (wb_StepID wb) = sid \<and> wb_CaseID wb = cid) kept
         | Inl (Cycle_At n) \<Rightarrow> \<not> list_ex missing kept
         | Inl _ \<Rightarrow> False)"

lemma index_bindings_entries:
  "(\<exists>(pid, wbs) \<in> set (index_bindings flt bs). \<exists>wb \<in> set wbs. P pid wb) \<longleftrightarrow>
     (\<exists>wb \<in> set (List.map_filter (keep_binding flt) bs). P (wb_WorkflowID wb) wb)"
proof
  assume "\<exists>(pid, wbs) \<in> set (index_bindings flt bs). \<exists>wb \<in> set wbs. P pid wb"
  then obtain pid wbs wb where w: "(pid, wbs) \<in> set (index_bindings flt bs)" "wb \<in> set wbs" "P pid wb" by blast
  then have "map_of (index_bindings flt bs) pid = Some wbs" using obj_wf_distinct [OF obj_wf_index_bindings] by simp
  with w(2,3) show "\<exists>wb \<in> set (List.map_filter (keep_binding flt) bs). P (wb_WorkflowID wb) wb"
    by (auto simp: map_of_index_bindings Let_def split: if_splits)
next
  assume "\<exists>wb \<in> set (List.map_filter (keep_binding flt) bs). P (wb_WorkflowID wb) wb"
  then obtain wb where wb: "wb \<in> set (List.map_filter (keep_binding flt) bs)" "P (wb_WorkflowID wb) wb" by blast
  let ?xs = "filter (\<lambda>x. wb_WorkflowID x = wb_WorkflowID wb) (List.map_filter (keep_binding flt) bs)"
  have x: "wb \<in> set ?xs" using wb by simp
  then have "?xs \<noteq> []" by (metis list.set_cases list.distinct(1))
  then have "map_of (index_bindings flt bs) (wb_WorkflowID wb) = Some ?xs" by (simp only: map_of_index_bindings Let_def if_False)
  then have "(wb_WorkflowID wb, ?xs) \<in> set (index_bindings flt bs)" by (rule map_of_SomeD)
  with x wb(2) show "\<exists>(pid, wbs) \<in> set (index_bindings flt bs). \<exists>wb \<in> set wbs. P pid wb" by blast
qed

lemma index_bindings_Nil_iff: "index_bindings flt bs = [] \<longleftrightarrow> List.map_filter (keep_binding flt) bs = []"
proof
  assume "index_bindings flt bs = []"
  then have "\<not> (\<exists>wb \<in> set (List.map_filter (keep_binding flt) bs). True)"
    using index_bindings_entries [of flt bs "\<lambda>_ _. True"] by simp
  then show "List.map_filter (keep_binding flt) bs = []" by (metis list.set_intros(1) neq_Nil_conv)
next
  assume "List.map_filter (keep_binding flt) bs = []"
  then have "map_of (index_bindings flt bs) p = None" for p by (simp add: map_of_index_bindings)
  then show "index_bindings flt bs = []" by (cases "index_bindings flt bs") (auto split: if_splits, metis option.distinct(1))
qed

lemma import_paths_outcome:
  assumes "b0 = new_graph_builder cat mid wids" "flt = normalized_workflow_id_set wids"
    "kept = List.map_filter (keep_binding flt) (pc_WorkflowBindings cat)"
    "missing = (\<lambda>wb. wb_Required wb \<and> \<not> case_active cat (wb_CaseID wb))"
  shows "case import_paths H b0 of
      Inl e \<Rightarrow> e = No_Bindings_Matched (map fst flt) \<and> flt \<noteq> [] \<and> kept = [] \<or>
        (\<exists>wb \<in> set kept. missing wb \<and> e = Missing_Required_Case (wb_WorkflowID wb) (trim_space (wb_StepID wb)) (wb_CaseID wb))
    | Inr b \<Rightarrow> (flt = [] \<or> kept \<noteq> []) \<and> \<not> list_ex missing kept"
proof -
  have b0: "gb_bindingsByPath b0 = index_bindings flt (pc_WorkflowBindings cat)" "gb_workflowFilter b0 = flt"
    "required_missing b0 = missing"
    using assms by (simp_all add: new_graph_builder_def Let_def required_missing_def binding_active_def case_active_def fun_eq_iff)
  have pb: "path_builder b0" using assms(1) new_builder_ok by simp
  let ?r = "import_path_list H 0 (index_bindings flt (pc_WorkflowBindings cat)) b0"
  note entries = index_bindings_entries [of flt "pc_WorkflowBindings cat", folded assms(3)]
  have run: "case ?r of
      Inl e \<Rightarrow> \<exists>wb \<in> set kept. missing wb \<and> e = Missing_Required_Case (wb_WorkflowID wb) (trim_space (wb_StepID wb)) (wb_CaseID wb)
    | Inr _ \<Rightarrow> \<not> (\<exists>wb \<in> set kept. missing wb)"
    using import_path_list_error [OF pb, where H = H and index = 0 and ps = "index_bindings flt (pc_WorkflowBindings cat)"]
      entries [where P = "\<lambda>pid wb. missing wb \<and> e = Missing_Required_Case pid (trim_space (wb_StepID wb)) (wb_CaseID wb)" for e]
      entries [where P = "\<lambda>_ wb. missing wb"]
    unfolding b0 by (cases ?r) (auto simp: case_prod_unfold)
  show ?thesis
  proof (cases "flt \<noteq> [] \<and> kept = []")
    case True
    then show ?thesis using index_bindings_Nil_iff [of flt "pc_WorkflowBindings cat"] assms(3)
      by (simp add: import_paths_def b0)
  next
    case False
    then have "import_paths H b0 = ?r" using index_bindings_Nil_iff [of flt "pc_WorkflowBindings cat"] assms(3)
      by (auto simp: import_paths_def b0)
    then show ?thesis using run False by (auto simp: list_ex_iff split: sum.splits)
  qed
qed

lemma import_ends:
  assumes "is_range_order ord"
  shows "import_outcome cat (im_WorkflowIDs opts) (import_catalog H clock ord cat opts)"
proof (cases "blank (pc_ProfileID cat)")
  case True
  then show ?thesis by (simp add: import_catalog_def import_outcome_def blank_def)
next
  case False
  let ?r = "import_paths H (new_graph_builder cat (import_map_id cat opts) (im_WorkflowIDs opts))"
  have paths: "case ?r of
      Inl e \<Rightarrow> import_outcome cat (im_WorkflowIDs opts) (Inl e)
    | Inr b \<Rightarrow> \<forall>g. import_outcome cat (im_WorkflowIDs opts) (Inr g) \<and> (\<forall>n. import_outcome cat (im_WorkflowIDs opts) (Inl (Cycle_At n)))"
    using import_paths_outcome [OF refl refl refl refl, where H = H and cat = cat and mid = "import_map_id cat opts" and wids = "im_WorkflowIDs opts"] False
    by (auto simp: import_outcome_def Let_def list_ex_iff split: sum.splits)
  show ?thesis
  proof (cases ?r)
    case (Inl e)
    then show ?thesis using paths False by (simp add: import_catalog_def blank_def)
  next
    case (Inr b)
    let ?g = "finalize (import_map clock cat opts) (import_materializations H (import_validation_cases b))"
    have "import_catalog H clock ord cat opts = (case validate_dag ord ?g of Inl e \<Rightarrow> Inl e | Inr _ \<Rightarrow> Inr ?g)"
      using Inr False by (simp add: import_catalog_def blank_def Let_def)
    then show ?thesis
      using paths Inr validate_dag_Inl [OF assms, of ?g] by (auto split: sum.splits)
  qed
qed

section \<open>Properties\<close>

definition catalog_case :: "ident \<Rightarrow> string \<Rightarrow> api_case" where
  "catalog_case i scenario = \<lparr>ac_ID = i, ac_DisplayName = i, ac_Description = [], ac_NodeID = ''n'', ac_CaseType = [],
     ac_Scenario = scenario, ac_Tags = None, ac_Priority = [], ac_Owner = [], ac_PayloadTemplateJSON = [],
     ac_RequestTemplateID = [], ac_PatchJSON = [], ac_RenderMode = [], ac_ExpectedJSON = [],
     ac_RequiredForAdmission = False, ac_Status = [], ac_SortOrder = 0, ac_CasePath = [], ac_SourceKind = [],
     ac_SourcePath = [], ac_ExecutorID = [], ac_BaseURL = [], ac_EvidenceDir = [], ac_TimeoutSeconds = 0,
     ac_DefaultOverridesJSON = []\<rparr>"

definition catalog_binding :: "ident \<Rightarrow> ident \<Rightarrow> bool \<Rightarrow> int \<Rightarrow> workflow_binding" where
  "catalog_binding s c req k = \<lparr>wb_WorkflowID = ''w'', wb_StepID = s, wb_NodeID = ''n'', wb_CaseID = c,
     wb_Required = req, wb_SortOrder = k\<rparr>"

definition catalog_fixture :: "ident \<Rightarrow> ident \<Rightarrow> fixture" where
  "catalog_fixture i s = \<lparr>fx_ID = i, fx_DisplayName = i, fx_Kind = ''workflow_prefix'', fx_DataJSON = [],
     fx_SourceWorkflowID = ''w'', fx_SourceUntilStep = s, fx_TTLSeconds = 0, fx_Status = [], fx_SortOrder = 0\<rparr>"

definition catalog_dependency :: "ident \<Rightarrow> ident \<Rightarrow> ident \<Rightarrow> case_dependency" where
  "catalog_dependency i c f = \<lparr>cd_ID = i, cd_CaseID = c, cd_FixtureID = f, cd_MappingsJSON = [], cd_Required = True,
     cd_Status = [], cd_SortOrder = 0\<rparr>"

text \<open>
  The workflow has three steps, the second an optional one whose case does not exist; one fixture
  ends at the first step and one at the second; the validation case depends on the fixture \<open>fix\<close>.
\<close>

definition small_catalog :: "ident \<Rightarrow> bool \<Rightarrow> profile_catalog" where
  "small_catalog fix req = \<lparr>pc_ProfileID = ''p'', pc_IndexedAt = 1, pc_Workflows = [],
     pc_APICases = [catalog_case ''a'' [], catalog_case ''b'' [], catalog_case ''v'' ''invalid input''],
     pc_WorkflowBindings = [catalog_binding ''s3'' ''b'' True 3, catalog_binding ''s2'' ''gone'' req 2, catalog_binding ''s1'' ''a'' True 1],
     pc_CaseDependencies = [catalog_dependency ''d'' ''v'' fix],
     pc_Fixtures = [catalog_fixture ''f1'' ''s1'', catalog_fixture ''f2'' ''s2''], pc_TemplateConfigs = []\<rparr>"

definition plain_options :: import_options where
  "plain_options = \<lparr>im_MapID = [], im_DisplayName = [], im_Description = [], im_WorkflowIDs = [''w''], im_Now = 5\<rparr>"

definition plain_hashes :: hashes where
  "plain_hashes = \<lparr>hash_sha1 = rev, hash_sha256 = rev\<rparr>"

abbreviation small_import :: "ident \<Rightarrow> bool \<Rightarrow> graph_error + graph" where
  "small_import fix req \<equiv> import_catalog plain_hashes 1 rev (small_catalog fix req) plain_options"

lemma small_import_ok: "\<exists>g. small_import ''f1'' False = Inr g"
proof -
  have "\<not> isl (small_import ''f1'' False)" by code_simp
  then show ?thesis by (cases "small_import ''f1'' False") auto
qed



text \<open>
  C30. A path of the imported map is the workflow it stands for: its steps, in the order in which
  they are stored, are the bindings of the workflow in binding order, less the optional ones whose
  case is missing or inactive, numbered from 1 without gaps; and the map has a path for every
  requested workflow with at least one usable binding and for no other.
\<close>

theorem imported_path_is_the_workflow:
  assumes "import_catalog H clock ord cat opts = Inr g"
  shows "path_steps g pid = steps_of_path (import_map_id cat opts) pid 0
      (filter (\<lambda>wb. case_active cat (wb_CaseID wb)) (path_bindings cat (im_WorkflowIDs opts) pid)) \<and>
    pa_ID ` set (gr_Paths g) = {p. path_bindings cat (im_WorkflowIDs opts) p \<noteq> []}"
  by (rule import_steps [OF assms])

theorem imported_path_is_the_workflow_witness:
  "\<exists>g. small_import ''f1'' False = Inr g \<and>
     map (\<lambda>s. (ps_StepIndex s, ps_StepID s, ps_NodeID s)) (path_steps g ''w'') = [(1, ''s1'', ''a''), (2, ''s3'', ''b'')]"
proof -
  obtain g where g: "small_import ''f1'' False = Inr g" using small_import_ok by blast
  have c: "map (\<lambda>s. (ps_StepIndex s, ps_StepID s, ps_NodeID s)) (steps_of_path (import_map_id (small_catalog ''f1'' False) plain_options) ''w'' 0
      (filter (\<lambda>wb. case_active (small_catalog ''f1'' False) (wb_CaseID wb)) (path_bindings (small_catalog ''f1'' False) (im_WorkflowIDs plain_options) ''w''))) =
    [(1, ''s1'', ''a''), (2, ''s3'', ''b'')]" by code_simp
  have "map (\<lambda>s. (ps_StepIndex s, ps_StepID s, ps_NodeID s)) (path_steps g ''w'') = [(1, ''s1'', ''a''), (2, ''s3'', ''b'')]"
    using c unfolding imported_path_is_the_workflow [OF g, of "''w''", THEN conjunct1] .
  with g show ?thesis by (intro exI [of _ g] conjI)
qed

text \<open>
  C31. The import ends in one of five ways, each for its own reason: without a profile identifier;
  with a workflow filter that matches no binding, naming the requested workflows; at a required
  binding whose case is missing or inactive, naming that binding; at a cycle; or with a map, and then
  none of the first three reasons holds. The search for a cycle itself always returns.
\<close>

theorem import_ends_for_a_reason:
  assumes "is_range_order ord"
  shows "import_outcome cat (im_WorkflowIDs opts) (import_catalog H clock ord cat opts)"
  by (rule import_ends [OF assms])

theorem import_ends_for_a_reason_witness:
  "small_import ''f1'' True = Inl (Missing_Required_Case ''w'' ''s2'' ''gone'') \<and>
   import_outcome (small_catalog ''f1'' True) (im_WorkflowIDs plain_options) (small_import ''f1'' True)"
proof -
  have "small_import ''f1'' True = Inl (Missing_Required_Case ''w'' ''s2'' ''gone'')" by code_simp
  with import_ends_for_a_reason [OF is_range_order_rev, where cat = "small_catalog ''f1'' True" and opts = plain_options
      and H = plain_hashes and clock = 1] show ?thesis by simp
qed


end
