(* ===== verification/Go_Sort.thy ===== *)
theory Go_Sort
  imports TB_Prelude
begin

text \<open>
  Sorting and comparing as Go programs do: \<open>sort.SliceStable\<close> with a \<open>less\<close> function, also
  the \<open>order by\<close> of a query, and comparison functions that return -1, 0 or 1. The locale
  \<open>comparison\<close> is the contract of such a function; comparisons are built from others by a key, one
  after the other, and over lists.
\<close>

section \<open>Stable sorting\<close>

fun insert_before :: "('a \<Rightarrow> 'a \<Rightarrow> bool) \<Rightarrow> 'a \<Rightarrow> 'a list \<Rightarrow> 'a list" where
  "insert_before lt x [] = [x]"
| "insert_before lt x (y # ys) = (if lt y x then y # insert_before lt x ys else x # y # ys)"

definition order_by :: "('a \<Rightarrow> 'a \<Rightarrow> bool) \<Rightarrow> 'a list \<Rightarrow> 'a list" where
  "order_by lt xs = foldr (insert_before lt) xs []"

lemma order_by_simps [simp]:
  "order_by lt [] = []" "order_by lt (x # xs) = insert_before lt x (order_by lt xs)"
  by (simp_all add: order_by_def)

lemma mset_insert_before [simp]: "mset (insert_before lt x xs) = add_mset x (mset xs)"
  by (induction xs) simp_all

lemma mset_order_by [simp]: "mset (order_by lt xs) = mset xs"
  by (induction xs) simp_all

lemma set_order_by [simp]: "set (order_by lt xs) = set xs"
  using mset_order_by [of lt xs] by (metis set_mset_mset)

lemma length_order_by [simp]: "length (order_by lt xs) = length xs"
  using mset_order_by [of lt xs] by (metis size_mset)

lemma order_by_Nil_iff [simp]: "order_by lt xs = [] \<longleftrightarrow> xs = []"
  by (metis length_0_conv length_order_by)

lemma insert_before_not_Nil [simp]: "insert_before lt x xs \<noteq> []"
  by (cases xs) auto

section \<open>Comparisons\<close>

locale comparison =
  fixes cmp :: "'a \<Rightarrow> 'a \<Rightarrow> int"
  assumes sign: "cmp x y = 1 \<or> cmp x y = 0 \<or> cmp x y = -1"
    and swap: "cmp y x = - cmp x y"
    and trans: "cmp x y \<le> 0 \<Longrightarrow> cmp y z \<le> 0 \<Longrightarrow> cmp x z \<le> 0"
begin

lemma same [simp]: "cmp x x = 0"
  using swap [of x x] by simp

lemma total: "cmp x y \<le> 0 \<or> cmp y x \<le> 0"
  using swap [of x y] by linarith

lemma less_trans: "cmp x y \<le> 0 \<Longrightarrow> cmp y z < 0 \<Longrightarrow> cmp x z < 0"
  using trans [of z x y] trans [of x y z] swap [of x z] swap [of y z] by fastforce

lemma trans_less: "cmp x y < 0 \<Longrightarrow> cmp y z \<le> 0 \<Longrightarrow> cmp x z < 0"
  using trans [of y z x] trans [of x y z] swap [of x z] swap [of x y] by fastforce

text \<open>The first of a list that is sorted in descending order is a greatest one.\<close>

lemma greatest_first: "\<forall>y \<in> set xs. cmp y (hd (order_by (\<lambda>a b. 0 < cmp a b) xs)) \<le> 0"
proof (induction xs)
  case (Cons x xs)
  let ?s = "order_by (\<lambda>a b. 0 < cmp a b) xs"
  show ?case
  proof (cases ?s)
    case Nil
    then have "xs = []" by simp
    then show ?thesis by simp
  next
    case (Cons g gs)
    have g: "cmp y g \<le> 0" if "y \<in> set xs" for y using Cons.IH Cons that by auto
    show ?thesis
    proof (cases "0 < cmp g x")
      case True
      then show ?thesis using Cons g swap [of x g] by auto
    next
      case False
      then show ?thesis using Cons g trans [of _ g x] by auto
    qed
  qed
qed simp

end

locale total_comparison = comparison cmp for cmp :: "'a \<Rightarrow> 'a \<Rightarrow> int" +
  assumes same_only: "cmp x y = 0 \<Longrightarrow> x = y"
begin

lemma zero_iff [simp]: "cmp x y = 0 \<longleftrightarrow> x = y"
  using same_only by auto

text \<open>The greatest element of a list does not depend on its order, nor on repetitions.\<close>

lemma greatest_unique:
  assumes "set xs = set ys" "xs \<noteq> []"
  shows "hd (order_by (\<lambda>a b. 0 < cmp a b) xs) = hd (order_by (\<lambda>a b. 0 < cmp a b) ys)"
proof -
  let ?a = "hd (order_by (\<lambda>a b. 0 < cmp a b) xs)" and ?b = "hd (order_by (\<lambda>a b. 0 < cmp a b) ys)"
  have ys: "ys \<noteq> []" using assms by auto
  have "?a \<in> set xs" "?b \<in> set ys" using assms(2) ys hd_in_set set_order_by order_by_Nil_iff by metis+
  then have "cmp ?a ?b \<le> 0" "cmp ?b ?a \<le> 0" using greatest_first [of ys] greatest_first [of xs] assms(1) by auto
  then have "cmp ?a ?b = 0" using swap [of ?a ?b] by linarith
  then show ?thesis by (rule same_only)
qed

end

lemma comparison_key: "comparison c \<Longrightarrow> comparison (\<lambda>x y. c (f x) (f y))"
  unfolding comparison_def by blast

definition then_by :: "('a \<Rightarrow> 'a \<Rightarrow> int) \<Rightarrow> ('a \<Rightarrow> 'a \<Rightarrow> int) \<Rightarrow> 'a \<Rightarrow> 'a \<Rightarrow> int" where
  "then_by c d x y = (if c x y \<noteq> 0 then c x y else d x y)"

lemma comparison_then:
  assumes "comparison c" "comparison d"
  shows "comparison (then_by c d)"
proof
  fix x y z
  note c = comparison.swap [OF assms(1)] and d = comparison.swap [OF assms(2)]
  show "then_by c d x y = 1 \<or> then_by c d x y = 0 \<or> then_by c d x y = -1"
    using comparison.sign [OF assms(1), of x y] comparison.sign [OF assms(2), of x y] by (auto simp: then_by_def)
  show "then_by c d y x = - then_by c d x y"
    using c [of y x] d [of y x] by (simp add: then_by_def)
  assume h: "then_by c d x y \<le> 0" "then_by c d y z \<le> 0"
  then have le: "c x y \<le> 0" "c y z \<le> 0" by (auto simp: then_by_def split: if_splits)
  have xz: "c x z \<le> 0" using comparison.trans [OF assms(1) le] .
  show "then_by c d x z \<le> 0"
  proof (cases "c x y < 0 \<or> c y z < 0")
    case True
    then have "c x z < 0"
      using comparison.less_trans [OF assms(1) le(1)] comparison.trans_less [OF assms(1) _ le(2)] by blast
    then show ?thesis by (simp add: then_by_def)
  next
    case False
    then have "c x y = 0" "c y z = 0" using le by auto
    then have "d x z \<le> 0" using h comparison.trans [OF assms(2), of x y z] by (simp add: then_by_def)
    then show ?thesis using xz by (simp add: then_by_def)
  qed
qed

definition compare_ord :: "'a::linorder \<Rightarrow> 'a \<Rightarrow> int" where
  "compare_ord x y = (if x < y then -1 else if x = y then 0 else 1)"

interpretation ord: total_comparison "compare_ord :: 'a::linorder \<Rightarrow> 'a \<Rightarrow> int"
  by unfold_locales (auto simp: compare_ord_def split: if_splits)

text \<open>Comparing element by element, where a proper prefix comes first.\<close>

fun compare_lists :: "('a \<Rightarrow> 'a \<Rightarrow> int) \<Rightarrow> 'a list \<Rightarrow> 'a list \<Rightarrow> int" where
  "compare_lists c [] [] = 0"
| "compare_lists c [] (y # ys) = -1"
| "compare_lists c (x # xs) [] = 1"
| "compare_lists c (x # xs) (y # ys) = (if c x y \<noteq> 0 then c x y else compare_lists c xs ys)"

context comparison begin

lemma sign_lists: "compare_lists cmp xs ys = 1 \<or> compare_lists cmp xs ys = 0 \<or> compare_lists cmp xs ys = -1"
proof (induction xs arbitrary: ys)
  case (Cons x xs)
  then show ?case using sign [of x "hd ys"] by (cases ys) auto
qed (case_tac ys; simp)

lemma swap_lists: "compare_lists cmp ys xs = - compare_lists cmp xs ys"
proof (induction xs arbitrary: ys)
  case (Cons x xs)
  then show ?case using swap [of x "hd ys"] by (cases ys) auto
qed (case_tac ys; simp)

lemma trans_lists:
  "compare_lists cmp xs ys \<le> 0 \<Longrightarrow> compare_lists cmp ys zs \<le> 0 \<Longrightarrow> compare_lists cmp xs zs \<le> 0"
proof (induction xs arbitrary: ys zs)
  case Nil
  then show ?case by (cases zs) auto
next
  case (Cons x xs)
  obtain y ys' where y: "ys = y # ys'" using Cons.prems(1) by (cases ys) auto
  obtain z zs' where z: "zs = z # zs'" using Cons.prems(2) y by (cases zs) auto
  have le: "cmp x y \<le> 0" "cmp y z \<le> 0" using Cons.prems y z by (auto split: if_splits)
  show ?case
  proof (cases "cmp x y < 0 \<or> cmp y z < 0")
    case True
    then have "cmp x z < 0" using less_trans [OF le(1)] trans_less [OF _ le(2)] by blast
    then show ?thesis using z by simp
  next
    case False
    then have "cmp x y = 0" "cmp y z = 0" using le by auto
    moreover from this have "compare_lists cmp xs zs' \<le> 0"
      using Cons.IH [of ys' zs'] Cons.prems y z by simp
    moreover have "cmp x z \<le> 0" using trans le by blast
    ultimately show ?thesis using z by simp
  qed
qed

lemma lists: "comparison (compare_lists cmp)"
  by unfold_locales (rule sign_lists, rule swap_lists, rule trans_lists)

end

end
