(* ===== verification/Agent_Tasks.thy ===== *)
theory Agent_Tasks
  imports Map_Store Map_Run_Prepare Go_Sort
begin

text \<open>
  Recurring agent tasks: their rows and the statements on them
  (\<open>internal/store/sqlstore/store_tasks.go\<close>, \<open>internal/store/store.go\<close>), the interval
  schedules and the worker that claims and runs due tasks (\<open>task_worker.go\<close>,
  \<open>task_runtime.go\<close>, \<open>task_commands.go\<close> in \<open>cmd/agent-testbench\<close>).

  A row is the task with its claim token. Every SQL statement is a function of the state; what other
  connections commit between the statements of one operation is an argument. The worker runs in a
  \<open>task_world\<close>: the clock, fresh tokens, the command runner, notifications, the commits of others
  and outages, which may hit a statement before or after it took effect.
\<close>

section \<open>Rows\<close>

record agent_task =
  at_ID :: ident
  at_Name :: string
  at_Kind :: string
  at_Command :: string
  at_Schedule :: string
  at_Status :: string
  at_NotifyJSON :: string
  at_SummaryJSON :: string
  at_CreatedAt :: time
  at_UpdatedAt :: time
  at_LatestStatus :: string
  at_LatestRunID :: ident
  at_LastRunAt :: time
  at_RunCount :: int

record agent_task_run =
  ru_ID :: ident
  ru_TaskID :: ident
  ru_Status :: string
  ru_Command :: string
  ru_StartedAt :: time
  ru_FinishedAt :: time
  ru_DurationMs :: int
  ru_ExitCode :: int
  ru_Output :: string
  ru_Error :: string
  ru_SummaryJSON :: string
  ru_CreatedAt :: time

record agent_task_claim =
  cl_TaskID :: ident
  cl_Revision :: time
  cl_Token :: string

record task_row =
  ro_Task :: agent_task
  ro_ClaimToken :: string

record task_db =
  td_tasks :: "task_row list"
  td_runs :: "agent_task_run list"

datatype task_error =
    Task_Not_Found ident
  | Task_Claimed ident
  | Task_Not_Inserted ident
  | Run_Not_Recorded ident
  | Store_Unavailable
  | Unsupported_Schedule string
  | Invalid_Interval string
  | Interval_And_Cron
  | Interval_Not_Positive
  | Cron_Unsupported
  | Schedule_Required
  | Notification_Settings_Unreadable
  | Notification_Failed
  | Command_Failed string
  | Run_Not_Persisted
  | Claim_Changed
  | List_Failed task_error
  | Claim_Failed string task_error
  | Reload_Failed task_error
  | Unknown_Outcome string
  | Release_Failed string task_error
  | Claim_No_Longer_Matches string
  | Task_Name_Required
  | Task_Command_Required

definition StatusScheduled :: string where "StatusScheduled = ''scheduled''"
definition StatusPaused :: string where "StatusPaused = ''paused''"

definition prepare_agent_task :: "agent_task \<Rightarrow> time \<Rightarrow> agent_task" where
  "prepare_agent_task t now = t\<lparr>
     at_Kind := (if at_Kind t = [] then ''cli'' else at_Kind t),
     at_Status := (if at_Status t = [] then ''active'' else at_Status t),
     at_NotifyJSON := (if blank (at_NotifyJSON t) then ''{}'' else at_NotifyJSON t),
     at_SummaryJSON := (if blank (at_SummaryJSON t) then ''{}'' else at_SummaryJSON t),
     at_CreatedAt := (if at_CreatedAt t = zero_time then now else at_CreatedAt t),
     at_UpdatedAt := (if at_UpdatedAt t = zero_time then now else at_UpdatedAt t)\<rparr>"

definition prepare_agent_task_run :: "agent_task_run \<Rightarrow> time \<Rightarrow> agent_task_run" where
  "prepare_agent_task_run r0 now =
     (let r1 = (if ru_CreatedAt r0 = zero_time then r0\<lparr>ru_CreatedAt := now\<rparr> else r0);
          r2 = (if ru_StartedAt r1 = zero_time then r1\<lparr>ru_StartedAt := ru_CreatedAt r1\<rparr> else r1);
          r3 = (if ru_FinishedAt r2 = zero_time \<and> ru_Status r2 \<noteq> StatusRunning
                then r2\<lparr>ru_FinishedAt := ru_StartedAt r2\<rparr> else r2);
          r4 = (if ru_DurationMs r3 = 0 \<and> ru_StartedAt r3 \<noteq> zero_time \<and> ru_FinishedAt r3 \<noteq> zero_time
                then r3\<lparr>ru_DurationMs := max 0 ((ru_FinishedAt r3 - ru_StartedAt r3) div 1000000)\<rparr> else r3);
          r5 = (if ru_Status r4 = [] then r4\<lparr>ru_Status := StatusPassed\<rparr> else r4)
      in if blank (ru_SummaryJSON r5) then r5\<lparr>ru_SummaryJSON := ''{}''\<rparr> else r5)"

section \<open>Statements\<close>

definition task_before :: "sql_dialect \<Rightarrow> task_row \<Rightarrow> task_row \<Rightarrow> bool" where
  "task_before sd a b \<longleftrightarrow> sd_after sd (at_UpdatedAt (ro_Task a)) (at_UpdatedAt (ro_Task b)) \<or>
     (\<not> sd_after sd (at_UpdatedAt (ro_Task b)) (at_UpdatedAt (ro_Task a)) \<and> at_ID (ro_Task a) < at_ID (ro_Task b))"

definition run_before :: "sql_dialect \<Rightarrow> agent_task_run \<Rightarrow> agent_task_run \<Rightarrow> bool" where
  "run_before sd a b \<longleftrightarrow> sd_after sd (ru_StartedAt a) (ru_StartedAt b) \<or>
     (\<not> sd_after sd (ru_StartedAt b) (ru_StartedAt a) \<and>
       (sd_after sd (ru_CreatedAt a) (ru_CreatedAt b) \<or>
         (\<not> sd_after sd (ru_CreatedAt b) (ru_CreatedAt a) \<and> ru_ID b < ru_ID a)))"

definition runs_of_task :: "sql_dialect \<Rightarrow> task_db \<Rightarrow> ident \<Rightarrow> agent_task_run list" where
  "runs_of_task sd db tid = order_by (run_before sd) (filter (\<lambda>r. ru_TaskID r = tid) (td_runs db))"

definition scan_agent_task :: "sql_dialect \<Rightarrow> task_db \<Rightarrow> task_row \<Rightarrow> agent_task" where
  "scan_agent_task sd db row =
     (let t = ro_Task row; rs = runs_of_task sd db (at_ID t) in t\<lparr>
        at_NotifyJSON := normalize_json_text (at_NotifyJSON t),
        at_SummaryJSON := normalize_json_text (at_SummaryJSON t),
        at_CreatedAt := sd_read sd (at_CreatedAt t), at_UpdatedAt := sd_read sd (at_UpdatedAt t),
        at_LatestStatus := (case rs of [] \<Rightarrow> [] | r # _ \<Rightarrow> ru_Status r),
        at_LatestRunID := (case rs of [] \<Rightarrow> [] | r # _ \<Rightarrow> ru_ID r),
        at_LastRunAt := (case rs of [] \<Rightarrow> zero_time | r # _ \<Rightarrow> sd_read sd (ru_FinishedAt r)),
        at_RunCount := int (length rs)\<rparr>)"

definition get_agent_task :: "sql_dialect \<Rightarrow> ident \<Rightarrow> task_db \<Rightarrow> task_error + agent_task" where
  "get_agent_task sd ref db =
     (case order_by (task_before sd) (filter (\<lambda>r. at_ID (ro_Task r) = ref \<or> at_Name (ro_Task r) = ref) (td_tasks db)) of
        [] \<Rightarrow> Inl (Task_Not_Found ref)
      | r # _ \<Rightarrow> Inr (scan_agent_task sd db r))"

definition list_agent_tasks :: "sql_dialect \<Rightarrow> task_db \<Rightarrow> agent_task list" where
  "list_agent_tasks sd db = map (scan_agent_task sd db) (order_by (task_before sd) (td_tasks db))"

text \<open>An \<open>update ... where\<close>: the number of rows it matched and the new state.\<close>

definition update_where :: "(task_row \<Rightarrow> bool) \<Rightarrow> (task_row \<Rightarrow> task_row) \<Rightarrow> task_db \<Rightarrow> nat \<times> task_db" where
  "update_where P f db =
     (length (filter P (td_tasks db)), db\<lparr>td_tasks := map (\<lambda>r. if P r then f r else r) (td_tasks db)\<rparr>)"

definition update_agent_task_definition :: "agent_task \<Rightarrow> task_db \<Rightarrow> bool \<times> task_db" where
  "update_agent_task_definition t db =
     (let (n, db') = update_where (\<lambda>r. at_ID (ro_Task r) = at_ID t \<and> at_Status (ro_Task r) \<noteq> StatusRunning)
        (\<lambda>r. r\<lparr>ro_Task := (ro_Task r)\<lparr>at_Name := at_Name t, at_Kind := at_Kind t, at_Command := at_Command t,
             at_Schedule := at_Schedule t, at_Status := at_Status t, at_NotifyJSON := at_NotifyJSON t,
             at_SummaryJSON := at_SummaryJSON t, at_UpdatedAt := at_UpdatedAt t\<rparr>, ro_ClaimToken := []\<rparr>) db
      in (n = 1, db'))"

definition insert_agent_task :: "agent_task \<Rightarrow> task_db \<Rightarrow> bool \<times> task_db" where
  "insert_agent_task t db =
     (if \<exists>r \<in> set (td_tasks db). at_ID (ro_Task r) = at_ID t \<or> at_Name (ro_Task r) = at_Name t then (False, db)
      else (True, db\<lparr>td_tasks := td_tasks db @ [\<lparr>ro_Task = t, ro_ClaimToken = []\<rparr>]\<rparr>))"

text \<open>\<open>commits n\<close> is what is committed before the statement \<open>n\<close> after the first.\<close>

definition upsert_agent_task :: "sql_dialect \<Rightarrow> time \<Rightarrow> (nat \<Rightarrow> task_db \<Rightarrow> task_db) \<Rightarrow> agent_task \<Rightarrow> task_db \<Rightarrow>
  (task_error + agent_task) \<times> task_db" where
  "upsert_agent_task sd now commits t0 db =
     (let t = prepare_agent_task t0 now; (updated, db1) = update_agent_task_definition t db in
      if updated then (Inr t, db1)
      else
        (let db2 = commits 1 db1 in
         case get_agent_task sd (at_ID t) db2 of
           Inr existing \<Rightarrow>
             if at_Status existing = StatusRunning then (Inl (Task_Claimed (at_ID t)), db2)
             else
               (let (again, db3) = update_agent_task_definition t (commits 2 db2)
                in (if again then Inr t else Inl (Task_Claimed (at_ID t)), db3))
         | Inl _ \<Rightarrow>
             (let (inserted, db3) = insert_agent_task t (commits 2 db2) in
              if inserted then (Inr t, db3)
              else
                (let db4 = commits 3 db3 in
                 (case get_agent_task sd (at_ID t) db4 of
                    Inr existing \<Rightarrow>
                      Inl (if at_Status existing = StatusRunning then Task_Claimed (at_ID t) else Task_Not_Inserted (at_ID t))
                  | Inl _ \<Rightarrow> Inl (Task_Not_Inserted (at_ID t)), db4)))))"

definition next_agent_task_revision :: "time \<Rightarrow> time \<Rightarrow> time" where
  "next_agent_task_revision candidate previous =
     (let rev = truncate_us candidate in
      if \<not> time_after rev previous then truncate_us previous + microsecond else rev)"

definition transition_agent_task_status ::
  "sql_dialect \<Rightarrow> ident \<Rightarrow> string \<Rightarrow> string \<Rightarrow> time \<Rightarrow> time \<Rightarrow> string \<Rightarrow> task_db \<Rightarrow> bool \<times> task_db" where
  "transition_agent_task_status sd tid from_status to_status expected at token db =
     (let (n, db') = update_where (\<lambda>r. at_ID (ro_Task r) = tid \<and> at_Status (ro_Task r) = from_status \<and>
            sd_read sd (at_UpdatedAt (ro_Task r)) = sd_read sd expected)
        (\<lambda>r. r\<lparr>ro_Task := (ro_Task r)\<lparr>at_Status := to_status, at_UpdatedAt := at\<rparr>, ro_ClaimToken := token\<rparr>) db
      in (n = 1, db'))"

definition claim_scheduled_agent_task ::
  "sql_dialect \<Rightarrow> string \<Rightarrow> ident \<Rightarrow> time \<Rightarrow> time \<Rightarrow> task_db \<Rightarrow> (agent_task_claim \<times> bool) \<times> task_db" where
  "claim_scheduled_agent_task sd token tid expected claimed_at db =
     (let rev = next_agent_task_revision claimed_at expected;
          (changed, db') = transition_agent_task_status sd tid StatusScheduled StatusRunning expected rev token db
      in ((\<lparr>cl_TaskID = tid, cl_Revision = rev, cl_Token = token\<rparr>, changed), db'))"

definition release_scheduled_agent_task :: "agent_task_claim \<Rightarrow> time \<Rightarrow> task_db \<Rightarrow> bool \<times> task_db" where
  "release_scheduled_agent_task c released_at db =
     (if blank (cl_Token c) then (False, db)
      else
        (let rev = next_agent_task_revision released_at (cl_Revision c);
             (n, db') = update_where (\<lambda>r. at_ID (ro_Task r) = cl_TaskID c \<and> at_Status (ro_Task r) = StatusRunning \<and>
                 ro_ClaimToken r = cl_Token c)
               (\<lambda>r. r\<lparr>ro_Task := (ro_Task r)\<lparr>at_Status := StatusScheduled, at_UpdatedAt := rev\<rparr>, ro_ClaimToken := []\<rparr>) db
         in (n = 1, db')))"

definition recover_scheduled_agent_task :: "ident \<Rightarrow> time \<Rightarrow> task_db \<Rightarrow> bool \<times> task_db" where
  "recover_scheduled_agent_task tid recovered_at db =
     (let (n, db') = update_where (\<lambda>r. at_ID (ro_Task r) = tid \<and> at_Status (ro_Task r) = StatusRunning)
        (\<lambda>r. r\<lparr>ro_Task := (ro_Task r)\<lparr>at_Status := StatusPaused, at_UpdatedAt := truncate_us recovered_at\<rparr>,
             ro_ClaimToken := []\<rparr>) db
      in (n = 1, db'))"

definition record_agent_task_run :: "time \<Rightarrow> agent_task_run \<Rightarrow> task_db \<Rightarrow> (task_error + agent_task_run) \<times> task_db" where
  "record_agent_task_run now r0 db =
     (let r = prepare_agent_task_run r0 now in
      if \<exists>x \<in> set (td_runs db). ru_ID x = ru_ID r then (Inl (Run_Not_Recorded (ru_ID r)), db)
      else (Inr r, db\<lparr>td_runs := td_runs db @ [r]\<rparr>))"

definition list_agent_task_runs :: "sql_dialect \<Rightarrow> ident \<Rightarrow> int \<Rightarrow> task_db \<Rightarrow> agent_task_run list" where
  "list_agent_task_runs sd tid n db =
     (let limit = (if n \<le> 0 then 20 else n) in
      map (\<lambda>r. r\<lparr>ru_SummaryJSON := normalize_json_text (ru_SummaryJSON r), ru_StartedAt := sd_read sd (ru_StartedAt r),
             ru_FinishedAt := sd_read sd (ru_FinishedAt r), ru_CreatedAt := sd_read sd (ru_CreatedAt r)\<rparr>)
        (take (nat limit) (runs_of_task sd db tid)))"

section \<open>Schedules\<close>

text \<open>
  \<open>time.ParseDuration\<close>: a sum of decimal numbers with units, at most $2^{63}-1$ nanoseconds.
  A fraction is cut to nanoseconds.
\<close>

definition duration_unit :: "string \<Rightarrow> int option" where
  "duration_unit u = map_of [(''ns'', 1), (''us'', 1000), ([CHR 0xC2, CHR 0xB5, CHR ''s''], 1000),
     ([CHR 0xCE, CHR 0xBC, CHR ''s''], 1000), (''ms'', 1000000), (''s'', 1000000000), (''m'', 60000000000),
     (''h'', 3600000000000)] u"

definition split_fraction :: "string \<Rightarrow> string \<times> string" where
  "split_fraction s = (case s of c # r \<Rightarrow> if c = CHR ''.'' then (takeWhile is_digit r, dropWhile is_digit r) else ([], s)
     | [] \<Rightarrow> ([], []))"

definition is_unit_char :: "char \<Rightarrow> bool" where
  "is_unit_char c \<longleftrightarrow> c \<noteq> CHR ''.'' \<and> \<not> is_digit c"

lemma length_split_fraction: "length (snd (split_fraction s)) \<le> length s"
  by (auto simp: split_fraction_def split: list.splits intro: le_SucI length_dropWhile_le)

function parse_duration_sum :: "string \<Rightarrow> int \<Rightarrow> int option" where
  "parse_duration_sum s d =
     (if s = [] then Some d
      else
        (let ip = takeWhile is_digit s; fr = split_fraction (dropWhile is_digit s);
             u = takeWhile is_unit_char (snd fr); rest = dropWhile is_unit_char (snd fr)
         in if ip = [] \<and> fst fr = [] \<or> u = [] then None
            else (case duration_unit u of
                None \<Rightarrow> None
              | Some k \<Rightarrow>
                  (let v = int (nat_of_digits ip) * k + int (nat_of_digits (fst fr)) * k div 10 ^ length (fst fr) in
                   if 2 ^ 63 < d + v then None else parse_duration_sum rest (d + v)))))"
  by pat_completeness auto
termination
proof (relation "measure (\<lambda>(s, d). length s)")
  fix s :: string and d ip fr u rest k v
  assume eq: "fr = split_fraction (dropWhile is_digit s)" "u = takeWhile is_unit_char (snd fr)"
    "rest = dropWhile is_unit_char (snd fr)" and u: "\<not> (ip = [] \<and> fst fr = [] \<or> u = [])"
  have "length u + length rest = length (snd fr)"
    unfolding eq(2,3) by (metis length_append takeWhile_dropWhile_id)
  moreover have "length (snd fr) \<le> length s"
    unfolding eq(1) using length_split_fraction length_dropWhile_le le_trans by blast
  ultimately show "((rest, d + v), s, d) \<in> measure (\<lambda>(s, d). length s)" using u by (cases u) auto
qed simp

declare parse_duration_sum.simps [simp del]

definition parse_duration :: "string \<Rightarrow> time option" where
  "parse_duration s0 =
     (let neg = (case s0 of c # _ \<Rightarrow> c = CHR ''-'' | [] \<Rightarrow> False);
          s = (case s0 of c # r \<Rightarrow> if c = CHR ''-'' \<or> c = CHR ''+'' then r else s0 | [] \<Rightarrow> [])
      in if s = ''0'' then Some 0
         else if s = [] then None
         else (case parse_duration_sum s 0 of
             None \<Rightarrow> None
           | Some d \<Rightarrow> if neg then Some (- d) else if 2 ^ 63 - 1 < d then None else Some d))"

definition interval_prefix :: string where "interval_prefix = ''interval:''"

definition scheduled_agent_task_due :: "agent_task \<Rightarrow> time \<Rightarrow> task_error + bool" where
  "scheduled_agent_task_due t now =
     (if \<not> prefix interval_prefix (at_Schedule t) then Inl (Unsupported_Schedule (at_Schedule t))
      else
        (case parse_duration (trim_prefix interval_prefix (at_Schedule t)) of
           None \<Rightarrow> Inl (Invalid_Interval (at_Schedule t))
         | Some interval \<Rightarrow>
             if interval \<le> 0 then Inl (Invalid_Interval (at_Schedule t))
             else
               (let anchor1 = (if at_UpdatedAt t = zero_time then at_CreatedAt t else at_UpdatedAt t);
                    anchor = (if time_after (at_LastRunAt t) anchor1 then at_LastRunAt t else anchor1)
                in Inr (anchor = zero_time \<or> anchor + interval \<le> now))))"

definition task_schedule_value :: "string \<Rightarrow> string \<Rightarrow> task_error + string" where
  "task_schedule_value interval0 cron0 =
     (let interval = trim_space interval0; cron = trim_space cron0 in
      if interval \<noteq> [] \<and> cron \<noteq> [] then Inl Interval_And_Cron
      else if interval \<noteq> [] then
        (case parse_duration interval of
           None \<Rightarrow> Inl (Invalid_Interval interval)
         | Some d \<Rightarrow> if d \<le> 0 then Inl Interval_Not_Positive else Inr (interval_prefix @ interval))
      else if cron \<noteq> [] then Inl Cron_Unsupported
      else Inl Schedule_Required)"

section \<open>Notifications\<close>

record notification_options =
  no_File :: string
  no_Webhook :: string

record notify_result =
  nr_OK :: bool
  nr_Channel :: string
  nr_Target :: string
  nr_Error :: string

definition notify_json :: "notification_options \<Rightarrow> string" where
  "notify_json opts =
     (let p0 = (if blank (no_File opts) then [] else [(''file'', JStr (trim_space (no_File opts)))]);
          p1 = (if blank (no_Webhook opts) then [] else [(''webhook'', JStr (trim_space (no_Webhook opts)))])
      in obj_text (p0 @ p1))"

text \<open>A member decodes into the field whose name it equals up to case.\<close>

definition decode_text_field :: "string \<Rightarrow> obj \<Rightarrow> string option" where
  "decode_text_field name kvs = fold (\<lambda>(k, v) acc. if \<not> equal_fold k name then acc
     else (case v of JStr s \<Rightarrow> map_option (\<lambda>_. s) acc | JNull \<Rightarrow> acc | _ \<Rightarrow> None)) kvs (Some [])"

definition task_notification_options :: "string \<Rightarrow> task_error + notification_options" where
  "task_notification_options raw =
     (if blank raw then Inr \<lparr>no_File = [], no_Webhook = []\<rparr>
      else (case json_unmarshal raw of
          Some (JObj kvs) \<Rightarrow>
            (case (decode_text_field ''file'' kvs, decode_text_field ''webhook'' kvs) of
               (Some f, Some w) \<Rightarrow> Inr \<lparr>no_File = f, no_Webhook = w\<rparr>
             | _ \<Rightarrow> Inl Notification_Settings_Unreadable)
        | Some JNull \<Rightarrow> Inr \<lparr>no_File = [], no_Webhook = []\<rparr>
        | _ \<Rightarrow> Inl Notification_Settings_Unreadable))"

definition notification_results_ok :: "notify_result list \<Rightarrow> bool" where
  "notification_results_ok rs \<longleftrightarrow> list_all nr_OK rs"

section \<open>The worker\<close>

datatype task_event =
    Claimed_Task ident string
  | Ran_Command ident string
  | Recorded_Run ident ident
  | Released_Task ident string

record task_world =
  tw_dialect :: sql_dialect
  tw_clock :: "nat \<Rightarrow> time"
  tw_token :: "nat \<Rightarrow> string"
  tw_stamp :: "time \<Rightarrow> string"
  tw_crc32 :: "string \<Rightarrow> string"
  tw_commits :: "nat \<Rightarrow> task_db \<Rightarrow> task_db"
  tw_outage :: "nat \<Rightarrow> outage option"
  tw_command :: "nat \<Rightarrow> string \<Rightarrow> string \<Rightarrow> string \<times> int \<times> string option"
  tw_file :: "nat \<Rightarrow> string \<Rightarrow> agent_task \<Rightarrow> notify_result"
  tw_webhook :: "nat \<Rightarrow> string \<Rightarrow> agent_task \<Rightarrow> notify_result"

record worker_state =
  ws_db :: task_db
  ws_step :: nat
  ws_log :: "task_event list"

definition log_event :: "task_event \<Rightarrow> worker_state \<Rightarrow> worker_state" where
  "log_event e st = st\<lparr>ws_log := ws_log st @ [e]\<rparr>"

definition statement :: "task_world \<Rightarrow> (task_db \<Rightarrow> 'a \<times> task_db) \<Rightarrow> worker_state \<Rightarrow> (task_error + 'a) \<times> worker_state" where
  "statement w f st =
     (let n = ws_step st; db = tw_commits w n (ws_db st); (a, db') = f db in
      case tw_outage w n of
        None \<Rightarrow> (Inr a, st\<lparr>ws_db := db', ws_step := Suc n\<rparr>)
      | Some Before_Statement \<Rightarrow> (Inl Store_Unavailable, st\<lparr>ws_db := db, ws_step := Suc n\<rparr>)
      | Some After_Statement \<Rightarrow> (Inl Store_Unavailable, st\<lparr>ws_db := db', ws_step := Suc n\<rparr>))"

definition query :: "(task_db \<Rightarrow> 'a) \<Rightarrow> task_db \<Rightarrow> 'a \<times> task_db" where
  "query f db = (f db, db)"

text \<open>An error that the database returned, or that the connection had.\<close>

definition flat_result :: "task_error + (task_error + 'a) \<Rightarrow> task_error + 'a" where
  "flat_result r = (case r of Inl e \<Rightarrow> Inl e | Inr x \<Rightarrow> x)"

definition safe_task_id_part :: "task_world \<Rightarrow> string \<Rightarrow> string" where
  "safe_task_id_part w v =
     (let safe = safe_report_id v in
      if length safe > 80 then (let suf = tw_crc32 w v in take (80 - length suf - 1) safe @ ''-'' @ suf) else safe)"

definition send_task_notifications :: "task_world \<Rightarrow> notification_options \<Rightarrow> agent_task \<Rightarrow> nat \<Rightarrow> notify_result list" where
  "send_task_notifications w opts t n =
     (if blank (no_File opts) \<and> blank (no_Webhook opts) then []
      else (if blank (no_File opts) then [] else [tw_file w n (trim_space (no_File opts)) t]) @
        (if blank (no_Webhook opts) then [] else [tw_webhook w n (no_Webhook opts) t]))"

text \<open>The run that was recorded, if it was, and the error of the command or of the recording.\<close>

definition execute_and_record_task_run :: "task_world \<Rightarrow> agent_task \<Rightarrow> string \<Rightarrow> worker_state \<Rightarrow>
  (agent_task_run option \<times> task_error option) \<times> worker_state" where
  "execute_and_record_task_run w t command st0 =
     (let n = ws_step st0; started = tw_clock w n; (out_text, code, err) = tw_command w n (at_Kind t) command;
          finished = tw_clock w (Suc n); st1 = log_event (Ran_Command (at_ID t) command) (st0\<lparr>ws_step := n + 2\<rparr>);
          r = \<lparr>ru_ID = ''agent-task-run.'' @ safe_task_id_part w (at_Name t) @ ''.'' @ tw_stamp w finished,
               ru_TaskID = at_ID t, ru_Status = (if err = None then StatusPassed else StatusFailed),
               ru_Command = command, ru_StartedAt = started, ru_FinishedAt = finished, ru_DurationMs = 0,
               ru_ExitCode = code, ru_Output = out_text, ru_Error = (case err of None \<Rightarrow> [] | Some e \<Rightarrow> e),
               ru_SummaryJSON = obj_text [(''kind'', JStr (at_Kind t)), (''taskName'', JStr (at_Name t))],
               ru_CreatedAt = finished\<rparr>
      in case statement w (record_agent_task_run (tw_clock w (n + 2)) r) st1 of
           (res, st2) \<Rightarrow>
             (case flat_result res of
                Inl e \<Rightarrow> ((None, Some e), st2)
              | Inr run \<Rightarrow> ((Some run, map_option Command_Failed err), log_event (Recorded_Run (at_ID t) (ru_ID run)) st2)))"

record task_item =
  it_Task :: agent_task
  it_Claimed :: bool
  it_Attempted :: bool
  it_UnknownOutcome :: bool
  it_Run :: "agent_task_run option"
  it_Notify :: "notify_result list"
  it_Error :: "task_error list"

definition new_item :: "agent_task \<Rightarrow> bool \<Rightarrow> task_error list \<Rightarrow> task_item" where
  "new_item t claimed es = \<lparr>it_Task = t, it_Claimed = claimed, it_Attempted = False, it_UnknownOutcome = False,
     it_Run = None, it_Notify = [], it_Error = es\<rparr>"

definition execute_claimed_scheduled_task :: "task_world \<Rightarrow> agent_task \<Rightarrow> worker_state \<Rightarrow> task_item \<times> worker_state" where
  "execute_claimed_scheduled_task w listed st0 =
     (let (res, st1) = statement w (query (get_agent_task (tw_dialect w) (at_ID listed))) st0 in
      case flat_result res of
        Inl e \<Rightarrow> (new_item listed True [Reload_Failed e], st1)
      | Inr t \<Rightarrow>
          (case task_notification_options (at_NotifyJSON t) of
             Inl e \<Rightarrow> (new_item t True [e], st1)
           | Inr opts \<Rightarrow>
               (let ((run, err), st2) = execute_and_record_task_run w t (at_Command t) st1;
                    notify = send_task_notifications w opts t (ws_step st2);
                    es = (case err of None \<Rightarrow> [] | Some e \<Rightarrow> [e]) @
                      (if notification_results_ok notify then [] else [Notification_Failed])
                in ((new_item t True es)\<lparr>it_Attempted := True, it_Run := run, it_Notify := notify\<rparr>, st2))))"

record worker_report =
  wr_OK :: bool
  wr_Checked :: nat
  wr_Scheduled :: nat
  wr_Due :: nat
  wr_Claimed :: nat
  wr_Executed :: nat
  wr_Skipped :: nat
  wr_Tasks :: "task_item list"

definition item_ok :: "task_item \<Rightarrow> bool" where
  "item_ok i \<longleftrightarrow> it_Error i = [] \<and> (case it_Run i of Some r \<Rightarrow> ru_Status r \<noteq> StatusFailed | None \<Rightarrow> True) \<and>
     notification_results_ok (it_Notify i)"

definition add_item :: "task_item \<Rightarrow> worker_report \<Rightarrow> worker_report" where
  "add_item i rep = rep\<lparr>wr_Executed := wr_Executed rep + (if it_Attempted i then 1 else 0),
     wr_OK := (wr_OK rep \<and> item_ok i), wr_Tasks := wr_Tasks rep @ [i]\<rparr>"

definition fail_last :: "(task_item \<Rightarrow> task_item) \<Rightarrow> worker_report \<Rightarrow> worker_report" where
  "fail_last f rep = rep\<lparr>wr_OK := False, wr_Tasks := butlast (wr_Tasks rep) @ [f (last (wr_Tasks rep))]\<rparr>"

text \<open>A claimed task is run and released; its claim is kept when the run may have happened unrecorded.\<close>

definition finish_claimed_task :: "task_world \<Rightarrow> agent_task \<Rightarrow> agent_task_claim \<Rightarrow> task_item \<Rightarrow> worker_report \<Rightarrow> worker_state \<Rightarrow>
  worker_report \<times> task_error option \<times> worker_state" where
  "finish_claimed_task w t c item rep1 st =
     (if it_Attempted item \<and> (case it_Run item of None \<Rightarrow> True | Some r \<Rightarrow> ru_ID r = []) then
        (fail_last (\<lambda>i. i\<lparr>it_UnknownOutcome := True, it_Error := it_Error i @ [Run_Not_Persisted]\<rparr>) rep1,
         Some (Unknown_Outcome (at_Name t)), st)
      else
        (case statement w (release_scheduled_agent_task c (tw_clock w (ws_step st))) st of
           (Inl e, st1) \<Rightarrow> (fail_last (\<lambda>i. i\<lparr>it_Error := it_Error i @ [e]\<rparr>) rep1, Some (Release_Failed (at_Name t) e), st1)
         | (Inr False, st1) \<Rightarrow>
             (fail_last (\<lambda>i. i\<lparr>it_Error := [Claim_Changed]\<rparr>) rep1, Some (Claim_No_Longer_Matches (at_Name t)), st1)
         | (Inr True, st1) \<Rightarrow>
             (let st2 = log_event (Released_Task (at_ID t) (cl_Token c)) st1;
                  (res, st3) = statement w (query (get_agent_task (tw_dialect w) (at_ID t))) st2
              in (case flat_result res of
                    Inl _ \<Rightarrow> rep1
                  | Inr t1 \<Rightarrow> rep1\<lparr>wr_Tasks := butlast (wr_Tasks rep1) @ [(last (wr_Tasks rep1))\<lparr>it_Task := t1\<rparr>]\<rparr>, None, st3))))"

fun worker_tasks :: "task_world \<Rightarrow> time \<Rightarrow> agent_task list \<Rightarrow> worker_report \<Rightarrow> worker_state \<Rightarrow>
  worker_report \<times> task_error option \<times> worker_state" where
  "worker_tasks w now [] rep st = (rep, None, st)"
| "worker_tasks w now (t # ts) rep st =
     (if at_Status t \<noteq> StatusScheduled then worker_tasks w now ts rep st
      else
        (let rep1 = rep\<lparr>wr_Scheduled := wr_Scheduled rep + 1\<rparr> in
         case scheduled_agent_task_due t now of
           Inl e \<Rightarrow> worker_tasks w now ts (rep1\<lparr>wr_OK := False, wr_Tasks := wr_Tasks rep1 @ [new_item t False [e]]\<rparr>) st
         | Inr False \<Rightarrow> worker_tasks w now ts (rep1\<lparr>wr_Skipped := wr_Skipped rep1 + 1\<rparr>) st
         | Inr True \<Rightarrow>
             (let rep2 = rep1\<lparr>wr_Due := wr_Due rep1 + 1\<rparr>; token = tw_token w (ws_step st) in
              case statement w (claim_scheduled_agent_task (tw_dialect w) token (at_ID t) (at_UpdatedAt t) now) st of
                (Inl e, st1) \<Rightarrow> (rep2\<lparr>wr_OK := False\<rparr>, Some (Claim_Failed (at_Name t) e), st1)
              | (Inr (c, False), st1) \<Rightarrow> worker_tasks w now ts (rep2\<lparr>wr_Skipped := wr_Skipped rep2 + 1\<rparr>) st1
              | (Inr (c, True), st1) \<Rightarrow>
                  (let (item, st2) = execute_claimed_scheduled_task w t (log_event (Claimed_Task (at_ID t) token) st1)
                   in case finish_claimed_task w t c item (add_item item (rep2\<lparr>wr_Claimed := wr_Claimed rep2 + 1\<rparr>)) st2 of
                        (rep3, Some e, st3) \<Rightarrow> (rep3, Some e, st3)
                      | (rep3, None, st3) \<Rightarrow> worker_tasks w now ts rep3 st3))))"

definition run_task_worker_pass :: "task_world \<Rightarrow> time \<Rightarrow> worker_state \<Rightarrow> worker_report \<times> task_error option \<times> worker_state" where
  "run_task_worker_pass w now st =
     (let rep = \<lparr>wr_OK = True, wr_Checked = 0, wr_Scheduled = 0, wr_Due = 0, wr_Claimed = 0, wr_Executed = 0,
            wr_Skipped = 0, wr_Tasks = []\<rparr>
      in case statement w (query (list_agent_tasks (tw_dialect w))) st of
           (Inl e, st1) \<Rightarrow> (rep\<lparr>wr_OK := False\<rparr>, Some (List_Failed e), st1)
         | (Inr ts, st1) \<Rightarrow> worker_tasks w now ts (rep\<lparr>wr_Checked := length ts\<rparr>) st1)"

section \<open>Commands\<close>

text \<open>\<open>upsertTask\<close>, which \<open>task run\<close>, \<open>task schedule\<close> and \<open>task watch\<close> call.\<close>

definition upsert_task :: "task_world \<Rightarrow> string \<Rightarrow> string \<Rightarrow> string \<Rightarrow> string \<Rightarrow> string \<Rightarrow> notification_options \<Rightarrow>
  worker_state \<Rightarrow> (task_error + agent_task) \<times> worker_state" where
  "upsert_task w name0 command0 sched status kind0 notify st0 =
     (let name = trim_space name0; command = trim_space command0; kind1 = trim_space kind0;
          now = tw_clock w (ws_step st0)
      in if name = [] then (Inl Task_Name_Required, st0)
         else if command = [] then (Inl Task_Command_Required, st0)
         else
           (let t = \<lparr>at_ID = ''agent-task.'' @ safe_task_id_part w name, at_Name = name,
                  at_Kind = (if kind1 = [] then ''cli'' else kind1), at_Command = command, at_Schedule = sched,
                  at_Status = status, at_NotifyJSON = notify_json notify, at_SummaryJSON = ''{}'', at_CreatedAt = now,
                  at_UpdatedAt = now, at_LatestStatus = [], at_LatestRunID = [], at_LastRunAt = zero_time, at_RunCount = 0\<rparr>;
                (res, st1) = statement w (query (get_agent_task (tw_dialect w) name)) st0;
                upsert = (\<lambda>t. let (r, st2) = statement w (upsert_agent_task (tw_dialect w) (tw_clock w (ws_step st1))
                    (\<lambda>i. tw_commits w (ws_step st1 + i)) t) st1
                  in (flat_result r, st2\<lparr>ws_step := ws_step st1 + 4\<rparr>))
            in case flat_result res of
                 Inr existing \<Rightarrow> upsert (t\<lparr>at_ID := at_ID existing, at_CreatedAt := at_CreatedAt existing,
                   at_Schedule := (if at_Schedule t = [] then at_Schedule existing else at_Schedule t)\<rparr>)
               | Inl (Task_Not_Found _) \<Rightarrow> upsert t
               | Inl e \<Rightarrow> (Inl e, st1)))"

definition normalize_task_watch_stop_condition :: "string \<Rightarrow> string option" where
  "normalize_task_watch_stop_condition until0 =
     (let s = to_lower (trim_space until0) in if s \<in> {''always'', ''success'', ''failure''} then Some s else None)"

definition task_watch_should_stop :: "string \<Rightarrow> string \<Rightarrow> bool" where
  "task_watch_should_stop until0 status =
     (if until0 = ''success'' then status = StatusPassed
      else if until0 = ''failure'' then status = StatusFailed else False)"

end
