(* ===== verification/Agent_Task_Facts.thy ===== *)
theory Agent_Task_Facts
  imports Agent_Tasks Fenced_Store
begin

text \<open>
  The claims of agent tasks. The statements on the table satisfy the contract of an exclusive store:
  a running row with a token belongs to the claim with that token until the claim is released or the
  task is recovered by hand. What follows: claims are exclusive and a stale poll claims nothing, and the
  worker keeps the claim of a command whose outcome it could not record.
\<close>

section \<open>Statements as data\<close>

datatype task_stmt =
    Define_Task agent_task
  | Insert_Task agent_task
  | Claim_Task string ident time time
  | Release_Task agent_task_claim time
  | Recover_Task ident time
  | Record_Run time agent_task_run

definition done_if :: "bool \<times> task_db \<Rightarrow> unit option \<times> task_db" where
  "done_if r = (if fst r then None else Some (), snd r)"

fun run_stmt :: "sql_dialect \<Rightarrow> task_stmt \<Rightarrow> task_db \<Rightarrow> unit option \<times> task_db" where
  "run_stmt sd (Define_Task t) db = done_if (update_agent_task_definition t db)"
| "run_stmt sd (Insert_Task t) db = done_if (insert_agent_task t db)"
| "run_stmt sd (Claim_Task tok tid expected at) db =
     (let (r, db') = claim_scheduled_agent_task sd tok tid expected at db in done_if (snd r, db'))"
| "run_stmt sd (Release_Task c at) db = done_if (release_scheduled_agent_task c at db)"
| "run_stmt sd (Recover_Task tid at) db = done_if (recover_scheduled_agent_task tid at db)"
| "run_stmt sd (Record_Run now r) db =
     (let (res, db') = record_agent_task_run now r db in done_if (\<not> isl res, db'))"

type_synonym task_holder = "ident \<times> string"

definition row_id :: "task_row \<Rightarrow> ident" where
  "row_id r = at_ID (ro_Task r)"

definition row_status :: "task_row \<Rightarrow> string" where
  "row_status r = at_Status (ro_Task r)"

definition task_keys :: "task_db \<Rightarrow> bool" where
  "task_keys db \<longleftrightarrow> distinct (map row_id (td_tasks db))"

definition claim_held :: "task_db \<Rightarrow> task_holder \<Rightarrow> bool" where
  "claim_held db h \<longleftrightarrow> \<not> blank (snd h) \<and>
     list_ex (\<lambda>r. row_id r = fst h \<and> row_status r = StatusRunning \<and> ro_ClaimToken r = snd h) (td_tasks db)"

fun stmt_guard :: "task_stmt \<Rightarrow> task_holder option" where
  "stmt_guard (Release_Task c _) = Some (cl_TaskID c, cl_Token c)"
| "stmt_guard _ = None"

fun stmt_claims :: "task_stmt \<Rightarrow> task_holder option" where
  "stmt_claims (Claim_Task tok tid _ _) = Some (tid, tok)"
| "stmt_claims _ = None"

fun stmt_ends :: "task_stmt \<Rightarrow> task_holder \<Rightarrow> bool" where
  "stmt_ends (Release_Task c _) h = ((cl_TaskID c, cl_Token c) = h)"
| "stmt_ends (Recover_Task tid _) h = (tid = fst h)"
| "stmt_ends _ h = False"

definition same_task :: "task_holder \<Rightarrow> task_holder \<Rightarrow> bool" where
  "same_task h h' \<longleftrightarrow> fst h = fst h'"

section \<open>Updates of rows\<close>

lemma status_neq [simp]: "StatusRunning \<noteq> StatusScheduled" "StatusScheduled \<noteq> StatusRunning"
  "StatusPaused \<noteq> StatusRunning" "StatusPaused \<noteq> StatusScheduled" "StatusScheduled \<noteq> StatusPaused" "StatusRunning \<noteq> StatusPaused"
  by (simp_all add: StatusRunning_def StatusScheduled_def StatusPaused_def)

lemma update_where_at_most_one:
  assumes "distinct (map row_id rows)" "\<And>r. P r \<Longrightarrow> row_id r = k"
  shows "length (filter P rows) \<le> 1"
  using assms
proof (induction rows)
  case (Cons r rows)
  show ?case
  proof (cases "P r")
    case True
    have "filter P rows = []"
      using Cons.prems True by (auto simp: filter_empty_conv)
    then show ?thesis using True by simp
  qed (use Cons in auto)
qed simp

lemma update_where_keys:
  assumes "task_keys db" "\<And>r. row_id (f r) = row_id r" "update_where P f db = (n, db')"
  shows "task_keys db'"
proof -
  have "map row_id (map (\<lambda>r. if P r then f r else r) rows) = map row_id rows" for rows
    using assms(2) by simp
  then show ?thesis using assms(1,3) by (auto simp: task_keys_def update_where_def simp del: map_map)
qed

lemma update_where_none: "update_where P f db = (0, db') \<Longrightarrow> db' = db"
  by (auto simp: update_where_def filter_empty_conv intro!: task_db.equality map_idI)

lemma update_where_failed:
  assumes "task_keys db" "\<And>r. P r \<Longrightarrow> row_id r = k" "update_where P f db = (n, db')" "n \<noteq> 1"
  shows "db' = db"
proof -
  have "n \<le> 1" using update_where_at_most_one [of "td_tasks db" P k] assms(1-3)
    by (auto simp: task_keys_def update_where_def)
  then show ?thesis using assms(3,4) update_where_none [of P f db db'] by (cases n) auto
qed

lemma list_ex_map: "list_ex Q (map g xs) \<longleftrightarrow> list_ex (\<lambda>x. Q (g x)) xs"
  by (induction xs) auto

lemma update_where_ex:
  "update_where P f db = (n, db') \<Longrightarrow> list_ex Q (td_tasks db') \<longleftrightarrow> list_ex (\<lambda>r. Q (if P r then f r else r)) (td_tasks db)"
  by (auto simp: update_where_def list_ex_map split del: if_split)

lemma update_where_matched: "update_where P f db = (Suc n, db') \<Longrightarrow> list_ex P (td_tasks db)"
  unfolding update_where_def list_ex_iff
  by (metis filter_False length_0_conv nat.distinct(1) fst_conv)

section \<open>The contract\<close>

text \<open>The five updates share their shape: the rows of one task in some state, with their identifier kept.\<close>

definition row_update :: "ident \<Rightarrow> (task_row \<Rightarrow> bool) \<Rightarrow> (task_row \<Rightarrow> task_row) \<Rightarrow> task_db \<Rightarrow> unit option \<times> task_db" where
  "row_update k P f db = (let (n, db') = update_where P f db in done_if (n = 1, db'))"

lemma run_stmt_updates:
  "run_stmt sd (Define_Task t) = row_update (at_ID t) (\<lambda>r. row_id r = at_ID t \<and> row_status r \<noteq> StatusRunning)
     (\<lambda>r. r\<lparr>ro_Task := (ro_Task r)\<lparr>at_Name := at_Name t, at_Kind := at_Kind t, at_Command := at_Command t,
        at_Schedule := at_Schedule t, at_Status := at_Status t, at_NotifyJSON := at_NotifyJSON t,
        at_SummaryJSON := at_SummaryJSON t, at_UpdatedAt := at_UpdatedAt t\<rparr>, ro_ClaimToken := []\<rparr>)"
  "run_stmt sd (Claim_Task tok tid e at) = row_update tid (\<lambda>r. row_id r = tid \<and> row_status r = StatusScheduled \<and>
       sd_read sd (at_UpdatedAt (ro_Task r)) = sd_read sd e)
     (\<lambda>r. r\<lparr>ro_Task := (ro_Task r)\<lparr>at_Status := StatusRunning, at_UpdatedAt := next_agent_task_revision at e\<rparr>, ro_ClaimToken := tok\<rparr>)"
  "run_stmt sd (Recover_Task tid at) = row_update tid (\<lambda>r. row_id r = tid \<and> row_status r = StatusRunning)
     (\<lambda>r. r\<lparr>ro_Task := (ro_Task r)\<lparr>at_Status := StatusPaused, at_UpdatedAt := truncate_us at\<rparr>, ro_ClaimToken := []\<rparr>)"
  by (simp_all add: fun_eq_iff row_update_def update_agent_task_definition_def claim_scheduled_agent_task_def
    transition_agent_task_status_def recover_scheduled_agent_task_def row_id_def row_status_def Let_def split: prod.split)

lemma run_stmt_release:
  "run_stmt sd (Release_Task c at) db =
    (if blank (cl_Token c) then (Some (), db)
     else row_update (cl_TaskID c) (\<lambda>r. row_id r = cl_TaskID c \<and> row_status r = StatusRunning \<and> ro_ClaimToken r = cl_Token c)
       (\<lambda>r. r\<lparr>ro_Task := (ro_Task r)\<lparr>at_Status := StatusScheduled, at_UpdatedAt := next_agent_task_revision at (cl_Revision c)\<rparr>,
          ro_ClaimToken := []\<rparr>) db)"
  by (simp add: row_update_def release_scheduled_agent_task_def row_id_def row_status_def Let_def done_if_def split: prod.split)

lemma row_update_facts:
  assumes "task_keys db" "\<And>r. P r \<Longrightarrow> row_id r = k" "\<And>r. row_id (f r) = row_id r" "row_update k P f db = (res, db')"
  shows "task_keys db'" "res \<noteq> None \<Longrightarrow> db' = db" "res = None \<Longrightarrow> list_ex P (td_tasks db)"
    "list_ex Q (td_tasks db') \<longleftrightarrow> list_ex (\<lambda>r. Q (if P r then f r else r)) (td_tasks db)"
proof -
  obtain n where n: "update_where P f db = (n, db')" "res = (if n = 1 then None else Some ())"
    using assms(4) by (auto simp: row_update_def done_if_def Let_def split: prod.splits)
  show "task_keys db'" using update_where_keys [OF assms(1,3) n(1)] .
  show "res \<noteq> None \<Longrightarrow> db' = db" using update_where_failed [OF assms(1,2) n(1)] n(2) by (auto split: if_splits)
  show "res = None \<Longrightarrow> list_ex P (td_tasks db)" using update_where_matched [of P f db 0 db'] n by (auto split: if_splits)
  show "list_ex Q (td_tasks db') \<longleftrightarrow> list_ex (\<lambda>r. Q (if P r then f r else r)) (td_tasks db)"
    using update_where_ex [OF n(1)] .
qed

definition held_by :: "task_holder \<Rightarrow> task_row \<Rightarrow> bool" where
  "held_by h r \<longleftrightarrow> row_id r = fst h \<and> row_status r = StatusRunning \<and> ro_ClaimToken r = snd h"

lemma claim_held_iff: "claim_held db h \<longleftrightarrow> \<not> blank (snd h) \<and> list_ex (held_by h) (td_tasks db)"
  by (simp add: claim_held_def held_by_def [abs_def])

lemma row_update_laws:
  assumes "task_keys db" "\<And>r. P r \<Longrightarrow> row_id r = k" "\<And>r. row_id (f r) = row_id r" "row_update k P f db = (res, db')"
  shows "\<lbrakk>\<And>r. P r \<Longrightarrow> \<not> held_by h r\<rbrakk> \<Longrightarrow> claim_held db h \<Longrightarrow> claim_held db' h"
    "\<lbrakk>\<And>r. P r \<Longrightarrow> held_by h (f r) \<Longrightarrow> blank (snd h)\<rbrakk> \<Longrightarrow> claim_held db' h \<Longrightarrow> claim_held db h"
proof -
  note q = row_update_facts(4) [OF assms, where Q = "held_by h"]
  show "claim_held db' h" if "\<And>r. P r \<Longrightarrow> \<not> held_by h r" "claim_held db h"
    using that q unfolding claim_held_iff list_ex_iff by metis
  show "claim_held db h" if "\<And>r. P r \<Longrightarrow> held_by h (f r) \<Longrightarrow> blank (snd h)" "claim_held db' h"
    using that q unfolding claim_held_iff list_ex_iff by metis
qed

text \<open>One statement at a time: what it does to the keys, to claims on record and when it fails.\<close>

lemma run_insert:
  assumes "task_keys db" "run_stmt sd (Insert_Task t) db = (res, db')"
  shows "task_keys db'" "res \<noteq> None \<Longrightarrow> db' = db" "claim_held db' h = claim_held db h"
proof -
  have "task_keys (db\<lparr>td_tasks := td_tasks db @ [\<lparr>ro_Task = t, ro_ClaimToken = []\<rparr>]\<rparr>)"
    if "\<forall>r \<in> set (td_tasks db). at_ID (ro_Task r) \<noteq> at_ID t"
    using assms(1) that by (auto simp: task_keys_def row_id_def)
  then show "task_keys db'" using assms by (auto simp: insert_agent_task_def done_if_def split: if_splits)
  show "res \<noteq> None \<Longrightarrow> db' = db" "claim_held db' h = claim_held db h"
    using assms(2) by (auto simp: insert_agent_task_def done_if_def claim_held_def split: if_splits)
qed

lemma run_record:
  assumes "run_stmt sd (Record_Run now r) db = (res, db')"
  shows "td_tasks db' = td_tasks db" "res \<noteq> None \<Longrightarrow> db' = db"
  using assms by (auto simp: record_agent_task_run_def done_if_def Let_def split: if_splits)

lemma run_stmt_cases:
  obtains (update) P f k where "run_stmt sd op db = row_update k P f db" "\<And>r. P r \<Longrightarrow> row_id r = k"
      "\<And>r. row_id (f r) = row_id r" "\<And>h r. P r \<Longrightarrow> \<not> stmt_ends op h \<Longrightarrow> \<not> blank (snd h) \<Longrightarrow> \<not> held_by h r"
      "\<And>h r. P r \<Longrightarrow> held_by h (f r) \<Longrightarrow> \<not> blank (snd h) \<Longrightarrow> stmt_claims op = Some h"
      "\<And>h r. P r \<Longrightarrow> stmt_guard op = Some h \<Longrightarrow> held_by h r \<and> \<not> blank (snd h)"
      "\<And>h' r. stmt_claims op = Some h' \<Longrightarrow> P r \<Longrightarrow> row_id r = fst h' \<and> row_status r = StatusScheduled"
  | (insert) t where "op = Insert_Task t"
  | (recording) now r where "op = Record_Run now r"
  | (blank_release) c at where "op = Release_Task c at" "run_stmt sd op db = (Some (), db)"
proof (cases op)
  case (Define_Task t)
  show ?thesis
    by (rule update [OF arg_cong [where f = "\<lambda>g. g db", OF run_stmt_updates(1) [of sd t, folded Define_Task]]])
      (auto simp: Define_Task held_by_def row_id_def)
next
  case (Claim_Task tok tid e at)
  show ?thesis
    by (rule update [OF arg_cong [where f = "\<lambda>g. g db", OF run_stmt_updates(2) [of sd tok tid e at, folded Claim_Task]]])
      (auto simp: Claim_Task held_by_def row_id_def prod_eq_iff)
next
  case (Recover_Task tid at)
  show ?thesis
    by (rule update [OF arg_cong [where f = "\<lambda>g. g db", OF run_stmt_updates(3) [of sd tid at, folded Recover_Task]]])
      (auto simp: Recover_Task held_by_def row_id_def row_status_def)
next
  case (Release_Task c at)
  show ?thesis
  proof (cases "blank (cl_Token c)")
    case True
    then show ?thesis using blank_release Release_Task run_stmt_release by simp
  next
    case False
    then have eq: "run_stmt sd op db = row_update (cl_TaskID c)
       (\<lambda>r. row_id r = cl_TaskID c \<and> row_status r = StatusRunning \<and> ro_ClaimToken r = cl_Token c)
       (\<lambda>r. r\<lparr>ro_Task := (ro_Task r)\<lparr>at_Status := StatusScheduled, at_UpdatedAt := next_agent_task_revision at (cl_Revision c)\<rparr>,
          ro_ClaimToken := []\<rparr>) db"
      using Release_Task run_stmt_release by simp
    show ?thesis
      by (rule update [OF eq]) (use False in \<open>auto simp: Release_Task held_by_def row_id_def row_status_def prod_eq_iff\<close>)
  qed
qed (use insert recording in auto)

lemma row_status_held:
  assumes "task_keys db" "claim_held db h" "row_id r = fst h" "r \<in> set (td_tasks db)"
  shows "row_status r = StatusRunning"
proof -
  obtain x where x: "x \<in> set (td_tasks db)" "row_id x = fst h" "row_status x = StatusRunning"
    using assms(2) by (auto simp: claim_held_iff held_by_def list_ex_iff)
  then have "x = r" using assms(1,3,4) by (auto simp: task_keys_def distinct_map inj_on_def)
  with x show ?thesis by simp
qed

lemma stmt_keys: "task_keys db \<Longrightarrow> task_keys (snd (run_stmt sd op db))"
proof (cases rule: run_stmt_cases [of sd op db])
  case (update P f k)
  assume "task_keys db"
  from row_update_facts(1) [OF this update(2,3) surjective_pairing] show ?thesis by (simp add: update(1))
next
  case (insert t)
  assume "task_keys db"
  from run_insert(1) [OF this surjective_pairing] show ?thesis unfolding insert by blast
next
  case (recording now r)
  assume "task_keys db"
  then show ?thesis using run_record(1) [OF surjective_pairing, of sd now r db] unfolding recording by (simp add: task_keys_def)
qed simp

lemma stmt_failed: "task_keys db \<Longrightarrow> fst (run_stmt sd op db) \<noteq> None \<Longrightarrow> snd (run_stmt sd op db) = db"
proof (cases rule: run_stmt_cases [of sd op db])
  case (update P f k)
  assume "task_keys db" "fst (run_stmt sd op db) \<noteq> None"
  with row_update_facts(2) [OF this(1) update(2,3) surjective_pairing] show ?thesis by (simp add: update(1))
next
  case (insert t)
  assume "task_keys db" "fst (run_stmt sd op db) \<noteq> None"
  with run_insert(2) [OF this(1) surjective_pairing] show ?thesis unfolding insert by blast
next
  case (recording now r)
  assume "fst (run_stmt sd op db) \<noteq> None"
  then show ?thesis using run_record(2) [OF surjective_pairing] unfolding recording by blast
qed simp

lemma stmt_guarded:
  assumes "task_keys db" "stmt_guard op = Some h" "fst (run_stmt sd op db) = None"
  shows "claim_held db h"
proof (cases rule: run_stmt_cases [of sd op db])
  case (update P f k)
  have "list_ex P (td_tasks db)"
    using row_update_facts(3) [OF assms(1) update(2,3) surjective_pairing] assms(3) by (simp add: update(1))
  then show ?thesis using update(6) [OF _ assms(2)] by (auto simp: claim_held_iff list_ex_iff)
qed (use assms in auto)

lemma stmt_claim_held:
  assumes "task_keys db"
  shows "claim_held (snd (run_stmt sd op db)) h \<Longrightarrow> claim_held db h \<or> stmt_claims op = Some h"
    "claim_held db h \<Longrightarrow> \<not> stmt_ends op h \<Longrightarrow> claim_held (snd (run_stmt sd op db)) h"
proof -
  show "claim_held (snd (run_stmt sd op db)) h \<Longrightarrow> claim_held db h \<or> stmt_claims op = Some h"
  proof (cases rule: run_stmt_cases [of sd op db])
    case (update P f k)
    assume held: "claim_held (snd (run_stmt sd op db)) h"
    show ?thesis
    proof (rule disjCI)
      assume no: "stmt_claims op \<noteq> Some h"
      show "claim_held db h"
        by (rule row_update_laws(2) [OF assms update(2,3) surjective_pairing])
          (use update(5) [of _ h] no held in \<open>auto simp: update(1)\<close>)
    qed
  next
    case (insert t)
    then show "claim_held (snd (run_stmt sd op db)) h \<Longrightarrow> ?thesis"
      using run_insert(3) [OF assms surjective_pairing] by blast
  next
    case (recording now r)
    then show "claim_held (snd (run_stmt sd op db)) h \<Longrightarrow> ?thesis"
      using run_record(1) [OF surjective_pairing, of sd now r db] by (simp add: claim_held_def)
  qed simp
  show "claim_held db h \<Longrightarrow> \<not> stmt_ends op h \<Longrightarrow> claim_held (snd (run_stmt sd op db)) h"
  proof (cases rule: run_stmt_cases [of sd op db])
    case (update P f k)
    assume held: "claim_held db h" and no: "\<not> stmt_ends op h"
    then have "\<not> blank (snd h)" by (simp add: claim_held_def)
    then show ?thesis unfolding update(1)
      by (intro row_update_laws(1) [OF assms update(2,3) surjective_pairing update(4) held]) (use no in auto)
  next
    case (insert t)
    then show "claim_held db h \<Longrightarrow> ?thesis" using run_insert(3) [OF assms surjective_pairing] by blast
  next
    case (recording now r)
    then show "claim_held db h \<Longrightarrow> ?thesis"
      using run_record(1) [OF surjective_pairing, of sd now r db] by (simp add: claim_held_def)
  qed simp
qed

lemma stmt_refused:
  assumes "task_keys db" "claim_held db h" "stmt_claims op = Some h'" "same_task h h'"
  shows "fst (run_stmt sd op db) \<noteq> None"
proof (cases rule: run_stmt_cases [of sd op db])
  case (update P f k)
  have "\<not> list_ex P (td_tasks db)"
    using update(7) [OF assms(3)] row_status_held [OF assms(1,2)] assms(4)
    by (fastforce simp: list_ex_iff same_task_def)
  then show ?thesis
    using row_update_facts(3) [OF assms(1) update(2,3) surjective_pairing] unfolding update(1) by blast
qed (use assms in auto)

interpretation task_claims: exclusive_store "run_stmt sd" stmt_guard stmt_claims claim_held task_keys stmt_ends same_task for sd
proof
  fix db op h h'
  assume "task_keys db"
  note laws = stmt_keys [OF this] stmt_failed [OF this] stmt_guarded [OF this] stmt_claim_held [OF this] stmt_refused [OF this]
  show "task_keys (snd (run_stmt sd op db))" by (rule laws)
  show "fst (run_stmt sd op db) \<noteq> None \<Longrightarrow> snd (run_stmt sd op db) = db" by (rule laws)
  show "stmt_guard op = Some h \<Longrightarrow> fst (run_stmt sd op db) = None \<Longrightarrow> claim_held db h" by (rule laws)
  show "claim_held (snd (run_stmt sd op db)) h \<Longrightarrow> claim_held db h \<or> stmt_claims op = Some h" by (rule laws)
  show "claim_held db h \<Longrightarrow> \<not> stmt_ends op h \<Longrightarrow> claim_held (snd (run_stmt sd op db)) h" by (rule laws)
  show "claim_held db h \<Longrightarrow> stmt_claims op = Some h' \<Longrightarrow> same_task h h' \<Longrightarrow> fst (run_stmt sd op db) \<noteq> None" by (rule laws)
qed

definition run_stmts :: "sql_dialect \<Rightarrow> task_stmt list \<Rightarrow> task_db \<Rightarrow> task_db" where
  "run_stmts sd ops db = fold (\<lambda>op d. snd (run_stmt sd op d)) ops db"

lemma run_all_run_stmts: "task_claims.run_all sd ops db = run_stmts sd ops db"
  by (simp add: task_claims.run_all_def run_stmts_def)

lemma claim_is_held:
  assumes "run_stmt sd (Claim_Task tok tid expected at) db = (None, db1)" "\<not> blank tok"
  shows "claim_held db1 (tid, tok)"
proof -
  let ?P = "\<lambda>r. row_id r = tid \<and> row_status r = StatusScheduled \<and> sd_read sd (at_UpdatedAt (ro_Task r)) = sd_read sd expected"
  let ?f = "\<lambda>r. r\<lparr>ro_Task := (ro_Task r)\<lparr>at_Status := StatusRunning, at_UpdatedAt := next_agent_task_revision at expected\<rparr>,
    ro_ClaimToken := tok\<rparr>"
  have u: "update_where ?P ?f db = (1, db1)"
    using assms(1) unfolding run_stmt_updates(2) by (auto simp: row_update_def done_if_def split: prod.splits if_splits)
  then obtain r where r: "r \<in> set (td_tasks db)" "?P r"
    using update_where_matched [of ?P ?f db 0 db1] by (auto simp: list_ex_iff)
  then have "held_by (tid, tok) (?f r)" by (simp add: held_by_def row_id_def row_status_def)
  with r have "list_ex (\<lambda>r. held_by (tid, tok) (if ?P r then ?f r else r)) (td_tasks db)"
    unfolding list_ex_iff by (intro bexI [of _ r]) simp_all
  then show ?thesis using update_where_ex [OF u, of "held_by (tid, tok)"] assms(2) by (simp add: claim_held_iff)
qed

section \<open>Revisions\<close>

text \<open>
  Workers as they use the store: what a claim returned is kept under its token and released from
  there. Definitions, insertions, recoveries and recorded runs may happen at any point.
\<close>

record poll_state =
  po_db :: task_db
  po_claims :: "string \<rightharpoonup> agent_task_claim"

datatype worker_move =
    Poll_Claim string ident time time
  | Give_Back string time
  | Other_Stmt task_stmt

fun work :: "sql_dialect \<Rightarrow> worker_move \<Rightarrow> poll_state \<Rightarrow> poll_state" where
  "work sd (Poll_Claim tok tid expected at) st =
     (case claim_scheduled_agent_task sd tok tid expected at (po_db st) of
        ((c, True), db) \<Rightarrow> st\<lparr>po_db := db, po_claims := (po_claims st)(tok \<mapsto> c)\<rparr>
      | ((c, False), db) \<Rightarrow> st\<lparr>po_db := db\<rparr>)"
| "work sd (Give_Back tok at) st =
     (case po_claims st tok of None \<Rightarrow> st | Some c \<Rightarrow> st\<lparr>po_db := snd (release_scheduled_agent_task c at (po_db st))\<rparr>)"
| "work sd (Other_Stmt op) st = st\<lparr>po_db := snd (run_stmt sd op (po_db st))\<rparr>"

definition work_all :: "sql_dialect \<Rightarrow> worker_move list \<Rightarrow> poll_state \<Rightarrow> poll_state" where
  "work_all sd ms st = fold (work sd) ms st"

text \<open>Polls name revisions that were read, and later definitions of the task carry a later time.\<close>

fun later_move :: "sql_dialect \<Rightarrow> ident \<Rightarrow> time \<Rightarrow> worker_move \<Rightarrow> bool" where
  "later_move sd tid e (Poll_Claim _ _ expected _) \<longleftrightarrow> sd_read sd expected = expected"
| "later_move sd tid e (Give_Back _ _) \<longleftrightarrow> True"
| "later_move sd tid e (Other_Stmt op) \<longleftrightarrow> (case op of
       Define_Task t \<Rightarrow> if at_ID t = tid then e < sd_read sd (at_UpdatedAt t) else True
     | Claim_Task _ _ _ _ \<Rightarrow> False | Release_Task _ _ \<Rightarrow> False | _ \<Rightarrow> True)"

definition revision_later :: "sql_dialect \<Rightarrow> ident \<Rightarrow> time \<Rightarrow> poll_state \<Rightarrow> task_row \<Rightarrow> bool" where
  "revision_later sd tid e st r \<longleftrightarrow> row_id r = tid \<longrightarrow>
     (row_status r = StatusScheduled \<longrightarrow> e < sd_read sd (at_UpdatedAt (ro_Task r))) \<and>
     (\<forall>c. row_status r = StatusRunning \<longrightarrow> \<not> blank (ro_ClaimToken r) \<longrightarrow> po_claims st (ro_ClaimToken r) = Some c \<longrightarrow>
        cl_TaskID c = tid \<longrightarrow> e < cl_Revision c)"

definition poll_inv :: "sql_dialect \<Rightarrow> ident \<Rightarrow> time \<Rightarrow> poll_state \<Rightarrow> bool" where
  "poll_inv sd tid e st \<longleftrightarrow> task_keys (po_db st) \<and> (\<forall>r \<in> set (td_tasks (po_db st)). revision_later sd tid e st r) \<and>
     tid \<in> row_id ` set (td_tasks (po_db st)) \<and> (\<forall>tok c. po_claims st tok = Some c \<longrightarrow> cl_Token c = tok)"

lemma next_revision_later: "previous < next_agent_task_revision candidate previous"
  using truncate_us_gt [of previous] by (simp add: next_agent_task_revision_def time_after_def Let_def)

lemma next_revision_truncated: "truncate_us (next_agent_task_revision candidate previous) = next_agent_task_revision candidate previous"
  by (simp add: next_agent_task_revision_def Let_def)

lemma update_where_rows:
  assumes "update_where P f db = (n, db')" "\<And>r. row_id (f r) = row_id r"
  shows "set (td_tasks db') = (\<lambda>r. if P r then f r else r) ` set (td_tasks db)"
    "row_id ` set (td_tasks db') = row_id ` set (td_tasks db)"
proof -
  show rows: "set (td_tasks db') = (\<lambda>r. if P r then f r else r) ` set (td_tasks db)"
    using assms(1) by (auto simp: update_where_def split del: if_split)
  have "row_id (if P r then f r else r) = row_id r" for r using assms(2) by simp
  then show "row_id ` set (td_tasks db') = row_id ` set (td_tasks db)" unfolding rows image_image by simp
qed

text \<open>An update keeps the invariant when each row it changes is later than \<open>e\<close> afterwards.\<close>

lemma poll_inv_update:
  assumes "poll_inv sd tid e st" "update_where P f (po_db st) = (n, db')" "\<And>r. row_id (f r) = row_id r"
    "\<And>r. r \<in> set (td_tasks (po_db st)) \<Longrightarrow> revision_later sd tid e st r \<Longrightarrow> P r \<Longrightarrow> revision_later sd tid e st (f r)"
  shows "poll_inv sd tid e (st\<lparr>po_db := db'\<rparr>)"
proof -
  have eq: "revision_later sd tid e (st\<lparr>po_db := db'\<rparr>) = revision_later sd tid e st"
    by (simp add: revision_later_def fun_eq_iff)
  have "task_keys db'" using update_where_keys [OF _ assms(3,2)] assms(1) by (simp add: poll_inv_def)
  then show ?thesis
    using assms(1,4) update_where_rows [OF assms(2,3)] unfolding poll_inv_def eq by (simp del: update_where_def) blast
qed

lemma poll_inv_claim:
  assumes inv: "poll_inv sd tid e st" and "sd_read sd expected = expected"
    and run: "claim_scheduled_agent_task sd tok tid' expected at (po_db st) = ((c, ok), db')"
  shows "poll_inv sd tid e (if ok then st\<lparr>po_db := db', po_claims := (po_claims st)(tok \<mapsto> c)\<rparr> else st\<lparr>po_db := db'\<rparr>)"
proof -
  let ?P = "\<lambda>r. row_id r = tid' \<and> row_status r = StatusScheduled \<and> sd_read sd (at_UpdatedAt (ro_Task r)) = sd_read sd expected"
  let ?rev = "next_agent_task_revision at expected"
  let ?f = "\<lambda>r. r\<lparr>ro_Task := (ro_Task r)\<lparr>at_Status := StatusRunning, at_UpdatedAt := ?rev\<rparr>, ro_ClaimToken := tok\<rparr>"
  obtain n where n: "update_where ?P ?f (po_db st) = (n, db')" "ok = (n = 1)" "c = \<lparr>cl_TaskID = tid', cl_Revision = ?rev, cl_Token = tok\<rparr>"
    using run by (auto simp: claim_scheduled_agent_task_def transition_agent_task_status_def row_id_def row_status_def
      Let_def split: prod.splits)
  show ?thesis
  proof (cases ok)
    case False
    have "task_keys (po_db st)" using inv by (simp add: poll_inv_def)
    then have "db' = po_db st" using update_where_failed [OF _ _ n(1)] n(2) False by blast
    then show ?thesis using inv False by simp
  next
    case True
    let ?st = "st\<lparr>po_claims := (po_claims st)(tok \<mapsto> c)\<rparr>"
    obtain r0 where r0: "r0 \<in> set (td_tasks (po_db st))" "?P r0"
      using update_where_matched [of ?P ?f "po_db st" 0 db'] n True by (auto simp: list_ex_iff)
    have rev: "e < ?rev" if "tid' = tid"
    proof -
      have "e < sd_read sd (at_UpdatedAt (ro_Task r0))" using inv r0 that by (auto simp: poll_inv_def revision_later_def)
      then have "e < expected" using r0(2) assms(2) by simp
      then show ?thesis using next_revision_later [of expected at] by simp
    qed
    have same: "revision_later sd tid e ?st r" if "revision_later sd tid e st r" for r
      using that rev by (auto simp: revision_later_def n(3))
    have "poll_inv sd tid e ?st" using inv same by (auto simp: poll_inv_def n(3))
    then have "poll_inv sd tid e (?st\<lparr>po_db := db'\<rparr>)"
    proof (rule poll_inv_update [where P = ?P and f = ?f])
      show "update_where ?P ?f (po_db ?st) = (n, db')" using n(1) by simp
      show "revision_later sd tid e ?st (?f r)" if "?P r" for r
        using that rev by (auto simp: revision_later_def row_id_def row_status_def n(3))
    qed (simp add: row_id_def)
    moreover have "?st\<lparr>po_db := db'\<rparr> = st\<lparr>po_db := db', po_claims := (po_claims st)(tok \<mapsto> c)\<rparr>" by simp
    ultimately show ?thesis using True by metis
  qed
qed

lemma poll_inv_release:
  assumes exact: "\<And>t. sd_read sd (truncate_us t) = truncate_us t"
    and inv: "poll_inv sd tid e st" and c: "po_claims st tok = Some c"
  shows "poll_inv sd tid e (st\<lparr>po_db := snd (release_scheduled_agent_task c at (po_db st))\<rparr>)"
proof (cases "blank (cl_Token c)")
  case True
  then show ?thesis using inv by (simp add: release_scheduled_agent_task_def)
next
  case False
  let ?P = "\<lambda>r. row_id r = cl_TaskID c \<and> row_status r = StatusRunning \<and> ro_ClaimToken r = cl_Token c"
  let ?rev = "next_agent_task_revision at (cl_Revision c)"
  let ?f = "\<lambda>r. r\<lparr>ro_Task := (ro_Task r)\<lparr>at_Status := StatusScheduled, at_UpdatedAt := ?rev\<rparr>, ro_ClaimToken := []\<rparr>"
  obtain n db' where n1: "update_where ?P ?f (po_db st) = (n, db')" by fastforce
  then have "snd (release_scheduled_agent_task c at (po_db st)) = db'"
    using False by (simp add: release_scheduled_agent_task_def row_id_def row_status_def Let_def)
  note n = n1 this
  have tok: "cl_Token c = tok" using inv c by (simp add: poll_inv_def)
  have read: "sd_read sd ?rev = ?rev" using exact next_revision_truncated by metis
  show ?thesis unfolding n(2)
  proof (rule poll_inv_update [OF inv n(1)])
    fix r assume "revision_later sd tid e st r" "?P r"
    then have "row_id r = tid \<Longrightarrow> e < cl_Revision c" using c tok False by (auto simp: revision_later_def)
    then show "revision_later sd tid e st (?f r)"
      using next_revision_later [of "cl_Revision c" at] read by (auto simp: revision_later_def row_id_def row_status_def)
  qed (simp add: row_id_def)
qed

lemma poll_inv_other:
  assumes inv: "poll_inv sd tid e st" and later: "later_move sd tid e (Other_Stmt op)"
  shows "poll_inv sd tid e (st\<lparr>po_db := snd (run_stmt sd op (po_db st))\<rparr>)"
proof -
  have updates: "poll_inv sd tid e (st\<lparr>po_db := snd (row_update k P f (po_db st))\<rparr>)"
    if "\<And>r. row_id (f r) = row_id r" "\<And>r. P r \<Longrightarrow> revision_later sd tid e st r \<Longrightarrow> revision_later sd tid e st (f r)" for k P f
  proof -
    obtain n db' where n: "update_where P f (po_db st) = (n, db')" by fastforce
    then have "snd (row_update k P f (po_db st)) = db'" by (simp add: row_update_def done_if_def)
    then show ?thesis using poll_inv_update [OF inv n that(1)] that(2) by simp
  qed
  show ?thesis
  proof (cases op)
    case (Define_Task t)
    show ?thesis unfolding Define_Task run_stmt_updates
      by (rule updates) (use later Define_Task in \<open>auto simp: revision_later_def row_id_def row_status_def\<close>)
  next
    case (Recover_Task i at)
    show ?thesis unfolding Recover_Task run_stmt_updates
      by (rule updates) (auto simp: revision_later_def row_id_def row_status_def)
  next
    case (Insert_Task t)
    have "task_keys (snd (run_stmt sd op (po_db st)))" using inv stmt_keys by (simp add: poll_inv_def)
    moreover have "at_ID t \<noteq> tid \<or> snd (run_stmt sd op (po_db st)) = po_db st"
      using inv Insert_Task by (auto simp: poll_inv_def insert_agent_task_def done_if_def row_id_def)
    moreover have "td_tasks (snd (run_stmt sd op (po_db st))) = td_tasks (po_db st) \<or>
        td_tasks (snd (run_stmt sd op (po_db st))) = td_tasks (po_db st) @ [\<lparr>ro_Task = t, ro_ClaimToken = []\<rparr>]"
      using Insert_Task by (auto simp: insert_agent_task_def done_if_def)
    ultimately show ?thesis using inv by (auto simp: poll_inv_def revision_later_def row_id_def)
  next
    case (Record_Run now r)
    have "td_tasks (snd (run_stmt sd op (po_db st))) = td_tasks (po_db st)"
      using run_record(1) [OF surjective_pairing] Record_Run by blast
    then show ?thesis using inv by (simp add: poll_inv_def revision_later_def task_keys_def)
  qed (use later in auto)
qed

lemma poll_inv_work:
  assumes "\<And>t. sd_read sd (truncate_us t) = truncate_us t" "poll_inv sd tid e st" "later_move sd tid e m"
  shows "poll_inv sd tid e (work sd m st)"
proof (cases m)
  case (Poll_Claim tok tid' expected at)
  obtain c ok db' where r: "claim_scheduled_agent_task sd tok tid' expected at (po_db st) = ((c, ok), db')"
    by (metis surj_pair)
  have "sd_read sd expected = expected" using assms(3) Poll_Claim by simp
  from poll_inv_claim [OF assms(2) this r] show ?thesis using r Poll_Claim by (cases ok) simp_all
next
  case (Give_Back tok at)
  show ?thesis using poll_inv_release [OF assms(1,2)] assms(2) Give_Back by (simp split: option.split)
next
  case (Other_Stmt op)
  then show ?thesis using poll_inv_other [OF assms(2)] assms(3) by (metis work.simps(3))
qed

lemma initial_poll:
  assumes "task_keys db" "claim_scheduled_agent_task sd tok tid e at db = ((c, True), db1)" "\<not> blank tok"
  shows "poll_inv sd tid e \<lparr>po_db = db1, po_claims = [tok \<mapsto> c]\<rparr>"
proof -
  have run: "run_stmt sd (Claim_Task tok tid e at) db = (None, db1)" using assms(2) by (simp add: done_if_def)
  have keys: "task_keys db1" using stmt_keys [OF assms(1), of sd "Claim_Task tok tid e at"] run by simp
  have held: "claim_held db1 (tid, tok)" using claim_is_held [OF run assms(3)] .
  have c: "c = \<lparr>cl_TaskID = tid, cl_Revision = next_agent_task_revision at e, cl_Token = tok\<rparr>"
    using assms(2) by (auto simp: claim_scheduled_agent_task_def Let_def split: prod.splits)
  have "row_status r = StatusRunning" if "r \<in> set (td_tasks db1)" "row_id r = tid" for r
    using row_status_held [OF keys held] that by simp
  moreover have "tid \<in> row_id ` set (td_tasks db1)"
    using held by (auto simp: claim_held_iff list_ex_iff held_by_def)
  ultimately show ?thesis using keys c next_revision_later [of e at] by (auto simp: poll_inv_def revision_later_def split: if_splits)
qed

lemma poll_inv_refuses:
  assumes "poll_inv sd tid e st" "sd_read sd e = e"
  shows "snd (fst (claim_scheduled_agent_task sd tok tid e at (po_db st))) = False"
proof (rule ccontr)
  assume "snd (fst (claim_scheduled_agent_task sd tok tid e at (po_db st))) \<noteq> False"
  then have "list_ex (\<lambda>r. row_id r = tid \<and> row_status r = StatusScheduled \<and> sd_read sd (at_UpdatedAt (ro_Task r)) = sd_read sd e) (td_tasks (po_db st))"
    using update_where_matched [of "\<lambda>r. row_id r = tid \<and> row_status r = StatusScheduled \<and> sd_read sd (at_UpdatedAt (ro_Task r)) = sd_read sd e" _ "po_db st" 0]
    by (auto simp: claim_scheduled_agent_task_def transition_agent_task_status_def row_id_def row_status_def Let_def split: prod.splits)
  then show False using assms by (auto simp: list_ex_iff poll_inv_def revision_later_def)
qed

section \<open>Properties of claims\<close>

definition small_task :: "ident \<Rightarrow> string \<Rightarrow> time \<Rightarrow> agent_task" where
  "small_task i st u = \<lparr>at_ID = i, at_Name = i, at_Kind = ''cli'', at_Command = ''version'', at_Schedule = ''interval:1s'',
     at_Status = st, at_NotifyJSON = ''{}'', at_SummaryJSON = ''{}'', at_CreatedAt = 1000, at_UpdatedAt = u,
     at_LatestStatus = [], at_LatestRunID = [], at_LastRunAt = 0, at_RunCount = 0\<rparr>"

definition one_task :: task_db where
  "one_task = \<lparr>td_tasks = [\<lparr>ro_Task = small_task ''t'' StatusScheduled 5000, ro_ClaimToken = []\<rparr>], td_runs = []\<rparr>"

definition exact_times :: sql_dialect where
  "exact_times = \<lparr>sd_read = id, sd_after = (\<lambda>a b. b < a)\<rparr>"

text \<open>
  C8. A claimed task belongs to its claim. After a claim of a task has succeeded, and as long as the
  claim is not released with its token and the task is not recovered by hand, whatever else is written
  to the tables, the row stays running under the token of the claim and every further claim of the task
  is refused and changes nothing.
\<close>

theorem claimed_task_is_exclusive:
  assumes "task_keys db" "run_stmt sd (Claim_Task tok tid expected at) db = (None, db1)" "\<not> blank tok"
    "list_all (\<lambda>op. \<not> stmt_ends op (tid, tok)) ops"
  shows "claim_held (run_stmts sd ops db1) (tid, tok) \<and>
     run_stmt sd (Claim_Task tok' tid expected' at') (run_stmts sd ops db1) = (Some (), run_stmts sd ops db1)"
proof -
  let ?db = "run_stmts sd ops db1" and ?op = "Claim_Task tok' tid expected' at'"
  have keys: "task_keys db1" using stmt_keys [OF assms(1), of sd "Claim_Task tok tid expected at"] assms(2) by simp
  note held = claim_is_held [OF assms(2,3)]
  have ends: "\<forall>op \<in> set ops. \<not> stmt_ends op (tid, tok)" using assms(4) by (simp add: list_all_iff)
  have "fst (run_stmt sd ?op ?db) \<noteq> None"
    using task_claims.no_rival_claim [OF keys held ends, of ?op "(tid, tok')" sd]
    by (simp add: run_all_run_stmts same_task_def del: run_stmt.simps)
  moreover have "task_keys ?db" using task_claims.good_run_all [OF keys] by (simp add: run_all_run_stmts)
  ultimately have "run_stmt sd ?op ?db = (Some (), ?db)"
    using task_claims.failed_keeps by (simp add: prod_eq_iff del: run_stmt.simps)
  then show ?thesis using task_claims.stays_held [OF keys held ends] by (simp add: run_all_run_stmts)
qed

theorem claimed_task_is_exclusive_witness:
  "\<exists>db1. run_stmt exact_times (Claim_Task ''k1'' ''t'' 5000 9000) one_task = (None, db1) \<and>
     run_stmt exact_times (Claim_Task ''k2'' ''t'' 6000 9500)
       (run_stmts exact_times [Define_Task (small_task ''t'' StatusScheduled 6000)] db1) =
     (Some (), run_stmts exact_times [Define_Task (small_task ''t'' StatusScheduled 6000)] db1)"
proof -
  have "fst (run_stmt exact_times (Claim_Task ''k1'' ''t'' 5000 9000) one_task) = None" by code_simp
  then obtain db1 where db1: "run_stmt exact_times (Claim_Task ''k1'' ''t'' 5000 9000) one_task = (None, db1)"
    by (metis prod.collapse)
  have "task_keys one_task" "\<not> blank ''k1''" by code_simp+
  from claimed_task_is_exclusive [OF this(1) db1 this(2), of "[Define_Task (small_task ''t'' StatusScheduled 6000)]" "''k2''" 6000 9500]
  show ?thesis using db1 by (intro exI [of _ db1] conjI) simp_all
qed

text \<open>
  A poll is good for one claim. Once a worker has claimed the revision of a task it had read, no
  worker that read the same revision can claim it again, however many workers claim and release the
  task in the meantime and whatever the clocks of their processes say, unless somebody redefines the
  task with a time that is not later. This needs of the database only that a time stamp cut to
  microseconds is read back as it was written.
\<close>

theorem stale_poll_never_claims:
  assumes "\<And>t. sd_read sd (truncate_us t) = truncate_us t" "task_keys db"
    "claim_scheduled_agent_task sd tok tid e at db = ((c, True), db1)" "\<not> blank tok" "sd_read sd e = e"
    "list_all (later_move sd tid e) moves"
  shows "snd (fst (claim_scheduled_agent_task sd tok' tid e at' (po_db (work_all sd moves \<lparr>po_db = db1, po_claims = [tok \<mapsto> c]\<rparr>)))) = False"
proof -
  have "poll_inv sd tid e (work_all sd ms st)" if "poll_inv sd tid e st" "list_all (later_move sd tid e) ms" for ms st
    using that
  proof (induction ms arbitrary: st)
    case (Cons m ms)
    then show ?case using poll_inv_work [OF assms(1) Cons.prems(1)] by (simp add: work_all_def)
  qed (simp add: work_all_def)
  from this [OF initial_poll [OF assms(2-4)] assms(6)] show ?thesis by (rule poll_inv_refuses) (rule assms(5))
qed

theorem stale_poll_never_claims_witness:
  "\<exists>c db1. claim_scheduled_agent_task exact_times ''k1'' ''t'' 5000 4000 one_task = ((c, True), db1) \<and>
     snd (fst (claim_scheduled_agent_task exact_times ''k2'' ''t'' 5000 7000
       (po_db (work_all exact_times [Give_Back ''k1'' 4500] \<lparr>po_db = db1, po_claims = [''k1'' \<mapsto> c]\<rparr>)))) = False"
proof -
  have "snd (fst (claim_scheduled_agent_task exact_times ''k1'' ''t'' 5000 4000 one_task))" by code_simp
  then obtain c db1 where c: "claim_scheduled_agent_task exact_times ''k1'' ''t'' 5000 4000 one_task = ((c, True), db1)"
    by (metis prod.collapse)
  have "task_keys one_task" "\<not> blank ''k1''" by code_simp+
  from stale_poll_never_claims [OF _ this(1) c this(2), of "[Give_Back ''k1'' 4500]" "''k2''" 7000]
  show ?thesis using c by (intro exI [of _ c] exI [of _ db1] conjI) (simp_all add: exact_times_def)
qed

section \<open>The worker\<close>

text \<open>The other connections keep the primary key and leave running rows to their claims.\<close>

definition respects_claims :: "task_world \<Rightarrow> bool" where
  "respects_claims w \<longleftrightarrow> (\<forall>n db. task_keys db \<longrightarrow> task_keys (tw_commits w n db) \<and>
     (\<forall>h. claim_held db h \<longrightarrow> claim_held (tw_commits w n db) h))"

definition keeps_claims :: "(task_db \<Rightarrow> 'a \<times> task_db) \<Rightarrow> bool" where
  "keeps_claims f \<longleftrightarrow> (\<forall>db. task_keys db \<longrightarrow> task_keys (snd (f db)) \<and> (\<forall>h. claim_held db h \<longrightarrow> claim_held (snd (f db)) h))"

definition keeps_keys :: "(task_db \<Rightarrow> 'a \<times> task_db) \<Rightarrow> bool" where
  "keeps_keys f \<longleftrightarrow> (\<forall>db. task_keys db \<longrightarrow> task_keys (snd (f db)))"

lemma statement_log [simp]: "statement w f st = (r, st') \<Longrightarrow> ws_log st' = ws_log st"
  by (auto simp: statement_def Let_def split: prod.splits option.splits outage.splits)

lemma statement_keys:
  assumes "respects_claims w" "keeps_keys f" "task_keys (ws_db st)" "statement w f st = (r, st')"
  shows "task_keys (ws_db st')"
proof -
  let ?db = "tw_commits w (ws_step st) (ws_db st)"
  have "task_keys ?db" using assms(1,3) by (simp add: respects_claims_def)
  moreover have "task_keys (snd (f ?db))" using calculation assms(2) by (simp add: keeps_keys_def)
  moreover have "ws_db st' = ?db \<or> ws_db st' = snd (f ?db)"
    using assms(4) by (auto simp: statement_def Let_def split: prod.splits option.splits outage.splits)
  ultimately show ?thesis by auto
qed

lemma statement_claims:
  assumes "respects_claims w" "keeps_claims f" "task_keys (ws_db st)" "statement w f st = (r, st')"
  shows "task_keys (ws_db st')" "claim_held (ws_db st) h \<Longrightarrow> claim_held (ws_db st') h"
proof -
  let ?db = "tw_commits w (ws_step st) (ws_db st)"
  have keys: "task_keys ?db" using assms(1,3) by (simp add: respects_claims_def)
  have db: "ws_db st' = ?db \<or> ws_db st' = snd (f ?db)"
    using assms(4) by (auto simp: statement_def Let_def split: prod.splits option.splits outage.splits)
  show "task_keys (ws_db st')" using db keys assms(2) by (auto simp: keeps_claims_def)
  show "claim_held (ws_db st') h" if "claim_held (ws_db st) h"
  proof -
    have "claim_held ?db h" using assms(1,3) that unfolding respects_claims_def by blast
    then show ?thesis using db keys assms(2) unfolding keeps_claims_def by metis
  qed
qed

lemma statement_claimed:
  assumes "respects_claims w" "task_keys (ws_db st)" "\<not> blank tok"
    "statement w (claim_scheduled_agent_task sd tok tid e at) st = (Inr (c, True), st')"
  shows "claim_held (ws_db st') (tid, tok)"
proof -
  let ?db = "tw_commits w (ws_step st) (ws_db st)"
  have "claim_scheduled_agent_task sd tok tid e at ?db = ((c, True), ws_db st')"
    using assms(4) by (auto simp: statement_def Let_def split: prod.splits option.splits outage.splits)
  then have "run_stmt sd (Claim_Task tok tid e at) ?db = (None, ws_db st')" by (simp add: done_if_def)
  then show ?thesis using claim_is_held assms(3) by blast
qed

lemma claim_token: "claim_scheduled_agent_task sd tok tid e at db = ((c, ok), db') \<Longrightarrow> cl_Token c = tok"
  by (auto simp: claim_scheduled_agent_task_def Let_def split: prod.splits)

lemma keeps_claims_query [simp]: "keeps_claims (query f)"
  by (simp add: keeps_claims_def query_def)

lemma keeps_claims_record [simp]: "keeps_claims (record_agent_task_run now r)"
  by (auto simp: keeps_claims_def record_agent_task_run_def Let_def task_keys_def claim_held_def)

lemma keeps_keys_claim [simp]: "keeps_keys (claim_scheduled_agent_task sd tok tid e at)"
proof -
  have "snd (claim_scheduled_agent_task sd tok tid e at db) = snd (run_stmt sd (Claim_Task tok tid e at) db)" for db
    by (simp add: done_if_def split: prod.split)
  then show ?thesis using stmt_keys unfolding keeps_keys_def by metis
qed

lemma keeps_keys_release [simp]: "keeps_keys (release_scheduled_agent_task c at)"
proof -
  have "snd (release_scheduled_agent_task c at db) = snd (run_stmt sd (Release_Task c at) db)" for sd db
    by (simp add: done_if_def)
  then show ?thesis using stmt_keys unfolding keeps_keys_def by metis
qed

text \<open>The events of a pass, one claim after the other.\<close>

datatype phase =
    Idle
  | Holding ident string
  | Ran ident string
  | Settled ident string

fun next_phase :: "task_event \<Rightarrow> phase \<Rightarrow> phase option" where
  "next_phase (Claimed_Task t k) Idle = Some (Holding t k)"
| "next_phase (Ran_Command _ _) (Holding t k) = Some (Ran t k)"
| "next_phase (Recorded_Run _ _) (Ran t k) = Some (Settled t k)"
| "next_phase (Released_Task t' k') (Holding t k) = (if t' = t \<and> k' = k then Some Idle else None)"
| "next_phase (Released_Task t' k') (Settled t k) = (if t' = t \<and> k' = k then Some Idle else None)"
| "next_phase _ _ = None"

fun follow :: "phase \<Rightarrow> task_event list \<Rightarrow> phase option" where
  "follow p [] = Some p"
| "follow p (e # es) = (case next_phase e p of None \<Rightarrow> None | Some p' \<Rightarrow> follow p' es)"

lemma follow_append: "follow p (es @ es') = (case follow p es of None \<Rightarrow> None | Some p' \<Rightarrow> follow p' es')"
  by (induction p es rule: follow.induct) (auto split: option.split)

lemma prepare_run_id: "ru_ID (prepare_agent_task_run r now) = ru_ID r"
  unfolding prepare_agent_task_run_def Let_def by (simp add: if_distrib [of ru_ID])

lemma record_keeps_id: "record_agent_task_run now r db = (Inr run, db') \<Longrightarrow> ru_ID run = ru_ID r"
  unfolding record_agent_task_run_def Let_def using prepare_run_id [of r now] by (auto split: if_splits)

lemma statement_Inr: "statement w f st = (Inr a, st') \<Longrightarrow> \<exists>db db'. f db = (a, db')"
  by (auto simp: statement_def Let_def split: prod.splits option.splits outage.splits)

lemma execute_and_record:
  assumes "respects_claims w" "task_keys (ws_db st)" "execute_and_record_task_run w t command st = ((run, err), st')"
  shows "task_keys (ws_db st')" "claim_held (ws_db st) h \<Longrightarrow> claim_held (ws_db st') h"
    "case run of None \<Rightarrow> ws_log st' = ws_log st @ [Ran_Command (at_ID t) command]
     | Some r \<Rightarrow> ru_ID r \<noteq> [] \<and> ws_log st' = ws_log st @ [Ran_Command (at_ID t) command, Recorded_Run (at_ID t) (ru_ID r)]"
proof -
  obtain out_text code failure where cmd: "tw_command w (ws_step st) (at_Kind t) command = (out_text, code, failure)"
    by (metis prod_cases3)
  define st1 where "st1 = log_event (Ran_Command (at_ID t) command) (st\<lparr>ws_step := ws_step st + 2\<rparr>)"
  have "\<exists>r. ru_ID r \<noteq> [] \<and> execute_and_record_task_run w t command st =
      (case statement w (record_agent_task_run (tw_clock w (ws_step st + 2)) r) st1 of
        (res, st2) \<Rightarrow> (case flat_result res of Inl e \<Rightarrow> ((None, Some e), st2)
        | Inr run \<Rightarrow> ((Some run, map_option Command_Failed failure), log_event (Recorded_Run (at_ID t) (ru_ID run)) st2)))"
    unfolding execute_and_record_task_run_def cmd Let_def st1_def prod.case
    by (rule exI, rule conjI [rotated], rule refl) simp
  then obtain r where id: "ru_ID r \<noteq> []" and run: "execute_and_record_task_run w t command st =
      (case statement w (record_agent_task_run (tw_clock w (ws_step st + 2)) r) st1 of
        (res, st2) \<Rightarrow> (case flat_result res of Inl e \<Rightarrow> ((None, Some e), st2)
        | Inr run \<Rightarrow> ((Some run, map_option Command_Failed failure), log_event (Recorded_Run (at_ID t) (ru_ID run)) st2)))"
    by blast
  obtain res st2 where s: "statement w (record_agent_task_run (tw_clock w (ws_step st + 2)) r) st1 = (res, st2)" by fastforce
  have st1: "ws_db st1 = ws_db st" "ws_log st1 = ws_log st @ [Ran_Command (at_ID t) command]"
    by (simp_all add: st1_def log_event_def)
  note c = statement_claims [OF assms(1) keeps_claims_record _ s, unfolded st1(1), OF assms(2)]
  have st': "ws_db st' = ws_db st2" using assms(3) unfolding run s by (auto simp: log_event_def split: sum.splits)
  show "task_keys (ws_db st')" "claim_held (ws_db st) h \<Longrightarrow> claim_held (ws_db st') h" using c st' by simp_all
  show "case run of None \<Rightarrow> ws_log st' = ws_log st @ [Ran_Command (at_ID t) command]
     | Some r \<Rightarrow> ru_ID r \<noteq> [] \<and> ws_log st' = ws_log st @ [Ran_Command (at_ID t) command, Recorded_Run (at_ID t) (ru_ID r)]"
  proof (cases "flat_result res")
    case (Inl e)
    then show ?thesis using assms(3) statement_log [OF s] st1(2) unfolding run s by auto
  next
    case (Inr x)
    then have "res = Inr (Inr x)" by (auto simp: flat_result_def split: sum.splits)
    then have "ru_ID x = ru_ID r" using statement_Inr [OF s [unfolded \<open>res = Inr (Inr x)\<close>]] record_keeps_id by blast
    then show ?thesis using assms(3) statement_log [OF s] st1(2) Inr id unfolding run s by (auto simp: log_event_def)
  qed
qed

definition item_events :: "task_item \<Rightarrow> task_event list \<Rightarrow> bool" where
  "item_events i es \<longleftrightarrow> (\<exists>t c. if \<not> it_Attempted i then es = []
     else case it_Run i of None \<Rightarrow> es = [Ran_Command t c] | Some r \<Rightarrow> ru_ID r \<noteq> [] \<and> es = [Ran_Command t c, Recorded_Run t (ru_ID r)])"

lemma execute_claimed:
  assumes "respects_claims w" "task_keys (ws_db st)" "execute_claimed_scheduled_task w t st = (item, st')"
  shows "task_keys (ws_db st') \<and> (\<forall>h. claim_held (ws_db st) h \<longrightarrow> claim_held (ws_db st') h) \<and>
    (\<exists>es. ws_log st' = ws_log st @ es \<and> item_events item es)"
proof -
  obtain res st1 where s: "statement w (query (get_agent_task (tw_dialect w) (at_ID t))) st = (res, st1)" by fastforce
  note c = statement_claims [OF assms(1) keeps_claims_query assms(2) s]
  show ?thesis
  proof (cases "\<exists>t1 opts. flat_result res = Inr t1 \<and> task_notification_options (at_NotifyJSON t1) = Inr opts")
    case False
    then have "st' = st1 \<and> \<not> it_Attempted item"
      using assms(3) unfolding execute_claimed_scheduled_task_def s
      by (auto simp: new_item_def split: sum.splits)
    then show ?thesis using c statement_log [OF s] by (simp add: item_events_def)
  next
    case True
    then obtain t1 opts where t1: "flat_result res = Inr t1" "task_notification_options (at_NotifyJSON t1) = Inr opts" by blast
    obtain run err st2 where e: "execute_and_record_task_run w t1 (at_Command t1) st1 = ((run, err), st2)" by (metis prod.collapse)
    note x = execute_and_record [OF assms(1) c(1) e]
    have item: "st' = st2" "it_Attempted item" "it_Run item = run"
      using assms(3) unfolding execute_claimed_scheduled_task_def s by (auto simp: t1 e new_item_def Let_def)
    have "\<exists>es. ws_log st' = ws_log st @ es \<and> item_events item es"
      using x(3) statement_log [OF s] by (cases run) (auto simp: item item_events_def)
    then show ?thesis using c x(1,2) item(1) by blast
  qed
qed

lemma finish_claimed:
  assumes "respects_claims w" "task_keys (ws_db st)" "item_events item es"
    "finish_claimed_task w t c item rep1 st = (rep, err, st')"
  shows "task_keys (ws_db st') \<and> (\<exists>es' p. ws_log st' = ws_log st @ es' \<and>
     follow (Holding (at_ID t) (cl_Token c)) (es @ es') = Some p \<and> (err = None \<longrightarrow> p = Idle) \<and>
     (\<forall>n. err = Some (Unknown_Outcome n) \<longrightarrow> p = Ran (at_ID t) (cl_Token c) \<and> ws_db st' = ws_db st))"
proof (cases "it_Attempted item \<and> (case it_Run item of None \<Rightarrow> True | Some r \<Rightarrow> ru_ID r = [])")
  case True
  then have "it_Run item = None" using assms(3) by (auto simp: item_events_def split: option.splits)
  with True assms(3) obtain tid cmd where "es = [Ran_Command tid cmd]" by (auto simp: item_events_def)
  moreover have "st' = st" "err = Some (Unknown_Outcome (at_Name t))" using True assms(4) by (simp_all add: finish_claimed_task_def)
  ultimately show ?thesis using assms(2) by auto
next
  case False
  obtain p1 where p1: "follow (Holding (at_ID t) (cl_Token c)) es = Some p1"
      "p1 = Holding (at_ID t) (cl_Token c) \<or> p1 = Settled (at_ID t) (cl_Token c)"
    using False assms(3) by (auto simp: item_events_def split: option.splits if_splits)
  obtain res st1 where s: "statement w (release_scheduled_agent_task c (tw_clock w (ws_step st))) st = (res, st1)" by fastforce
  have keys1: "task_keys (ws_db st1)" using statement_keys [OF assms(1) keeps_keys_release assms(2) s] .
  show ?thesis
  proof (cases "res = Inr True")
    case released: True
    let ?st2 = "log_event (Released_Task (at_ID t) (cl_Token c)) st1"
    obtain res3 st3 where g: "statement w (query (get_agent_task (tw_dialect w) (at_ID t))) ?st2 = (res3, st3)" by fastforce
    have "st' = st3" "err = None"
      using assms(4) unfolding finish_claimed_task_def if_not_P [OF False] s released by (auto simp: g Let_def)
    moreover have "task_keys (ws_db st3)"
      using statement_claims(1) [OF assms(1) keeps_claims_query _ g] keys1 by (simp add: log_event_def)
    moreover have "ws_log st3 = ws_log st @ [Released_Task (at_ID t) (cl_Token c)]"
      using statement_log [OF g] statement_log [OF s] by (simp add: log_event_def)
    moreover have "follow (Holding (at_ID t) (cl_Token c)) (es @ [Released_Task (at_ID t) (cl_Token c)]) = Some Idle"
      using p1 by (auto simp: follow_append)
    ultimately show ?thesis by auto
  next
    case kept: False
    then have "st' = st1" "err \<noteq> None" "\<forall>n. err \<noteq> Some (Unknown_Outcome n)"
      using assms(4) unfolding finish_claimed_task_def if_not_P [OF False] s by (auto split: sum.splits bool.splits)
    then show ?thesis using keys1 statement_log [OF s] p1(1) by auto
  qed
qed

definition pass_outcome :: "worker_state \<Rightarrow> task_error option \<Rightarrow> worker_state \<Rightarrow> bool" where
  "pass_outcome st err st' \<longleftrightarrow> (\<exists>es p. ws_log st' = ws_log st @ es \<and> follow Idle es = Some p \<and> (err = None \<longrightarrow> p = Idle) \<and>
     (\<forall>n. err = Some (Unknown_Outcome n) \<longrightarrow> (\<exists>tid tok. p = Ran tid tok \<and> claim_held (ws_db st') (tid, tok))))"

lemma pass_outcome_trans:
  assumes "ws_log st1 = ws_log st @ es" "follow Idle es = Some Idle" "pass_outcome st1 err st'"
  shows "pass_outcome st err st'"
proof -
  obtain es' p where "ws_log st' = ws_log st1 @ es'" "follow Idle es' = Some p" "err = None \<longrightarrow> p = Idle"
    "\<forall>n. err = Some (Unknown_Outcome n) \<longrightarrow> (\<exists>tid tok. p = Ran tid tok \<and> claim_held (ws_db st') (tid, tok))"
    using assms(3) unfolding pass_outcome_def by (elim exE conjE) (rule that)
  then show ?thesis unfolding pass_outcome_def
    by (intro exI [of _ "es @ es'"] exI [of _ p]) (simp add: assms(1,2) follow_append)
qed

lemma worker_tasks_outcome:
  assumes "worker_tasks w now ts rep st = (rep', err, st')" "respects_claims w" "task_keys (ws_db st)" "\<And>n. \<not> blank (tw_token w n)"
  shows "pass_outcome st err st'"
  using assms(1,3)
proof (induction ts arbitrary: rep st)
  case Nil
  then show ?case by (auto simp: pass_outcome_def intro: exI [of _ "[]"])
next
  case (Cons t ts)
  let ?tok = "tw_token w (ws_step st)"
  show ?case
  proof (cases "at_Status t = StatusScheduled \<and> scheduled_agent_task_due t now = Inr True")
    case False
    then have "\<exists>rep1. worker_tasks w now ts rep1 st = (rep', err, st')"
      using Cons.prems(1) by (auto simp: Let_def split: if_splits sum.splits bool.splits)
    then show ?thesis using Cons.IH Cons.prems(2) by blast
  next
    case due: True
    obtain res st1 where s: "statement w (claim_scheduled_agent_task (tw_dialect w) ?tok (at_ID t) (at_UpdatedAt t) now) st = (res, st1)"
      by fastforce
    have keys1: "task_keys (ws_db st1)" using statement_keys [OF assms(2) keeps_keys_claim Cons.prems(2) s] .
    have log1: "ws_log st1 = ws_log st @ []" using statement_log [OF s] by simp
    consider (failed) e where "res = Inl e" | (lost) c where "res = Inr (c, False)" | (won) c where "res = Inr (c, True)"
      by (metis prod.collapse sum.exhaust_sel)
    then show ?thesis
    proof cases
      case failed
      then have "st' = st1" "err = Some (Claim_Failed (at_Name t) e)" using Cons.prems(1) due s by (auto simp: Let_def)
      then show ?thesis using log1 by (auto simp: pass_outcome_def intro: exI [of _ "[]"])
    next
      case lost
      then have "\<exists>rep1. worker_tasks w now ts rep1 st1 = (rep', err, st')" using Cons.prems(1) due s by (auto simp: Let_def)
      then have "pass_outcome st1 err st'" using Cons.IH keys1 by blast
      then show ?thesis by (rule pass_outcome_trans [OF log1, rotated]) simp
    next
      case won
      have c: "cl_Token c = ?tok"
        using statement_Inr [OF s [unfolded won]] claim_token by blast
      let ?st2 = "log_event (Claimed_Task (at_ID t) ?tok) st1"
      have held: "claim_held (ws_db ?st2) (at_ID t, ?tok)" "task_keys (ws_db ?st2)"
        using statement_claimed [OF assms(2) Cons.prems(2) assms(4) s [unfolded won]] keys1 by (simp_all add: log_event_def)
      obtain item st3 where x: "execute_claimed_scheduled_task w t ?st2 = (item, st3)" by fastforce
      from execute_claimed [OF assms(2) held(2) x] obtain es where
        es: "task_keys (ws_db st3)" "claim_held (ws_db st3) (at_ID t, ?tok)" "ws_log st3 = ws_log ?st2 @ es" "item_events item es"
        using held(1) by blast
      obtain rep1 err1 st4 where f: "finish_claimed_task w t c item
          (add_item item (rep\<lparr>wr_Scheduled := wr_Scheduled rep + 1, wr_Due := wr_Due rep + 1, wr_Claimed := wr_Claimed rep + 1\<rparr>)) st3 =
          (rep1, err1, st4)" by (metis prod_cases3)
      from finish_claimed [OF assms(2) es(1,4) f] c obtain es' p where
        es': "task_keys (ws_db st4)" "ws_log st4 = ws_log st3 @ es'" "follow (Holding (at_ID t) ?tok) (es @ es') = Some p"
          "err1 = None \<longrightarrow> p = Idle" "\<forall>n. err1 = Some (Unknown_Outcome n) \<longrightarrow> p = Ran (at_ID t) ?tok \<and> ws_db st4 = ws_db st3"
        by auto
      have log4: "ws_log st4 = ws_log st @ (Claimed_Task (at_ID t) ?tok # es @ es')"
        using es'(2) es(3) log1 by (simp add: log_event_def)
      have result: "case err1 of None \<Rightarrow> worker_tasks w now ts rep1 st4 = (rep', err, st') | Some e \<Rightarrow> err = Some e \<and> st' = st4"
        using Cons.prems(1) due s won x f by (auto simp: Let_def split: option.splits)
      show ?thesis
      proof (cases err1)
        case None
        then have "pass_outcome st4 err st'" using Cons.IH result es'(1) by auto
        then show ?thesis by (rule pass_outcome_trans [OF log4, rotated]) (use None es' in simp)
      next
        case (Some e)
        then show ?thesis using result es' es(2) log4 unfolding pass_outcome_def
          by (intro exI [of _ "Claimed_Task (at_ID t) ?tok # es @ es'"] exI [of _ p]) auto
      qed
    qed
  qed
qed

lemma worker_pass_outcome:
  assumes "run_task_worker_pass w now st = (rep, err, st')" "respects_claims w" "task_keys (ws_db st)" "\<And>n. \<not> blank (tw_token w n)"
  shows "pass_outcome st err st'"
proof -
  obtain res st1 where s: "statement w (query (list_agent_tasks (tw_dialect w))) st = (res, st1)" by fastforce
  have log: "ws_log st1 = ws_log st @ []" using statement_log [OF s] by simp
  show ?thesis
  proof (cases res)
    case (Inl e)
    then have "st' = st1" "err = Some (List_Failed e)" using assms(1) by (auto simp: run_task_worker_pass_def s)
    then show ?thesis using log by (auto simp: pass_outcome_def intro: exI [of _ "[]"])
  next
    case (Inr ts)
    then have "\<exists>rep1. worker_tasks w now ts rep1 st1 = (rep, err, st')" using assms(1) by (auto simp: run_task_worker_pass_def s)
    then have "pass_outcome st1 err st'"
      using worker_tasks_outcome [OF _ assms(2) statement_claims(1) [OF assms(2) keeps_claims_query assms(3) s] assms(4)] by blast
    then show ?thesis by (rule pass_outcome_trans [OF log, rotated]) simp
  qed
qed

section \<open>Properties of the worker\<close>

definition quiet_world :: "(nat \<Rightarrow> outage option) \<Rightarrow> task_world" where
  "quiet_world outages = \<lparr>tw_dialect = exact_times, tw_clock = (\<lambda>n. 9000000000 + 1000 * int n),
     tw_token = (\<lambda>n. ''k'' @ string_of_nat n), tw_stamp = (\<lambda>t. ''stamp''), tw_crc32 = (\<lambda>s. ''0''),
     tw_commits = (\<lambda>n db. db), tw_outage = outages, tw_command = (\<lambda>n kind c. (c, 0, None)),
     tw_file = (\<lambda>n path t. \<lparr>nr_OK = True, nr_Channel = ''file'', nr_Target = path, nr_Error = []\<rparr>),
     tw_webhook = (\<lambda>n url t. \<lparr>nr_OK = True, nr_Channel = ''webhook'', nr_Target = url, nr_Error = []\<rparr>)\<rparr>"

definition worker_start :: "task_db \<Rightarrow> worker_state" where
  "worker_start db = \<lparr>ws_db = db, ws_step = 0, ws_log = []\<rparr>"

lemma quiet_world_ok: "respects_claims (quiet_world outages)" "\<not> blank (tw_token (quiet_world outages) n)"
  by (simp_all add: respects_claims_def quiet_world_def blank_iff_all_space is_space_def)

text \<open>
  C7. The worker never replays a command by itself. Each pass is a sequence of claims; under a claim at
  most one command is run; the claim is released only before a command was started or after its run is
  recorded; and when a command ran but its run could not be recorded, the pass stops there and the task
  is still running under that claim, so that nobody can claim it again until it is recovered by hand. This
  holds for every outage of the database, also one that hides a statement that took effect, and
  whatever the other connections do that respects claims.
\<close>

theorem worker_replays_nothing:
  assumes "run_task_worker_pass w now st = (rep, err, st')" "respects_claims w" "task_keys (ws_db st)"
    "\<And>n. \<not> blank (tw_token w n)"
  shows "\<exists>es p. ws_log st' = ws_log st @ es \<and> follow Idle es = Some p \<and> (err = None \<longrightarrow> p = Idle) \<and>
     (\<forall>n. err = Some (Unknown_Outcome n) \<longrightarrow> (\<exists>tid tok. p = Ran tid tok \<and> claim_held (ws_db st') (tid, tok)))"
  using worker_pass_outcome [OF assms] unfolding pass_outcome_def .

theorem worker_replays_nothing_witness:
  "\<exists>rep st' tid tok es. run_task_worker_pass (quiet_world (\<lambda>n. if n = 5 then Some After_Statement else None)) 9000000000 (worker_start one_task) =
     (rep, Some (Unknown_Outcome ''t''), st') \<and> follow Idle es = Some (Ran tid tok) \<and> ws_log st' = es \<and> claim_held (ws_db st') (tid, tok)"
proof -
  let ?w = "quiet_world (\<lambda>n. if n = 5 then Some After_Statement else None)"
  have "fst (snd (run_task_worker_pass ?w 9000000000 (worker_start one_task))) = Some (Unknown_Outcome ''t'')" by code_simp
  then obtain rep st' where r: "run_task_worker_pass ?w 9000000000 (worker_start one_task) = (rep, Some (Unknown_Outcome ''t''), st')"
    by (metis prod.collapse)
  have "task_keys (ws_db (worker_start one_task))" by code_simp
  from worker_replays_nothing [OF r quiet_world_ok(1) this quiet_world_ok(2)]
  obtain es p where e: "ws_log st' = ws_log (worker_start one_task) @ es" "follow Idle es = Some p"
    "\<exists>tid tok. p = Ran tid tok \<and> claim_held (ws_db st') (tid, tok)" by (elim exE conjE) (rule that, assumption, assumption, simp)
  then obtain tid tok where "p = Ran tid tok" "claim_held (ws_db st') (tid, tok)" by (elim exE conjE)
  then show ?thesis using r e(1,2) by (intro exI conjI) (auto simp: worker_start_def)
qed



end
