(* ===== verification/Run_Preflight.thy ===== *)
theory Run_Preflight
  imports Map_Execute
begin

text \<open>
  The checks of a plan against the active catalog before it is claimed
  (\<open>map_run_preflight.go\<close>), the report of a run (\<open>map_run_report.go\<close>) and the quoting of the
  command that it suggests next (\<open>internal/domain/commandline\<close>).

  A Go map to \<open>bool\<close> that is only used as a set is a set of identifiers.
\<close>

section \<open>Shell words\<close>

fun replace_char :: "char \<Rightarrow> string \<Rightarrow> string \<Rightarrow> string" where
  "replace_char c new [] = []"
| "replace_char c new (d # s) = (if d = c then new else [d]) @ replace_char c new s"

definition quote_char :: char where "quote_char = CHR 0x27"

definition shell_quote :: "string \<Rightarrow> string" where
  "shell_quote value =
     (let v = trim_space value in
      if v = [] then [quote_char, quote_char]
      else [quote_char] @ replace_char quote_char [quote_char, CHR 0x5C, quote_char, quote_char] v @ [quote_char])"

section \<open>The preflight\<close>

record preflight =
  pf_mapProfileID :: ident
  pf_activeProfileID :: ident
  pf_catalogCaseIDs :: "ident set"
  pf_catalogWorkflowIDs :: "ident set"
  pf_catalogFixtureIDs :: "ident set"
  pf_pathStepsByPath :: "ident \<Rightarrow> path_step list"
  pf_materializationByID :: "ident \<rightharpoonup> materialization"
  pf_missingCases :: "ident set"
  pf_missingWorkflows :: "ident set"
  pf_missingFixtures :: "ident set"

definition trimmed_ids :: "ident list \<Rightarrow> ident set" where
  "trimmed_ids xs = set (filter (\<lambda>i. i \<noteq> []) (map trim_space xs))"

definition map_run_catalog_case_ids :: "api_case list \<Rightarrow> ident set" where
  "map_run_catalog_case_ids cs = trimmed_ids (map ac_ID cs)"

definition map_run_catalog_workflow_ids :: "workflow list \<Rightarrow> ident set" where
  "map_run_catalog_workflow_ids ws = trimmed_ids (map wf_ID ws)"

definition map_run_catalog_fixture_ids :: "fixture list \<Rightarrow> ident set" where
  "map_run_catalog_fixture_ids fs = trimmed_ids (map fx_ID fs)"

definition map_run_path_steps_by_path :: "path_step list \<Rightarrow> ident \<Rightarrow> path_step list" where
  "map_run_path_steps_by_path steps pid = sort_key ps_StepIndex (filter (\<lambda>s. ps_PathID s = pid) steps)"

definition map_run_materializations_by_id :: "materialization list \<Rightarrow> ident \<rightharpoonup> materialization" where
  "map_run_materializations_by_id ms = index_by mz_ID ms"

definition require_case :: "ident \<Rightarrow> preflight \<Rightarrow> preflight" where
  "require_case cid p =
     (let c = trim_space cid in
      if c = [] \<or> c \<in> pf_catalogCaseIDs p then p else p\<lparr>pf_missingCases := insert c (pf_missingCases p)\<rparr>)"

definition require_workflow :: "ident \<Rightarrow> preflight \<Rightarrow> preflight" where
  "require_workflow wid p =
     (let w = trim_space wid in
      if w = [] \<or> w \<in> pf_catalogWorkflowIDs p then p else p\<lparr>pf_missingWorkflows := insert w (pf_missingWorkflows p)\<rparr>)"

definition add_missing_fixture :: "ident \<Rightarrow> preflight \<Rightarrow> preflight" where
  "add_missing_fixture fid p =
     (let f = trim_space fid in
      if f = [] then p else p\<lparr>pf_missingFixtures := insert f (pf_missingFixtures p)\<rparr>)"

definition preflight_steps :: "preflight \<Rightarrow> task_record \<Rightarrow> path_step list" where
  "preflight_steps p t =
     (let steps = pf_pathStepsByPath p (tr_PathID t); until = task_until_node_id t in
      if until = [] then steps
      else (case take_through (\<lambda>s. ps_NodeID s = until) steps of Some ss \<Rightarrow> ss | None \<Rightarrow> steps))"

definition inspect_task :: "task_record \<Rightarrow> preflight \<Rightarrow> preflight" where
  "inspect_task t p =
     (if tr_Kind t = TaskRunPath \<or> tr_Kind t = TaskRunPathPrefix then
        (let p1 = require_workflow (tr_WorkflowID t) p
         in fold (\<lambda>s. require_case (ps_CaseID s)) (preflight_steps p1 t) p1)
      else if tr_Kind t = TaskRunCase then require_case (tr_CaseID t) p
      else if tr_Kind t = TaskReuseMaterialized then
        (case pf_materializationByID p (tr_MaterializationID t) of
           None \<Rightarrow> add_missing_fixture (tr_MaterializationID t) p
         | Some m \<Rightarrow>
             (let p1 = require_workflow (mz_SourceWorkflowID m) p in
              if mz_FixtureID m \<noteq> [] \<and> mz_FixtureID m \<notin> pf_catalogFixtureIDs p1
              then add_missing_fixture (mz_FixtureID m) p1 else p1))
      else p)"

definition sorted_bool_keys :: "ident set \<Rightarrow> ident list" where
  "sorted_bool_keys ks = sorted_list_of_set ks"

definition missing_part :: "string \<Rightarrow> ident set \<Rightarrow> string list" where
  "missing_part label ks =
     (if ks = {} then [] else [''missing catalog '' @ label @ '': '' @ str_join '', '' (sorted_bool_keys ks)])"

definition preflight_err :: "preflight \<Rightarrow> string option" where
  "preflight_err p =
     (let parts =
        (if \<not> blank (pf_mapProfileID p) \<and> \<not> blank (pf_activeProfileID p) \<and> pf_mapProfileID p \<noteq> pf_activeProfileID p
         then [''active catalog profile '' @ pf_activeProfileID p @ '' does not match map profile '' @ pf_mapProfileID p]
         else []) @
        missing_part ''workflows'' (pf_missingWorkflows p) @ missing_part ''cases'' (pf_missingCases p) @
        missing_part ''fixtures'' (pf_missingFixtures p)
      in if parts = [] then None else Some (''map run preflight failed: '' @ str_join ''; '' parts))"

definition new_preflight :: "graph \<Rightarrow> profile_catalog \<Rightarrow> preflight" where
  "new_preflight g cat =
     \<lparr>pf_mapProfileID = mp_ProfileID (gr_Map g), pf_activeProfileID = pc_ProfileID cat,
      pf_catalogCaseIDs = map_run_catalog_case_ids (pc_APICases cat),
      pf_catalogWorkflowIDs = map_run_catalog_workflow_ids (pc_Workflows cat),
      pf_catalogFixtureIDs = map_run_catalog_fixture_ids (pc_Fixtures cat),
      pf_pathStepsByPath = map_run_path_steps_by_path (gr_PathSteps g),
      pf_materializationByID = map_run_materializations_by_id (gr_Materializations g),
      pf_missingCases = {}, pf_missingWorkflows = {}, pf_missingFixtures = {}\<rparr>"

definition validate_map_run_catalog_preflight :: "string + profile_catalog \<Rightarrow> graph \<Rightarrow> plan_record \<Rightarrow> string option" where
  "validate_map_run_catalog_preflight cat0 g r =
     (case cat0 of
        Inl e \<Rightarrow> Some (''map run preflight failed: active catalog unavailable: '' @ e)
      | Inr cat \<Rightarrow> preflight_err (fold inspect_task (pr_Tasks r) (new_preflight g cat)))"

section \<open>The report\<close>

record map_run_task_report =
  mr_ID :: ident
  mr_Index :: nat
  mr_Kind :: string
  mr_Operation :: string
  mr_PathID :: ident
  mr_WorkflowID :: ident
  mr_NodeID :: ident
  mr_CaseID :: ident
  mr_ReplayGroupID :: string
  mr_InterfaceNodeID :: string
  mr_AnchorNodeID :: string
  mr_ValidationFamily :: string
  mr_Status :: string
  mr_Reason :: string
  mr_WorkflowRunID :: ident
  mr_APICaseRunID :: ident
  mr_EvidenceRoot :: string
  mr_Summary :: obj

record map_run_report =
  rep_OK :: bool
  rep_PlanID :: ident
  rep_MapID :: ident
  rep_ProfileID :: ident
  rep_EnvironmentID :: ident
  rep_Scope :: string
  rep_TargetKind :: string
  rep_TargetID :: ident
  rep_Status :: string
  rep_Summary :: run_summary
  rep_Tasks :: "map_run_task_report list"
  rep_NextActions :: "string list"

definition task_report :: "task_record \<Rightarrow> map_run_task_report" where
  "task_report t =
     (let summary = json_object_string (tr_SummaryJSON t); text_of = (\<lambda>k. value_string (obj_get summary k)) in
      \<lparr>mr_ID = tr_ID t, mr_Index = tr_Index t, mr_Kind = tr_Kind t, mr_Operation = tr_Operation t,
       mr_PathID = tr_PathID t, mr_WorkflowID = tr_WorkflowID t, mr_NodeID = tr_NodeID t, mr_CaseID = tr_CaseID t,
       mr_ReplayGroupID = text_of ''replayGroupId'', mr_InterfaceNodeID = text_of ''interfaceNodeId'',
       mr_AnchorNodeID = text_of ''anchorNodeId'', mr_ValidationFamily = text_of ''validationFamily'',
       mr_Status = tr_Status t, mr_Reason = tr_Reason t, mr_WorkflowRunID = tr_WorkflowRunID t,
       mr_APICaseRunID = tr_APICaseRunID t, mr_EvidenceRoot = tr_EvidenceRoot t, mr_Summary = summary\<rparr>)"

definition map_run_next_actions :: "ident \<Rightarrow> string list" where
  "map_run_next_actions pid =
     (if blank pid then [] else [''agent-testbench map inspect --view plan --plan '' @ shell_quote pid @ '' --json''])"

definition map_run_report_from_record :: "plan_record \<Rightarrow> map_run_report" where
  "map_run_report_from_record r =
     (let i = pr_Instance r in
      \<lparr>rep_OK = report_ok r, rep_PlanID = pi_ID i, rep_MapID = pi_MapID i, rep_ProfileID = pi_ProfileID i,
       rep_EnvironmentID = pi_EnvironmentID i, rep_Scope = pi_Scope i, rep_TargetKind = pi_TargetKind i,
       rep_TargetID = pi_TargetID i, rep_Status = report_status r, rep_Summary = map_run_summary (pr_Tasks r),
       rep_Tasks = map task_report (pr_Tasks r), rep_NextActions = map_run_next_actions (pi_ID i)\<rparr>)"

section \<open>A whole run\<close>

text \<open>\<open>runMapRun\<close> from the plan that is to run, without the printing of the report.\<close>

definition run_map_run :: "executor \<Rightarrow> ident \<Rightarrow> ident \<Rightarrow> string + profile_catalog \<Rightarrow> plan_record \<Rightarrow> plan_db \<Rightarrow>
  (string + run_outcome) \<times> plan_db \<times> exec_event list" where
  "run_map_run ex owner token cat0 r db =
     (case validate_map_run_catalog_preflight cat0 (ex_graph ex) r of
        Some e \<Rightarrow> (Inl e, db, [])
      | None \<Rightarrow> (let (res, db', log) = run_map_plan ex owner token r db in (Inr res, db', log)))"

end
