(* ===== verification/Run_Preflight_Facts.thy ===== *)
theory Run_Preflight_Facts
  imports Run_Preflight Map_Run_Safety
begin

text \<open>
  What the preflight lets through: which plans pass it, and that an execution then asks for no case
  that the catalog did not have. The quoting of a command is read back by a shell as one word.
\<close>

section \<open>Shell words\<close>

text \<open>
  A POSIX shell reading one word: inside single quotes every character stands for itself; outside, a
  backslash quotes the next character and a character with a meaning of its own ends the word.
\<close>

definition plain_char :: "char \<Rightarrow> bool" where
  "plain_char c \<longleftrightarrow> is_alnum c \<or> c \<in> set ''_-./:,@%+=''"

fun shell_word :: "bool \<Rightarrow> string \<Rightarrow> string option" where
  "shell_word True [] = None"
| "shell_word True (c # s) = (if c = quote_char then shell_word False s else map_option ((#) c) (shell_word True s))"
| "shell_word False [] = Some []"
| "shell_word False (c # s) =
     (if c = quote_char then shell_word True s
      else if c = CHR 0x5C then (case s of [] \<Rightarrow> None | d # r \<Rightarrow> map_option ((#) d) (shell_word False r))
      else if plain_char c then map_option ((#) c) (shell_word False s)
      else None)"

lemma shell_word_quoted:
  "shell_word True (replace_char quote_char [quote_char, CHR 0x5C, quote_char, quote_char] v @ [quote_char]) = Some v"
  by (induction v) (simp_all add: quote_char_def)

text \<open>
  C37. The shell reads a quoted value back as one word, whatever the value: \<open>ShellQuote\<close> leaves no
  character that the shell would interpret, and gives the value without the white space around it.
\<close>

theorem shell_reads_quoted_value: "shell_word False (shell_quote v) = Some (trim_space v)"
  by (simp add: shell_quote_def Let_def shell_word_quoted)

section \<open>What a task needs\<close>

definition known :: "ident set \<Rightarrow> ident \<Rightarrow> bool" where
  "known ids i \<longleftrightarrow> blank i \<or> trim_space i \<in> ids"

definition missing_ids :: "ident set \<Rightarrow> ident list \<Rightarrow> ident set" where
  "missing_ids ids xs = trim_space ` set (filter (\<lambda>i. \<not> known ids i) xs)"

definition needed_cases :: "preflight \<Rightarrow> task_record \<Rightarrow> ident list" where
  "needed_cases p t =
     (if tr_Kind t = TaskRunPath \<or> tr_Kind t = TaskRunPathPrefix then map ps_CaseID (preflight_steps p t)
      else if tr_Kind t = TaskRunCase then [tr_CaseID t] else [])"

definition needed_workflows :: "preflight \<Rightarrow> task_record \<Rightarrow> ident list" where
  "needed_workflows p t =
     (if tr_Kind t = TaskRunPath \<or> tr_Kind t = TaskRunPathPrefix then [tr_WorkflowID t]
      else if tr_Kind t = TaskReuseMaterialized then
        (case pf_materializationByID p (tr_MaterializationID t) of None \<Rightarrow> [] | Some m \<Rightarrow> [mz_SourceWorkflowID m])
      else [])"

definition absent_fixtures :: "preflight \<Rightarrow> task_record \<Rightarrow> ident list" where
  "absent_fixtures p t =
     (if tr_Kind t = TaskReuseMaterialized then
        (case pf_materializationByID p (tr_MaterializationID t) of
           None \<Rightarrow> [tr_MaterializationID t]
         | Some m \<Rightarrow> if mz_FixtureID m \<in> pf_catalogFixtureIDs p then [] else [mz_FixtureID m])
      else [])"

definition add_missing :: "ident set \<Rightarrow> ident set \<Rightarrow> ident set \<Rightarrow> preflight \<Rightarrow> preflight" where
  "add_missing cs ws fs p = p\<lparr>pf_missingCases := pf_missingCases p \<union> cs,
     pf_missingWorkflows := pf_missingWorkflows p \<union> ws, pf_missingFixtures := pf_missingFixtures p \<union> fs\<rparr>"

lemma add_missing_simps [simp]:
  "add_missing {} {} {} p = p"
  "add_missing cs ws fs (add_missing cs' ws' fs' p) = add_missing (cs' \<union> cs) (ws' \<union> ws) (fs' \<union> fs) p"
  "pf_catalogCaseIDs (add_missing cs ws fs p) = pf_catalogCaseIDs p"
  "pf_catalogWorkflowIDs (add_missing cs ws fs p) = pf_catalogWorkflowIDs p"
  "pf_catalogFixtureIDs (add_missing cs ws fs p) = pf_catalogFixtureIDs p"
  "pf_materializationByID (add_missing cs ws fs p) = pf_materializationByID p"
  "preflight_steps (add_missing cs ws fs p) t = preflight_steps p t"
  "pf_mapProfileID (add_missing cs ws fs p) = pf_mapProfileID p"
  "pf_activeProfileID (add_missing cs ws fs p) = pf_activeProfileID p"
  "pf_missingCases (add_missing cs ws fs p) = pf_missingCases p \<union> cs"
  "pf_missingWorkflows (add_missing cs ws fs p) = pf_missingWorkflows p \<union> ws"
  "pf_missingFixtures (add_missing cs ws fs p) = pf_missingFixtures p \<union> fs"
  by (simp_all add: add_missing_def preflight_steps_def Un_assoc)

lemma require_case_eq: "require_case c p = add_missing (missing_ids (pf_catalogCaseIDs p) [c]) {} {} p"
  by (simp add: require_case_def add_missing_def missing_ids_def known_def blank_def Let_def)

lemma require_workflow_eq: "require_workflow w p = add_missing {} (missing_ids (pf_catalogWorkflowIDs p) [w]) {} p"
  by (simp add: require_workflow_def add_missing_def missing_ids_def known_def blank_def Let_def)

lemma add_missing_fixture_eq: "add_missing_fixture f p = add_missing {} {} (missing_ids {} [f]) p"
  by (simp add: add_missing_fixture_def add_missing_def missing_ids_def known_def blank_def Let_def)

lemma missing_ids_append [simp]: "missing_ids ids (xs @ ys) = missing_ids ids xs \<union> missing_ids ids ys"
  "missing_ids ids [] = {}"
  by (simp_all add: missing_ids_def image_Un)

lemma missing_ids_Cons: "missing_ids ids (x # xs) = missing_ids ids [x] \<union> missing_ids ids xs"
  using missing_ids_append(1) [of ids "[x]" xs] by simp

lemma missing_ids_empty: "missing_ids ids xs = {} \<longleftrightarrow> list_all (known ids) xs"
  by (auto simp: missing_ids_def list_all_iff filter_empty_conv)

lemma require_cases_eq:
  "fold (\<lambda>s. require_case (ps_CaseID s)) ss p = add_missing (missing_ids (pf_catalogCaseIDs p) (map ps_CaseID ss)) {} {} p"
  by (induction ss arbitrary: p)
    (simp_all add: require_case_eq missing_ids_Cons [of _ "ps_CaseID s" "map ps_CaseID ss" for s ss])

lemma inspect_task_eq:
  "inspect_task t p = add_missing (missing_ids (pf_catalogCaseIDs p) (needed_cases p t))
     (missing_ids (pf_catalogWorkflowIDs p) (needed_workflows p t)) (missing_ids {} (absent_fixtures p t)) p"
proof -
  have kinds: "TaskRunCase \<noteq> TaskRunPath" "TaskRunCase \<noteq> TaskRunPathPrefix" "TaskReuseMaterialized \<noteq> TaskRunPath"
    "TaskReuseMaterialized \<noteq> TaskRunPathPrefix" "TaskReuseMaterialized \<noteq> TaskRunCase"
    by code_simp+
  have nil: "missing_ids {} [[]] = {}" by (simp add: missing_ids_def known_def)
  show ?thesis
    using kinds
    by (auto simp: inspect_task_def needed_cases_def needed_workflows_def absent_fixtures_def Let_def nil
        require_workflow_eq require_cases_eq require_case_eq add_missing_fixture_eq split: option.splits)
qed

lemma needed_add_missing [simp]:
  "needed_cases (add_missing cs ws fs p) = needed_cases p"
  "needed_workflows (add_missing cs ws fs p) = needed_workflows p"
  "absent_fixtures (add_missing cs ws fs p) = absent_fixtures p"
  by (auto simp: fun_eq_iff needed_cases_def needed_workflows_def absent_fixtures_def split: option.split)

lemma inspect_tasks_eq:
  "fold inspect_task ts p = add_missing (missing_ids (pf_catalogCaseIDs p) (concat (map (needed_cases p) ts)))
     (missing_ids (pf_catalogWorkflowIDs p) (concat (map (needed_workflows p) ts)))
     (missing_ids {} (concat (map (absent_fixtures p) ts))) p"
  by (induction ts arbitrary: p) (simp_all add: inspect_task_eq)

section \<open>Which plans pass\<close>

text \<open>The parts of the report on an empty catalog check: nothing is missing and the profiles agree.\<close>

definition same_profile :: "graph \<Rightarrow> profile_catalog \<Rightarrow> bool" where
  "same_profile g cat \<longleftrightarrow> blank (mp_ProfileID (gr_Map g)) \<or> blank (pc_ProfileID cat) \<or> mp_ProfileID (gr_Map g) = pc_ProfileID cat"

definition in_catalog :: "graph \<Rightarrow> profile_catalog \<Rightarrow> task_record \<Rightarrow> bool" where
  "in_catalog g cat t \<longleftrightarrow> (let p = new_preflight g cat in
     list_all (known (map_run_catalog_case_ids (pc_APICases cat))) (needed_cases p t) \<and>
     list_all (known (map_run_catalog_workflow_ids (pc_Workflows cat))) (needed_workflows p t) \<and>
     list_all blank (absent_fixtures p t))"

lemma preflight_err_None:
  "preflight_err p = None \<longleftrightarrow>
     (blank (pf_mapProfileID p) \<or> blank (pf_activeProfileID p) \<or> pf_mapProfileID p = pf_activeProfileID p) \<and>
     pf_missingCases p = {} \<and> pf_missingWorkflows p = {} \<and> pf_missingFixtures p = {}"
  by (auto simp: preflight_err_def missing_part_def Let_def)

lemma known_empty: "known {} = blank"
  by (simp add: known_def fun_eq_iff)

lemma list_all_concat: "list_all P (concat xss) \<longleftrightarrow> list_all (list_all P) xss"
  by (induction xss) simp_all

lemma preflight_None_iff:
  "validate_map_run_catalog_preflight (Inr cat) g r = None \<longleftrightarrow> same_profile g cat \<and> list_all (in_catalog g cat) (pr_Tasks r)"
proof -
  let ?p = "new_preflight g cat"
  have p: "pf_missingCases ?p = {}" "pf_missingWorkflows ?p = {}" "pf_missingFixtures ?p = {}"
    "pf_mapProfileID ?p = mp_ProfileID (gr_Map g)" "pf_activeProfileID ?p = pc_ProfileID cat"
    "pf_catalogCaseIDs ?p = map_run_catalog_case_ids (pc_APICases cat)"
    "pf_catalogWorkflowIDs ?p = map_run_catalog_workflow_ids (pc_Workflows cat)"
    by (simp_all add: new_preflight_def)
  show ?thesis
    by (simp add: validate_map_run_catalog_preflight_def preflight_err_None inspect_tasks_eq p missing_ids_empty
        same_profile_def known_empty list_all_concat)
      (auto simp: in_catalog_def Let_def list_all_iff)
qed

text \<open>
  C27. The preflight passes exactly when the catalog belongs to the profile of the map and holds what every
  task needs: the workflow of a path and the cases of its steps up to the node where a prefix ends, the
  case of a single run, and for a materialization, which the map must have, its source workflow
  and its fixture. Identifiers are compared without the white space around them, and blank ones pass.
\<close>

theorem preflight_passes_iff:
  "validate_map_run_catalog_preflight (Inr cat) g r = None \<longleftrightarrow> same_profile g cat \<and> list_all (in_catalog g cat) (pr_Tasks r)"
  by (rule preflight_None_iff)

section \<open>What an execution asks for\<close>

definition case_in_catalog :: "profile_catalog \<Rightarrow> ident \<Rightarrow> bool" where
  "case_in_catalog cat = known (map_run_catalog_case_ids (pc_APICases cat))"

fun asks_catalog :: "profile_catalog \<Rightarrow> exec_event \<Rightarrow> bool" where
  "asks_catalog cat (Case_Requested _ req _ _) = case_in_catalog cat (cq_CaseID req)"
| "asks_catalog cat (Run_Created _ _ _ _) = True"

interpretation case_monitor: whole_run_monitor ex "\<lambda>_. True" "\<lambda>_. True" "\<lambda>_. case_in_catalog cat" "asks_catalog cat"
  for ex cat
  by unfold_locales (simp_all add: catalog_case_payload_def Let_def)

lemma interrupted_has_no_until: "value_string (obj_get (json_object_string interrupted_summary) ''untilNodeId'') = []"
  by code_simp

lemma claimed_tasks:
  assumes "claim_map_run_plan sd now ow tk o1 r db = (Inr (l, r1), db')"
  shows "\<exists>f. pr_Tasks r1 = map f (pr_Tasks r) \<and> (\<forall>t. tr_Kind (f t) = tr_Kind t \<and> tr_PathID (f t) = tr_PathID t \<and>
     tr_CaseID (f t) = tr_CaseID t \<and> (task_until_node_id (f t) = task_until_node_id t \<or> task_until_node_id (f t) = []))"
proof -
  have prep: "tr_Kind (prepare_existing_task o1 now t) = tr_Kind t \<and> tr_PathID (prepare_existing_task o1 now t) = tr_PathID t \<and>
     tr_CaseID (prepare_existing_task o1 now t) = tr_CaseID t \<and>
     (task_until_node_id (prepare_existing_task o1 now t) = task_until_node_id t \<or>
      task_until_node_id (prepare_existing_task o1 now t) = [])" for t
    by (auto simp: prepare_existing_task_def mark_interrupted_def task_until_node_id_def interrupted_has_no_until Let_def)
  have "pr_Tasks r1 = map (prepare_existing_task o1 now) (pr_Tasks r) \<or> pr_Tasks r1 = map id (pr_Tasks r)"
    using assms by (auto simp: claim_map_run_plan_def prepare_existing_record_at_def Let_def
        split: prod.splits sum.splits if_splits)
  then show ?thesis
  proof
    assume "pr_Tasks r1 = map (prepare_existing_task o1 now) (pr_Tasks r)"
    then show ?thesis using prep by blast
  qed (intro exI [of _ id], simp)
qed

lemma preflight_steps_full: "task_until_node_id t = [] \<Longrightarrow>
  preflight_steps (new_preflight g cat) t = steps_for_task g u [] \<or> tr_PathID u \<noteq> tr_PathID t \<or> tr_Kind u = TaskRunPathPrefix"
  by (simp add: preflight_steps_def new_preflight_def map_run_path_steps_by_path_def steps_for_task_def path_steps_by_id_def)

lemma executor_steps_checked:
  assumes "tr_Kind u = TaskRunPathPrefix" "tr_PathID u = tr_PathID t"
    "task_until_node_id u = task_until_node_id t \<or> task_until_node_id u = []"
  shows "set (steps_for_task g u (task_until_node_id u)) \<subseteq> set (preflight_steps (new_preflight g cat) t)"
  using assms
  by (auto simp: preflight_steps_def new_preflight_def map_run_path_steps_by_path_def steps_for_task_def
      path_steps_by_id_def Let_def blank_def split: option.splits)

lemma steps_of_graph: "set (steps_for_task g u until) \<subseteq> set (gr_PathSteps g)"
proof -
  have all: "set (path_steps_by_id g pid) \<subseteq> set (gr_PathSteps g)" for pid by (auto simp: path_steps_by_id_def)
  have "set ss \<subseteq> set (gr_PathSteps g)" if "take_through P (path_steps_by_id g pid) = Some ss" for P ss pid
    using take_through_Some [OF that] all [of pid] set_mono_prefix [of ss "path_steps_by_id g pid"] by blast
  then show ?thesis
    using all by (cases "take_through (\<lambda>s. ps_NodeID s = until) (path_steps_by_id g (tr_PathID u))")
      (simp_all add: steps_for_task_def Let_def)
qed

lemma covered_by_preflight:
  assumes "in_catalog (ex_graph ex) cat t" "tr_Kind u = tr_Kind t" "tr_PathID u = tr_PathID t" "tr_CaseID u = tr_CaseID t"
    "task_until_node_id u = task_until_node_id t \<or> task_until_node_id u = []"
    "list_all (\<lambda>s. \<not> blank (ps_CaseID s)) (gr_PathSteps (ex_graph ex))"
    "tr_Kind t = TaskRunPath \<Longrightarrow> task_until_node_id t = []"
  shows "covered_task ex (\<lambda>_. case_in_catalog cat) u"
proof -
  let ?g = "ex_graph ex"
  have kinds: "TaskRunCase \<noteq> TaskRunPath" "TaskRunCase \<noteq> TaskRunPathPrefix" "TaskRunPath \<noteq> TaskRunPathPrefix" by code_simp+
  have needed: "list_all (case_in_catalog cat) (needed_cases (new_preflight ?g cat) t)"
    using assms(1) by (simp add: in_catalog_def case_in_catalog_def Let_def)
  have own: "step_case ex s = ps_CaseID s" if "s \<in> set (steps_for_task ?g u until)" for s until
    using that steps_of_graph [of ?g u until] assms(6) by (auto simp: step_case_def first_non_empty.simps list_all_iff)
  have steps: "list_all (\<lambda>s. case_in_catalog cat (step_case ex s)) (steps_for_task ?g u until)"
    if "set (steps_for_task ?g u until) \<subseteq> set (preflight_steps (new_preflight ?g cat) t)"
      "tr_Kind t = TaskRunPath \<or> tr_Kind t = TaskRunPathPrefix" for until
    using that needed own by (auto simp: needed_cases_def list_all_iff)
  have "case_in_catalog cat (first_non_empty [tr_CaseID u])" if "tr_Kind t = TaskRunCase"
    using needed that assms(4) kinds by (auto simp: needed_cases_def first_non_empty.simps case_in_catalog_def known_def)
  moreover have "list_all (\<lambda>s. case_in_catalog cat (step_case ex s)) (steps_for_task ?g u [])" if "tr_Kind t = TaskRunPath"
    using preflight_steps_full [OF assms(7) [OF that], of ?g cat u] assms(2,3) kinds that by (intro steps) auto
  moreover have "list_all (\<lambda>s. case_in_catalog cat (step_case ex s)) (steps_for_task ?g u (task_until_node_id u))"
    if "tr_Kind t = TaskRunPathPrefix"
    using executor_steps_checked [OF _ assms(3,5), of ?g cat] assms(2) that by (intro steps) auto
  ultimately show ?thesis using assms(2) by (simp add: covered_task_def)
qed

text \<open>
  C26. A run asks only for cases that the catalog had at the preflight. If the steps of the paths name
  their cases and the tasks that run a whole path carry no end node, as in the plans of the
  planner, then every case request of \<open>runMapRun\<close>, whatever the environment does during the run
  and also when a stored plan is resumed or retried, is for a case of the catalog, or for a blank one.
\<close>

theorem requested_cases_are_in_catalog:
  assumes "fair_order ex" "list_all (\<lambda>s. \<not> blank (ps_CaseID s)) (gr_PathSteps (ex_graph ex))"
    "list_all (\<lambda>t. tr_Kind t = TaskRunPath \<longrightarrow> task_until_node_id t = []) (pr_Tasks r)"
  shows "list_all (asks_catalog cat) (snd (snd (run_map_run ex owner token (Inr cat) r db)))"
proof (cases "validate_map_run_catalog_preflight (Inr cat) (ex_graph ex) r")
  case None
  then have tasks: "list_all (in_catalog (ex_graph ex) cat) (pr_Tasks r)" by (simp add: preflight_None_iff)
  show ?thesis
  proof (cases "claim_map_run_plan (ex_dialect ex) (en_clock (ex_env ex) 0) owner token (ex_options ex) r db")
    case (Pair res db1)
    show ?thesis
    proof (cases res)
      case (Inl e)
      then show ?thesis using None Pair by (simp add: run_map_run_def run_map_plan_def)
    next
      case (Inr lr)
      obtain l r1 where lr: "lr = (l, r1)" by fastforce
      have "covered_task ex (\<lambda>_. case_in_catalog cat) u" if u: "u \<in> set (pr_Tasks r1)" for u
      proof -
        obtain t where t: "t \<in> set (pr_Tasks r)" "tr_Kind u = tr_Kind t" "tr_PathID u = tr_PathID t" "tr_CaseID u = tr_CaseID t"
          "task_until_node_id u = task_until_node_id t \<or> task_until_node_id u = []"
          using claimed_tasks [OF Pair [unfolded Inr lr]] u by auto
        then show ?thesis
          using covered_by_preflight [OF _ t(2-5) assms(2)] tasks assms(3) by (simp add: list_all_iff)
      qed
      then have "logged (asks_catalog cat) (snd (execute ex r1 (initial_state db1 (Some l))))"
        using case_monitor.execute_logged [OF _ _ assms(1)] by simp
      then show ?thesis using None Pair Inr lr
        by (simp add: run_map_run_def run_map_plan_def case_prod_unfold Let_def logged_def list_all_iff split: option.splits)
    qed
  qed
qed (simp add: run_map_run_def)

section \<open>Witnesses\<close>

definition flow_run :: plan_record where
  "flow_run = demo_run\<lparr>pr_Tasks := [(demo_task ''t1'' TaskStatusPlanned)\<lparr>tr_Kind := TaskRunPath, tr_PathID := ''flow'',
     tr_WorkflowID := ''w''\<rparr>], pr_TaskEdges := []\<rparr>"

definition plain_case :: "ident \<Rightarrow> api_case" where
  "plain_case c = \<lparr>ac_ID = c, ac_DisplayName = [], ac_Description = [], ac_NodeID = [], ac_CaseType = [], ac_Scenario = [],
     ac_Tags = None, ac_Priority = [], ac_Owner = [], ac_PayloadTemplateJSON = [], ac_RequestTemplateID = [], ac_PatchJSON = [],
     ac_RenderMode = [], ac_ExpectedJSON = [], ac_RequiredForAdmission = False, ac_Status = [], ac_SortOrder = 0,
     ac_CasePath = [], ac_SourceKind = [], ac_SourcePath = [], ac_ExecutorID = [], ac_BaseURL = [], ac_EvidenceDir = [],
     ac_TimeoutSeconds = 0, ac_DefaultOverridesJSON = []\<rparr>"

definition catalog_with :: "ident list \<Rightarrow> profile_catalog" where
  "catalog_with cids = \<lparr>pc_ProfileID = ''p'', pc_IndexedAt = zero_time,
     pc_Workflows = [\<lparr>wf_ID = ''w'', wf_DisplayName = [], wf_Description = [], wf_BaseStepTimeoutMs = 0, wf_TimeoutOffsetMs = 0\<rparr>],
     pc_APICases = map plain_case cids, pc_WorkflowBindings = [], pc_CaseDependencies = [],
     pc_Fixtures = [], pc_TemplateConfigs = []\<rparr>"

definition one_step_executor :: executor where
  "one_step_executor = demo_executor\<lparr>ex_graph := demo_graph\<lparr>gr_PathSteps := [demo_step ''flow'' 1 ''a'']\<rparr>\<rparr>"

lemma one_step_log:
  "map event_task (snd (snd (run_map_plan one_step_executor ''o'' ''tok'' flow_run demo_db))) = [''t1'', ''t1'']"
  by code_simp

theorem requested_cases_are_in_catalog_witness:
  "\<exists>log. snd (snd (run_map_run one_step_executor ''o'' ''tok'' (Inr (catalog_with [''a''])) flow_run demo_db)) = log \<and>
     map event_task log = [''t1'', ''t1''] \<and> list_all (asks_catalog (catalog_with [''a''])) log"
proof (intro exI conjI)
  have pre: "validate_map_run_catalog_preflight (Inr (catalog_with [''a''])) (ex_graph one_step_executor) flow_run = None" by code_simp
  show "map event_task (snd (snd (run_map_run one_step_executor ''o'' ''tok'' (Inr (catalog_with [''a''])) flow_run demo_db))) = [''t1'', ''t1'']"
    using one_step_log by (simp add: run_map_run_def pre case_prod_unfold Let_def)
  show "list_all (asks_catalog (catalog_with [''a''])) (snd (snd (run_map_run one_step_executor ''o'' ''tok'' (Inr (catalog_with [''a''])) flow_run demo_db)))"
  proof (rule requested_cases_are_in_catalog)
    show "fair_order one_step_executor" using demo_fair by (simp add: fair_order_def one_step_executor_def)
  qed code_simp+
qed (rule refl)

end
