(* ===== verification/Release_Tags.thy ===== *)
theory Release_Tags
  imports Go_Sort
begin

text \<open>
  Release tags (\<open>internal/domain/updaterelease/tags.go\<close>): the tags of a Git listing, versions, their
  order and the tag that an update installs. \<open>CompareTags\<close> is a total order on tags, and the latest tag
  is the greatest stable one of the listing, whatever the order of the lines.
\<close>

section \<open>Fields\<close>

text \<open>\<open>strings.FieldsFunc\<close>: the maximal runs without a separator.\<close>

function fields_by :: "(char \<Rightarrow> bool) \<Rightarrow> string \<Rightarrow> string list" where
  "fields_by sep s =
     (let r = dropWhile sep s in
      if r = [] then [] else takeWhile (\<lambda>c. \<not> sep c) r # fields_by sep (dropWhile (\<lambda>c. \<not> sep c) r))"
  by pat_completeness auto
termination
proof (relation "measure (\<lambda>(sep, s). length s)")
  fix sep and s r :: string
  assume r: "r = dropWhile sep s" "r \<noteq> []"
  then have "\<not> sep (hd r)" by (metis hd_dropWhile)
  then have "length (dropWhile (\<lambda>c. \<not> sep c) r) < length r"
    using r(2) by (cases r) (simp_all add: le_imp_less_Suc length_dropWhile_le)
  also have "length r \<le> length s" unfolding r(1) by (rule length_dropWhile_le)
  finally show "((sep, dropWhile (\<lambda>c. \<not> sep c) r), sep, s) \<in> measure (\<lambda>(sep, s). length s)" by simp
qed simp

declare fields_by.simps [simp del]

definition tag_prefix :: string where "tag_prefix = ''refs/tags/''"

definition line_tag :: "string \<Rightarrow> string option" where
  "line_tag line =
     (case fields_by is_space line of
        _ # ref # _ \<Rightarrow>
          if \<not> prefix tag_prefix ref then None
          else (let tag = trim_suffix ''^{}'' (trim_prefix tag_prefix ref) in if tag = [] then None else Some tag)
      | _ \<Rightarrow> None)"

fun collect_tags :: "string list \<Rightarrow> string list \<Rightarrow> string list" where
  "collect_tags [] tags = tags"
| "collect_tags (line # rest) tags =
     (case line_tag line of
        None \<Rightarrow> collect_tags rest tags
      | Some tag \<Rightarrow> collect_tags rest (if tag \<in> set tags then tags else tags @ [tag]))"

definition tags_from_remote_output :: "string \<Rightarrow> string list" where
  "tags_from_remote_output out_text = collect_tags (split_on (CHR 0x0A) out_text) []"

section \<open>Versions\<close>

record tag_version =
  tv_valid :: bool
  tv_parts :: "int list"
  tv_prerelease :: string

definition no_version :: tag_version where
  "no_version = \<lparr>tv_valid = False, tv_parts = [], tv_prerelease = []\<rparr>"

definition tag_part_is_numeric :: "string \<Rightarrow> bool" where
  "tag_part_is_numeric v \<longleftrightarrow> v \<noteq> [] \<and> list_all is_digit v"

text \<open>\<open>strconv.Atoi\<close> on a string of digits: an error beyond 64 bits.\<close>

definition atoi_digits :: "string \<Rightarrow> int option" where
  "atoi_digits s = (let n = int (nat_of_digits s) in if n \<le> 2 ^ 63 - 1 then Some n else None)"

fun parse_parts :: "string list \<Rightarrow> int list option" where
  "parse_parts [] = Some []"
| "parse_parts (raw # rest) =
     (if \<not> tag_part_is_numeric raw then None
      else (case atoi_digits raw of None \<Rightarrow> None | Some v \<Rightarrow> map_option ((#) v) (parse_parts rest)))"

definition is_suffix_mark :: "char \<Rightarrow> bool" where
  "is_suffix_mark c \<longleftrightarrow> c = CHR ''-'' \<or> c = CHR ''_''"

definition parse_tag :: "string \<Rightarrow> tag_version" where
  "parse_tag tag =
     (let trimmed = trim_prefix ''V'' (trim_prefix ''v'' (trim_space tag)) in
      if trimmed = [] then no_version
      else
        (let release = takeWhile (\<lambda>c. c \<noteq> CHR ''+'') trimmed;
             version = takeWhile (\<lambda>c. \<not> is_suffix_mark c) release;
             pre = drop 1 (dropWhile (\<lambda>c. \<not> is_suffix_mark c) release)
         in case parse_parts (split_on (CHR ''.'') version) of
              None \<Rightarrow> no_version
            | Some [] \<Rightarrow> no_version
            | Some parts \<Rightarrow> \<lparr>tv_valid = True, tv_parts = parts, tv_prerelease = pre\<rparr>))"

definition stable_release_tags :: "string list \<Rightarrow> string list" where
  "stable_release_tags tags = filter (\<lambda>t. tv_valid (parse_tag t) \<and> tv_prerelease (parse_tag t) = []) tags"

section \<open>The order of versions\<close>

definition tag_part :: "int list \<Rightarrow> nat \<Rightarrow> int" where
  "tag_part parts i = (if length parts \<le> i then 0 else parts ! i)"

fun compare_parts_loop :: "int list \<Rightarrow> int list \<Rightarrow> nat list \<Rightarrow> int" where
  "compare_parts_loop as bs [] = 0"
| "compare_parts_loop as bs (i # is) =
     (let ai = tag_part as i; bi = tag_part bs i in
      if bi < ai then 1 else if ai < bi then -1 else compare_parts_loop as bs is)"

definition compare_parts :: "int list \<Rightarrow> int list \<Rightarrow> int" where
  "compare_parts as bs = compare_parts_loop as bs [0..<max (length as) (length bs)]"

fun split_runs :: "string \<Rightarrow> string list" where
  "split_runs [] = []"
| "split_runs [c] = [[c]]"
| "split_runs (c # d # s) =
     (if is_digit c = is_digit d then (case split_runs (d # s) of r # rs \<Rightarrow> (c # r) # rs | [] \<Rightarrow> [[c]])
      else [c] # split_runs (d # s))"

definition split_prerelease :: "string \<Rightarrow> string list" where
  "split_prerelease v = concat (map split_runs (fields_by (\<lambda>c. c = CHR ''.'' \<or> c = CHR ''-'' \<or> c = CHR ''_'') v))"

definition parse_prerelease_number :: "string \<Rightarrow> int option" where
  "parse_prerelease_number v = (if tag_part_is_numeric v then atoi_digits v else None)"

definition compare_prerelease_part :: "string \<Rightarrow> string \<Rightarrow> int" where
  "compare_prerelease_part a b =
     (case (parse_prerelease_number a, parse_prerelease_number b) of
        (Some m, Some n) \<Rightarrow> if n < m then 1 else if m < n then -1 else 0
      | (Some _, None) \<Rightarrow> -1
      | (None, Some _) \<Rightarrow> 1
      | (None, None) \<Rightarrow> compare_ord a b)"

definition compare_prerelease :: "string \<Rightarrow> string \<Rightarrow> int" where
  "compare_prerelease a b =
     (if a = b then 0
      else (let r = compare_lists compare_prerelease_part (split_prerelease a) (split_prerelease b) in
            if r \<noteq> 0 then r else compare_ord a b))"

definition compare_tags :: "string \<Rightarrow> string \<Rightarrow> int" where
  "compare_tags a b =
     (let av = parse_tag a; bv = parse_tag b; parts = compare_parts (tv_parts av) (tv_parts bv);
          pre = compare_prerelease (tv_prerelease av) (tv_prerelease bv)
      in if tv_valid av \<noteq> tv_valid bv then (if tv_valid av then 1 else -1)
         else if tv_valid av \<and> tv_valid bv \<and> parts \<noteq> 0 then parts
         else if tv_valid av \<and> tv_valid bv \<and> tv_prerelease av = [] \<and> tv_prerelease bv \<noteq> [] then 1
         else if tv_valid av \<and> tv_valid bv \<and> tv_prerelease av \<noteq> [] \<and> tv_prerelease bv = [] then -1
         else if tv_valid av \<and> tv_valid bv \<and> tv_prerelease av \<noteq> [] \<and> tv_prerelease bv \<noteq> [] \<and> pre \<noteq> 0 then pre
         else compare_ord a b)"

definition latest_tag_from_remote_output :: "string \<Rightarrow> string" where
  "latest_tag_from_remote_output out_text =
     (let tags = stable_release_tags (tags_from_remote_output out_text) in
      if tags = [] then [] else hd (order_by (\<lambda>a b. 0 < compare_tags a b) tags))"

section \<open>The order is total\<close>

lemma part_loop_sign: "compare_parts_loop as bs is = 1 \<or> compare_parts_loop as bs is = 0 \<or> compare_parts_loop as bs is = -1"
  by (induction "is") (auto simp: Let_def)

lemma part_loop_swap: "compare_parts_loop bs as is = - compare_parts_loop as bs is"
  by (induction "is") (auto simp: Let_def)

lemma part_loop_trans:
  "compare_parts_loop as bs is \<le> 0 \<Longrightarrow> compare_parts_loop bs cs is \<le> 0 \<Longrightarrow> compare_parts_loop as cs is \<le> 0"
  by (induction "is") (auto simp: Let_def split: if_splits)

lemma part_loop_append: "compare_parts_loop as bs (is @ js) =
  (if compare_parts_loop as bs is \<noteq> 0 then compare_parts_loop as bs is else compare_parts_loop as bs js)"
  by (induction "is") (auto simp: Let_def)

lemma part_loop_beyond: "\<forall>i \<in> set is. length as \<le> i \<and> length bs \<le> i \<Longrightarrow> compare_parts_loop as bs is = 0"
  by (induction "is") (auto simp: Let_def tag_part_def)

lemma compare_parts_upto:
  assumes "length as \<le> n" "length bs \<le> n"
  shows "compare_parts as bs = compare_parts_loop as bs [0..<n]"
proof -
  let ?m = "max (length as) (length bs)"
  obtain k where "n = ?m + k" using assms by (metis le_Suc_ex max.bounded_iff)
  then have "[0..<n] = [0..<?m] @ [?m..<n]" by (simp only: upt_add_eq_append [OF le0])
  moreover have "compare_parts_loop as bs [?m..<n] = 0" by (rule part_loop_beyond) auto
  ultimately show ?thesis by (simp add: compare_parts_def part_loop_append)
qed

interpretation part_order: comparison compare_parts
proof
  fix as bs cs :: "int list"
  show "compare_parts as bs = 1 \<or> compare_parts as bs = 0 \<or> compare_parts as bs = -1"
    unfolding compare_parts_def by (rule part_loop_sign)
  show "compare_parts bs as = - compare_parts as bs"
    unfolding compare_parts_def max.commute [of "length bs"] by (rule part_loop_swap)
  let ?n = "max (length as) (max (length bs) (length cs))"
  show "compare_parts as bs \<le> 0 \<Longrightarrow> compare_parts bs cs \<le> 0 \<Longrightarrow> compare_parts as cs \<le> 0"
    using part_loop_trans [of as bs "[0..<?n]" cs]
    by (simp add: compare_parts_upto [of as ?n bs] compare_parts_upto [of bs ?n cs] compare_parts_upto [of as ?n cs])
qed

text \<open>A part of a pre-release is compared by its class, by its number, and by its text if it has none.\<close>

definition part_number :: "string \<Rightarrow> int" where
  "part_number v = (case parse_prerelease_number v of Some n \<Rightarrow> n | None \<Rightarrow> 0)"

definition part_text :: "string \<Rightarrow> string" where
  "part_text v = (case parse_prerelease_number v of Some n \<Rightarrow> [] | None \<Rightarrow> v)"

lemma compare_prerelease_part_eq:
  "compare_prerelease_part = then_by (\<lambda>a b. compare_ord (parse_prerelease_number a = None) (parse_prerelease_number b = None))
     (then_by (\<lambda>a b. compare_ord (part_number a) (part_number b)) (\<lambda>a b. compare_ord (part_text a) (part_text b)))"
  by (auto simp: fun_eq_iff compare_prerelease_part_def then_by_def part_number_def part_text_def compare_ord_def
      split: option.split)

interpretation prerelease_part_order: comparison compare_prerelease_part
  unfolding compare_prerelease_part_eq
  by (intro comparison_then comparison_key [OF ord.comparison_axioms])

lemma compare_prerelease_eq:
  "compare_prerelease = then_by (\<lambda>a b. compare_lists compare_prerelease_part (split_prerelease a) (split_prerelease b)) compare_ord"
proof -
  have "compare_lists compare_prerelease_part xs xs = 0" for xs
    using prerelease_part_order.swap_lists [of xs xs] by simp
  then show ?thesis by (simp add: fun_eq_iff compare_prerelease_def then_by_def Let_def)
qed

interpretation prerelease_order: total_comparison compare_prerelease
proof (intro total_comparison.intro total_comparison_axioms.intro)
  show "comparison compare_prerelease"
    unfolding compare_prerelease_eq
    by (intro comparison_then comparison_key [OF prerelease_part_order.lists] ord.comparison_axioms)
  show "x = y" if "compare_prerelease x y = 0" for x y
    using that by (auto simp: compare_prerelease_eq then_by_def split: if_splits)
qed

lemma invalid_is_no_version: "\<not> tv_valid (parse_tag t) \<Longrightarrow> parse_tag t = no_version"
  by (auto simp: parse_tag_def Let_def split: option.splits list.splits if_splits)

lemma compare_tags_eq:
  "compare_tags = then_by (\<lambda>a b. compare_ord (tv_valid (parse_tag a)) (tv_valid (parse_tag b)))
     (then_by (\<lambda>a b. compare_parts (tv_parts (parse_tag a)) (tv_parts (parse_tag b)))
       (then_by (\<lambda>a b. compare_ord (tv_prerelease (parse_tag a) = []) (tv_prerelease (parse_tag b) = []))
         (then_by (\<lambda>a b. compare_prerelease (tv_prerelease (parse_tag a)) (tv_prerelease (parse_tag b))) compare_ord)))"
proof (intro ext)
  fix a b
  show "compare_tags a b = then_by (\<lambda>a b. compare_ord (tv_valid (parse_tag a)) (tv_valid (parse_tag b)))
     (then_by (\<lambda>a b. compare_parts (tv_parts (parse_tag a)) (tv_parts (parse_tag b)))
       (then_by (\<lambda>a b. compare_ord (tv_prerelease (parse_tag a) = []) (tv_prerelease (parse_tag b) = []))
         (then_by (\<lambda>a b. compare_prerelease (tv_prerelease (parse_tag a)) (tv_prerelease (parse_tag b))) compare_ord))) a b"
  proof (cases "tv_valid (parse_tag a) \<and> tv_valid (parse_tag b)")
    case True
    then show ?thesis by (auto simp: compare_tags_def then_by_def Let_def compare_ord_def)
  next
    case False
    then show ?thesis
      using invalid_is_no_version [of a] invalid_is_no_version [of b]
      by (auto simp: compare_tags_def then_by_def Let_def compare_ord_def)
  qed
qed

interpretation tag_order: total_comparison compare_tags
proof (intro total_comparison.intro total_comparison_axioms.intro)
  show "comparison compare_tags"
    unfolding compare_tags_eq
    by (intro comparison_then ord.comparison_axioms comparison_key [OF ord.comparison_axioms]
        comparison_key [OF part_order.comparison_axioms] comparison_key [OF prerelease_order.comparison_axioms])
  show "x = y" if "compare_tags x y = 0" for x y
    using that by (auto simp: compare_tags_eq then_by_def split: if_splits)
qed

section \<open>The latest tag\<close>

lemma set_collect_tags: "set (collect_tags lines tags) = set tags \<union> {t. \<exists>l \<in> set lines. line_tag l = Some t}"
  by (induction lines tags rule: collect_tags.induct) (auto split: option.splits if_splits)

lemma distinct_collect_tags: "distinct tags \<Longrightarrow> distinct (collect_tags lines tags)"
  by (induction lines tags rule: collect_tags.induct) (auto split: option.splits)

text \<open>
  \<open>CompareTags\<close> is a total order on tags: it answers -1, 0 or 1, it answers the opposite when its
  arguments are exchanged, it is transitive, and only equal tags compare equal. The sort of the
  listing therefore has one result.
\<close>

theorem compare_tags_total_order:
  "compare_tags a b \<in> {-1, 0, 1} \<and> compare_tags b a = - compare_tags a b \<and>
   (compare_tags a b = 0 \<longleftrightarrow> a = b) \<and> (compare_tags a b \<le> 0 \<and> compare_tags b c \<le> 0 \<longrightarrow> compare_tags a c \<le> 0)"
  using tag_order.sign [of a b] tag_order.swap [of a b] tag_order.trans [of a b c] by auto

theorem compare_tags_total_order_witness:
  "compare_tags ''v1.10.0-rc2'' ''v1.10.0-rc10'' = -1 \<and> compare_tags ''v1.10.0-rc10'' ''v1.10.0'' = -1 \<and>
   compare_tags ''v1.10.0-rc2'' ''v1.10.0'' \<le> 0"
proof -
  have "compare_tags ''v1.10.0-rc2'' ''v1.10.0-rc10'' = -1" "compare_tags ''v1.10.0-rc10'' ''v1.10.0'' = -1" by code_simp+
  then show ?thesis
    using compare_tags_total_order [of "''v1.10.0-rc2''" "''v1.10.0-rc10''" "''v1.10.0''"] by simp
qed

text \<open>The tags of a listing that an update may install.\<close>

definition installable :: "string \<Rightarrow> string \<Rightarrow> bool" where
  "installable out_text t \<longleftrightarrow> list_ex (\<lambda>l. line_tag l = Some t) (split_on (CHR 0x0A) out_text) \<and>
     tv_valid (parse_tag t) \<and> tv_prerelease (parse_tag t) = []"

lemma stable_tags_set: "t \<in> set (stable_release_tags (tags_from_remote_output s)) \<longleftrightarrow> installable s t"
  by (auto simp: stable_release_tags_def tags_from_remote_output_def set_collect_tags installable_def list_ex_iff)

text \<open>
  C28. The latest tag of a Git listing is the greatest of the stable versions that the listing names: it is
  one of them, every other compares less, it is empty exactly if there is none, and it is
  the same for every listing with the same tags, in any order and with any repetitions.
\<close>

theorem latest_tag_is_greatest:
  "(latest_tag_from_remote_output s = [] \<longleftrightarrow> (\<forall>t. \<not> installable s t)) \<and>
   (installable s t \<longrightarrow> installable s (latest_tag_from_remote_output s) \<and>
      (t = latest_tag_from_remote_output s \<or> compare_tags t (latest_tag_from_remote_output s) = -1)) \<and>
   ((\<forall>t. installable s t \<longleftrightarrow> installable s' t) \<longrightarrow> latest_tag_from_remote_output s' = latest_tag_from_remote_output s)"
proof -
  let ?ts = "stable_release_tags (tags_from_remote_output s)" and ?us = "stable_release_tags (tags_from_remote_output s')"
  let ?top = "\<lambda>ts. hd (order_by (\<lambda>a b. 0 < compare_tags a b) ts)"
  have valid: "t \<noteq> []" if "installable s t" for t
  proof
    assume "t = []"
    then have "\<not> tv_valid (parse_tag t)" by (simp add: parse_tag_def no_version_def trim_prefix_def)
    then show False using that by (simp add: installable_def)
  qed
  have mem: "installable s (?top ?ts)" if "?ts \<noteq> []"
  proof -
    have "?top ?ts \<in> set ?ts" using that by (metis hd_in_set order_by_Nil_iff set_order_by)
    then show ?thesis by (simp only: stable_tags_set)
  qed
  have some: "?ts \<noteq> [] \<longleftrightarrow> (\<exists>t. installable s t)"
    using stable_tags_set [of _ s] by (metis list.set_intros(1) neq_Nil_conv empty_iff list.set(1))
  have top: "compare_tags t (?top ?ts) \<le> 0" if "installable s t" for t
    using tag_order.greatest_first [of ?ts] that stable_tags_set by blast
  have "?ts = [] \<and> ?us = [] \<or> ?ts \<noteq> [] \<and> ?us \<noteq> [] \<and> set ?us = set ?ts" if "\<forall>t. installable s t \<longleftrightarrow> installable s' t"
  proof -
    have "set ?us = set ?ts" using that stable_tags_set by blast
    then show ?thesis by (metis set_empty)
  qed
  then have same: "latest_tag_from_remote_output s' = latest_tag_from_remote_output s"
    if "\<forall>t. installable s t \<longleftrightarrow> installable s' t"
    using tag_order.greatest_unique [of ?us ?ts] that by (auto simp: latest_tag_from_remote_output_def Let_def)
  have "t = ?top ?ts \<or> compare_tags t (?top ?ts) = -1" if "installable s t"
    using top [OF that] tag_order.sign [of t "?top ?ts"] by auto
  then show ?thesis
    using mem some same valid by (auto simp: latest_tag_from_remote_output_def Let_def)
qed

definition listing :: "string \<Rightarrow> string list \<Rightarrow> string" where
  "listing h tags = concat (map (\<lambda>t. h @ [CHR 0x09] @ tag_prefix @ t @ [CHR 0x0A]) tags)"

theorem latest_tag_is_greatest_witness:
  "latest_tag_from_remote_output (listing ''ab'' [''v1.9.0'', ''v1.10.0'', ''v2.0.0-rc1'']) = ''v1.10.0'' \<and>
   compare_tags ''v1.9.0'' ''v1.10.0'' = -1"
proof -
  let ?s = "listing ''ab'' [''v1.9.0'', ''v1.10.0'', ''v2.0.0-rc1'']"
  have latest: "latest_tag_from_remote_output ?s = ''v1.10.0''" by code_simp
  have "installable ?s ''v1.9.0''" by code_simp
  then show ?thesis using latest_tag_is_greatest [of ?s "''v1.9.0''"] latest by simp
qed

end
