(* ===== verification/Run_Store.thy ===== *)
theory Run_Store
  imports Map_Store
begin

text \<open>
  The table of runs (\<open>internal/store/sqlstore/store_runs.go\<close>): a run is created once and then
  replaced, unconditionally or by compare-and-swap on its revision, which is its time of update.

  \<open>runs_evolve\<close> is what every connection that only compares and swaps does to the table, and
  what such a connection may assume of the others: a row stays as it is, or it was running and its revision grew.
\<close>

record stored_run =
  xr_ID :: ident
  xr_ProfileID :: ident
  xr_EnvironmentID :: ident
  xr_WorkflowID :: ident
  xr_Status :: string
  xr_EvidenceRoot :: string
  xr_SummaryJSON :: string
  xr_TestPlanMapID :: ident
  xr_TestPlanPathID :: ident
  xr_PlannerSummaryJSON :: string
  xr_StartedAt :: time
  xr_FinishedAt :: time
  xr_CreatedAt :: time
  xr_UpdatedAt :: time

type_synonym run_db = "ident \<rightharpoonup> stored_run"

datatype runs_error =
    Run_Exists ident
  | Run_Missing ident
  | Run_ID_Required
  | Expected_Revision_Required ident
  | Expected_Status_Required ident
  | Run_Revision_Conflict ident

section \<open>Statements\<close>

definition prepare_run_texts :: "stored_run \<Rightarrow> stored_run" where
  "prepare_run_texts r = r\<lparr>xr_SummaryJSON := string_default (xr_SummaryJSON r) ''{}'',
     xr_PlannerSummaryJSON := string_default (xr_PlannerSummaryJSON r) ''{}''\<rparr>"

definition create_run :: "time \<Rightarrow> stored_run \<Rightarrow> run_db \<Rightarrow> (runs_error + stored_run) \<times> run_db" where
  "create_run now r0 db =
     (let r1 = (if xr_CreatedAt r0 = zero_time then r0\<lparr>xr_CreatedAt := now\<rparr> else r0);
          r2 = (if xr_UpdatedAt r1 = zero_time then r1\<lparr>xr_UpdatedAt := xr_CreatedAt r1\<rparr> else r1);
          r = prepare_run_texts r2
      in if db (xr_ID r) \<noteq> None then (Inl (Run_Exists (xr_ID r)), db) else (Inr r, db(xr_ID r \<mapsto> r)))"

text \<open>\<open>updateRun\<close>: every column but the identifier and the time of creation, of the row that matches.\<close>

definition update_run_where :: "time \<Rightarrow> (stored_run \<Rightarrow> bool) \<Rightarrow> runs_error \<Rightarrow> stored_run \<Rightarrow> run_db \<Rightarrow>
  (runs_error + stored_run) \<times> run_db" where
  "update_run_where now matches no_rows r0 db =
     (if xr_ID r0 = [] then (Inl Run_ID_Required, db)
      else
        (let r = prepare_run_texts (if xr_UpdatedAt r0 = zero_time then r0\<lparr>xr_UpdatedAt := now\<rparr> else r0) in
         case db (xr_ID r) of
           None \<Rightarrow> (Inl no_rows, db)
         | Some row \<Rightarrow>
             if matches row then (Inr r, db(xr_ID r \<mapsto> r\<lparr>xr_ID := xr_ID row, xr_CreatedAt := xr_CreatedAt row\<rparr>))
             else (Inl no_rows, db)))"

definition update_run :: "time \<Rightarrow> stored_run \<Rightarrow> run_db \<Rightarrow> (runs_error + stored_run) \<times> run_db" where
  "update_run now r db = update_run_where now (\<lambda>_. True) (Run_Missing (xr_ID r)) r db"

definition compare_and_swap_run :: "sql_dialect \<Rightarrow> time \<Rightarrow> time \<Rightarrow> string \<Rightarrow> stored_run \<Rightarrow> run_db \<Rightarrow>
  (runs_error + stored_run) \<times> run_db" where
  "compare_and_swap_run sd now expected status r0 db =
     (if xr_ID r0 = [] then (Inl Run_ID_Required, db)
      else if expected = zero_time then (Inl (Expected_Revision_Required (xr_ID r0)), db)
      else if status = [] then (Inl (Expected_Status_Required (xr_ID r0)), db)
      else
        (let r = (if time_after (xr_UpdatedAt r0) expected then r0
             else r0\<lparr>xr_UpdatedAt := (if time_after (truncate_us now) expected then truncate_us now else expected + microsecond)\<rparr>)
         in update_run_where now (\<lambda>row. sd_read sd (xr_UpdatedAt row) = sd_read sd expected \<and> xr_Status row = status)
              (Run_Revision_Conflict (xr_ID r0)) r db))"

definition scan_run :: "sql_dialect \<Rightarrow> stored_run \<Rightarrow> stored_run" where
  "scan_run sd r = r\<lparr>xr_SummaryJSON := normalize_json_text (xr_SummaryJSON r),
     xr_PlannerSummaryJSON := normalize_json_text (xr_PlannerSummaryJSON r),
     xr_StartedAt := sd_read sd (xr_StartedAt r), xr_FinishedAt := sd_read sd (xr_FinishedAt r),
     xr_CreatedAt := sd_read sd (xr_CreatedAt r), xr_UpdatedAt := sd_read sd (xr_UpdatedAt r)\<rparr>"

text \<open>The key of the table is the column of the identifier.\<close>

definition get_run :: "sql_dialect \<Rightarrow> ident \<Rightarrow> run_db \<Rightarrow> runs_error + stored_run" where
  "get_run sd rid db = (case db rid of None \<Rightarrow> Inl (Run_Missing rid) | Some r \<Rightarrow> Inr ((scan_run sd r)\<lparr>xr_ID := rid\<rparr>))"

section \<open>Revisions\<close>

text \<open>
  A database that reads back what was cut to microseconds, and a reading moved by one. No time is before
  Go's zero time.
\<close>

definition keeps_revisions :: "sql_dialect \<Rightarrow> bool" where
  "keeps_revisions sd \<longleftrightarrow> (\<forall>t. 0 \<le> sd_read sd t) \<and> (\<forall>t. sd_read sd (sd_read sd t) = sd_read sd t) \<and>
     (\<forall>t. 0 \<le> t \<longrightarrow> sd_read sd (truncate_us t) = truncate_us t) \<and>
     (\<forall>t. sd_read sd (sd_read sd t + microsecond) = sd_read sd t + microsecond)"

definition revision :: "sql_dialect \<Rightarrow> stored_run \<Rightarrow> time" where
  "revision sd r = sd_read sd (xr_UpdatedAt r)"

definition run_evolves :: "sql_dialect \<Rightarrow> stored_run \<Rightarrow> stored_run \<Rightarrow> bool" where
  "run_evolves sd r r' \<longleftrightarrow> r' = r \<or> (xr_Status r = StatusRunning \<and> revision sd r < revision sd r')"

definition runs_evolve :: "sql_dialect \<Rightarrow> run_db \<Rightarrow> run_db \<Rightarrow> bool" where
  "runs_evolve sd db db' \<longleftrightarrow> (\<forall>rid r. db rid = Some r \<longrightarrow> (\<exists>r'. db' rid = Some r' \<and> run_evolves sd r r'))"

lemma run_evolves_refl [simp]: "run_evolves sd r r"
  by (simp add: run_evolves_def)

lemma run_evolves_trans: "run_evolves sd a b \<Longrightarrow> run_evolves sd b c \<Longrightarrow> run_evolves sd a c"
  by (auto simp: run_evolves_def)

lemma runs_evolve_refl [simp]: "runs_evolve sd db db"
  by (simp add: runs_evolve_def)

lemma runs_evolve_trans: "runs_evolve sd a b \<Longrightarrow> runs_evolve sd b c \<Longrightarrow> runs_evolve sd a c"
  unfolding runs_evolve_def using run_evolves_trans by meson

lemma runs_evolve_final:
  "runs_evolve sd db db' \<Longrightarrow> db rid = Some r \<Longrightarrow> xr_Status r \<noteq> StatusRunning \<Longrightarrow> db' rid = Some r"
  by (auto simp: runs_evolve_def run_evolves_def)

lemma scan_run_simps [simp]:
  "xr_ID (scan_run sd r) = xr_ID r" "xr_Status (scan_run sd r) = xr_Status r"
  "xr_UpdatedAt (scan_run sd r) = revision sd r"
  by (simp_all add: scan_run_def revision_def)

lemma create_run_evolves: "runs_evolve sd db (snd (create_run now r db))"
  by (auto simp: create_run_def runs_evolve_def Let_def)

text \<open>
  A swap that succeeds replaces exactly the row that was read, whatever was committed meanwhile: the revision
  of the row would have grown.
\<close>

definition next_revision :: "time \<Rightarrow> time \<Rightarrow> time" where
  "next_revision previous now =
     (let t = truncate_us now in if time_after t previous then t else previous + microsecond)"

lemma next_revision_after: "previous < next_revision previous now"
  by (simp add: next_revision_def time_after_def microsecond_def Let_def)

lemma revision_read [simp]: "keeps_revisions sd \<Longrightarrow> sd_read sd (revision sd r) = revision sd r"
  by (simp add: keeps_revisions_def revision_def)

lemma revision_nonneg: "keeps_revisions sd \<Longrightarrow> 0 \<le> revision sd r"
  by (simp add: keeps_revisions_def revision_def)

lemma next_revision_kept:
  assumes "keeps_revisions sd"
  shows "sd_read sd (next_revision (revision sd r) now) = next_revision (revision sd r) now"
proof (cases "time_after (truncate_us now) (revision sd r)")
  case True
  then have "0 \<le> now" using revision_nonneg [OF assms, of r] truncate_us_le [of now] by (simp add: time_after_def)
  then show ?thesis using True assms by (simp add: next_revision_def keeps_revisions_def)
next
  case False
  then show ?thesis using assms by (simp add: next_revision_def keeps_revisions_def revision_def)
qed

text \<open>
  A swap that succeeds replaces exactly a row with the revision that was read; since revisions only grow, it is the row
  that was read, whatever was committed meanwhile.
\<close>

lemma swap_cases:
  assumes "compare_and_swap_run sd now (revision sd r) StatusRunning (u\<lparr>xr_UpdatedAt := next_revision (revision sd r) t\<rparr>) db = (res, db')"
    and sd: "keeps_revisions sd"
  obtains (failed) e where "res = Inl e" "db' = db"
  | (swapped) a row where "res = Inr a" "db (xr_ID u) = Some row" "revision sd row = revision sd r" "xr_Status row = StatusRunning"
      "db' = db(xr_ID u \<mapsto> (prepare_run_texts u)\<lparr>xr_ID := xr_ID row, xr_CreatedAt := xr_CreatedAt row,
         xr_UpdatedAt := next_revision (revision sd r) t\<rparr>)"
proof (cases res)
  case (Inl e)
  then show ?thesis using assms failed
    by (auto simp: compare_and_swap_run_def update_run_where_def Let_def split: if_splits option.splits)
next
  case (Inr a)
  let ?n = "next_revision (revision sd r) t"
  have n: "time_after ?n (revision sd r)" "?n \<noteq> zero_time"
    using next_revision_after [of "revision sd r" t] revision_nonneg [OF sd, of r] by (simp_all add: time_after_def)
  show ?thesis using assms Inr n
    by (auto simp: compare_and_swap_run_def update_run_where_def prepare_run_texts_def revision_def [symmetric] Let_def
        split: if_splits option.splits intro!: swapped)
qed

text \<open>What a replacement leaves in the table, but for the times.\<close>

lemma update_where_result:
  assumes "update_run_where now m e r db = (Inr a, db')"
  shows "\<exists>t i c. db' = db(xr_ID r \<mapsto> (prepare_run_texts (r\<lparr>xr_UpdatedAt := t\<rparr>))\<lparr>xr_ID := i, xr_CreatedAt := c\<rparr>)"
proof -
  obtain t where u: "(if xr_UpdatedAt r = zero_time then r\<lparr>xr_UpdatedAt := now\<rparr> else r) = r\<lparr>xr_UpdatedAt := t\<rparr>"
    using that [of "if xr_UpdatedAt r = zero_time then now else xr_UpdatedAt r"] by simp
  let ?r = "prepare_run_texts (r\<lparr>xr_UpdatedAt := t\<rparr>)"
  have id: "xr_ID ?r = xr_ID r" by (simp add: prepare_run_texts_def)
  obtain row where row: "db (xr_ID r) = Some row"
    using assms id unfolding update_run_where_def u Let_def by (auto split: if_splits option.splits)
  have "db' = db(xr_ID r \<mapsto> ?r\<lparr>xr_ID := xr_ID row, xr_CreatedAt := xr_CreatedAt row\<rparr>)"
    using assms id row unfolding update_run_where_def u Let_def by (auto split: if_splits)
  then show ?thesis by blast
qed

lemma swap_result:
  assumes "compare_and_swap_run sd now expected status r db = (Inr a, db')"
  shows "\<exists>t i c. db' = db(xr_ID r \<mapsto> (prepare_run_texts (r\<lparr>xr_UpdatedAt := t\<rparr>))\<lparr>xr_ID := i, xr_CreatedAt := c\<rparr>)"
proof -
  obtain t where "update_run_where now (\<lambda>row. sd_read sd (xr_UpdatedAt row) = sd_read sd expected \<and> xr_Status row = status)
      (Run_Revision_Conflict (xr_ID r)) (r\<lparr>xr_UpdatedAt := t\<rparr>) db = (Inr a, db')"
  proof -
    have r: "r = r\<lparr>xr_UpdatedAt := xr_UpdatedAt r\<rparr>" by simp
    show ?thesis using assms that that [of "xr_UpdatedAt r"] r
      by (auto simp: compare_and_swap_run_def Let_def split: if_splits)
  qed
  from update_where_result [OF this] show ?thesis by simp
qed

lemma read_then_swapped:
  assumes "db0 rid = Some r" "runs_evolve sd db0 db" "db rid = Some row" "revision sd row = revision sd r"
  shows "row = r"
  using assms by (force simp: runs_evolve_def run_evolves_def)

end
