(* ===== verification/Batch_Report.thy ===== *)
theory Batch_Report
  imports Run_Store Workflow_Values Map_Run_Prepare "HOL-Library.Monad_Syntax"
begin

text \<open>
  The report of a batch of API cases (\<open>api_case_batch_types.go\<close>, \<open>api_case_batch_state.go\<close>,
  \<open>api_case_batch_persistence.go\<close>, \<open>api_case_batch_artifacts.go\<close> in
  \<open>internal/server/controlplane\<close>), its lease (\<open>api_case_batch_lease.go\<close>) and the text of a
  run row that holds both: what is written for a report and what is read back.

  The report of the workflow acceptance is kept as the JSON object it is written as. The format of times
  (RFC 3339 with nanoseconds) is a pair of functions.
\<close>

section \<open>Types\<close>

record batch_lease =
  bl_HolderIdentity :: ident
  bl_Token :: ident
  bl_RenewTime :: string
  bl_LeaseDurationMillis :: int

definition no_lease :: batch_lease where
  "no_lease = \<lparr>bl_HolderIdentity = [], bl_Token = [], bl_RenewTime = [], bl_LeaseDurationMillis = 0\<rparr>"

record suite_selector =
  sl_Filter :: string
  sl_NodeID :: ident
  sl_Tags :: "string list"
  sl_Status :: string
  sl_Owner :: string
  sl_Priority :: string
  sl_RunStates :: "string list"

record batch_node =
  bn_ID :: ident
  bn_DisplayName :: string
  bn_Operation :: string
  bn_Method :: string
  bn_Path :: string

record batch_case =
  bc_CaseID :: ident
  bc_DisplayName :: string
  bc_Scenario :: string
  bc_NodeID :: ident
  bc_NodeDisplayName :: string
  bc_Operation :: string
  bc_Method :: string
  bc_Path :: string
  bc_StepID :: ident
  bc_RunID :: ident
  bc_CaseRunID :: ident
  bc_Status :: string
  bc_ViewerURL :: string
  bc_DetailURL :: string
  bc_EvidencePath :: string
  bc_ElapsedMs :: int
  bc_Error :: string
  bc_FailurePhase :: string
  bc_FailureCategory :: string
  bc_TimeoutSeconds :: int
  bc_StartedAt :: string
  bc_FinishedAt :: string

record batch_report =
  br_OK :: bool
  br_BatchRunID :: ident
  br_RequestID :: ident
  br_EnvironmentID :: ident
  br_ProfileID :: ident
  br_CaseIDs :: "ident list"
  br_NodeIDs :: "ident list option"
  br_WorkflowID :: ident
  br_Suite :: "suite_selector option"
  br_Status :: string
  br_Total :: int
  br_Completed :: int
  br_Passed :: int
  br_Failed :: int
  br_Skipped :: int
  br_ReportURL :: string
  br_StartedAt :: string
  br_FinishedAt :: string
  br_Nodes :: "batch_node list"
  br_Cases :: "batch_case list"
  br_Acceptance :: obj
  br_Error :: string
  br_FailureCategory :: string
  br_HTMLReportPath :: string
  br_HTMLReportURL :: string
  br_JUnitReportPath :: string
  br_JUnitReportURL :: string
  br_ArtifactManifestPath :: string
  br_ArtifactManifestURL :: string
  br_FailureSummaryPath :: string
  br_FailureSummaryURL :: string
  br_lease :: batch_lease

section \<open>Counts and errors\<close>

definition StatusSkipped :: string where "StatusSkipped = ''skipped''"

fun count_case :: "batch_case \<Rightarrow> batch_report \<Rightarrow> batch_report" where
  "count_case c r =
     (if bc_Status c = StatusPassed then r\<lparr>br_Completed := br_Completed r + 1, br_Passed := br_Passed r + 1\<rparr>
      else if bc_Status c = StatusFailed then r\<lparr>br_Completed := br_Completed r + 1, br_Failed := br_Failed r + 1\<rparr>
      else if bc_Status c = StatusSkipped then r\<lparr>br_Completed := br_Completed r + 1, br_Skipped := br_Skipped r + 1\<rparr>
      else r)"

definition refresh_counts :: "batch_report \<Rightarrow> batch_report" where
  "refresh_counts r = fold count_case (br_Cases r) (r\<lparr>br_Completed := 0, br_Passed := 0, br_Failed := 0, br_Skipped := 0\<rparr>)"

definition append_error :: "string \<Rightarrow> batch_report \<Rightarrow> batch_report" where
  "append_error message0 r =
     (let message = trim_space message0 in
      if message = [] \<or> str_contains (br_Error r) message then r
      else if blank (br_Error r) then r\<lparr>br_Error := message\<rparr>
      else r\<lparr>br_Error := br_Error r @ ''; '' @ message\<rparr>)"

text \<open>A clone turns an empty list into Go's nil slice.\<close>

definition clone_report :: "batch_report \<Rightarrow> batch_report" where
  "clone_report r = r\<lparr>br_NodeIDs := (case br_NodeIDs r of Some (x # xs) \<Rightarrow> Some (x # xs) | _ \<Rightarrow> None)\<rparr>"

definition PersistenceFailure :: string where "PersistenceFailure = ''batch-persistence-error''"
definition InterruptedFailure :: string where "InterruptedFailure = ''interrupted-unknown-outcome''"

definition mark_interrupted_case :: "string \<Rightarrow> batch_case \<Rightarrow> batch_case" where
  "mark_interrupted_case message c =
     (if bc_Status c \<noteq> StatusRunning then c
      else c\<lparr>bc_Status := StatusFailed, bc_FailureCategory := InterruptedFailure,
             bc_Error := (if bc_Error c = [] then message else bc_Error c)\<rparr>)"

definition interrupted_message :: string where
  "interrupted_message = ''batch run owner lease expired; outcome is unknown and requests were not replayed''"

definition mark_interrupted_report :: "string \<Rightarrow> batch_report \<Rightarrow> batch_report" where
  "mark_interrupted_report finished r =
     (let r1 = append_error interrupted_message (r\<lparr>br_OK := False, br_Status := StatusFailed, br_FinishedAt := finished,
            br_FailureCategory := InterruptedFailure\<rparr>)
      in refresh_counts (r1\<lparr>br_Cases := map (mark_interrupted_case interrupted_message) (br_Cases r1)\<rparr>))"

definition abandon_case :: "string \<Rightarrow> batch_case \<Rightarrow> batch_case" where
  "abandon_case message c =
     (if bc_Status c \<noteq> StatusRunning then c
      else c\<lparr>bc_Status := StatusSkipped, bc_FailureCategory := PersistenceFailure, bc_Error := message\<rparr>)"

definition mark_persistence_failed :: "string \<Rightarrow> string \<Rightarrow> batch_report \<Rightarrow> batch_report" where
  "mark_persistence_failed cause finished r =
     (let message = ''batch persistence failed; remaining cases were not executed: '' @ cause;
          r1 = append_error message (r\<lparr>br_OK := False, br_Status := StatusFailed, br_FailureCategory := PersistenceFailure,
            br_FinishedAt := finished\<rparr>)
      in refresh_counts (r1\<lparr>br_Cases := map (abandon_case message) (br_Cases r1)\<rparr>))"

section \<open>What is written\<close>

definition omit_empty :: "string \<Rightarrow> string \<Rightarrow> (string \<times> json) list" where
  "omit_empty k v = (if v = [] then [] else [(k, JStr v)])"

definition omit_zero :: "string \<Rightarrow> int \<Rightarrow> (string \<times> json) list" where
  "omit_zero k v = (if v = 0 then [] else [(k, jint v)])"

definition omit_nil :: "string \<Rightarrow> json list \<Rightarrow> (string \<times> json) list" where
  "omit_nil k vs = (if vs = [] then [] else [(k, JArr vs)])"

definition texts :: "string list \<Rightarrow> json list" where
  "texts xs = map JStr xs"

definition suite_obj :: "suite_selector \<Rightarrow> obj" where
  "suite_obj s = obj_of (omit_empty ''filter'' (sl_Filter s) @ omit_empty ''nodeId'' (sl_NodeID s) @
     omit_nil ''tags'' (texts (sl_Tags s)) @ omit_empty ''status'' (sl_Status s) @ omit_empty ''owner'' (sl_Owner s) @
     omit_empty ''priority'' (sl_Priority s) @ omit_nil ''runStates'' (texts (sl_RunStates s)))"

definition node_obj :: "batch_node \<Rightarrow> obj" where
  "node_obj n = obj_of ([(''id'', JStr (bn_ID n))] @ omit_empty ''displayName'' (bn_DisplayName n) @
     omit_empty ''operation'' (bn_Operation n) @ omit_empty ''method'' (bn_Method n) @ omit_empty ''path'' (bn_Path n))"

definition case_obj :: "batch_case \<Rightarrow> obj" where
  "case_obj c = obj_of ([(''caseId'', JStr (bc_CaseID c))] @ omit_empty ''displayName'' (bc_DisplayName c) @
     omit_empty ''scenario'' (bc_Scenario c) @ [(''nodeId'', JStr (bc_NodeID c))] @
     omit_empty ''nodeDisplayName'' (bc_NodeDisplayName c) @ omit_empty ''operation'' (bc_Operation c) @
     omit_empty ''method'' (bc_Method c) @ omit_empty ''path'' (bc_Path c) @ omit_empty ''stepId'' (bc_StepID c) @
     omit_empty ''runId'' (bc_RunID c) @ omit_empty ''caseRunId'' (bc_CaseRunID c) @ [(''status'', JStr (bc_Status c))] @
     omit_empty ''viewerUrl'' (bc_ViewerURL c) @ omit_empty ''detailUrl'' (bc_DetailURL c) @
     omit_empty ''evidencePath'' (bc_EvidencePath c) @ [(''elapsedMs'', jint (bc_ElapsedMs c))] @
     omit_empty ''error'' (bc_Error c) @ omit_empty ''failurePhase'' (bc_FailurePhase c) @
     omit_empty ''failureCategory'' (bc_FailureCategory c) @ omit_zero ''timeoutSeconds'' (bc_TimeoutSeconds c) @
     omit_empty ''startedAt'' (bc_StartedAt c) @ omit_empty ''finishedAt'' (bc_FinishedAt c))"

text \<open>\<open>jsonObject(compactJSON(report))\<close>, the members of the report.\<close>

definition report_obj :: "batch_report \<Rightarrow> obj" where
  "report_obj r = obj_of ([(''ok'', JBool (br_OK r)), (''batchRunId'', JStr (br_BatchRunID r)),
       (''requestId'', JStr (br_RequestID r))] @ omit_empty ''environmentId'' (br_EnvironmentID r) @
     [(''profileId'', JStr (br_ProfileID r))] @ omit_nil ''caseIds'' (texts (br_CaseIDs r)) @
     [(''nodeIds'', case br_NodeIDs r of None \<Rightarrow> JNull | Some xs \<Rightarrow> JArr (texts xs))] @
     omit_empty ''workflowId'' (br_WorkflowID r) @
     (case br_Suite r of None \<Rightarrow> [] | Some s \<Rightarrow> [(''suite'', JObj (suite_obj s))]) @
     [(''status'', JStr (br_Status r)), (''total'', jint (br_Total r)), (''completed'', jint (br_Completed r)),
      (''passed'', jint (br_Passed r)), (''failed'', jint (br_Failed r)), (''skipped'', jint (br_Skipped r))] @
     omit_empty ''reportUrl'' (br_ReportURL r) @ [(''startedAt'', JStr (br_StartedAt r))] @
     omit_empty ''finishedAt'' (br_FinishedAt r) @ omit_nil ''nodes'' (map (\<lambda>n. JObj (node_obj n)) (br_Nodes r)) @
     [(''cases'', if br_Cases r = [] then JNull else JArr (map (\<lambda>c. JObj (case_obj c)) (br_Cases r))),
      (''acceptance'', JObj (br_Acceptance r))] @
     omit_empty ''error'' (br_Error r) @ omit_empty ''failureCategory'' (br_FailureCategory r) @
     omit_empty ''htmlReportPath'' (br_HTMLReportPath r) @ omit_empty ''htmlReportUrl'' (br_HTMLReportURL r) @
     omit_empty ''junitReportPath'' (br_JUnitReportPath r) @ omit_empty ''junitReportUrl'' (br_JUnitReportURL r) @
     omit_empty ''artifactManifestPath'' (br_ArtifactManifestPath r) @ omit_empty ''artifactManifestUrl'' (br_ArtifactManifestURL r) @
     omit_empty ''failureSummaryPath'' (br_FailureSummaryPath r) @ omit_empty ''failureSummaryUrl'' (br_FailureSummaryURL r))"

definition step_obj :: "batch_case \<Rightarrow> obj" where
  "step_obj c = obj_of ([(''stepId'', JStr (bc_StepID c)), (''caseId'', JStr (bc_CaseID c)), (''nodeId'', JStr (bc_NodeID c)),
       (''status'', JStr (bc_Status c)), (''elapsedMs'', jint (bc_ElapsedMs c))] @ omit_empty ''runId'' (bc_RunID c) @
     omit_empty ''caseRunId'' (bc_CaseRunID c) @ omit_empty ''error'' (bc_Error c) @
     omit_empty ''failureCategory'' (bc_FailureCategory c))"

definition store_summary :: "batch_report \<Rightarrow> obj" where
  "store_summary r = obj_put ''summary'' (JObj (obj_of [(''expectedStepCount'', jint (br_Total r)),
       (''stepCount'', jint (br_Completed r)), (''passed'', jint (br_Passed r)), (''failed'', jint (br_Failed r)),
       (''skipped'', jint (br_Skipped r))]))
     (obj_put ''steps'' (JArr (map (\<lambda>c. JObj (step_obj c)) (br_Cases r))) (report_obj r))"

text \<open>The lease is written as a struct, in the order of its fields.\<close>

definition lease_json :: "batch_lease \<Rightarrow> json" where
  "lease_json l = JObj [(''holderIdentity'', JStr (bl_HolderIdentity l)), (''token'', JStr (bl_Token l)),
     (''renewTime'', JStr (bl_RenewTime l)), (''leaseDurationMillis'', jint (bl_LeaseDurationMillis l))]"

definition persisted_summary :: "batch_report \<Rightarrow> obj" where
  "persisted_summary r =
     (if blank (bl_HolderIdentity (br_lease r)) then store_summary r
      else obj_put ''_lease'' (lease_json (br_lease r)) (store_summary r))"

section \<open>What is read\<close>

text \<open>
  \<open>json.Unmarshal\<close> into a struct: a member goes into the field whose name it equals up to
  case, \<open>null\<close> leaves a value and clears a slice or a pointer, and a member of the wrong type is an error.
\<close>

definition decode_field :: "(json \<Rightarrow> 'a option) \<Rightarrow> bool \<Rightarrow> 'a \<Rightarrow> string \<Rightarrow> obj \<Rightarrow> 'a option" where
  "decode_field dec clears dflt name kvs = fold (\<lambda>(k, v) acc. if \<not> equal_fold k name then acc
     else if v = JNull then (if clears then map_option (\<lambda>_. dflt) acc else acc)
     else Option.bind acc (\<lambda>_. dec v)) kvs (Some dflt)"

definition json_text :: "json \<Rightarrow> string option" where
  "json_text v = (case v of JStr s \<Rightarrow> Some s | JNull \<Rightarrow> Some [] | _ \<Rightarrow> None)"

definition json_int :: "json \<Rightarrow> int option" where
  "json_int v = (case v of JNum l \<Rightarrow> if prefix ''+'' l then None else atoi l | JNull \<Rightarrow> Some 0 | _ \<Rightarrow> None)"

definition json_bool :: "json \<Rightarrow> bool option" where
  "json_bool v = (case v of JBool b \<Rightarrow> Some b | JNull \<Rightarrow> Some False | _ \<Rightarrow> None)"

definition json_obj :: "json \<Rightarrow> obj option" where
  "json_obj v = (case v of JObj kvs \<Rightarrow> Some kvs | JNull \<Rightarrow> Some [] | _ \<Rightarrow> None)"

fun all_some :: "'a option list \<Rightarrow> 'a list option" where
  "all_some [] = Some []"
| "all_some (x # xs) = (case x of None \<Rightarrow> None | Some a \<Rightarrow> map_option ((#) a) (all_some xs))"

definition json_list :: "(json \<Rightarrow> 'a option) \<Rightarrow> json \<Rightarrow> 'a list option" where
  "json_list dec v = (case v of JArr xs \<Rightarrow> all_some (map dec xs) | _ \<Rightarrow> None)"

abbreviation text_field :: "string \<Rightarrow> obj \<Rightarrow> string option" where
  "text_field \<equiv> decode_field json_text False []"

abbreviation int_field :: "string \<Rightarrow> obj \<Rightarrow> int option" where
  "int_field \<equiv> decode_field json_int False 0"

abbreviation list_field :: "(json \<Rightarrow> 'a option) \<Rightarrow> string \<Rightarrow> obj \<Rightarrow> 'a list option" where
  "list_field dec \<equiv> decode_field (json_list dec) True []"

definition lease_of_obj :: "obj \<Rightarrow> batch_lease option" where
  "lease_of_obj kvs = do {
     holder \<leftarrow> text_field ''holderIdentity'' kvs; token \<leftarrow> text_field ''token'' kvs;
     renewed \<leftarrow> text_field ''renewTime'' kvs; millis \<leftarrow> int_field ''leaseDurationMillis'' kvs;
     Some \<lparr>bl_HolderIdentity = holder, bl_Token = token, bl_RenewTime = renewed, bl_LeaseDurationMillis = millis\<rparr> }"

definition decode_lease :: "string \<Rightarrow> batch_lease option" where
  "decode_lease raw = do {
     v \<leftarrow> json_unmarshal (trim_space raw); kvs \<leftarrow> json_obj v;
     decode_field (\<lambda>w. Option.bind (json_obj w) lease_of_obj) False no_lease ''_lease'' kvs }"

definition suite_of_obj :: "obj \<Rightarrow> suite_selector option" where
  "suite_of_obj kvs = do {
     f \<leftarrow> text_field ''filter'' kvs; n \<leftarrow> text_field ''nodeId'' kvs; ts \<leftarrow> list_field json_text ''tags'' kvs;
     st \<leftarrow> text_field ''status'' kvs; ow \<leftarrow> text_field ''owner'' kvs; pr \<leftarrow> text_field ''priority'' kvs;
     rs \<leftarrow> list_field json_text ''runStates'' kvs;
     Some \<lparr>sl_Filter = f, sl_NodeID = n, sl_Tags = ts, sl_Status = st, sl_Owner = ow, sl_Priority = pr, sl_RunStates = rs\<rparr> }"

definition node_of_obj :: "obj \<Rightarrow> batch_node option" where
  "node_of_obj kvs = do {
     i \<leftarrow> text_field ''id'' kvs; d \<leftarrow> text_field ''displayName'' kvs; op \<leftarrow> text_field ''operation'' kvs;
     m \<leftarrow> text_field ''method'' kvs; p \<leftarrow> text_field ''path'' kvs;
     Some \<lparr>bn_ID = i, bn_DisplayName = d, bn_Operation = op, bn_Method = m, bn_Path = p\<rparr> }"

definition case_of_obj :: "obj \<Rightarrow> batch_case option" where
  "case_of_obj kvs = do {
     cid \<leftarrow> text_field ''caseId'' kvs; dn \<leftarrow> text_field ''displayName'' kvs; sc \<leftarrow> text_field ''scenario'' kvs;
     nid \<leftarrow> text_field ''nodeId'' kvs; nd \<leftarrow> text_field ''nodeDisplayName'' kvs; op \<leftarrow> text_field ''operation'' kvs;
     m \<leftarrow> text_field ''method'' kvs; p \<leftarrow> text_field ''path'' kvs; sid \<leftarrow> text_field ''stepId'' kvs;
     rid \<leftarrow> text_field ''runId'' kvs; crid \<leftarrow> text_field ''caseRunId'' kvs; st \<leftarrow> text_field ''status'' kvs;
     vu \<leftarrow> text_field ''viewerUrl'' kvs; du \<leftarrow> text_field ''detailUrl'' kvs; ep \<leftarrow> text_field ''evidencePath'' kvs;
     el \<leftarrow> int_field ''elapsedMs'' kvs; er \<leftarrow> text_field ''error'' kvs; fp \<leftarrow> text_field ''failurePhase'' kvs;
     fc \<leftarrow> text_field ''failureCategory'' kvs; ts \<leftarrow> int_field ''timeoutSeconds'' kvs;
     sa \<leftarrow> text_field ''startedAt'' kvs; fa \<leftarrow> text_field ''finishedAt'' kvs;
     Some \<lparr>bc_CaseID = cid, bc_DisplayName = dn, bc_Scenario = sc, bc_NodeID = nid, bc_NodeDisplayName = nd, bc_Operation = op,
       bc_Method = m, bc_Path = p, bc_StepID = sid, bc_RunID = rid, bc_CaseRunID = crid, bc_Status = st, bc_ViewerURL = vu,
       bc_DetailURL = du, bc_EvidencePath = ep, bc_ElapsedMs = el, bc_Error = er, bc_FailurePhase = fp,
       bc_FailureCategory = fc, bc_TimeoutSeconds = ts, bc_StartedAt = sa, bc_FinishedAt = fa\<rparr> }"

definition report_of_obj :: "obj \<Rightarrow> batch_report option" where
  "report_of_obj kvs = do {
     ok \<leftarrow> decode_field json_bool False False ''ok'' kvs; bid \<leftarrow> text_field ''batchRunId'' kvs;
     rid \<leftarrow> text_field ''requestId'' kvs; eid \<leftarrow> text_field ''environmentId'' kvs; pid \<leftarrow> text_field ''profileId'' kvs;
     cids \<leftarrow> list_field json_text ''caseIds'' kvs;
     nids \<leftarrow> decode_field (\<lambda>v. map_option Some (json_list json_text v)) True None ''nodeIds'' kvs;
     wid \<leftarrow> text_field ''workflowId'' kvs;
     suite \<leftarrow> decode_field (\<lambda>v. map_option Some (Option.bind (json_obj v) suite_of_obj)) True None ''suite'' kvs;
     st \<leftarrow> text_field ''status'' kvs; total \<leftarrow> int_field ''total'' kvs; completed \<leftarrow> int_field ''completed'' kvs;
     passed \<leftarrow> int_field ''passed'' kvs; failed \<leftarrow> int_field ''failed'' kvs; skipped \<leftarrow> int_field ''skipped'' kvs;
     ru \<leftarrow> text_field ''reportUrl'' kvs; sa \<leftarrow> text_field ''startedAt'' kvs; fa \<leftarrow> text_field ''finishedAt'' kvs;
     ns \<leftarrow> list_field (\<lambda>v. Option.bind (json_obj v) node_of_obj) ''nodes'' kvs;
     cs \<leftarrow> list_field (\<lambda>v. Option.bind (json_obj v) case_of_obj) ''cases'' kvs;
     acc \<leftarrow> decode_field json_obj False [] ''acceptance'' kvs;
     er \<leftarrow> text_field ''error'' kvs; fc \<leftarrow> text_field ''failureCategory'' kvs;
     hp \<leftarrow> text_field ''htmlReportPath'' kvs; hu \<leftarrow> text_field ''htmlReportUrl'' kvs;
     jp \<leftarrow> text_field ''junitReportPath'' kvs; ju \<leftarrow> text_field ''junitReportUrl'' kvs;
     ap \<leftarrow> text_field ''artifactManifestPath'' kvs; au \<leftarrow> text_field ''artifactManifestUrl'' kvs;
     fp \<leftarrow> text_field ''failureSummaryPath'' kvs; fu \<leftarrow> text_field ''failureSummaryUrl'' kvs;
     Some \<lparr>br_OK = ok, br_BatchRunID = bid, br_RequestID = rid, br_EnvironmentID = eid, br_ProfileID = pid, br_CaseIDs = cids,
       br_NodeIDs = nids, br_WorkflowID = wid, br_Suite = suite, br_Status = st, br_Total = total, br_Completed = completed,
       br_Passed = passed, br_Failed = failed, br_Skipped = skipped, br_ReportURL = ru, br_StartedAt = sa, br_FinishedAt = fa,
       br_Nodes = ns, br_Cases = cs, br_Acceptance = acc, br_Error = er, br_FailureCategory = fc, br_HTMLReportPath = hp,
       br_HTMLReportURL = hu, br_JUnitReportPath = jp, br_JUnitReportURL = ju, br_ArtifactManifestPath = ap,
       br_ArtifactManifestURL = au, br_FailureSummaryPath = fp, br_FailureSummaryURL = fu, br_lease = no_lease\<rparr> }"

section \<open>Paths\<close>

text \<open>\<open>filepath.Clean\<close>, \<open>Dir\<close> and \<open>Join\<close> on slash-separated paths, and \<open>url.PathEscape\<close>.\<close>

fun clean_parts :: "bool \<Rightarrow> string list \<Rightarrow> string list \<Rightarrow> string list" where
  "clean_parts rooted [] acc = rev acc"
| "clean_parts rooted (p # ps) acc =
     (if p = [] \<or> p = ''.'' then clean_parts rooted ps acc
      else if p = ''..'' then
        (case acc of
           q # qs \<Rightarrow> if q = ''..'' then clean_parts rooted ps (p # acc) else clean_parts rooted ps qs
         | [] \<Rightarrow> clean_parts rooted ps (if rooted then [] else [p]))
      else clean_parts rooted ps (p # acc))"

definition path_clean :: "string \<Rightarrow> string" where
  "path_clean p =
     (let rooted = prefix ''/'' p; parts = clean_parts rooted (split_on (CHR ''/'') p) []
      in if rooted then ''/'' @ str_join ''/'' parts else if parts = [] then ''.'' else str_join ''/'' parts)"

definition path_dir :: "string \<Rightarrow> string" where
  "path_dir p = path_clean (rev (dropWhile (\<lambda>c. c \<noteq> CHR ''/'') (rev p)))"

definition path_join :: "string list \<Rightarrow> string" where
  "path_join ps = (let qs = filter (\<lambda>p. p \<noteq> []) ps in if qs = [] then [] else path_clean (str_join ''/'' qs))"

definition upper_hex :: "nat \<Rightarrow> char" where
  "upper_hex d = char_of (if d < 10 then 48 + d else 55 + d)"

definition path_escape :: "string \<Rightarrow> string" where
  "path_escape s = concat (map (\<lambda>c. if is_alnum c \<or> c \<in> set ''-_.~$&+=:@'' then [c]
     else [CHR 0x25, upper_hex (of_char c div 16), upper_hex (of_char c mod 16)]) s)"

section \<open>Reports and run rows\<close>

record time_format =
  tf_format :: "time \<Rightarrow> string"
  tf_parse :: "string \<Rightarrow> time option"

definition parse_report_time :: "time_format \<Rightarrow> string \<Rightarrow> time \<Rightarrow> time" where
  "parse_report_time tf v dflt = (case tf_parse tf (trim_space v) of None \<Rightarrow> dflt | Some t \<Rightarrow> t)"

definition evidence_root :: "batch_report \<Rightarrow> string" where
  "evidence_root r =
     (case filter (\<lambda>d. d \<noteq> [] \<and> d \<noteq> ''.'') (map (\<lambda>p. trim_space (path_dir (trim_space p)))
        [br_HTMLReportPath r, br_ArtifactManifestPath r, br_JUnitReportPath r, br_FailureSummaryPath r]) of
        [] \<Rightarrow> [] | d # _ \<Rightarrow> d)"

definition apply_report_to_run :: "time_format \<Rightarrow> time \<Rightarrow> batch_report \<Rightarrow> stored_run \<Rightarrow> stored_run" where
  "apply_report_to_run tf now r run = run\<lparr>
     xr_ProfileID := trim_space (br_ProfileID r), xr_EnvironmentID := trim_space (br_EnvironmentID r),
     xr_WorkflowID := trim_space (br_WorkflowID r), xr_Status := br_Status r, xr_EvidenceRoot := evidence_root r,
     xr_SummaryJSON := obj_text (persisted_summary r),
     xr_StartedAt := parse_report_time tf (br_StartedAt r) (xr_StartedAt run),
     xr_FinishedAt := (if blank (br_FinishedAt r) then zero_time else parse_report_time tf (br_FinishedAt r) now)\<rparr>"

definition new_store_run :: "time_format \<Rightarrow> time \<Rightarrow> batch_report \<Rightarrow> stored_run" where
  "new_store_run tf now r =
     (let started = parse_report_time tf (br_StartedAt r) now in
      \<lparr>xr_ID = br_BatchRunID r, xr_ProfileID = trim_space (br_ProfileID r), xr_EnvironmentID = trim_space (br_EnvironmentID r),
       xr_WorkflowID = trim_space (br_WorkflowID r), xr_Status = br_Status r, xr_EvidenceRoot = evidence_root r,
       xr_SummaryJSON = obj_text (persisted_summary r), xr_TestPlanMapID = [], xr_TestPlanPathID = [],
       xr_PlannerSummaryJSON = [], xr_StartedAt = started, xr_FinishedAt = zero_time, xr_CreatedAt = started,
       xr_UpdatedAt = started\<rparr>)"

definition or_else :: "string \<Rightarrow> string \<Rightarrow> string" where
  "or_else v dflt = (if v = [] then dflt else v)"

definition time_text :: "time_format \<Rightarrow> string \<Rightarrow> time \<Rightarrow> string" where
  "time_text tf v t = (if v = [] \<and> t \<noteq> zero_time then tf_format tf t else v)"

definition hydrate_report :: "time_format \<Rightarrow> stored_run \<Rightarrow> batch_report \<Rightarrow> batch_report" where
  "hydrate_report tf run r0 =
     (let url = or_else (br_ReportURL r0) (''/api/cases/batch-runs/'' @ path_escape (xr_ID run)); root = trim_space (xr_EvidenceRoot run);
          r = r0\<lparr>br_BatchRunID := xr_ID run, br_ProfileID := or_else (br_ProfileID r0) (xr_ProfileID run),
            br_EnvironmentID := or_else (br_EnvironmentID r0) (xr_EnvironmentID run),
            br_WorkflowID := or_else (br_WorkflowID r0) (xr_WorkflowID run),
            br_Status := (if blank (xr_Status run) then br_Status r0 else xr_Status run),
            br_StartedAt := time_text tf (br_StartedAt r0) (xr_StartedAt run),
            br_FinishedAt := time_text tf (br_FinishedAt r0) (xr_FinishedAt run), br_ReportURL := url,
            br_HTMLReportURL := or_else (br_HTMLReportURL r0) (url @ ''/report.html''),
            br_JUnitReportURL := or_else (br_JUnitReportURL r0) (url @ ''/report.junit.xml''),
            br_ArtifactManifestURL := or_else (br_ArtifactManifestURL r0) (url @ ''/artifacts.json''),
            br_FailureSummaryURL := or_else (br_FailureSummaryURL r0) (url @ ''/failures.json'')\<rparr>
      in if root = [] then r
         else r\<lparr>br_HTMLReportPath := or_else (br_HTMLReportPath r) (path_join [root, ''report.html'']),
            br_JUnitReportPath := or_else (br_JUnitReportPath r) (path_join [root, ''report.junit.xml'']),
            br_ArtifactManifestPath := or_else (br_ArtifactManifestPath r) (path_join [root, ''artifacts.json'']),
            br_FailureSummaryPath := or_else (br_FailureSummaryPath r) (path_join [root, ''failures.json''])\<rparr>)"

text \<open>The report of a row; a report without an identifier is returned as it is, and one of another run is refused.\<close>

definition decode_stored_report :: "time_format \<Rightarrow> stored_run \<Rightarrow> batch_report option" where
  "decode_stored_report tf run = do {
     v \<leftarrow> json_unmarshal (trim_space (xr_SummaryJSON run)); kvs \<leftarrow> json_obj v; r \<leftarrow> report_of_obj kvs;
     if blank (br_BatchRunID r) then Some r
     else if br_BatchRunID r \<noteq> xr_ID run then None
     else do { l \<leftarrow> decode_lease (xr_SummaryJSON run); Some (hydrate_report tf run (r\<lparr>br_lease := l\<rparr>)) } }"

section \<open>Leases\<close>

definition same_owner :: "batch_lease \<Rightarrow> batch_lease \<Rightarrow> bool" where
  "same_owner l other \<longleftrightarrow> \<not> blank (bl_HolderIdentity l) \<and> \<not> blank (bl_Token l) \<and>
     bl_HolderIdentity l = bl_HolderIdentity other \<and> bl_Token l = bl_Token other"

definition lease_active_at :: "time_format \<Rightarrow> batch_lease \<Rightarrow> time \<Rightarrow> bool" where
  "lease_active_at tf l now =
     (if blank (bl_HolderIdentity l) \<or> blank (bl_Token l) \<or> bl_LeaseDurationMillis l \<le> 0 then False
      else (case tf_parse tf (trim_space (bl_RenewTime l)) of
          None \<Rightarrow> False
        | Some renewed \<Rightarrow> now < renewed + bl_LeaseDurationMillis l * 1000000))"

definition normalize_lease_duration :: "time \<Rightarrow> time" where
  "normalize_lease_duration d = (if d \<le> 0 then 30000000000 else if d < 30000000 then 30000000 else d)"

end
