(* ===== verification/Batch_Runner.thy ===== *)
theory Batch_Runner
  imports Batch_Report Map_Execute
begin

text \<open>
  The runner of a batch of API cases: \<open>api_case_batch_execute.go\<close>, \<open>api_case_batch_state.go\<close>,
  \<open>api_case_batch_lease.go\<close>, \<open>api_case_batch_persistence.go\<close>,
  \<open>api_case_batch_fenced_store.go\<close>, \<open>api_case_batch_failures.go\<close>,
  \<open>api_case_batch_materialization_failure.go\<close> in \<open>internal/server/controlplane\<close>, and
  the case runner it calls (\<open>internal/runner/apicase\<close>).

  The state is the table of runs, the reports in the memory of the process, a count of the statements issued
  so far and the log of effects: requests, files and stored records, each with the row of the batch at that moment.

  The world holds what the code does not decide: the commits of other connections before each statement, outages,
  the clock, failing files, the answers to requests, the ticks of the heartbeat, and, for the operations that
  store several records, the records in the order in which they are written. The control plane runs with a store that
  compares and swaps. A heartbeat that fails cancels the context of the run; the statements that fail then are
  among the outages.
\<close>

section \<open>Types\<close>

record case_plan =
  cp_ID :: ident
  cp_DisplayName :: string
  cp_Scenario :: string
  cp_NodeID :: ident
  cp_NodeDisplayName :: string
  cp_Operation :: string
  cp_Method :: string
  cp_Path :: string
  cp_StepID :: ident
  cp_CasePath :: string
  cp_BaseURL :: string
  cp_EvidenceDir :: string
  cp_TimeoutSeconds :: int
  cp_Overrides :: obj
  cp_Execution :: bool

text \<open>What the runner uses of a case file, and the result of running it.\<close>

record case_file =
  cf_ID :: ident
  cf_Method :: string
  cf_Path :: string
  cf_ExpectedStatusCodes :: "int list"
  cf_ResponseContains :: "string list"
  cf_ResponseNotContains :: "string list"

record case_result =
  cr_OK :: bool
  cr_RunID :: ident
  cr_CaseID :: ident
  cr_Status :: string
  cr_FailurePhase :: string
  cr_FailureCategory :: string
  cr_Error :: string
  cr_EvidencePath :: string
  cr_StartedAt :: string
  cr_FinishedAt :: string
  cr_ElapsedMs :: int

definition no_result :: case_result where
  "no_result = \<lparr>cr_OK = False, cr_RunID = [], cr_CaseID = [], cr_Status = [], cr_FailurePhase = [], cr_FailureCategory = [],
     cr_Error = [], cr_EvidencePath = [], cr_StartedAt = [], cr_FinishedAt = [], cr_ElapsedMs = 0\<rparr>"

text \<open>
  How a request ends: it could not be built, could not be sent, its answer could not be read, or an answer with a status
  code and a body. The texts are the phase, the category and the message of the error.
\<close>

datatype http_outcome =
    Not_Built string string
  | Not_Sent string string
  | Not_Read string
  | Answer int string

record failure_rule =
  fr_Name :: string
  fr_Category :: string
  fr_Statuses :: "string list"
  fr_FailureCategories :: "string list"
  fr_MessageContains :: "string list"

datatype batch_error =
    Lease_Lost
  | Lease_Unreadable
  | Batch_Not_Loaded ident
  | Store_Unavailable
  | Store_Failed runs_error
  | Local_Failure string
  | Joined "batch_error list"

text \<open>\<open>errors.Is(err, errAPICaseBatchLeaseLost)\<close>.\<close>

fun is_lease_lost :: "batch_error \<Rightarrow> bool" where
  "is_lease_lost Lease_Lost = True"
| "is_lease_lost (Joined es) = (\<exists>e \<in> set es. is_lease_lost e)"
| "is_lease_lost _ = False"

definition lease_lost_by :: "batch_error option \<Rightarrow> bool" where
  "lease_lost_by e = (case e of None \<Rightarrow> False | Some x \<Rightarrow> is_lease_lost x)"

definition join_errors :: "batch_error list \<Rightarrow> batch_error option" where
  "join_errors es = (if es = [] then None else Some (Joined es))"

text \<open>
  The operations that store several records through the fenced store, and one step of such an operation: a run that is
  created, another record, or a failure to read what is to be stored.
\<close>

datatype composite =
    Case_Records case_plan case_result
  | Trace_Records case_plan case_result
  | Report_Artifacts
  | Workflow_Parent
  | Trace_Copies
  | Environment_Acceptance

datatype composite_step =
    Create_Run stored_run
  | Store_Record string
  | Read_Failed string

datatype batch_effect =
    Request_Sent ident int
  | File_Written string
  | Report_Written nat
  | Record_Stored composite_step

record batch_event =
  be_effect :: batch_effect
  be_row :: "stored_run option"

record batch_world =
  bw_dialect :: sql_dialect
  bw_times :: time_format
  bw_clock :: "nat \<Rightarrow> time"
  bw_commits :: "nat \<Rightarrow> run_db \<Rightarrow> run_db"
  bw_outage :: "nat \<Rightarrow> outage option"
  bw_beat :: "nat \<Rightarrow> bool"
  bw_error_text :: "batch_error \<Rightarrow> string"
  bw_owner :: ident
  bw_token :: ident
  bw_leaseMillis :: int
  bw_write_report :: "nat \<Rightarrow> nat \<Rightarrow> batch_report \<Rightarrow> string option"
  bw_write_file :: "nat \<Rightarrow> string \<Rightarrow> string option"
  bw_read_case :: "nat \<Rightarrow> string \<Rightarrow> string + case_file"
  bw_read_assertions :: "nat \<Rightarrow> string \<Rightarrow> string list"
  bw_materialize :: "nat \<Rightarrow> case_plan \<Rightarrow> string + string \<times> string"
  bw_http :: "nat \<Rightarrow> case_file \<Rightarrow> string \<Rightarrow> obj \<Rightarrow> http_outcome"
  bw_records :: "nat \<Rightarrow> batch_report option \<Rightarrow> composite \<Rightarrow> composite_step list"
  bw_exports :: "nat \<Rightarrow> case_plan \<Rightarrow> string \<Rightarrow> obj"
  bw_acceptance :: "nat \<Rightarrow> batch_report \<Rightarrow> obj"
  bw_profile :: ident
  bw_workflow :: ident
  bw_rules :: "failure_rule list"

record batch_state =
  bt_db :: run_db
  bt_runs :: "ident \<rightharpoonup> batch_report"
  bt_step :: nat
  bt_log :: "batch_event list"

text \<open>Every reading of the world is at a moment of its own: statements and effects both advance it.\<close>

definition moment :: "batch_state \<Rightarrow> nat" where
  "moment s = bt_step s + length (bt_log s)"

definition time_now :: "batch_world \<Rightarrow> batch_state \<Rightarrow> time" where
  "time_now w s = bw_clock w (moment s)"

definition now_text :: "batch_world \<Rightarrow> batch_state \<Rightarrow> string" where
  "now_text w s = tf_format (bw_times w) (time_now w s)"

definition run_statement :: "batch_world \<Rightarrow> (run_db \<Rightarrow> (runs_error + 'a) \<times> run_db) \<Rightarrow> batch_state \<Rightarrow>
  (batch_error + 'a) \<times> batch_state" where
  "run_statement w stmt s0 =
     (let s = s0\<lparr>bt_db := bw_commits w (bt_step s0) (bt_db s0), bt_step := Suc (bt_step s0)\<rparr>; res = stmt (bt_db s)
      in case bw_outage w (bt_step s0) of
           Some Before_Statement \<Rightarrow> (Inl Store_Unavailable, s)
         | Some After_Statement \<Rightarrow> (Inl Store_Unavailable, s\<lparr>bt_db := snd res\<rparr>)
         | None \<Rightarrow> (map_sum Store_Failed id (fst res), s\<lparr>bt_db := snd res\<rparr>))"

definition log_effect :: "ident \<Rightarrow> batch_effect \<Rightarrow> batch_state \<Rightarrow> batch_state" where
  "log_effect rid e s = s\<lparr>bt_log := \<lparr>be_effect = e, be_row = bt_db s rid\<rparr> # bt_log s\<rparr>"

section \<open>Reports in memory\<close>

definition save_report :: "batch_report \<Rightarrow> batch_state \<Rightarrow> batch_state" where
  "save_report r s = s\<lparr>bt_runs := (bt_runs s)(br_BatchRunID r \<mapsto> clone_report r)\<rparr>"

definition get_report :: "ident \<Rightarrow> batch_state \<Rightarrow> batch_report option" where
  "get_report rid s = map_option clone_report (bt_runs s rid)"

definition remove_report :: "ident \<Rightarrow> batch_state \<Rightarrow> batch_state" where
  "remove_report rid s = s\<lparr>bt_runs := (bt_runs s)(rid := None)\<rparr>"

definition update_lease :: "ident \<Rightarrow> batch_lease \<Rightarrow> batch_state \<Rightarrow> batch_state" where
  "update_lease rid l s =
     (case bt_runs s rid of
        None \<Rightarrow> s
      | Some r \<Rightarrow> if same_owner (br_lease r) l then s\<lparr>bt_runs := (bt_runs s)(rid \<mapsto> r\<lparr>br_lease := l\<rparr>)\<rparr> else s)"

section \<open>Lease and checkpoint\<close>

text \<open>A conflict of revisions means that the lease is lost.\<close>

definition swap_error :: "batch_error \<Rightarrow> batch_error" where
  "swap_error e = (case e of Store_Failed (Run_Revision_Conflict _) \<Rightarrow> Lease_Lost | _ \<Rightarrow> e)"

definition swap_run :: "batch_world \<Rightarrow> stored_run \<Rightarrow> stored_run \<Rightarrow> batch_state \<Rightarrow> batch_error option \<times> batch_state" where
  "swap_run w read updated s =
     (case run_statement w (compare_and_swap_run (bw_dialect w) (time_now w s) (xr_UpdatedAt read) StatusRunning
          (updated\<lparr>xr_UpdatedAt := next_revision (xr_UpdatedAt read) (time_now w s)\<rparr>)) s of
        (Inl e, s') \<Rightarrow> (Some (swap_error e), s')
      | (Inr _, s') \<Rightarrow> (None, s'))"

definition renew_lease :: "batch_world \<Rightarrow> ident \<Rightarrow> batch_state \<Rightarrow> batch_error option \<times> batch_state" where
  "renew_lease w rid s =
     (case get_report rid s of
        None \<Rightarrow> (Some Lease_Lost, s)
      | Some report \<Rightarrow>
          (case run_statement w (\<lambda>db. (get_run (bw_dialect w) rid db, db)) s of
             (Inl e, s1) \<Rightarrow> (Some e, s1)
           | (Inr current, s1) \<Rightarrow>
               (case decode_lease (xr_SummaryJSON current) of
                  None \<Rightarrow> (Some Lease_Unreadable, s1)
                | Some l \<Rightarrow>
                    if xr_Status current \<noteq> StatusRunning \<or> \<not> same_owner (br_lease report) l then (Some Lease_Lost, s1)
                    else
                      (case unmarshal_map (xr_SummaryJSON current) of
                         None \<Rightarrow> (Some Lease_Unreadable, s1)
                       | Some kvs \<Rightarrow>
                           (let l' = l\<lparr>bl_RenewTime := now_text w s1\<rparr> in
                            case swap_run w current (current\<lparr>xr_SummaryJSON := obj_text (obj_put ''_lease'' (lease_json l') kvs)\<rparr>) s1 of
                              (Some e, s2) \<Rightarrow> (Some e, s2)
                            | (None, s2) \<Rightarrow> (None, update_lease rid l' s2))))))"

text \<open>A tick of the heartbeat, which runs beside the cases and shares the lock of renewals and checkpoints.\<close>

definition heartbeat :: "batch_world \<Rightarrow> ident \<Rightarrow> batch_state \<Rightarrow> batch_state" where
  "heartbeat w rid s =
     (if \<not> bw_beat w (moment s) then s
      else (case renew_lease w rid s of (None, s1) \<Rightarrow> s1 | (Some _, s1) \<Rightarrow> remove_report rid s1))"

definition persistence_failure_report :: "batch_world \<Rightarrow> ident \<Rightarrow> batch_error \<Rightarrow> batch_state \<Rightarrow> batch_report option" where
  "persistence_failure_report w rid cause s =
     map_option (mark_persistence_failed (bw_error_text w cause) (now_text w s)) (get_report rid s)"

definition mark_persistence_failure :: "batch_world \<Rightarrow> ident \<Rightarrow> batch_error \<Rightarrow> batch_state \<Rightarrow> batch_state" where
  "mark_persistence_failure w rid cause s =
     (case persistence_failure_report w rid cause s of None \<Rightarrow> s | Some r \<Rightarrow> save_report r s)"

definition require_fence :: "batch_world \<Rightarrow> ident \<Rightarrow> batch_state \<Rightarrow> batch_error option \<times> batch_state" where
  "require_fence w rid s =
     (case renew_lease w rid (heartbeat w rid s) of
        (None, s1) \<Rightarrow> (None, s1)
      | (Some e, s1) \<Rightarrow> (Some e, if is_lease_lost e then remove_report rid s1 else mark_persistence_failure w rid e s1))"

definition checkpoint_run :: "batch_world \<Rightarrow> batch_report \<Rightarrow> batch_state \<Rightarrow> batch_error option \<times> batch_state" where
  "checkpoint_run w report s =
     (case run_statement w (\<lambda>db. (get_run (bw_dialect w) (br_BatchRunID report) db, db)) s of
        (Inl e, s1) \<Rightarrow> (Some e, s1)
      | (Inr run, s1) \<Rightarrow>
          (case decode_lease (xr_SummaryJSON run) of
             None \<Rightarrow> (Some Lease_Unreadable, s1)
           | Some l \<Rightarrow>
               if xr_Status run \<noteq> StatusRunning \<or> \<not> same_owner (br_lease report) l then (Some Lease_Lost, s1)
               else swap_run w run
                 (apply_report_to_run (bw_times w) (time_now w s1) (report\<lparr>br_lease := l\<lparr>bl_RenewTime := now_text w s1\<rparr>\<rparr>) run) s1))"

definition checkpoint :: "batch_world \<Rightarrow> batch_report \<Rightarrow> batch_state \<Rightarrow> batch_error option \<times> batch_state" where
  "checkpoint w report s = checkpoint_run w report (heartbeat w (br_BatchRunID report) s)"

section \<open>Reports on disk\<close>

text \<open>The four writers: the HTML page, the JUnit file, the list of artifacts and the summary of failures.\<close>

definition report_writers :: "nat list" where
  "report_writers = [0, 1, 2, 3]"

definition write_report_file :: "batch_world \<Rightarrow> ident \<Rightarrow> nat \<Rightarrow> batch_report \<Rightarrow> batch_state \<Rightarrow> string option \<times> batch_state" where
  "write_report_file w rid k report s = (bw_write_report w (moment s) k report, log_effect rid (Report_Written k) s)"

fun write_reports_loop :: "batch_world \<Rightarrow> ident \<Rightarrow> nat list \<Rightarrow> batch_error list \<Rightarrow> batch_report \<Rightarrow> batch_state \<Rightarrow>
  batch_error option \<times> batch_report \<times> batch_state" where
  "write_reports_loop w rid [] failures report s = (join_errors failures, report, s)"
| "write_reports_loop w rid (k # ks) failures report s =
     (case require_fence w rid s of
        (Some e, s1) \<Rightarrow> (join_errors (failures @ [e]), append_error (bw_error_text w e) report, s1)
      | (None, s1) \<Rightarrow>
          (case write_report_file w rid k report s1 of
             (Some m, s2) \<Rightarrow> write_reports_loop w rid ks (failures @ [Local_Failure m]) (append_error m report) s2
           | (None, s2) \<Rightarrow> write_reports_loop w rid ks failures report s2))"

definition write_reports :: "batch_world \<Rightarrow> ident \<Rightarrow> batch_report \<Rightarrow> batch_state \<Rightarrow>
  batch_error option \<times> batch_report \<times> batch_state" where
  "write_reports w rid = write_reports_loop w rid report_writers []"

definition abort_persistence :: "batch_world \<Rightarrow> ident \<Rightarrow> batch_error \<Rightarrow> batch_state \<Rightarrow> batch_state" where
  "abort_persistence w rid cause s =
     (case persistence_failure_report w rid cause s of
        None \<Rightarrow> s
      | Some r \<Rightarrow>
          (case write_reports w rid r s of
             (e, r', s1) \<Rightarrow> if lease_lost_by e then remove_report rid s1 else save_report r' s1))"

text \<open>What follows a failure to write the reports or to checkpoint one of them.\<close>

definition give_up :: "batch_world \<Rightarrow> ident \<Rightarrow> batch_error \<Rightarrow> batch_report \<Rightarrow> batch_state \<Rightarrow> batch_state" where
  "give_up w rid e report s =
     (if is_lease_lost e then remove_report rid s else abort_persistence w rid e (save_report report s))"

definition update_case :: "batch_world \<Rightarrow> ident \<Rightarrow> nat \<Rightarrow> batch_case \<Rightarrow> batch_state \<Rightarrow> batch_error option \<times> batch_state" where
  "update_case w rid index item s =
     (case get_report rid s of
        None \<Rightarrow> (Some (Batch_Not_Loaded rid), s)
      | Some r0 \<Rightarrow>
          (let r = refresh_counts (r0\<lparr>br_Cases := (br_Cases r0)[index := item]\<rparr>) in
           case require_fence w rid s of
             (Some e, s1) \<Rightarrow> (Some e, s1)
           | (None, s1) \<Rightarrow>
               (case write_reports w rid r s1 of
                  (Some e, r', s2) \<Rightarrow> (Some e, give_up w rid e r' s2)
                | (None, r', s2) \<Rightarrow>
                    (case checkpoint w r' s2 of
                       (Some e, s3) \<Rightarrow> (Some e, give_up w rid e r' s3)
                     | (None, s3) \<Rightarrow> (None, save_report r' s3)))))"

text \<open>The end of \<open>failFinalPersistence\<close> and \<open>failCasePersistence\<close>.\<close>

definition store_failed_report :: "batch_world \<Rightarrow> ident \<Rightarrow> batch_report \<Rightarrow> batch_state \<Rightarrow> batch_state" where
  "store_failed_report w rid r s =
     (case write_reports w rid r s of
        (e, r', s1) \<Rightarrow>
          if lease_lost_by e then remove_report rid s1
          else
            (case checkpoint w r' s1 of
               (None, s2) \<Rightarrow> save_report r' s2
             | (Some x, s2) \<Rightarrow>
                 if is_lease_lost x then remove_report rid s2 else save_report (append_error (bw_error_text w x) r') s2))"

definition fail_final_persistence :: "batch_world \<Rightarrow> batch_report \<Rightarrow> batch_error \<Rightarrow> batch_state \<Rightarrow> batch_state" where
  "fail_final_persistence w report cause s =
     (let r = append_error (bw_error_text w cause)
            (report\<lparr>br_OK := False, br_Status := StatusFailed, br_FailureCategory := PersistenceFailure\<rparr>)
      in case require_fence w (br_BatchRunID report) s of
           (Some _, s1) \<Rightarrow> s1
         | (None, s1) \<Rightarrow> store_failed_report w (br_BatchRunID report) r s1)"

definition fail_case_persistence :: "batch_world \<Rightarrow> ident \<Rightarrow> nat \<Rightarrow> batch_case \<Rightarrow> batch_error \<Rightarrow> batch_state \<Rightarrow> batch_state" where
  "fail_case_persistence w rid index item cause s =
     (let message = ''batch persistence failed while recording case '' @ bc_CaseID item @ '': '' @ bw_error_text w cause;
          failed = item\<lparr>bc_Status := StatusFailed, bc_FailurePhase := ''persistence'', bc_FailureCategory := PersistenceFailure,
            bc_Error := message\<rparr>
      in case update_case w rid index failed s of
           (Some _, s1) \<Rightarrow> s1
         | (None, s1) \<Rightarrow>
             (case require_fence w rid s1 of
                (Some _, s2) \<Rightarrow> s2
              | (None, s2) \<Rightarrow>
                  (case persistence_failure_report w rid cause s2 of
                     None \<Rightarrow> s2
                   | Some r \<Rightarrow> store_failed_report w rid r s2)))"

section \<open>The fenced store\<close>

definition record_step :: "time \<Rightarrow> composite_step \<Rightarrow> run_db \<Rightarrow> (runs_error + unit) \<times> run_db" where
  "record_step now st db =
     (case st of
        Create_Run r \<Rightarrow> (case create_run now r db of (Inl e, db') \<Rightarrow> (Inl e, db') | (Inr _, db') \<Rightarrow> (Inr (), db'))
      | _ \<Rightarrow> (Inr (), db))"

definition fenced_step :: "batch_world \<Rightarrow> ident \<Rightarrow> composite_step \<Rightarrow> batch_state \<Rightarrow> batch_error option \<times> batch_state" where
  "fenced_step w rid st s =
     (case st of
        Read_Failed m \<Rightarrow> (Some (Local_Failure m), s)
      | _ \<Rightarrow>
          (case require_fence w rid s of
             (Some e, s1) \<Rightarrow> (Some e, s1)
           | (None, s1) \<Rightarrow>
               (case run_statement w (record_step (time_now w s1) st) (log_effect rid (Record_Stored st) s1) of
                  (Inl e, s2) \<Rightarrow> (Some e, s2)
                | (Inr _, s2) \<Rightarrow> (None, s2))))"

text \<open>Some operations stop at the first error; others go on and join the errors.\<close>

fun steps_until_error :: "batch_world \<Rightarrow> ident \<Rightarrow> composite_step list \<Rightarrow> batch_state \<Rightarrow> batch_error option \<times> batch_state" where
  "steps_until_error w rid [] s = (None, s)"
| "steps_until_error w rid (st # sts) s =
     (case fenced_step w rid st s of (Some e, s1) \<Rightarrow> (Some e, s1) | (None, s1) \<Rightarrow> steps_until_error w rid sts s1)"

fun steps_joined :: "batch_world \<Rightarrow> ident \<Rightarrow> composite_step list \<Rightarrow> batch_error list \<Rightarrow> batch_state \<Rightarrow>
  batch_error option \<times> batch_state" where
  "steps_joined w rid [] failures s = (join_errors failures, s)"
| "steps_joined w rid (st # sts) failures s =
     (case fenced_step w rid st s of
        (Some e, s1) \<Rightarrow> steps_joined w rid sts (failures @ [e]) s1
      | (None, s1) \<Rightarrow> steps_joined w rid sts failures s1)"

definition record_composite :: "batch_world \<Rightarrow> ident \<Rightarrow> batch_report option \<Rightarrow> composite \<Rightarrow> batch_state \<Rightarrow>
  batch_error option \<times> batch_state" where
  "record_composite w rid report c s =
     (let sts = bw_records w (moment s) report c in
      if c = Report_Artifacts \<or> c = Trace_Copies then steps_joined w rid sts [] s else steps_until_error w rid sts s)"

text \<open>
  The topology of a trace: its records are attempted whatever became of the one before, and only an error of the
  fence is reported (\<open>FenceError\<close>).
\<close>

fun trace_steps :: "batch_world \<Rightarrow> ident \<Rightarrow> composite_step list \<Rightarrow> batch_error option \<Rightarrow> batch_state \<Rightarrow>
  batch_error option \<times> batch_state" where
  "trace_steps w rid [] fence_error s = (fence_error, s)"
| "trace_steps w rid (Read_Failed m # sts) fence_error s = trace_steps w rid sts fence_error s"
| "trace_steps w rid (st # sts) fence_error s =
     (case require_fence w rid s of
        (Some e, s1) \<Rightarrow> trace_steps w rid sts (if fence_error = None then Some e else fence_error) s1
      | (None, s1) \<Rightarrow>
          trace_steps w rid sts fence_error
            (snd (run_statement w (record_step (time_now w s1) st) (log_effect rid (Record_Stored st) s1))))"

section \<open>Running a case\<close>

text \<open>\<open>internal/runner/apicase\<close>. A character that is not ASCII is one dash.\<close>

definition safe_run_id_part :: "string \<Rightarrow> string" where
  "safe_run_id_part v =
     (let t = trim_space v; edge = (\<lambda>c. c = CHR ''-'' \<or> c = CHR ''.'' \<or> c = CHR ''_'');
          mapped = concat (map (\<lambda>c. if is_alnum c \<or> edge c then [c]
            else if 128 \<le> (of_char c :: nat) \<and> (of_char c :: nat) < 192 then [] else ''-'') t);
          trimmed = rev (dropWhile edge (rev (dropWhile edge mapped)))
      in if t = [] \<or> trimmed = [] then ''item'' else trimmed)"

definition batch_case_run_id :: "ident \<Rightarrow> ident \<Rightarrow> ident \<Rightarrow> ident" where
  "batch_case_run_id bid sid cid =
     (if blank sid then bid @ ''.'' @ safe_run_id_part cid
      else bid @ ''.'' @ safe_run_id_part sid @ ''.'' @ safe_run_id_part cid)"

definition case_evidence_path :: "string \<Rightarrow> ident \<Rightarrow> string" where
  "case_evidence_path root rid = path_join [if blank root then path_join [''.runtime'', ''cases''] else root, trim_space rid]"

definition load_case :: "batch_world \<Rightarrow> string \<Rightarrow> batch_state \<Rightarrow> string + case_file" where
  "load_case w path s =
     (if blank path then Inl ''case path is required''
      else (case bw_read_case w (moment s) path of
          Inl m \<Rightarrow> Inl m
        | Inr f \<Rightarrow> if blank (cf_ID f) then Inl ''case id is required''
            else if blank (cf_Method f) then Inl ''request method is required''
            else if blank (cf_Path f) then Inl ''request path is required'' else Inr f))"

definition assert_response :: "case_file \<Rightarrow> int \<Rightarrow> string \<Rightarrow> string list" where
  "assert_response f code body =
     (if cf_ExpectedStatusCodes f \<noteq> [] \<and> code \<notin> set (cf_ExpectedStatusCodes f)
      then [''status code '' @ string_of_int code @ '' was not expected''] else []) @
     map (\<lambda>x. ''response did not contain '' @ go_quote x) (filter (\<lambda>x. \<not> str_contains body x) (cf_ResponseContains f)) @
     map (\<lambda>x. ''response must not contain '' @ go_quote x)
       (filter (\<lambda>x. \<not> blank x \<and> str_contains body x) (cf_ResponseNotContains f))"

definition MaxResponseBodyBytes :: nat where "MaxResponseBodyBytes = 2 ^ 20"

text \<open>The phase, category and message of a failed exchange, or the failed assertions.\<close>

definition exchange_result :: "case_file \<Rightarrow> http_outcome \<Rightarrow> (string \<times> string \<times> string) + string list" where
  "exchange_result f h =
     (case h of
        Not_Built c m \<Rightarrow> Inl (''request-materialization'', c, m)
      | Not_Sent c m \<Rightarrow> Inl (''request-send'', c, m)
      | Not_Read m \<Rightarrow> Inl (''response-read'', ''transport-error'', m)
      | Answer code body \<Rightarrow>
          if MaxResponseBodyBytes < length body
          then Inl (''response-read'', ''response-too-large'',
            ''response body exceeds '' @ string_of_nat MaxResponseBodyBytes @ '' byte limit'')
          else Inr (assert_response f code body))"

definition elapsed_millis :: "time \<Rightarrow> time \<Rightarrow> int" where
  "elapsed_millis started finished = (finished - started) div 1000000"

definition evidence_failure :: "batch_world \<Rightarrow> time \<Rightarrow> case_result \<Rightarrow> batch_error \<Rightarrow> batch_state \<Rightarrow>
  (case_result \<times> batch_error option) \<times> batch_state" where
  "evidence_failure w started res cause s =
     ((res\<lparr>cr_OK := False, cr_Status := StatusFailed, cr_FailurePhase := ''persistence'',
        cr_FailureCategory := ''evidence-persistence-error'', cr_Error := bw_error_text w cause,
        cr_StartedAt := (if cr_StartedAt res = [] then tf_format (bw_times w) started else cr_StartedAt res),
        cr_FinishedAt := now_text w s, cr_ElapsedMs := elapsed_millis started (time_now w s)\<rparr>, Some cause), s)"

definition write_evidence :: "batch_world \<Rightarrow> ident \<Rightarrow> string \<Rightarrow> batch_state \<Rightarrow> batch_error option \<times> batch_state" where
  "write_evidence w rid path s =
     (case require_fence w rid s of
        (Some e, s1) \<Rightarrow> (Some e, s1)
      | (None, s1) \<Rightarrow> (map_option Local_Failure (bw_write_file w (moment s1) path), log_effect rid (File_Written path) s1))"

fun write_evidence_files :: "batch_world \<Rightarrow> ident \<Rightarrow> string list \<Rightarrow> batch_state \<Rightarrow> batch_error option \<times> batch_state" where
  "write_evidence_files w rid [] s = (None, s)"
| "write_evidence_files w rid (p # ps) s =
     (case write_evidence w rid p s of (Some e, s1) \<Rightarrow> (Some e, s1) | (None, s1) \<Rightarrow> write_evidence_files w rid ps s1)"

text \<open>The empty name stands for the directory, which is made first.\<close>

definition evidence_files :: "case_result \<Rightarrow> string list \<Rightarrow> string list" where
  "evidence_files res names = map (\<lambda>n. path_join [cr_EvidencePath res, n]) names"

definition finish_case_run :: "batch_world \<Rightarrow> ident \<Rightarrow> time \<Rightarrow> case_result \<Rightarrow> batch_state \<Rightarrow>
  (case_result \<times> batch_error option) \<times> batch_state" where
  "finish_case_run w rid started res0 s =
     (let res = res0\<lparr>cr_FinishedAt := now_text w s, cr_ElapsedMs := elapsed_millis started (time_now w s)\<rparr> in
      case write_evidence_files w rid (evidence_files res [''summary.json'']) s of
        (Some e, s1) \<Rightarrow> evidence_failure w started res e s1
      | (None, s1) \<Rightarrow> ((res, None), s1))"

definition write_outcome :: "batch_world \<Rightarrow> ident \<Rightarrow> time \<Rightarrow> case_result \<Rightarrow> string list \<Rightarrow> batch_state \<Rightarrow>
  (case_result \<times> batch_error option) \<times> batch_state" where
  "write_outcome w rid started res names s =
     (case write_evidence_files w rid (evidence_files res names) s of
        (Some e, s1) \<Rightarrow> evidence_failure w started res e s1
      | (None, s1) \<Rightarrow> finish_case_run w rid started res s1)"

definition write_failure_outcome :: "batch_world \<Rightarrow> ident \<Rightarrow> time \<Rightarrow> case_result \<Rightarrow> batch_state \<Rightarrow>
  (case_result \<times> batch_error option) \<times> batch_state" where
  "write_failure_outcome w rid started res = write_outcome w rid started res [''assertions.json'', ''error.json'']"

text \<open>The request is logged when it may have been sent.\<close>

definition send_request :: "batch_world \<Rightarrow> ident \<Rightarrow> case_file \<Rightarrow> string \<Rightarrow> obj \<Rightarrow> ident \<Rightarrow> int \<Rightarrow> batch_state \<Rightarrow>
  http_outcome \<times> batch_state" where
  "send_request w rid f base overrides crid timeout s =
     (let h = bw_http w (moment s) f base overrides in
      (h, case h of Not_Built _ _ \<Rightarrow> s | _ \<Rightarrow> log_effect rid (Request_Sent crid timeout) s))"

definition run_id_error :: "ident \<Rightarrow> string" where
  "run_id_error raw =
     (let rid = trim_space raw in
      ''run id '' @ go_quote raw @ '' must be a single path segment'' @
        (if rid = ''.'' \<or> rid = ''..'' \<or> prefix ''/'' rid then []
         else '' using ASCII letters, digits, dot, dash, or underscore''))"

definition run_api_case :: "batch_world \<Rightarrow> ident \<Rightarrow> string \<Rightarrow> string \<Rightarrow> string \<Rightarrow> ident \<Rightarrow> obj \<Rightarrow> int \<Rightarrow> batch_state \<Rightarrow>
  (case_result \<times> batch_error option) \<times> batch_state" where
  "run_api_case w rid path base dir crid overrides timeout s =
     (if \<not> valid_trusted_run_id crid then ((no_result, Some (Local_Failure (run_id_error crid))), s)
      else
        (case load_case w path s of
           Inl m \<Rightarrow> ((no_result, Some (Local_Failure m)), s)
         | Inr f \<Rightarrow>
             (let started = time_now w s;
                  res = no_result\<lparr>cr_OK := True, cr_RunID := trim_space crid, cr_CaseID := cf_ID f, cr_Status := StatusPassed,
                    cr_EvidencePath := case_evidence_path dir crid, cr_StartedAt := tf_format (bw_times w) started\<rparr>
              in case write_evidence_files w rid (evidence_files res [[], ''case.json'', ''request.json'']) s of
                   (Some e, s1) \<Rightarrow> evidence_failure w started res e s1
                 | (None, s1) \<Rightarrow>
                     (case send_request w rid f base overrides crid timeout s1 of
                        (h, s2) \<Rightarrow>
                          (case exchange_result f h of
                             Inl (phase, category, m) \<Rightarrow>
                               write_failure_outcome w rid started
                                 (res\<lparr>cr_OK := False, cr_Status := StatusFailed, cr_FailurePhase := phase,
                                    cr_FailureCategory := category, cr_Error := m\<rparr>) s2
                           | Inr failures \<Rightarrow>
                               write_outcome w rid started
                                 (if failures = [] then res
                                  else res\<lparr>cr_OK := False, cr_Status := StatusFailed, cr_FailurePhase := ''assertion'',
                                    cr_FailureCategory := ''assertion-mismatch'', cr_Error := str_join ''; '' failures\<rparr>)
                                 [''response.json'', ''assertions.json''] s2)))))"

text \<open>\<open>WriteFailureEvidence\<close> for a failure before the request.\<close>

definition first_failure_value :: "string \<Rightarrow> string \<Rightarrow> string" where
  "first_failure_value v dflt = (if blank v then dflt else trim_space v)"

definition write_failure_evidence :: "batch_world \<Rightarrow> ident \<Rightarrow> case_plan \<Rightarrow> ident \<Rightarrow> time \<Rightarrow> string \<Rightarrow> batch_state \<Rightarrow>
  (case_result \<times> batch_error option) \<times> batch_state" where
  "write_failure_evidence w rid p crid started0 message s =
     (if \<not> valid_trusted_run_id crid then ((no_result, Some (Local_Failure (run_id_error crid))), s)
      else
        (let started = (if started0 = zero_time then time_now w s else started0);
             res = no_result\<lparr>cr_OK := False, cr_RunID := trim_space crid, cr_CaseID := trim_space (cp_ID p), cr_Status := StatusFailed,
               cr_FailurePhase := ''materialization'', cr_FailureCategory := ''materialization-error'',
               cr_Error := first_failure_value message ''case run failed'', cr_EvidencePath := case_evidence_path (cp_EvidenceDir p) crid,
               cr_StartedAt := tf_format (bw_times w) started\<rparr>
         in if cr_CaseID res = [] then ((res, Some (Local_Failure ''case id is required for failure Evidence'')), s)
            else
              (case write_evidence_files w rid (evidence_files res [[], ''case.json'', ''request.json'']) s of
                 (Some e, s1) \<Rightarrow> evidence_failure w started res e s1
               | (None, s1) \<Rightarrow> write_failure_outcome w rid started res s1)))"

section \<open>Results of cases\<close>

definition query_escape :: "string \<Rightarrow> string" where
  "query_escape s = concat (map (\<lambda>c. if is_alnum c \<or> c \<in> set ''-_.~'' then [c] else if c = CHR '' '' then ''+''
     else [CHR 0x25, upper_hex (of_char c div 16), upper_hex (of_char c mod 16)]) s)"

definition case_failure_message :: "batch_world \<Rightarrow> case_result \<Rightarrow> batch_state \<Rightarrow> string" where
  "case_failure_message w res s =
     (let errors = (if blank (cr_EvidencePath res) then [] else bw_read_assertions w (moment s) (cr_EvidencePath res)) in
      if cr_Status res \<noteq> StatusFailed then []
      else if \<not> blank (cr_Error res) then trim_space (cr_Error res)
      else if errors = [] then ''case run failed'' else str_join ''; '' errors)"

definition case_failure_category :: "batch_world \<Rightarrow> case_result \<Rightarrow> batch_state \<Rightarrow> string" where
  "case_failure_category w res s =
     (let errors = (if blank (cr_EvidencePath res) then [] else bw_read_assertions w (moment s) (cr_EvidencePath res)) in
      if cr_Status res \<noteq> StatusFailed then []
      else if \<not> blank (cr_FailureCategory res) then trim_space (cr_FailureCategory res)
      else if errors = [] then ''case-failure'' else ''assertion-mismatch'')"

definition contains_fold :: "string list \<Rightarrow> string \<Rightarrow> bool" where
  "contains_fold vs want0 =
     (let want = trim_space (to_lower want0) in want \<noteq> [] \<and> list_ex (\<lambda>v. trim_space (to_lower v) = want) vs)"

definition contains_fragment :: "string list \<Rightarrow> string \<Rightarrow> bool" where
  "contains_fragment fragments message =
     list_ex (\<lambda>f. trim_space (to_lower f) \<noteq> [] \<and> str_contains (to_lower message) (trim_space (to_lower f))) fragments"

definition failure_rule_matches :: "failure_rule \<Rightarrow> string \<Rightarrow> string \<Rightarrow> string \<Rightarrow> bool" where
  "failure_rule_matches r status category message \<longleftrightarrow>
     (fr_Statuses r = [] \<or> contains_fold (fr_Statuses r) status) \<and>
     (fr_FailureCategories r = [] \<or> contains_fold (fr_FailureCategories r) category) \<and>
     (fr_MessageContains r = [] \<or> contains_fragment (fr_MessageContains r) message) \<and>
     (fr_Statuses r \<noteq> [] \<or> fr_FailureCategories r \<noteq> [] \<or> fr_MessageContains r \<noteq> [])"

definition apply_failure_rules :: "failure_rule list \<Rightarrow> string \<Rightarrow> string \<Rightarrow> string \<Rightarrow> string" where
  "apply_failure_rules rules status category message =
     (if blank category then []
      else (case find (\<lambda>r. failure_rule_matches r status category message) rules of
          None \<Rightarrow> category | Some r \<Rightarrow> first_non_empty [fr_Category r, fr_Name r, category]))"

definition plan_case_report :: "string \<Rightarrow> case_plan \<Rightarrow> batch_case" where
  "plan_case_report status p = \<lparr>bc_CaseID = cp_ID p, bc_DisplayName = cp_DisplayName p, bc_Scenario = cp_Scenario p,
     bc_NodeID = cp_NodeID p, bc_NodeDisplayName = cp_NodeDisplayName p, bc_Operation = cp_Operation p, bc_Method = cp_Method p,
     bc_Path = cp_Path p, bc_StepID = cp_StepID p, bc_RunID = [], bc_CaseRunID = [], bc_Status = status, bc_ViewerURL = [],
     bc_DetailURL = [], bc_EvidencePath = [], bc_ElapsedMs = 0, bc_Error = [], bc_FailurePhase = [], bc_FailureCategory = [],
     bc_TimeoutSeconds = cp_TimeoutSeconds p, bc_StartedAt = [], bc_FinishedAt = []\<rparr>"

definition case_run_record_id :: "ident \<Rightarrow> ident" where
  "case_run_record_id rid = (if blank rid then [] else rid @ ''.case'')"

definition apply_case_result :: "batch_world \<Rightarrow> batch_state \<Rightarrow> case_result \<Rightarrow> batch_case \<Rightarrow> batch_case" where
  "apply_case_result w s res item =
     (let crid = case_run_record_id (cr_RunID res); message = case_failure_message w res s in
      item\<lparr>bc_RunID := cr_RunID res, bc_CaseRunID := crid, bc_Status := cr_Status res,
        bc_ViewerURL := (if cr_RunID res = [] then [] else ''/evidence-viewer.html?caseRun='' @ query_escape (cr_RunID res)),
        bc_DetailURL := (if blank crid then [] else ''/api/case-run/evidence?caseRunId='' @ query_escape crid),
        bc_EvidencePath := cr_EvidencePath res, bc_ElapsedMs := cr_ElapsedMs res, bc_StartedAt := cr_StartedAt res,
        bc_FinishedAt := cr_FinishedAt res, bc_FailurePhase := cr_FailurePhase res, bc_Error := message,
        bc_FailureCategory := apply_failure_rules (bw_rules w) (cr_Status res) (case_failure_category w res s) message\<rparr>)"

section \<open>The batch\<close>

definition DefaultTimeoutSeconds :: int where "DefaultTimeoutSeconds = 90"
definition MaxTimeoutSeconds :: int where "MaxTimeoutSeconds = 600"

definition normalized_timeout :: "int \<Rightarrow> int option" where
  "normalized_timeout t =
     (if t = 0 then Some DefaultTimeoutSeconds else if 0 \<le> t \<and> t \<le> MaxTimeoutSeconds then Some t else None)"

definition safe_execution_timeout :: "int \<Rightarrow> int" where
  "safe_execution_timeout t = (case normalized_timeout t of None \<Rightarrow> DefaultTimeoutSeconds | Some n \<Rightarrow> n)"

definition merge_maps :: "obj \<Rightarrow> obj \<Rightarrow> obj" where
  "merge_maps base overlay = fold (\<lambda>(k, v). obj_put k v) overlay base"

text \<open>The Boolean tells whether the batch goes on.\<close>

definition record_materialization_failure :: "batch_world \<Rightarrow> ident \<Rightarrow> nat \<Rightarrow> case_plan \<Rightarrow> time \<Rightarrow> string \<Rightarrow> batch_state \<Rightarrow>
  bool \<times> batch_state" where
  "record_materialization_failure w rid index p started cause s =
     (case require_fence w rid s of
        (Some _, s1) \<Rightarrow> (False, s1)
      | (None, s1) \<Rightarrow>
          (case write_failure_evidence w rid p (batch_case_run_id rid (cp_StepID p) (cp_ID p)) started cause s1 of
             ((res, e), s2) \<Rightarrow>
               (case (case e of Some x \<Rightarrow> (Some x, s2) | None \<Rightarrow> record_composite w rid None (Case_Records p res) s2) of
                  (Some x, s3) \<Rightarrow>
                    (False, fail_case_persistence w rid index (apply_case_result w s3 res (plan_case_report StatusFailed p)) x s3)
                | (None, s3) \<Rightarrow>
                    (case update_case w rid index (apply_case_result w s3 res (plan_case_report StatusFailed p)) s3 of
                       (x, s4) \<Rightarrow> (x = None, s4)))))"

text \<open>After a case that ran: its records, its trace, and what it exports to the cases that follow.\<close>

definition record_case_result :: "batch_world \<Rightarrow> ident \<Rightarrow> nat \<Rightarrow> case_plan \<Rightarrow> case_result \<Rightarrow> batch_state \<Rightarrow>
  bool \<times> batch_state" where
  "record_case_result w rid index p res s =
     (let item = apply_case_result w s res (plan_case_report StatusFailed p) in
      case record_composite w rid None (Case_Records p res) s of
        (Some x, s1) \<Rightarrow> (False, fail_case_persistence w rid index item x s1)
      | (None, s1) \<Rightarrow>
          (case (if bc_Status item = StatusPassed \<and> \<not> blank (bw_workflow w) \<and> \<not> blank (cp_StepID p)
                 then trace_steps w rid (bw_records w (moment s1) None (Trace_Records p res)) None s1 else (None, s1)) of
             (Some _, s2) \<Rightarrow> (False, s2)
           | (None, s2) \<Rightarrow> (case update_case w rid index item s2 of (x, s3) \<Rightarrow> (x = None, s3))))"

definition exported_overrides :: "batch_world \<Rightarrow> case_plan \<Rightarrow> case_result \<Rightarrow> obj \<Rightarrow> batch_state \<Rightarrow> obj" where
  "exported_overrides w p res ov s =
     (if cr_Status res = StatusPassed then merge_maps ov (bw_exports w (moment s) p (cr_EvidencePath res)) else ov)"

text \<open>The path of the case file, the base URL and the overrides, or why the case could not be materialised.\<close>

definition materialize_case :: "batch_world \<Rightarrow> case_plan \<Rightarrow> obj \<Rightarrow> batch_state \<Rightarrow> string + string \<times> string \<times> obj" where
  "materialize_case w p ov s =
     (let merged = merge_maps ov (cp_Overrides p) in
      if \<not> cp_Execution p then Inr (cp_CasePath p, cp_BaseURL p, merged)
      else (case bw_materialize w (moment s) (p\<lparr>cp_Overrides := merged\<rparr>) of
          Inl m \<Rightarrow> Inl m | Inr (path, base) \<Rightarrow> Inr (path, base, [])))"

definition run_batch_case :: "batch_world \<Rightarrow> ident \<Rightarrow> nat \<Rightarrow> case_plan \<Rightarrow> obj \<Rightarrow> batch_state \<Rightarrow> (obj option) \<times> batch_state" where
  "run_batch_case w rid index p ov s =
     (case require_fence w rid s of
        (Some _, s1) \<Rightarrow> (None, s1)
      | (None, s1) \<Rightarrow>
          (case materialize_case w p ov s1 of
             Inl m \<Rightarrow>
               (case record_materialization_failure w rid index p (time_now w s1) m s1 of
                  (go, s2) \<Rightarrow> (if go then Some ov else None, s2))
           | Inr (path, base, merged) \<Rightarrow>
               (case require_fence w rid s1 of
                  (Some _, s2) \<Rightarrow> (None, s2)
                | (None, s2) \<Rightarrow>
                    (case run_api_case w rid path base (cp_EvidenceDir p) (batch_case_run_id rid (cp_StepID p) (cp_ID p)) merged
                        (safe_execution_timeout (cp_TimeoutSeconds p)) s2 of
                       ((res, e), s3) \<Rightarrow>
                         (case e of
                            Some x \<Rightarrow>
                              if blank (cr_RunID res) then
                                (case record_materialization_failure w rid index p (time_now w s2) (bw_error_text w x) s3 of
                                   (go, s4) \<Rightarrow> (if go then Some ov else None, s4))
                              else
                                (let item = apply_case_result w s3 res (plan_case_report StatusFailed p) in
                                 if cr_FailureCategory res = ''evidence-persistence-error''
                                 then (None, fail_case_persistence w rid index item x s3)
                                 else (case update_case w rid index item s3 of (y, s4) \<Rightarrow> (if y = None then Some ov else None, s4)))
                          | None \<Rightarrow>
                              (case record_case_result w rid index p res s3 of
                                 (go, s4) \<Rightarrow> (if go then Some (exported_overrides w p res ov s3) else None, s4)))))))"

text \<open>\<open>finish\<close>: the batch failed if a case failed, and passed otherwise.\<close>

definition final_report :: "batch_world \<Rightarrow> batch_report \<Rightarrow> batch_state \<Rightarrow> batch_report" where
  "final_report w r0 s =
     (let r1 = refresh_counts r0;
          r2 = r1\<lparr>br_Status := (if br_Failed r1 > 0 then StatusFailed else StatusPassed), br_OK := \<not> br_Failed r1 > 0,
            br_FinishedAt := now_text w s\<rparr>
      in if blank (br_WorkflowID r2) then r2 else r2\<lparr>br_Acceptance := bw_acceptance w (moment s) r2\<rparr>)"

text \<open>
  The operations at the end of a batch, each behind a fence of its own but the parent of the workflow, which
  follows the artifacts directly. An error of an operation fails the batch.
\<close>

definition final_composites :: "batch_report \<Rightarrow> (bool \<times> composite) list" where
  "final_composites r =
     [(True, Report_Artifacts)] @
     (if blank (br_WorkflowID r) then [] else [(False, Workflow_Parent), (True, Trace_Copies)]) @
     [(True, Environment_Acceptance)]"

fun run_final_composites :: "batch_world \<Rightarrow> ident \<Rightarrow> batch_report \<Rightarrow> (bool \<times> composite) list \<Rightarrow> batch_state \<Rightarrow>
  bool \<times> batch_state" where
  "run_final_composites w rid r [] s = (True, s)"
| "run_final_composites w rid r ((fence, c) # cs) s =
     (case (if fence then require_fence w rid s else (None, s)) of
        (Some _, s1) \<Rightarrow> (False, s1)
      | (None, s1) \<Rightarrow>
          (case record_composite w rid (Some r) c s1 of
             (Some e, s2) \<Rightarrow> (False, fail_final_persistence w r e s2)
           | (None, s2) \<Rightarrow> run_final_composites w rid r cs s2))"

definition finish_batch :: "batch_world \<Rightarrow> ident \<Rightarrow> batch_state \<Rightarrow> batch_state" where
  "finish_batch w rid s =
     (case get_report rid s of
        None \<Rightarrow> s
      | Some r0 \<Rightarrow>
          (let r = final_report w r0 s in
           case require_fence w rid s of
             (Some _, s1) \<Rightarrow> s1
           | (None, s1) \<Rightarrow>
               (case write_reports w rid r s1 of
                  (Some e, r', s2) \<Rightarrow> give_up w rid e r' s2
                | (None, r', s2) \<Rightarrow>
                    (case run_final_composites w rid r' (final_composites r') s2 of
                       (False, s3) \<Rightarrow> s3
                     | (True, s3) \<Rightarrow>
                         (case checkpoint w r' s3 of
                            (None, s4) \<Rightarrow> save_report r' s4
                          | (Some e, s4) \<Rightarrow>
                              if is_lease_lost e then remove_report rid s4 else abort_persistence w rid e s4)))))"

text \<open>The Boolean tells whether every case was run and reported.\<close>

fun run_cases :: "batch_world \<Rightarrow> ident \<Rightarrow> nat \<Rightarrow> case_plan list \<Rightarrow> obj \<Rightarrow> batch_state \<Rightarrow> bool \<times> batch_state" where
  "run_cases w rid index [] ov s = (True, s)"
| "run_cases w rid index (p # ps) ov s =
     (case run_batch_case w rid index p ov s of
        (None, s1) \<Rightarrow> (False, s1)
      | (Some ov', s1) \<Rightarrow> run_cases w rid (Suc index) ps ov' s1)"

definition run_batch :: "batch_world \<Rightarrow> ident \<Rightarrow> case_plan list \<Rightarrow> batch_state \<Rightarrow> batch_state" where
  "run_batch w rid ps s = (case run_cases w rid 0 ps [] s of (False, s1) \<Rightarrow> s1 | (True, s1) \<Rightarrow> finish_batch w rid s1)"

section \<open>Recovery\<close>

text \<open>
  \<open>storedAPICaseBatchRunReport\<close>: a batch whose owner no longer renews its lease is marked as interrupted by
  the process that is asked for its report. It tries three times.
\<close>

datatype stored_report =
    Report_Found batch_report
  | Report_Missing
  | Report_Failed batch_error
  | Report_Undecodable
  | Owner_Changed_Repeatedly

fun recover_report :: "batch_world \<Rightarrow> ident \<Rightarrow> nat \<Rightarrow> batch_state \<Rightarrow> stored_report \<times> batch_state" where
  "recover_report w rid 0 s = (Owner_Changed_Repeatedly, s)"
| "recover_report w rid (Suc attempts) s =
     (case run_statement w (\<lambda>db. (get_run (bw_dialect w) rid db, db)) s of
        (Inl e, s1) \<Rightarrow> (if e = Store_Failed (Run_Missing rid) then Report_Missing else Report_Failed e, s1)
      | (Inr run, s1) \<Rightarrow>
          (case decode_stored_report (bw_times w) run of
             None \<Rightarrow> (Report_Undecodable, s1)
           | Some r \<Rightarrow>
               if blank (br_BatchRunID r) then (Report_Missing, s1)
               else if br_Status r \<noteq> StatusRunning \<or> lease_active_at (bw_times w) (br_lease r) (time_now w s1)
               then (Report_Found r, s1)
               else
                 (let r' = mark_interrupted_report (now_text w s1) r in
                  case swap_run w run (apply_report_to_run (bw_times w) (time_now w s1) r' run) s1 of
                    (None, s2) \<Rightarrow> (Report_Found r', s2)
                  | (Some e, s2) \<Rightarrow> if e = Lease_Lost then recover_report w rid attempts s2 else (Report_Failed e, s2))))"

definition stored_report_of :: "batch_world \<Rightarrow> ident \<Rightarrow> batch_state \<Rightarrow> stored_report \<times> batch_state" where
  "stored_report_of w bid s =
     (let rid = trim_space bid in
      if rid = [] \<or> \<not> prefix ''batch.'' rid then (Report_Missing, s) else recover_report w rid 3 s)"

end
