(* ===== verification/Batch_Facts.thy ===== *)
theory Batch_Facts
  imports Batch_Runner
begin

text \<open>
  The lease of a batch: what a renewal writes is read back as the same lease with a new time, reports in memory
  stay under the lease they started with, and a renewal that succeeds leaves the row running under it.
\<close>

section \<open>The lease in the text of a row\<close>

definition int64 :: "int \<Rightarrow> bool" where
  "int64 z \<longleftrightarrow> - (2 ^ 63) \<le> z \<and> z < 2 ^ 63"

lemma atoi_int64: "atoi s = Some z \<Longrightarrow> int64 z"
  by (auto simp: atoi_def int64_def Let_def split: if_splits)

lemma string_of_nat_start: "\<exists>d r. string_of_nat n = d # r \<and> (d = CHR ''0'' \<longrightarrow> r = [])"
proof (induction n rule: string_of_nat.induct)
  case (1 n)
  show ?case
  proof (cases "n < 10")
    case True
    then show ?thesis by (subst string_of_nat.simps) simp
  next
    case False
    then have "n div 10 \<noteq> 0" by linarith
    obtain d r where dr: "string_of_nat (n div 10) = d # r" "d = CHR ''0'' \<longrightarrow> r = []" using 1 False by blast
    have "d \<noteq> CHR ''0''"
    proof
      assume "d = CHR ''0''"
      then have "string_of_nat (n div 10) = ''0''" using dr by simp
      then have "n div 10 = nat_of_digits ''0''" using nat_of_digits_string_of_nat [of "n div 10"] by simp
      then show False using \<open>n div 10 \<noteq> 0\<close> by (simp add: nat_of_digits_def)
    qed
    then show ?thesis using dr False by (subst string_of_nat.simps) simp
  qed
qed

lemma valid_num_string_of_nat: "valid_num (string_of_nat n)" "valid_num (CHR ''-'' # string_of_nat n)"
proof -
  obtain d r where dr: "string_of_nat n = d # r" "d = CHR ''0'' \<longrightarrow> r = []" using string_of_nat_start by blast
  have ds: "is_digit d" "\<forall>c \<in> set r. is_digit c" using string_of_nat_digits [of n] dr by auto
  have "dropWhile is_digit r = []" using ds by simp
  then have "valid_frac (dropWhile is_digit r)" by (simp only: valid_frac_def list.case)
  moreover have "valid_frac []" by (simp add: valid_frac_def)
  moreover have "d \<noteq> CHR ''-''" using ds by (auto simp: is_digit_def)
  ultimately show "valid_num (string_of_nat n)" "valid_num (CHR ''-'' # string_of_nat n)"
    using dr ds by (auto simp: valid_num_def)
qed

lemma jint_wf [simp]: "json_ok (jint z)"
proof -
  have "list_all is_num_char (string_of_nat n)" for n
    using string_of_nat_digits [of n] by (auto simp: list_all_iff is_num_char_def)
  then show ?thesis by (auto simp: jint_def valid_num_string_of_nat is_num_char_def)
qed

lemma canon_jint [simp]: "canon (jint z) = jint z"
  by (simp add: jint_def)

lemma json_int_jint: "int64 z \<Longrightarrow> json_int (jint z) = Some z"
proof -
  assume z: "int64 z"
  obtain d r where dr: "string_of_nat (nat (if z < 0 then - z else z)) = d # r" using string_of_nat_start by blast
  have ds: "list_all is_digit (d # r)" using string_of_nat_digits [of "nat (if z < 0 then - z else z)"] dr by (auto simp: list_all_iff)
  then have "d \<noteq> CHR ''-''" "d \<noteq> CHR ''+''" by (auto simp: is_digit_def)
  moreover have "int (nat_of_digits (d # r)) = (if z < 0 then - z else z)" using dr [symmetric] by simp
  ultimately show ?thesis using z dr ds
    by (auto simp: json_int_def jint_def atoi_def int64_def Let_def split: if_splits)
qed

lemma json_unmarshal_Nil [simp]: "json_unmarshal [] = None"
  by (simp add: json_unmarshal_def)

lemma normalized_object:
  assumes "json_unmarshal (trim_space (normalize_json_text raw)) = Some (JObj kvs)"
  shows "normalize_json_text raw = obj_text kvs \<and> json_wf (JObj kvs)"
proof (cases "json_unmarshal (trim_space raw)")
  case None
  then have "normalize_json_text raw = trim_space raw" by (simp add: normalize_json_text_def Let_def)
  then show ?thesis using None assms by simp
next
  case (Some v)
  then have ne: "trim_space raw \<noteq> []" by auto
  then have n: "normalize_json_text raw = json_marshal v" using Some by (simp add: normalize_json_text_def Let_def)
  have wf: "json_wf v" using Some by (rule json_unmarshal_wf)
  have "trim_space (json_marshal v) = json_marshal v"
    using json_marshal_ends [OF wf] by (intro trim_space_trimmed) blast
  then have "v = JObj kvs" using assms n json_unmarshal_marshal [OF wf] by simp
  then show ?thesis using n wf by (simp add: obj_text_def)
qed

text \<open>The member that is put is the last of those that are spelled like it up to case.\<close>

lemma le_to_lower: "(x :: string) \<le> to_lower x"
proof (induction x)
  case (Cons c x)
  have "c \<le> to_lower_char c" by (auto simp: to_lower_char_def less_eq_char_def Let_def)
  then show ?case using Cons by (auto simp: to_lower_def)
qed simp

lemma fold_put_last:
  assumes "to_lower k = k"
  shows "obj_wf kvs \<Longrightarrow> filter (\<lambda>kv. equal_fold (fst kv) k) (obj_put k v kvs) =
    filter (\<lambda>kv. equal_fold (fst kv) k \<and> fst kv \<noteq> k) kvs @ [(k, v)]"
proof (induction kvs)
  case (Cons kv kvs)
  obtain k' v' where kv: "kv = (k', v')" by fastforce
  have above: "\<not> equal_fold x k" if "k < x" for x
    using le_to_lower [of x] that assms by (auto simp: equal_fold_def)
  have wf: "obj_wf kvs" and larger: "\<forall>x \<in> set kvs. k' < fst x" using Cons.prems kv by (auto simp: obj_wf_def)
  have none: "filter (\<lambda>kv. equal_fold (fst kv) k) kvs = []" "filter (\<lambda>kv. equal_fold (fst kv) k \<and> fst kv \<noteq> k) kvs = []" if "k \<le> k'"
    using larger that above by (fastforce simp: filter_empty_conv)+
  consider "k = k'" | "k < k'" | "k' < k" by (metis linorder_neqE)
  then show ?case
  proof cases
    case 3
    then show ?thesis using Cons.IH [OF wf] kv by auto
  qed (use none above kv in \<open>auto simp: equal_fold_def\<close>)
qed (simp add: equal_fold_def)

lemma decode_field_filter:
  "decode_field dec cl d k kvs = fold (\<lambda>kv acc. if snd kv = JNull then (if cl then map_option (\<lambda>_. d) acc else acc)
     else Option.bind acc (\<lambda>_. dec (snd kv))) (filter (\<lambda>kv. equal_fold (fst kv) k) kvs) (Some d)"
proof -
  have "fold (\<lambda>(k', v) acc. if \<not> equal_fold k' k then acc else if v = JNull then (if cl then map_option (\<lambda>_. d) acc else acc)
     else Option.bind acc (\<lambda>_. dec v)) kvs acc = fold (\<lambda>kv acc. if snd kv = JNull then (if cl then map_option (\<lambda>_. d) acc else acc)
     else Option.bind acc (\<lambda>_. dec (snd kv))) (filter (\<lambda>kv. equal_fold (fst kv) k) kvs) acc" for acc
    by (induction kvs arbitrary: acc) (auto split: prod.split)
  then show ?thesis by (simp add: decode_field_def)
qed

lemma fold_bind_None: "fold (\<lambda>kv acc. if snd kv = JNull then (if cl then map_option (\<lambda>_. d) acc else acc)
     else Option.bind acc (\<lambda>_. dec (snd kv))) kvs None = None"
  by (induction kvs) auto

lemma fold_bind_Some:
  "fold (\<lambda>kv acc. if snd kv = JNull then (if cl then map_option (\<lambda>_. d) acc else acc)
     else Option.bind acc (\<lambda>_. dec (snd kv))) kvs (Some a) \<noteq> None \<longleftrightarrow>
   (\<forall>kv \<in> set kvs. snd kv = JNull \<or> dec (snd kv) \<noteq> None)"
proof (induction kvs arbitrary: a)
  case (Cons kv kvs)
  show ?case
  proof (cases "snd kv = JNull")
    case False
    then show ?thesis using Cons by (cases "dec (snd kv)") (simp_all add: fold_bind_None)
  qed (use Cons in simp)
qed simp

lemma decode_field_put:
  assumes "decode_field dec cl d k kvs \<noteq> None" "obj_wf kvs" "to_lower k = k" "v \<noteq> JNull"
  shows "decode_field dec cl d k (obj_put k v kvs) = dec v"
proof -
  let ?f = "\<lambda>kv acc. if snd kv = JNull then (if cl then map_option (\<lambda>_. d) acc else acc) else Option.bind acc (\<lambda>_. dec (snd kv))"
  have "fold ?f (filter (\<lambda>kv. equal_fold (fst kv) k \<and> fst kv \<noteq> k) kvs) (Some d) \<noteq> None"
    using assms(1) unfolding decode_field_filter fold_bind_Some by auto
  then show ?thesis using assms(2-4) by (auto simp: decode_field_filter fold_put_last)
qed

lemma lease_json_ok: "json_ok (lease_json l)"
  by (simp add: lease_json_def)

lemma canon_lease_json: "canon (lease_json l) = JObj [(''holderIdentity'', JStr (bl_HolderIdentity l)),
  (''leaseDurationMillis'', jint (bl_LeaseDurationMillis l)), (''renewTime'', JStr (bl_RenewTime l)), (''token'', JStr (bl_Token l))]"
  by (simp add: lease_json_def obj_of_def)

lemma jint_not_null [simp]: "jint z \<noteq> JNull"
  by (simp add: jint_def)

lemma lease_fold [simp]:
  "equal_fold ''holderIdentity'' ''holderIdentity''" "\<not> equal_fold ''holderIdentity'' ''token''"
  "\<not> equal_fold ''holderIdentity'' ''renewTime''" "\<not> equal_fold ''holderIdentity'' ''leaseDurationMillis''"
  "\<not> equal_fold ''token'' ''holderIdentity''" "equal_fold ''token'' ''token''"
  "\<not> equal_fold ''token'' ''renewTime''" "\<not> equal_fold ''token'' ''leaseDurationMillis''"
  "\<not> equal_fold ''renewTime'' ''holderIdentity''" "\<not> equal_fold ''renewTime'' ''token''"
  "equal_fold ''renewTime'' ''renewTime''" "\<not> equal_fold ''renewTime'' ''leaseDurationMillis''"
  "\<not> equal_fold ''leaseDurationMillis'' ''holderIdentity''" "\<not> equal_fold ''leaseDurationMillis'' ''token''"
  "\<not> equal_fold ''leaseDurationMillis'' ''renewTime''" "equal_fold ''leaseDurationMillis'' ''leaseDurationMillis''"
  by code_simp+

lemma lease_of_canon:
  "int64 (bl_LeaseDurationMillis l) \<Longrightarrow> Option.bind (json_obj (canon (lease_json l))) lease_of_obj = Some l"
  by (simp add: canon_lease_json json_obj_def lease_of_obj_def decode_field_def json_text_def json_int_jint)

lemma canon_put: 
  assumes "json_wf (JObj kvs)"
  shows "canon (JObj (obj_put k v kvs)) = JObj (obj_put k (canon v) kvs)"
proof -
  have "map (\<lambda>kv. (fst kv, canon (snd kv))) (obj_put k v xs) = obj_put k (canon v) xs" if "\<forall>kv \<in> set xs. json_wf (snd kv)" for xs
  proof -
    have unchanged: "map (\<lambda>kv. (fst kv, canon (snd kv))) ys = ys" if "\<forall>kv \<in> set ys. json_wf (snd kv)" for ys
      using that by (intro map_idI) (auto simp: prod_eq_iff)
    show ?thesis using that by (induction xs) (auto simp: unchanged)
  qed
  then have "map (\<lambda>kv. (fst kv, canon (snd kv))) (obj_put k v kvs) = obj_put k (canon v) kvs" using assms by simp
  then show ?thesis using assms by (simp add: obj_of_wf)
qed

lemma json_ok_obj_put: "json_wf (JObj kvs) \<Longrightarrow> json_ok v \<Longrightarrow> json_ok (JObj (obj_put k v kvs))"
  by (auto dest!: in_obj_put json_wf_ok)

lemma trim_obj_text [simp]: "trim_space (obj_text kvs) = obj_text kvs"
  by (intro trim_space_trimmed) (simp add: obj_text_def is_space_def)

lemma decode_lease_obj_text:
  "json_ok (JObj kvs) \<Longrightarrow> canon (JObj kvs) = JObj kvs' \<Longrightarrow> decode_lease (obj_text kvs) =
     decode_field (\<lambda>w. Option.bind (json_obj w) lease_of_obj) False no_lease ''_lease'' kvs'"
proof -
  assume "json_ok (JObj kvs)" "canon (JObj kvs) = JObj kvs'"
  then have "json_unmarshal (obj_text kvs) = Some (JObj kvs')" unfolding obj_text_def by (metis json_unmarshal_marshal_canon)
  then show ?thesis by (simp add: decode_lease_def) (simp add: json_obj_def)
qed

lemma decode_lease_put:
  assumes "json_wf (JObj kvs)" "decode_lease (obj_text kvs) = Some l" "int64 (bl_LeaseDurationMillis l')"
  shows "decode_lease (obj_text (obj_put ''_lease'' (lease_json l') kvs)) = Some l'"
proof -
  let ?dec = "\<lambda>w. Option.bind (json_obj w) lease_of_obj"
  have "decode_field ?dec False no_lease ''_lease'' kvs = Some l"
    using assms(1,2) decode_lease_obj_text [of kvs kvs] json_wf_ok json_wf_canon by metis
  moreover have "to_lower ''_lease'' = ''_lease''" by code_simp
  moreover have "canon (lease_json l') \<noteq> JNull" by (simp add: canon_lease_json)
  ultimately have "decode_field ?dec False no_lease ''_lease'' (obj_put ''_lease'' (canon (lease_json l')) kvs) = Some l'"
    using assms(1) lease_of_canon [OF assms(3)] by (subst decode_field_put) simp_all
  then show ?thesis
    using decode_lease_obj_text [OF json_ok_obj_put [OF assms(1) lease_json_ok] canon_put [OF assms(1)]] by simp
qed

text \<open>A duration that was read fits its type.\<close>

lemma decode_field_sound:
  assumes "decode_field dec cl d k kvs = Some a" "P d" "\<And>v b. dec v = Some b \<Longrightarrow> P b"
  shows "P a"
proof -
  have "fold (\<lambda>kv acc. if snd kv = JNull then (if cl then map_option (\<lambda>_. d) acc else acc)
     else Option.bind acc (\<lambda>_. dec (snd kv))) xs (Some b) = Some a \<Longrightarrow> P b \<Longrightarrow> P a" for xs b
  proof (induction xs arbitrary: b)
    case (Cons kv xs)
    show ?case
    proof (cases "snd kv = JNull")
      case True
      then show ?thesis using Cons assms(2) by (auto split: if_splits)
    next
      case False
      then show ?thesis using Cons assms(3) by (cases "dec (snd kv)") (auto simp: fold_bind_None)
    qed
  qed simp
  then show ?thesis using assms(1,2) by (auto simp: decode_field_filter)
qed

lemma json_int_int64: "json_int v = Some z \<Longrightarrow> int64 z"
  by (auto simp: json_int_def int64_def [of 0] dest: atoi_int64 split: json.splits if_splits)

lemma decode_lease_int64: "decode_lease raw = Some l \<Longrightarrow> int64 (bl_LeaseDurationMillis l)"
proof -
  assume "decode_lease raw = Some l"
  then obtain kvs where d: "decode_field (\<lambda>w. Option.bind (json_obj w) lease_of_obj) False no_lease ''_lease'' kvs = Some l"
    by (auto simp: decode_lease_def bind_eq_Some_conv)
  have "int64 (bl_LeaseDurationMillis l')" if "Option.bind (json_obj w) lease_of_obj = Some l'" for w l'
    using that by (auto simp: lease_of_obj_def bind_eq_Some_conv int64_def [of 0]
        elim!: decode_field_sound [where P = int64] dest: json_int_int64)
  then show ?thesis using decode_field_sound [OF d, where P = "\<lambda>l. int64 (bl_LeaseDurationMillis l)"]
    by (simp add: no_lease_def int64_def)
qed

text \<open>What the renewal of a lease writes decodes to the renewed lease.\<close>

lemma renewed_lease_text:
  assumes "decode_lease (normalize_json_text raw) = Some l" "\<not> blank (bl_HolderIdentity l)"
    and "unmarshal_map (normalize_json_text raw) = Some kvs"
  shows "decode_lease (obj_text (obj_put ''_lease'' (lease_json (l\<lparr>bl_RenewTime := t\<rparr>)) kvs)) = Some (l\<lparr>bl_RenewTime := t\<rparr>)"
proof -
  obtain v kvs0 where v: "json_unmarshal (trim_space (normalize_json_text raw)) = Some v" "json_obj v = Some kvs0"
    and dec: "decode_field (\<lambda>w. Option.bind (json_obj w) lease_of_obj) False no_lease ''_lease'' kvs0 = Some l"
    using assms(1) by (auto simp: decode_lease_def bind_eq_Some_conv)
  have "kvs0 \<noteq> []" using dec assms(2) by (auto simp: decode_field_def no_lease_def)
  then have "v = JObj kvs0" using v by (auto simp: json_obj_def split: json.splits)
  then have n: "normalize_json_text raw = obj_text kvs0" "json_wf (JObj kvs0)" using normalized_object v by auto
  then have "kvs = kvs0" using assms(3) unmarshal_map_obj_text by simp
  then show ?thesis using n assms(1) decode_lease_int64 [OF assms(1)] by (intro decode_lease_put) simp_all
qed

section \<open>Ownership\<close>

definition own_lease :: "batch_world \<Rightarrow> batch_lease \<Rightarrow> bool" where
  "own_lease w l \<longleftrightarrow> bl_HolderIdentity l = bw_owner w \<and> bl_Token l = bw_token w"

definition own_report :: "batch_world \<Rightarrow> ident \<Rightarrow> batch_report \<Rightarrow> bool" where
  "own_report w rid r \<longleftrightarrow> br_BatchRunID r = rid \<and> own_lease w (br_lease r)"

definition own_runs :: "batch_world \<Rightarrow> ident \<Rightarrow> batch_state \<Rightarrow> bool" where
  "own_runs w rid s \<longleftrightarrow> (\<forall>r. bt_runs s rid = Some r \<longrightarrow> own_report w rid r)"

text \<open>The row of a batch that runs under the lease of this process.\<close>

definition row_held :: "batch_world \<Rightarrow> stored_run option \<Rightarrow> bool" where
  "row_held w row \<longleftrightarrow> (case row of None \<Rightarrow> False
     | Some r \<Rightarrow> xr_Status r = StatusRunning \<and> (case decode_lease (xr_SummaryJSON r) of None \<Rightarrow> False | Some l \<Rightarrow> own_lease w l))"

lemma own_lease_same: "own_lease w l \<Longrightarrow> same_owner l l' \<Longrightarrow> own_lease w l'"
  by (simp add: own_lease_def same_owner_def)

lemma own_lease_same_renewed: "own_lease w l \<Longrightarrow> same_owner l (l'\<lparr>bl_RenewTime := t\<rparr>) \<Longrightarrow> own_lease w l'"
  by (simp add: own_lease_def same_owner_def)

lemma own_lease_renewed [simp]: "own_lease w (l\<lparr>bl_RenewTime := t\<rparr>) \<longleftrightarrow> own_lease w l"
  by (simp add: own_lease_def)

lemma report_identity [simp]:
  "br_BatchRunID (refresh_counts r) = br_BatchRunID r" "br_lease (refresh_counts r) = br_lease r"
  "br_BatchRunID (append_error m r) = br_BatchRunID r" "br_lease (append_error m r) = br_lease r"
  "br_BatchRunID (clone_report r) = br_BatchRunID r" "br_lease (clone_report r) = br_lease r"
  "br_BatchRunID (mark_persistence_failed c t r) = br_BatchRunID r" "br_lease (mark_persistence_failed c t r) = br_lease r"
  "br_BatchRunID (final_report w r s) = br_BatchRunID r" "br_lease (final_report w r s) = br_lease r"
proof -
  have counted: "br_BatchRunID (fold count_case cs r) = br_BatchRunID r \<and> br_lease (fold count_case cs r) = br_lease r" for cs r
    by (induction cs arbitrary: r) (simp_all add: Let_def)
  then show c: "br_BatchRunID (refresh_counts r) = br_BatchRunID r" "br_lease (refresh_counts r) = br_lease r" for r
    by (simp_all add: refresh_counts_def)
  show a: "br_BatchRunID (append_error m r) = br_BatchRunID r" "br_lease (append_error m r) = br_lease r" for m r
    by (simp_all add: append_error_def Let_def)
  show "br_BatchRunID (clone_report r) = br_BatchRunID r" "br_lease (clone_report r) = br_lease r"
    by (simp_all add: clone_report_def)
  show "br_BatchRunID (mark_persistence_failed c t r) = br_BatchRunID r" "br_lease (mark_persistence_failed c t r) = br_lease r"
    by (simp_all add: mark_persistence_failed_def Let_def c a)
  show "br_BatchRunID (final_report w r s) = br_BatchRunID r" "br_lease (final_report w r s) = br_lease r"
    by (simp_all add: final_report_def Let_def c)
qed

lemma own_report_simps [simp]:
  "own_report w rid (refresh_counts r) \<longleftrightarrow> own_report w rid r" "own_report w rid (append_error m r) \<longleftrightarrow> own_report w rid r"
  "own_report w rid (clone_report r) \<longleftrightarrow> own_report w rid r" "own_report w rid (final_report w r s) \<longleftrightarrow> own_report w rid r"
  "own_report w rid (mark_persistence_failed c t r) \<longleftrightarrow> own_report w rid r"
  "own_report w rid (r\<lparr>br_Cases := cs\<rparr>) \<longleftrightarrow> own_report w rid r"
  "own_report w rid (r\<lparr>br_OK := a, br_Status := b, br_FailureCategory := c\<rparr>) \<longleftrightarrow> own_report w rid r"
  by (simp_all add: own_report_def)

section \<open>Statements\<close>

lemma run_statement_keeps [simp]:
  "run_statement w stmt s = (res, s') \<Longrightarrow> bt_runs s' = bt_runs s \<and> bt_log s' = bt_log s"
  by (auto simp: run_statement_def Let_def split: option.splits outage.splits)

lemma run_statement_db:
  assumes "run_statement w stmt s = (res, s')"
  obtains (skipped) "bt_db s' = bw_commits w (bt_step s) (bt_db s)" "\<And>a. res \<noteq> Inr a"
  | (applied) r where "stmt (bw_commits w (bt_step s) (bt_db s)) = (r, bt_db s')" "\<And>a. res = Inr a \<Longrightarrow> r = Inr a"
  using assms
  by (cases "bw_outage w (bt_step s)"; cases "stmt (bw_commits w (bt_step s) (bt_db s))")
     (auto simp: run_statement_def Let_def map_sum_def split: outage.splits sum.splits)

lemma swap_run_keeps: "swap_run w a b s = (e, s') \<Longrightarrow> bt_runs s' = bt_runs s \<and> bt_log s' = bt_log s"
  by (auto simp: swap_run_def split: prod.splits sum.splits dest!: run_statement_keeps)

lemma checkpoint_run_keeps: "checkpoint_run w r s = (e, s') \<Longrightarrow> bt_runs s' = bt_runs s \<and> bt_log s' = bt_log s"
  by (auto simp: checkpoint_run_def split: prod.splits sum.splits option.splits if_splits dest!: run_statement_keeps swap_run_keeps)

lemma update_lease_keeps [simp]: "bt_db (update_lease rid l s) = bt_db s" "bt_log (update_lease rid l s) = bt_log s"
  by (simp_all add: update_lease_def split: option.split)

lemma renew_lease_log: "renew_lease w rid s = (e, s') \<Longrightarrow> bt_log s' = bt_log s"
  by (auto simp: renew_lease_def Let_def split: prod.splits sum.splits option.splits if_splits
      dest!: run_statement_keeps swap_run_keeps)

text \<open>A renewal: it fails before the row is written, or it swaps the row that it read.\<close>

lemma renew_lease_cases:
  assumes "renew_lease w rid s = (e, s')"
  obtains (unchanged) "s' = s" "e \<noteq> None"
  | (read) s1 cur where "run_statement w (\<lambda>db. (get_run (bw_dialect w) rid db, db)) s = (cur, s1)" "s' = s1" "e \<noteq> None"
  | (swapped) report current s1 l kvs s2 where
      "bt_runs s rid = Some report"
      "run_statement w (\<lambda>db. (get_run (bw_dialect w) rid db, db)) s = (Inr current, s1)"
      "decode_lease (xr_SummaryJSON current) = Some l" "unmarshal_map (xr_SummaryJSON current) = Some kvs"
      "xr_Status current = StatusRunning" "same_owner (br_lease report) l"
      "swap_run w current (current\<lparr>xr_SummaryJSON := obj_text (obj_put ''_lease'' (lease_json (l\<lparr>bl_RenewTime := now_text w s1\<rparr>)) kvs)\<rparr>) s1 = (e, s2)"
      "s' = (if e = None then update_lease rid (l\<lparr>bl_RenewTime := now_text w s1\<rparr>) s2 else s2)"
proof (cases "bt_runs s rid")
  case None
  then show ?thesis using assms unchanged by (auto simp: renew_lease_def get_report_def)
next
  case (Some report)
  obtain cur s1 where st: "run_statement w (\<lambda>db. (get_run (bw_dialect w) rid db, db)) s = (cur, s1)" by fastforce
  show ?thesis
  proof (cases cur)
    case (Inl x)
    then show ?thesis using assms Some st read by (auto simp: renew_lease_def get_report_def)
  next
    case (Inr current)
    show ?thesis
    proof (cases "\<exists>l kvs. decode_lease (xr_SummaryJSON current) = Some l \<and> unmarshal_map (xr_SummaryJSON current) = Some kvs \<and>
        xr_Status current = StatusRunning \<and> same_owner (br_lease report) l")
      case False
      then show ?thesis using assms Some st Inr read [OF st]
        by (auto simp: renew_lease_def get_report_def split: option.splits if_splits)
    next
      case True
      then obtain l kvs where l: "decode_lease (xr_SummaryJSON current) = Some l" "unmarshal_map (xr_SummaryJSON current) = Some kvs"
        "xr_Status current = StatusRunning" "same_owner (br_lease report) l" by blast
      obtain e2 s2 where sw: "swap_run w current (current\<lparr>xr_SummaryJSON := obj_text (obj_put ''_lease'' (lease_json (l\<lparr>bl_RenewTime := now_text w s1\<rparr>)) kvs)\<rparr>) s1 = (e2, s2)"
        by fastforce
      then have "e = e2 \<and> s' = (if e2 = None then update_lease rid (l\<lparr>bl_RenewTime := now_text w s1\<rparr>) s2 else s2)"
        using assms Some st Inr l by (auto simp: renew_lease_def get_report_def Let_def split: option.splits)
      then show ?thesis using swapped [OF Some _ l] st Inr sw by blast
    qed
  qed
qed

lemma update_lease_runs: "bt_runs (update_lease rid l s) rid =
    (case bt_runs s rid of None \<Rightarrow> None | Some r \<Rightarrow> Some (if same_owner (br_lease r) l then r\<lparr>br_lease := l\<rparr> else r))"
  by (simp add: update_lease_def split: option.split)

lemma renew_lease_own: "own_runs w rid s \<Longrightarrow> renew_lease w rid s = (e, s') \<Longrightarrow> own_runs w rid s'"
proof (erule renew_lease_cases)
  fix s1 cur
  assume "own_runs w rid s" "run_statement w (\<lambda>db. (get_run (bw_dialect w) rid db, db)) s = (cur, s1)" "s' = s1"
  then show "own_runs w rid s'" by (auto simp: own_runs_def dest!: run_statement_keeps)
next
  fix report current s1 l kvs s2
  assume own: "own_runs w rid s"
    and rs: "run_statement w (\<lambda>db. (get_run (bw_dialect w) rid db, db)) s = (Inr current, s1)"
    and sw: "swap_run w current (current\<lparr>xr_SummaryJSON := obj_text (obj_put ''_lease'' (lease_json (l\<lparr>bl_RenewTime := now_text w s1\<rparr>)) kvs)\<rparr>) s1 = (e, s2)"
    and s': "s' = (if e = None then update_lease rid (l\<lparr>bl_RenewTime := now_text w s1\<rparr>) s2 else s2)"
  have "bt_runs s2 = bt_runs s" using run_statement_keeps [OF rs] swap_run_keeps [OF sw] by simp
  then show "own_runs w rid s'" using own s'
    by (auto simp: own_runs_def update_lease_runs own_report_def split: option.splits dest: own_lease_same_renewed)
qed simp

lemma swap_run_row:
  assumes "swap_run w (current :: stored_run) u s = (None, s')" "xr_ID u = rid" "xr_SummaryJSON u = obj_text kvs"
  shows "\<exists>r. bt_db s' rid = Some r \<and> xr_Status r = xr_Status u \<and> xr_SummaryJSON r = obj_text kvs"
proof -
  let ?u = "u\<lparr>xr_UpdatedAt := next_revision (xr_UpdatedAt current) (time_now w s)\<rparr>"
  obtain a where st: "run_statement w (compare_and_swap_run (bw_dialect w) (time_now w s) (xr_UpdatedAt current) StatusRunning ?u) s = (Inr a, s')"
    using assms(1) by (auto simp: swap_run_def split: prod.splits sum.splits)
  from st show ?thesis
  proof (cases rule: run_statement_db)
    case (applied r)
    then have r: "compare_and_swap_run (bw_dialect w) (time_now w s) (xr_UpdatedAt current) StatusRunning ?u
        (bw_commits w (bt_step s) (bt_db s)) = (Inr a, bt_db s')" by auto
    then show ?thesis using assms(2,3) by (auto dest!: swap_result simp: prepare_run_texts_def string_default_def)
  qed auto
qed

text \<open>After a renewal the row runs under the lease of this process.\<close>

lemma renewed_row_held:
  assumes "own_runs w rid s" "renew_lease w rid s = (None, s')"
  shows "row_held w (bt_db s' rid)"
  using assms(2)
proof (cases rule: renew_lease_cases)
  case (swapped report current s1 l kvs s2)
  have own: "own_lease w l" "\<not> blank (bl_HolderIdentity l)"
    using assms(1) swapped(1,6) by (auto simp: own_runs_def own_report_def same_owner_def intro: own_lease_same)
  obtain r0 where r0: "current = (scan_run (bw_dialect w) r0)\<lparr>xr_ID := rid\<rparr>"
    using swapped(2)
  proof (cases rule: run_statement_db)
    case (applied r)
    then show ?thesis using that by (auto simp: get_run_def split: option.splits)
  qed auto
  then have raw: "xr_SummaryJSON current = normalize_json_text (xr_SummaryJSON r0)" and cid: "xr_ID current = rid"
    by (simp_all add: scan_run_def)
  have dec: "decode_lease (obj_text (obj_put ''_lease'' (lease_json (l\<lparr>bl_RenewTime := now_text w s1\<rparr>)) kvs)) = Some (l\<lparr>bl_RenewTime := now_text w s1\<rparr>)"
    using renewed_lease_text [of "xr_SummaryJSON r0" l kvs] swapped(3,4) own(2) raw by simp
  obtain r where "bt_db s2 rid = Some r" "xr_Status r = xr_Status current"
    "xr_SummaryJSON r = obj_text (obj_put ''_lease'' (lease_json (l\<lparr>bl_RenewTime := now_text w s1\<rparr>)) kvs)"
    using swap_run_row [OF swapped(7)] cid by auto
  then show ?thesis using swapped(5,8) dec own by (simp add: row_held_def)
qed simp_all

end
