(* ===== verification/Batch_Monitor.thy ===== *)
theory Batch_Monitor
  imports Batch_Facts
begin

text \<open>
  The locale \<open>batch_monitor\<close> carries a property of the table of runs and of the log of effects through every
  function of the batch runner. It is interpreted twice: every effect happens under the lease, and rows only move forward.
\<close>

section \<open>The monitor\<close>

text \<open>A request waits for at most ten minutes.\<close>

definition bounded_effect :: "batch_effect \<Rightarrow> bool" where
  "bounded_effect e \<longleftrightarrow> (case e of Request_Sent _ t \<Rightarrow> 1 \<le> t \<and> t \<le> 600 | _ \<Rightarrow> True)"

lemma bounded_effect_simps [simp]:
  "bounded_effect (File_Written p)" "bounded_effect (Report_Written k)" "bounded_effect (Record_Stored st)"
  "bounded_effect (Request_Sent rid (safe_execution_timeout t))"
  by (simp_all add: bounded_effect_def safe_execution_timeout_def normalized_timeout_def DefaultTimeoutSeconds_def MaxTimeoutSeconds_def)

locale batch_monitor =
  fixes w :: batch_world and rid :: ident and I :: "run_db \<Rightarrow> batch_event list \<Rightarrow> bool" and F :: "stored_run option \<Rightarrow> bool"
  assumes renewed: "own_runs w rid s \<Longrightarrow> I (bt_db s) (bt_log s) \<Longrightarrow> renew_lease w rid s = (e, s') \<Longrightarrow>
      I (bt_db s') (bt_log s') \<and> (e = None \<longrightarrow> F (bt_db s' rid))"
    and checkpointed: "own_report w rid r \<Longrightarrow> I (bt_db s) (bt_log s) \<Longrightarrow> checkpoint_run w r s = (e, s') \<Longrightarrow> I (bt_db s') (bt_log s')"
    and recorded: "I (bt_db s) (bt_log s) \<Longrightarrow> run_statement w (record_step t st) s = (res, s') \<Longrightarrow> I (bt_db s') (bt_log s')"
    and logged: "I db l \<Longrightarrow> F (db rid) \<Longrightarrow> bounded_effect eff \<Longrightarrow> I db (\<lparr>be_effect = eff, be_row = db rid\<rparr> # l)"
begin

definition inv :: "batch_state \<Rightarrow> bool" where
  "inv s \<longleftrightarrow> own_runs w rid s \<and> I (bt_db s) (bt_log s)"

abbreviation fenced :: "batch_state \<Rightarrow> bool" where
  "fenced s \<equiv> F (bt_db s rid)"

lemma inv_save [simp]: "inv s \<Longrightarrow> own_report w rid r \<Longrightarrow> inv (save_report r s)"
  by (auto simp: inv_def save_report_def own_runs_def own_report_def)

lemma inv_remove [simp]: "inv s \<Longrightarrow> inv (remove_report rid s)"
  by (simp add: inv_def remove_report_def own_runs_def)

lemma inv_log [simp]: "inv s \<Longrightarrow> fenced s \<Longrightarrow> bounded_effect e \<Longrightarrow> inv (log_effect rid e s)"
  by (simp add: inv_def log_effect_def own_runs_def logged)

lemma log_effect_db [simp]: "bt_db (log_effect rid e s) = bt_db s"
  by (simp add: log_effect_def)

lemma inv_get: "inv s \<Longrightarrow> get_report rid s = Some r \<Longrightarrow> own_report w rid r"
  by (auto simp: inv_def get_report_def own_runs_def own_report_def)

lemma inv_renew: "inv s \<Longrightarrow> renew_lease w rid s = (e, s') \<Longrightarrow> inv s' \<and> (e = None \<longrightarrow> fenced s')"
  using renewed renew_lease_own by (auto simp: inv_def)

lemma inv_heartbeat: "inv s \<Longrightarrow> inv (heartbeat w rid s)"
  by (auto simp: heartbeat_def dest: inv_renew split: option.split prod.split)

lemma inv_failure_report: "inv s \<Longrightarrow> persistence_failure_report w rid e s = Some r \<Longrightarrow> own_report w rid r"
  by (auto simp: persistence_failure_report_def dest: inv_get)

lemma inv_mark_failure: "inv s \<Longrightarrow> inv (mark_persistence_failure w rid e s)"
  using inv_failure_report [of s e] by (auto simp: mark_persistence_failure_def split: option.split)

lemma inv_fence:
  assumes "inv s" "require_fence w rid s = (e, s')"
  shows "inv s' \<and> (e = None \<longrightarrow> fenced s')"
proof -
  obtain e1 s1 where "renew_lease w rid (heartbeat w rid s) = (e1, s1)" by fastforce
  then show ?thesis using assms inv_renew [OF inv_heartbeat [OF assms(1)]]
    by (cases e1) (auto simp: require_fence_def intro: inv_mark_failure)
qed

lemma inv_checkpoint:
  assumes "inv s" "own_report w rid r" "checkpoint w r s = (e, s')"
  shows "inv s'"
proof -
  have h: "inv (heartbeat w rid s)" using assms(1) by (rule inv_heartbeat)
  have c: "checkpoint_run w r (heartbeat w rid s) = (e, s')" using assms(2,3) by (simp add: checkpoint_def own_report_def)
  show ?thesis using h checkpointed [OF assms(2) _ c] checkpoint_run_keeps [OF c] by (simp add: inv_def own_runs_def)
qed

lemma inv_write_reports:
  assumes "inv s" "own_report w rid r" "write_reports w rid r s = (e, r', s')"
  shows "inv s' \<and> own_report w rid r'"
proof -
  have "write_reports_loop w rid ks fs r s = (e, r', s') \<Longrightarrow> inv s \<Longrightarrow> own_report w rid r \<Longrightarrow> inv s' \<and> own_report w rid r'" for ks fs
  proof (induction ks arbitrary: fs r s)
    case (Cons k ks)
    obtain e1 s1 where f: "require_fence w rid s = (e1, s1)" by fastforce
    note i1 = inv_fence [OF Cons.prems(2) f]
    show ?case
    proof (cases e1)
      case (Some x)
      then show ?thesis using Cons.prems f i1 by auto
    next
      case None
      then have i2: "inv (log_effect rid (Report_Written k) s1)" using i1 by simp
      show ?thesis using Cons.prems(1) f None Cons.IH [OF _ i2] Cons.prems(3)
        by (auto simp: write_report_file_def split: option.splits)
    qed
  qed simp
  then show ?thesis using assms by (simp add: write_reports_def)
qed

lemma inv_abort:
  assumes "inv s"
  shows "inv (abort_persistence w rid e s)"
proof (cases "persistence_failure_report w rid e s")
  case (Some r)
  obtain e1 r1 s1 where wr: "write_reports w rid r s = (e1, r1, s1)" by (metis prod_cases3)
  show ?thesis using inv_write_reports [OF assms inv_failure_report [OF assms Some] wr] Some wr
    by (simp add: abort_persistence_def)
qed (use assms in \<open>simp add: abort_persistence_def\<close>)

lemma inv_give_up: "inv s \<Longrightarrow> own_report w rid r \<Longrightarrow> inv (give_up w rid e r s)"
  by (simp add: give_up_def inv_abort)

lemma inv_update_case:
  assumes "inv s" "update_case w rid index item s = (e, s')"
  shows "inv s'"
proof (cases "get_report rid s")
  case None
  then show ?thesis using assms by (simp add: update_case_def)
next
  case (Some r0)
  let ?r = "refresh_counts (r0\<lparr>br_Cases := (br_Cases r0)[index := item]\<rparr>)"
  have own: "own_report w rid ?r" using inv_get [OF assms(1) Some] by simp
  obtain e1 s1 where f: "require_fence w rid s = (e1, s1)" by fastforce
  note i1 = inv_fence [OF assms(1) f, THEN conjunct1]
  obtain e2 r' s2 where wr: "write_reports w rid ?r s1 = (e2, r', s2)" by (metis prod_cases3)
  note i2 = inv_write_reports [OF i1 own wr]
  obtain e3 s3 where cp: "checkpoint w r' s2 = (e3, s3)" by fastforce
  have i3: "inv s3" using inv_checkpoint [OF _ _ cp] i2 by blast
  show ?thesis using assms(2) Some f wr cp i1 i2 i3
    by (auto simp: update_case_def inv_give_up split: option.splits)
qed

lemma inv_store_failed:
  assumes "inv s" "own_report w rid r"
  shows "inv (store_failed_report w rid r s)"
proof -
  obtain e2 r' s2 where wr: "write_reports w rid r s = (e2, r', s2)" by (metis prod_cases3)
  note i2 = inv_write_reports [OF assms wr]
  obtain e3 s3 where cp: "checkpoint w r' s2 = (e3, s3)" by fastforce
  have "inv s3" using inv_checkpoint [OF _ _ cp] i2 by blast
  then show ?thesis using wr cp i2 by (auto simp: store_failed_report_def split: option.splits)
qed

lemma inv_fail_final:
  assumes "inv s" "own_report w rid r"
  shows "inv (fail_final_persistence w r e s)"
proof -
  obtain e1 s1 where f: "require_fence w rid s = (e1, s1)" by fastforce
  note i1 = inv_fence [OF assms(1) f, THEN conjunct1]
  moreover have "br_BatchRunID r = rid" using assms(2) by (simp add: own_report_def)
  ultimately show ?thesis using f assms(2)
    by (auto simp: fail_final_persistence_def Let_def inv_store_failed split: option.split)
qed

lemma inv_fail_case:
  assumes "inv s"
  shows "inv (fail_case_persistence w rid index item e s)"
proof -
  define failed where "failed = item\<lparr>bc_Status := StatusFailed, bc_FailurePhase := ''persistence'',
    bc_FailureCategory := PersistenceFailure,
    bc_Error := ''batch persistence failed while recording case '' @ bc_CaseID item @ '': '' @ bw_error_text w e\<rparr>"
  obtain e1 s1 where u: "update_case w rid index failed s = (e1, s1)" by fastforce
  note i1 = inv_update_case [OF assms u]
  obtain e2 s2 where f: "require_fence w rid s1 = (e2, s2)" by fastforce
  note i2 = inv_fence [OF i1 f, THEN conjunct1]
  show ?thesis using u f i1 i2 unfolding fail_case_persistence_def Let_def failed_def [symmetric]
    by (auto split: option.split dest: inv_failure_report intro: inv_store_failed)
qed

end

context batch_monitor begin

lemma inv_statement:
  "inv s \<Longrightarrow> run_statement w (record_step t st) s = (res, s') \<Longrightarrow> inv s'"
  using recorded [of s t st] run_statement_keeps [of w _ s res s'] by (auto simp: inv_def own_runs_def)

lemma inv_fenced_step:
  assumes "inv s" "fenced_step w rid st s = (e, s')"
  shows "inv s'"
proof (cases "\<exists>m. st = Read_Failed m")
  case False
  obtain e1 s1 where f: "require_fence w rid s = (e1, s1)" by fastforce
  note i1 = inv_fence [OF assms(1) f]
  show ?thesis
  proof (cases e1)
    case None
    then have l: "inv (log_effect rid (Record_Stored st) s1)" using i1 by simp
    obtain x s2 where st: "run_statement w (record_step (time_now w s1) st) (log_effect rid (Record_Stored st) s1) = (x, s2)"
      by fastforce
    show ?thesis using inv_statement [OF l st] assms(2) False f None st
      by (cases st; cases x) (auto simp: fenced_step_def)
  qed (use assms(2) False f i1 in \<open>cases st; auto simp: fenced_step_def\<close>)
qed (use assms in \<open>auto simp: fenced_step_def\<close>)

lemma inv_steps_until_error: "inv s \<Longrightarrow> steps_until_error w rid sts s = (e, s') \<Longrightarrow> inv s'"
proof (induction sts arbitrary: s)
  case (Cons st sts)
  obtain e1 s1 where f: "fenced_step w rid st s = (e1, s1)" by fastforce
  show ?case using Cons inv_fenced_step [OF Cons.prems(1) f] f by (cases e1) auto
qed simp

lemma inv_steps_joined: "inv s \<Longrightarrow> steps_joined w rid sts fs s = (e, s') \<Longrightarrow> inv s'"
proof (induction sts arbitrary: s fs)
  case (Cons st sts)
  obtain e1 s1 where f: "fenced_step w rid st s = (e1, s1)" by fastforce
  show ?case using Cons.prems Cons.IH [OF inv_fenced_step [OF Cons.prems(1) f]] f by (cases e1) auto
qed simp

lemma inv_record_composite: "inv s \<Longrightarrow> record_composite w rid r c s = (e, s') \<Longrightarrow> inv s'"
  by (auto simp: record_composite_def Let_def split: if_splits dest: inv_steps_until_error inv_steps_joined)

lemma inv_trace_steps: "inv s \<Longrightarrow> trace_steps w rid sts fe s = (e, s') \<Longrightarrow> inv s'"
proof (induction sts arbitrary: s fe)
  case (Cons st sts)
  show ?case
  proof (cases "\<exists>m. st = Read_Failed m")
    case False
    obtain e1 s1 where f: "require_fence w rid s = (e1, s1)" by fastforce
    note i1 = inv_fence [OF Cons.prems(1) f]
    have "inv (snd (run_statement w (record_step (time_now w s1) st) (log_effect rid (Record_Stored st) s1)))" if "e1 = None"
      using i1 that by (intro inv_statement [OF _ surjective_pairing]) simp
    then show ?thesis using Cons False f i1 by (cases st; cases e1) auto
  qed (use Cons in auto)
qed simp

lemma inv_write_evidence:
  assumes "inv s" "write_evidence w rid p s = (e, s')"
  shows "inv s' \<and> (e = None \<longrightarrow> fenced s')"
proof -
  obtain e1 s1 where f: "require_fence w rid s = (e1, s1)" by fastforce
  show ?thesis using assms(2) f inv_fence [OF assms(1) f] by (cases e1) (auto simp: write_evidence_def)
qed

lemma inv_write_evidence_files:
  "inv s \<Longrightarrow> write_evidence_files w rid ps s = (e, s') \<Longrightarrow> inv s' \<and> (e = None \<longrightarrow> ps \<noteq> [] \<longrightarrow> fenced s')"
proof (induction ps arbitrary: s)
  case (Cons p ps)
  obtain e1 s1 where f: "write_evidence w rid p s = (e1, s1)" by fastforce
  note i1 = inv_write_evidence [OF Cons.prems(1) f]
  show ?case
  proof (cases e1)
    case None
    then show ?thesis using Cons.prems(2) Cons.IH [OF i1 [THEN conjunct1]] f i1 by (cases ps) auto
  qed (use Cons.prems(2) f i1 in auto)
qed simp

lemma inv_evidence_failure: "inv s \<Longrightarrow> evidence_failure w t res e s = (x, s') \<Longrightarrow> inv s'"
  by (auto simp: evidence_failure_def)

lemma inv_finish_case_run:
  assumes "inv s" "finish_case_run w rid t res s = (x, s')"
  shows "inv s'"
proof -
  obtain e1 s1 where f: "write_evidence_files w rid
      (evidence_files (res\<lparr>cr_FinishedAt := now_text w s, cr_ElapsedMs := elapsed_millis t (time_now w s)\<rparr>) [''summary.json'']) s = (e1, s1)"
    by fastforce
  show ?thesis using assms(2) f inv_write_evidence_files [OF assms(1) f]
    by (cases e1) (auto simp: finish_case_run_def Let_def dest: inv_evidence_failure)
qed

lemma inv_write_outcome:
  assumes "inv s" "write_outcome w rid t res names s = (x, s')"
  shows "inv s'"
proof -
  obtain e1 s1 where f: "write_evidence_files w rid (evidence_files res names) s = (e1, s1)" by fastforce
  show ?thesis using assms(2) f inv_write_evidence_files [OF assms(1) f]
    by (cases e1) (auto simp: write_outcome_def dest: inv_evidence_failure inv_finish_case_run)
qed

lemma inv_send_request: "inv s \<Longrightarrow> fenced s \<Longrightarrow> send_request w rid f b ov c (safe_execution_timeout t) s = (h, s') \<Longrightarrow> inv s'"
  by (auto simp: send_request_def Let_def split: http_outcome.splits)

lemma inv_run_api_case:
  assumes "inv s" "run_api_case w rid path base dir crid ov (safe_execution_timeout t) s = (x, s')"
  shows "inv s'"
proof (cases "valid_trusted_run_id crid \<and> (\<exists>f. load_case w path s = Inr f)")
  case False
  then show ?thesis using assms by (auto simp: run_api_case_def split: if_splits sum.splits)
next
  case True
  then obtain f where f: "load_case w path s = Inr f" by blast
  define res where "res = no_result\<lparr>cr_OK := True, cr_RunID := trim_space crid, cr_CaseID := cf_ID f, cr_Status := StatusPassed,
    cr_EvidencePath := case_evidence_path dir crid, cr_StartedAt := tf_format (bw_times w) (time_now w s)\<rparr>"
  obtain e1 s1 where ev: "write_evidence_files w rid (evidence_files res [[], ''case.json'', ''request.json'']) s = (e1, s1)" by fastforce
  note i1 = inv_write_evidence_files [OF assms(1) ev]
  obtain h s2 where rq: "send_request w rid f base ov crid (safe_execution_timeout t) s1 = (h, s2)" by fastforce
  note run = assms(2) [unfolded run_api_case_def Let_def f sum.case res_def [symmetric] ev prod.case rq]
  show ?thesis
  proof (cases e1)
    case None
    then have "inv s2" using i1 inv_send_request [OF _ _ rq] by (simp add: evidence_files_def)
    then show ?thesis using run True None
      by (auto simp: write_failure_outcome_def split: sum.splits prod.splits dest: inv_write_outcome)
  qed (use run True i1 in \<open>auto dest: inv_evidence_failure\<close>)
qed

lemma inv_write_failure_evidence:
  assumes "inv s" "write_failure_evidence w rid p crid t0 m s = (x, s')"
  shows "inv s'"
proof -
  define res where "res = no_result\<lparr>cr_OK := False, cr_RunID := trim_space crid, cr_CaseID := trim_space (cp_ID p), cr_Status := StatusFailed,
    cr_FailurePhase := ''materialization'', cr_FailureCategory := ''materialization-error'',
    cr_Error := first_failure_value m ''case run failed'', cr_EvidencePath := case_evidence_path (cp_EvidenceDir p) crid,
    cr_StartedAt := tf_format (bw_times w) (if t0 = zero_time then time_now w s else t0)\<rparr>"
  obtain e1 s1 where ev: "write_evidence_files w rid (evidence_files res [[], ''case.json'', ''request.json'']) s = (e1, s1)" by fastforce
  note run = assms(2) [unfolded write_failure_evidence_def Let_def res_def [symmetric] ev prod.case]
  show ?thesis using run assms(1) inv_write_evidence_files [OF assms(1) ev]
    by (cases e1) (auto simp: write_failure_outcome_def split: if_splits dest: inv_write_outcome inv_evidence_failure)
qed

end

context batch_monitor begin

lemma inv_materialization_failure:
  assumes "inv s" "record_materialization_failure w rid index p t m s = (go, s')"
  shows "inv s'"
proof -
  obtain e1 s1 where f: "require_fence w rid s = (e1, s1)" by fastforce
  note i1 = inv_fence [OF assms(1) f, THEN conjunct1]
  obtain res e2 s2 where ev: "write_failure_evidence w rid p (batch_case_run_id rid (cp_StepID p) (cp_ID p)) t m s1 = ((res, e2), s2)"
    by (metis prod.exhaust)
  note i2 = inv_write_failure_evidence [OF i1 ev]
  define rest where "rest = (case e2 of Some x \<Rightarrow> (Some x, s2) | None \<Rightarrow> record_composite w rid None (Case_Records p res) s2)"
  obtain e3 s3 where r: "rest = (e3, s3)" by fastforce
  have i3: "inv s3" using i2 r by (auto simp: rest_def split: option.splits dest: inv_record_composite)
  obtain e4 s4 where u: "update_case w rid index (apply_case_result w s3 res (plan_case_report StatusFailed p)) s3 = (e4, s4)" by fastforce
  note i4 = inv_update_case [OF i3 u]
  note run = assms(2) [unfolded record_materialization_failure_def f prod.case ev rest_def [symmetric] r u]
  show ?thesis using run i1 i4 inv_fail_case [OF i3] by (auto split: option.splits)
qed

lemma inv_case_result:
  assumes "inv s" "record_case_result w rid index p res s = (go, s')"
  shows "inv s'"
proof -
  define item where "item = apply_case_result w s res (plan_case_report StatusFailed p)"
  obtain e1 s1 where c: "record_composite w rid None (Case_Records p res) s = (e1, s1)" by fastforce
  note i1 = inv_record_composite [OF assms(1) c]
  define tr where "tr = (if bc_Status item = StatusPassed \<and> \<not> blank (bw_workflow w) \<and> \<not> blank (cp_StepID p)
    then trace_steps w rid (bw_records w (moment s1) None (Trace_Records p res)) None s1 else (None, s1))"
  obtain e2 s2 where t: "tr = (e2, s2)" by fastforce
  have i2: "inv s2" using i1 t by (auto simp: tr_def split: if_splits dest: inv_trace_steps)
  obtain e3 s3 where u: "update_case w rid index item s2 = (e3, s3)" by fastforce
  note i3 = inv_update_case [OF i2 u]
  note run = assms(2) [unfolded record_case_result_def Let_def item_def [symmetric] c prod.case tr_def [symmetric] t u]
  show ?thesis using run i2 i3 inv_fail_case [OF i1] by (auto split: option.splits)
qed

lemma inv_run_batch_case:
  assumes "inv s" "run_batch_case w rid index p ov s = (x, s')"
  shows "inv s'"
proof -
  obtain e1 s1 where f1: "require_fence w rid s = (e1, s1)" by fastforce
  note i1 = inv_fence [OF assms(1) f1, THEN conjunct1]
  show ?thesis
  proof (cases "e1 = None \<and> (\<exists>y. materialize_case w p ov s1 = Inr y)")
    case False
    obtain go s2 where m: "record_materialization_failure w rid index p (time_now w s1) (projl (materialize_case w p ov s1)) s1 = (go, s2)"
      by fastforce
    show ?thesis using assms(2) False f1 i1 m inv_materialization_failure [OF i1 m]
      by (auto simp: run_batch_case_def split: option.splits sum.splits)
  next
    case True
    then obtain path base merged where m: "materialize_case w p ov s1 = Inr (path, base, merged)" by (metis prod_cases3)
    obtain e2 s2 where f2: "require_fence w rid s1 = (e2, s2)" by fastforce
    note i2 = inv_fence [OF i1 f2, THEN conjunct1]
    obtain res e3 s3 where rc: "run_api_case w rid path base (cp_EvidenceDir p) (batch_case_run_id rid (cp_StepID p) (cp_ID p)) merged
        (safe_execution_timeout (cp_TimeoutSeconds p)) s2 = ((res, e3), s3)" by (metis prod.exhaust)
    note i3 = inv_run_api_case [OF i2 rc]
    define item where "item = apply_case_result w s3 res (plan_case_report StatusFailed p)"
    obtain go4 s4 where mf: "record_materialization_failure w rid index p (time_now w s2) (bw_error_text w (the e3)) s3 = (go4, s4)" by fastforce
    obtain e5 s5 where u: "update_case w rid index item s3 = (e5, s5)" by fastforce
    obtain go6 s6 where r: "record_case_result w rid index p res s3 = (go6, s6)" by fastforce
    note run = assms(2) [unfolded run_batch_case_def Let_def f1 prod.case True [THEN conjunct1] option.case m sum.case f2 rc item_def [symmetric] u r]
    show ?thesis
    proof (cases e2)
      case None
      show ?thesis
      proof (cases e3)
        case None
        then show ?thesis using run \<open>e2 = None\<close> inv_case_result [OF i3 r] by auto
      next
        case (Some x)
        then show ?thesis using run \<open>e2 = None\<close> mf inv_materialization_failure [OF i3 mf] inv_update_case [OF i3 u] inv_fail_case [OF i3]
          by (auto split: if_splits)
      qed
    qed (use run i2 in auto)
  qed
qed

lemma inv_final_composites:
  "inv s \<Longrightarrow> own_report w rid r \<Longrightarrow> run_final_composites w rid r cs s = (ok, s') \<Longrightarrow> inv s'"
proof (induction cs arbitrary: s)
  case (Cons c cs)
  obtain fence k where c: "c = (fence, k)" by fastforce
  define fe where "fe = (if fence then require_fence w rid s else (None, s))"
  obtain e1 s1 where f: "fe = (e1, s1)" by fastforce
  have i1: "inv s1" using Cons.prems(1) f by (auto simp: fe_def split: if_splits dest: inv_fence)
  obtain e2 s2 where rc: "record_composite w rid (Some r) k s1 = (e2, s2)" by fastforce
  note i2 = inv_record_composite [OF i1 rc]
  note run = Cons.prems(3) [unfolded c run_final_composites.simps fe_def [symmetric] f prod.case rc]
  show ?case using run i1 i2 Cons.IH [OF i2 Cons.prems(2)] inv_fail_final [OF i2 Cons.prems(2)] by (auto split: option.splits)
qed simp

lemma inv_finish_batch:
  assumes "inv s"
  shows "inv (finish_batch w rid s)"
proof (cases "get_report rid s")
  case (Some r0)
  have own: "own_report w rid (final_report w r0 s)" using inv_get [OF assms Some] by simp
  obtain e1 s1 where f: "require_fence w rid s = (e1, s1)" by fastforce
  note i1 = inv_fence [OF assms f, THEN conjunct1]
  obtain e2 r' s2 where wr: "write_reports w rid (final_report w r0 s) s1 = (e2, r', s2)" by (metis prod_cases3)
  note i2 = inv_write_reports [OF i1 own wr]
  obtain ok s3 where fc: "run_final_composites w rid r' (final_composites r') s2 = (ok, s3)" by fastforce
  note i3 = inv_final_composites [OF i2 [THEN conjunct1] i2 [THEN conjunct2] fc]
  obtain e4 s4 where cp: "checkpoint w r' s3 = (e4, s4)" by fastforce
  note i4 = inv_checkpoint [OF i3 i2 [THEN conjunct2] cp]
  show ?thesis using i1 i2 i3 i4
    by (auto simp: finish_batch_def Some Let_def f wr fc cp inv_give_up inv_abort split: option.split bool.split)
qed (use assms in \<open>simp add: finish_batch_def\<close>)

lemma inv_run_cases: "inv s \<Longrightarrow> run_cases w rid index ps ov s = (b, s') \<Longrightarrow> inv s'"
proof (induction ps arbitrary: index ov s)
  case (Cons p ps)
  obtain x s1 where c: "run_batch_case w rid index p ov s = (x, s1)" by fastforce
  show ?case using Cons.prems(2) c inv_run_batch_case [OF Cons.prems(1) c] Cons.IH by (auto split: option.splits)
qed simp

lemma inv_run_batch: "inv s \<Longrightarrow> inv (run_batch w rid ps s)"
  by (auto simp: run_batch_def dest: inv_run_cases intro: inv_finish_batch split: prod.split bool.split)

end

section \<open>Effects happen under the lease\<close>

definition held_event :: "batch_world \<Rightarrow> batch_event \<Rightarrow> bool" where
  "held_event w ev \<longleftrightarrow> row_held w (be_row ev) \<and> bounded_effect (be_effect ev)"

interpretation lease_monitor: batch_monitor w rid "\<lambda>db l. list_all (held_event w) l" "row_held w" for w rid
proof
  fix s e s'
  assume "own_runs w rid s" "list_all (held_event w) (bt_log s)" "renew_lease w rid s = (e, s')"
  then show "list_all (held_event w) (bt_log s') \<and> (e = None \<longrightarrow> row_held w (bt_db s' rid))"
    using renew_lease_log renewed_row_held by metis
next
  fix r s e s'
  assume "list_all (held_event w) (bt_log s)" "checkpoint_run w r s = (e, s')"
  then show "list_all (held_event w) (bt_log s')" using checkpoint_run_keeps by metis
next
  fix s t st res s'
  assume "list_all (held_event w) (bt_log s)" "run_statement w (record_step t st) s = (res, s')"
  then show "list_all (held_event w) (bt_log s')" using run_statement_keeps by metis
qed (simp add: held_event_def)

section \<open>Rows move forward\<close>

text \<open>What the other connections do to the table.\<close>

definition commits_evolve :: "batch_world \<Rightarrow> bool" where
  "commits_evolve w \<longleftrightarrow> keeps_revisions (bw_dialect w) \<and> (\<forall>n db. runs_evolve (bw_dialect w) db (bw_commits w n db))"

lemma read_evolves:
  assumes "commits_evolve w" "run_statement w (\<lambda>db. (get_run (bw_dialect w) rid db, db)) s = (res, s')"
  shows "runs_evolve (bw_dialect w) (bt_db s) (bt_db s')"
  using assms(2)
proof (cases rule: run_statement_db)
  case skipped
  then show ?thesis using assms(1) by (simp add: commits_evolve_def)
next
  case (applied r)
  then have "bt_db s' = bw_commits w (bt_step s) (bt_db s)" by simp
  then show ?thesis using assms(1) by (simp add: commits_evolve_def)
qed

lemma read_row:
  assumes "run_statement w (\<lambda>db. (get_run (bw_dialect w) rid db, db)) s = (Inr current, s')"
  obtains r where "bt_db s' rid = Some r" "current = (scan_run (bw_dialect w) r)\<lparr>xr_ID := rid\<rparr>"
  using assms
proof (cases rule: run_statement_db)
  case (applied r)
  then show ?thesis using that by (auto simp: get_run_def split: option.splits)
qed auto

lemma swap_evolves:
  assumes sd: "commits_evolve w" and r: "bt_db s rid = Some r"
    and current: "current = (scan_run (bw_dialect w) r)\<lparr>xr_ID := rid\<rparr>" and u: "xr_ID u = rid"
    and sw: "swap_run w current u s = (e, s')"
  shows "runs_evolve (bw_dialect w) (bt_db s) (bt_db s')"
proof -
  let ?sd = "bw_dialect w"
  have keeps: "keeps_revisions ?sd" and commits: "runs_evolve ?sd db (bw_commits w n db)" for n db
    using sd by (simp_all add: commits_evolve_def)
  have upd: "xr_UpdatedAt current = revision ?sd r" by (simp add: current)
  obtain res where st: "run_statement w (compare_and_swap_run ?sd (time_now w s) (revision ?sd r) StatusRunning
      (u\<lparr>xr_UpdatedAt := next_revision (revision ?sd r) (time_now w s)\<rparr>)) s = (res, s')"
    using sw by (auto simp: swap_run_def upd split: prod.splits sum.splits)
  from st show ?thesis
  proof (cases rule: run_statement_db)
    case skipped
    then show ?thesis using commits by simp
  next
    case (applied res2)
    let ?db = "bw_commits w (bt_step s) (bt_db s)"
    from applied(1) keeps show ?thesis
    proof (cases rule: swap_cases)
      case (failed x)
      then show ?thesis using commits by simp
    next
      case (swapped a row)
      have "row = r" using read_then_swapped [OF r commits [of "bt_db s" "bt_step s"]] swapped(2,3) u by simp
      then have "run_evolves ?sd row (the (bt_db s' rid))"
        using swapped(4,5) u next_revision_kept [OF keeps, of r "time_now w s"] next_revision_after [of "revision ?sd r" "time_now w s"]
        by (simp add: run_evolves_def revision_def [of _ "_\<lparr>xr_ID := _, xr_CreatedAt := _, xr_UpdatedAt := _\<rparr>"])
      then have "runs_evolve ?sd ?db (bt_db s')" using swapped(2,5) u by (auto simp: runs_evolve_def)
      then show ?thesis using commits runs_evolve_trans by blast
    qed
  qed
qed

lemma renew_evolves:
  assumes "commits_evolve w" "renew_lease w rid s = (e, s')"
  shows "runs_evolve (bw_dialect w) (bt_db s) (bt_db s')"
  using assms(2)
proof (cases rule: renew_lease_cases)
  case (read s1 cur)
  then show ?thesis using read_evolves [OF assms(1)] by blast
next
  case (swapped report current s1 l kvs s2)
  obtain r where r: "bt_db s1 rid = Some r" "current = (scan_run (bw_dialect w) r)\<lparr>xr_ID := rid\<rparr>"
    using read_row [OF swapped(2)] by blast
  have "runs_evolve (bw_dialect w) (bt_db s1) (bt_db s2)" using swap_evolves [OF assms(1) r _ swapped(7)] r(2) by simp
  then show ?thesis using read_evolves [OF assms(1) swapped(2)] swapped(8) runs_evolve_trans by (auto split: if_splits)
qed simp

lemma checkpoint_evolves:
  assumes "commits_evolve w" "checkpoint_run w report s = (e, s')"
  shows "runs_evolve (bw_dialect w) (bt_db s) (bt_db s')"
proof -
  obtain cur s1 where rs: "run_statement w (\<lambda>db. (get_run (bw_dialect w) (br_BatchRunID report) db, db)) s = (cur, s1)" by fastforce
  note e1 = read_evolves [OF assms(1) rs]
  show ?thesis
  proof (cases "s' = s1")
    case False
    have same: "xr_ID (apply_report_to_run tf t x run) = xr_ID run" for tf t x run by (simp add: apply_report_to_run_def)
    from False obtain current u where c: "cur = Inr current" "xr_ID u = xr_ID current" "swap_run w current u s1 = (e, s')"
      using assms(2) rs by (auto simp: checkpoint_run_def split: sum.splits option.splits if_splits; metis same)
    obtain r where r: "bt_db s1 (br_BatchRunID report) = Some r" "current = (scan_run (bw_dialect w) r)\<lparr>xr_ID := br_BatchRunID report\<rparr>"
      using read_row rs c(1) by blast
    show ?thesis using swap_evolves [OF assms(1) r _ c(3)] c(2) r(2) e1 runs_evolve_trans by auto
  qed (use e1 in simp)
qed

lemma record_evolves:
  assumes "commits_evolve w" "run_statement w (record_step t st) s = (res, s')"
  shows "runs_evolve (bw_dialect w) (bt_db s) (bt_db s')"
  using assms(2)
proof (cases rule: run_statement_db)
  case skipped
  then show ?thesis using assms(1) by (simp add: commits_evolve_def)
next
  case (applied r)
  let ?db = "bw_commits w (bt_step s) (bt_db s)"
  have "runs_evolve (bw_dialect w) ?db (bt_db s')"
  proof (cases st)
    case (Create_Run x)
    then show ?thesis using applied(1) create_run_evolves [of "bw_dialect w" ?db t x]
      by (cases "create_run t x ?db") (auto simp: record_step_def split: sum.splits)
  qed (use applied(1) in \<open>auto simp: record_step_def\<close>)
  moreover have "runs_evolve (bw_dialect w) (bt_db s) ?db" using assms(1) by (simp add: commits_evolve_def)
  ultimately show ?thesis using runs_evolve_trans by blast
qed

interpretation forward_monitor: batch_monitor w rid "\<lambda>db l. commits_evolve w \<longrightarrow> runs_evolve (bw_dialect w) db0 db" "\<lambda>_. True"
  for w rid db0
  by unfold_locales (use renew_evolves checkpoint_evolves record_evolves runs_evolve_trans in blast)+

section \<open>A final row silences its runner\<close>

interpretation silent_monitor: batch_monitor w rid
  "\<lambda>db l. commits_evolve w \<and> xr_Status r \<noteq> StatusRunning \<longrightarrow> db rid = Some r \<and> l = l0" "row_held w" for w rid r l0
proof
  fix s e s'
  assume "own_runs w rid s" "commits_evolve w \<and> xr_Status r \<noteq> StatusRunning \<longrightarrow> bt_db s rid = Some r \<and> bt_log s = l0"
    "renew_lease w rid s = (e, s')"
  then show "(commits_evolve w \<and> xr_Status r \<noteq> StatusRunning \<longrightarrow> bt_db s' rid = Some r \<and> bt_log s' = l0) \<and>
      (e = None \<longrightarrow> row_held w (bt_db s' rid))"
    using renew_lease_log renewed_row_held renew_evolves runs_evolve_final by metis
next
  fix r' s e s'
  assume "commits_evolve w \<and> xr_Status r \<noteq> StatusRunning \<longrightarrow> bt_db s rid = Some r \<and> bt_log s = l0"
    "checkpoint_run w r' s = (e, s')"
  then show "commits_evolve w \<and> xr_Status r \<noteq> StatusRunning \<longrightarrow> bt_db s' rid = Some r \<and> bt_log s' = l0"
    using checkpoint_run_keeps checkpoint_evolves runs_evolve_final by metis
next
  fix s t st res s'
  assume "commits_evolve w \<and> xr_Status r \<noteq> StatusRunning \<longrightarrow> bt_db s rid = Some r \<and> bt_log s = l0"
    "run_statement w (record_step t st) s = (res, s')"
  then show "commits_evolve w \<and> xr_Status r \<noteq> StatusRunning \<longrightarrow> bt_db s' rid = Some r \<and> bt_log s' = l0"
    using run_statement_keeps record_evolves runs_evolve_final by metis
qed (auto simp: row_held_def)

end
