(* ===== verification/Batch_Run_Facts.thy ===== *)
theory Batch_Run_Facts
  imports Batch_Monitor
begin

text \<open>
  The properties of a batch: what it does while another process may take it over, what recovery leaves behind, and what
  its final report says.
\<close>

section \<open>Reports that are only renewed\<close>

text \<open>Between two updates the report in memory changes in nothing but its lease.\<close>

definition renewed_report :: "ident \<Rightarrow> batch_state \<Rightarrow> batch_state \<Rightarrow> bool" where
  "renewed_report rid s s' \<longleftrightarrow>
     (case bt_runs s rid of None \<Rightarrow> bt_runs s' rid = None | Some r \<Rightarrow> \<exists>l. bt_runs s' rid = Some (r\<lparr>br_lease := l\<rparr>))"

lemma same_report: "\<exists>l. (r :: batch_report) = r\<lparr>br_lease := l\<rparr>"
  by (rule exI [of _ "br_lease r"]) simp

lemma renewed_report_refl [simp]: "bt_runs s' rid = bt_runs s rid \<Longrightarrow> renewed_report rid s s'"
  by (simp add: renewed_report_def same_report split: option.split)

lemma renewed_report_trans: "renewed_report rid a b \<Longrightarrow> renewed_report rid b c \<Longrightarrow> renewed_report rid a c"
  by (force simp: renewed_report_def split: option.splits)

lemma renewed_report_Some: "renewed_report rid s s' \<Longrightarrow> bt_runs s' rid = Some r' \<Longrightarrow> \<exists>r l. bt_runs s rid = Some r \<and> r' = r\<lparr>br_lease := l\<rparr>"
  by (auto simp: renewed_report_def split: option.splits)

lemma renewed_log [simp]: "bt_runs (log_effect rid e s) = bt_runs s"
  by (simp add: log_effect_def)

lemma renew_renews: "renew_lease w rid s = (None, s') \<Longrightarrow> renewed_report rid s s' \<and> bt_runs s rid \<noteq> None"
proof (erule renew_lease_cases)
  fix report current s1 l kvs s2
  assume r: "bt_runs s rid = Some report"
    and rs: "run_statement w (\<lambda>db. (get_run (bw_dialect w) rid db, db)) s = (Inr current, s1)"
    and sw: "swap_run w current (current\<lparr>xr_SummaryJSON := obj_text (obj_put ''_lease'' (lease_json (l\<lparr>bl_RenewTime := now_text w s1\<rparr>)) kvs)\<rparr>) s1 = (None, s2)"
    and s': "s' = (if None = None then update_lease rid (l\<lparr>bl_RenewTime := now_text w s1\<rparr>) s2 else s2)"
  have "bt_runs s2 rid = Some report" using r run_statement_keeps [OF rs] swap_run_keeps [OF sw] by simp
  then have "bt_runs s' rid = Some report \<or> (\<exists>l. bt_runs s' rid = Some (report\<lparr>br_lease := l\<rparr>))"
    using s' by (auto simp: update_lease_runs)
  moreover have "report = report\<lparr>br_lease := br_lease report\<rparr>" by simp
  ultimately have "\<exists>l. bt_runs s' rid = Some (report\<lparr>br_lease := l\<rparr>)" by metis
  then show ?thesis using r by (simp add: renewed_report_def)
qed simp_all

lemma heartbeat_renews: "renewed_report rid s (heartbeat w rid s) \<or> bt_runs (heartbeat w rid s) rid = None"
proof -
  obtain e s1 where "renew_lease w rid s = (e, s1)" by fastforce
  then show ?thesis using renew_renews [of w rid s s1] by (cases e) (auto simp: heartbeat_def remove_report_def)
qed

lemma fence_renews: "require_fence w rid s = (None, s') \<Longrightarrow> renewed_report rid s s'"
proof -
  assume f: "require_fence w rid s = (None, s')"
  then have "renew_lease w rid (heartbeat w rid s) = (None, s')"
    by (auto simp: require_fence_def split: prod.splits option.splits)
  then show ?thesis using renew_renews heartbeat_renews [of rid s w] renewed_report_trans by blast
qed

lemma write_reports_renews:
  "write_reports w rid r s = (None, r', s') \<Longrightarrow> r' = r \<and> renewed_report rid s s'"
proof -
  have "write_reports_loop w rid ks fs r s = (None, r', s') \<Longrightarrow> fs = [] \<and> r' = r \<and> renewed_report rid s s'" for ks fs
  proof (induction ks arbitrary: fs r s)
    case (Cons k ks)
    obtain e1 s1 where f: "require_fence w rid s = (e1, s1)" by fastforce
    show ?case
    proof (cases e1)
      case None
      have "renewed_report rid s s1" using f None by (simp add: fence_renews)
      moreover have "renewed_report rid s1 (log_effect rid (Report_Written k) s1)" by simp
      moreover have "fs = [] \<and> r' = r \<and> renewed_report rid (log_effect rid (Report_Written k) s1) s'"
        using Cons.prems f None Cons.IH by (force simp: write_report_file_def split: option.splits)
      ultimately show ?thesis using renewed_report_trans by blast
    qed (use Cons.prems f in \<open>simp add: join_errors_def\<close>)
  qed (simp add: join_errors_def split: if_splits)
  then show "write_reports w rid r s = (None, r', s') \<Longrightarrow> ?thesis" by (simp add: write_reports_def)
qed

lemma step_renews: "fenced_step w rid st s = (None, s') \<Longrightarrow> renewed_report rid s s'"
proof -
  assume st: "fenced_step w rid st s = (None, s')"
  obtain e1 s1 where f: "require_fence w rid s = (e1, s1)" by fastforce
  obtain x s2 where rs: "run_statement w (record_step (time_now w s1) st) (log_effect rid (Record_Stored st) s1) = (x, s2)" by fastforce
  have "e1 = None \<and> s' = s2" using st f rs by (cases st; cases e1; cases x) (auto simp: fenced_step_def)
  moreover have "renewed_report rid s1 s2" using run_statement_keeps [OF rs] by simp
  ultimately show ?thesis using f fence_renews renewed_report_trans by blast
qed

lemma composite_renews: "record_composite w rid r c s = (None, s') \<Longrightarrow> renewed_report rid s s'"
proof -
  have all: "steps_until_error w rid sts s = (None, s') \<Longrightarrow> renewed_report rid s s'" for sts
  proof (induction sts arbitrary: s)
    case (Cons st sts)
    obtain e1 s1 where f: "fenced_step w rid st s = (e1, s1)" by fastforce
    then show ?case using Cons step_renews [of w rid st s s1] renewed_report_trans by (cases e1) auto
  qed simp
  have joined: "steps_joined w rid sts fs s = (None, s') \<Longrightarrow> fs = [] \<and> renewed_report rid s s'" for sts fs
  proof (induction sts arbitrary: s fs)
    case (Cons st sts)
    obtain e1 s1 where f: "fenced_step w rid st s = (e1, s1)" by fastforce
    then show ?case using Cons step_renews [of w rid st s s1] renewed_report_trans by (cases e1) fastforce+
  qed (simp add: join_errors_def split: if_splits)
  show "record_composite w rid r c s = (None, s') \<Longrightarrow> ?thesis"
    using all joined by (auto simp: record_composite_def Let_def split: if_splits)
qed

lemma trace_renews: "trace_steps w rid sts fe s = (None, s') \<Longrightarrow> fe = None \<and> renewed_report rid s s'"
proof (induction sts arbitrary: s fe)
  case (Cons st sts)
  show ?case
  proof (cases "\<exists>m. st = Read_Failed m")
    case False
    obtain e1 s1 where f: "require_fence w rid s = (e1, s1)" by fastforce
    obtain x s2 where rs: "run_statement w (record_step (time_now w s1) st) (log_effect rid (Record_Stored st) s1) = (x, s2)" by fastforce
    show ?thesis
    proof (cases e1)
      case None
      have "trace_steps w rid sts fe s2 = (None, s')" using Cons.prems False f rs None by (cases st) auto
      then have "fe = None \<and> renewed_report rid s2 s'" using Cons.IH by blast
      moreover have "renewed_report rid s1 s2" using run_statement_keeps [OF rs] by simp
      ultimately show ?thesis using f None fence_renews renewed_report_trans by blast
    next
      case (Some y)
      have "trace_steps w rid sts (if fe = None then Some y else fe) s1 = (None, s')" using Cons.prems False f Some by (cases st) auto
      then have "(if fe = None then Some y else fe) = None" using Cons.IH by blast
      then show ?thesis by (simp split: if_splits)
    qed
  qed (use Cons in auto)
qed simp

lemma evidence_renews: "write_evidence_files w rid ps s = (None, s') \<Longrightarrow> renewed_report rid s s'"
proof (induction ps arbitrary: s)
  case (Cons p ps)
  obtain e1 s1 where f: "require_fence w rid s = (e1, s1)" by fastforce
  obtain e2 s2 where ev: "write_evidence w rid p s = (e2, s2)" by fastforce
  have "e2 = None" "write_evidence_files w rid ps s2 = (None, s')" using Cons.prems ev by (auto split: option.splits)
  moreover have "e1 = None \<and> s2 = log_effect rid (File_Written p) s1"
    using ev f \<open>e2 = None\<close> by (auto simp: write_evidence_def split: option.splits)
  moreover have "renewed_report rid s1 (log_effect rid (File_Written p) s1)" by simp
  ultimately show ?case using Cons.IH f fence_renews renewed_report_trans by blast
qed simp

lemma outcome_renews:
  assumes "write_outcome w rid t res names s = ((res', e), s')"
  shows "(e = None \<longrightarrow> renewed_report rid s s' \<and> cr_Status res' = cr_Status res) \<and>
    (e \<noteq> None \<longrightarrow> cr_FailureCategory res' = ''evidence-persistence-error'' \<and> cr_RunID res' = cr_RunID res)"
proof -
  obtain e1 s1 where f: "write_evidence_files w rid (evidence_files res names) s = (e1, s1)" by fastforce
  define res1 where "res1 = res\<lparr>cr_FinishedAt := now_text w s1, cr_ElapsedMs := elapsed_millis t (time_now w s1)\<rparr>"
  obtain e2 s2 where g: "write_evidence_files w rid (evidence_files res1 [''summary.json'']) s1 = (e2, s2)" by fastforce
  note run = assms [unfolded write_outcome_def f prod.case finish_case_run_def Let_def res1_def [symmetric] g]
  show ?thesis
  proof (cases "e1 = None \<and> e2 = None")
    case True
    then have "res' = res1 \<and> e = None \<and> s' = s2" using run by simp
    moreover have "renewed_report rid s s2" using True f g evidence_renews renewed_report_trans by blast
    ultimately show ?thesis by (simp add: res1_def)
  next
    case False
    then show ?thesis using run by (auto simp: evidence_failure_def res1_def split: option.splits)
  qed
qed

lemma send_renews [simp]: "send_request w rid f base ov crid t s = (h, s') \<Longrightarrow> bt_runs s' = bt_runs s"
  by (auto simp: send_request_def Let_def split: http_outcome.splits)

text \<open>A case that ran passed or failed. One that could not be started left nothing behind.\<close>

lemma api_case_renews:
  assumes "run_api_case w rid path base dir crid ov t s = ((res, e), s')" and crid: "\<not> blank crid"
  shows "(e = None \<longrightarrow> renewed_report rid s s' \<and> cr_Status res \<in> {StatusPassed, StatusFailed}) \<and>
    (e \<noteq> None \<longrightarrow> (if blank (cr_RunID res) then s' = s else cr_FailureCategory res = ''evidence-persistence-error''))"
proof (cases "valid_trusted_run_id crid \<and> (\<exists>f. load_case w path s = Inr f)")
  case False
  then show ?thesis using assms(1) by (auto simp: run_api_case_def no_result_def split: if_splits sum.splits)
next
  case True
  then obtain f where f: "load_case w path s = Inr f" by blast
  define r0 where "r0 = no_result\<lparr>cr_OK := True, cr_RunID := trim_space crid, cr_CaseID := cf_ID f, cr_Status := StatusPassed,
    cr_EvidencePath := case_evidence_path dir crid, cr_StartedAt := tf_format (bw_times w) (time_now w s)\<rparr>"
  obtain e1 s1 where ev: "write_evidence_files w rid (evidence_files r0 [[], ''case.json'', ''request.json'']) s = (e1, s1)" by fastforce
  obtain h s2 where rq: "send_request w rid f base ov crid t s1 = (h, s2)" by fastforce
  have started: "\<not> blank (cr_RunID r0)" using crid by (simp add: r0_def)
  note run = assms(1) [unfolded run_api_case_def Let_def f sum.case r0_def [symmetric] ev prod.case rq]
  show ?thesis
  proof (cases e1)
    case None
    have "renewed_report rid s s1" using ev None by (simp add: evidence_renews)
    moreover have "renewed_report rid s1 s2" using send_renews [OF rq] by simp
    ultimately have "renewed_report rid s s2" by (rule renewed_report_trans)
    moreover obtain r1 names where "write_outcome w rid (time_now w s) r1 names s2 = ((res, e), s')" "cr_Status r1 \<in> {StatusPassed, StatusFailed}"
      "cr_RunID r1 = cr_RunID r0"
    proof (cases "exchange_result f h")
      case (Inl x)
      obtain phase category m where x: "x = (phase, category, m)" by (cases x)
      define r1 where "r1 = r0\<lparr>cr_OK := False, cr_Status := StatusFailed, cr_FailurePhase := phase,
        cr_FailureCategory := category, cr_Error := m\<rparr>"
      have "write_outcome w rid (time_now w s) r1 [''assertions.json'', ''error.json''] s2 = ((res, e), s')"
        using run [unfolded Inl x sum.case prod.case r1_def [symmetric]] True None by (simp add: write_failure_outcome_def)
      moreover have "cr_Status r1 \<in> {StatusPassed, StatusFailed}" "cr_RunID r1 = cr_RunID r0" by (simp_all add: r1_def)
      ultimately show ?thesis by (rule that)
    next
      case (Inr failures)
      define r1 where "r1 = (if failures = [] then r0
        else r0\<lparr>cr_OK := False, cr_Status := StatusFailed, cr_FailurePhase := ''assertion'',
          cr_FailureCategory := ''assertion-mismatch'', cr_Error := str_join ''; '' failures\<rparr>)"
      have "write_outcome w rid (time_now w s) r1 [''response.json'', ''assertions.json''] s2 = ((res, e), s')"
        using run [unfolded Inr sum.case r1_def [symmetric]] True None by simp
      moreover have "cr_Status r1 \<in> {StatusPassed, StatusFailed}" "cr_RunID r1 = cr_RunID r0" by (simp_all add: r1_def r0_def)
      ultimately show ?thesis by (rule that)
    qed
    ultimately show ?thesis using outcome_renews [of w rid "time_now w s" r1 names s2 res e s'] started renewed_report_trans
      by (cases e) auto
  next
    case (Some x)
    then show ?thesis using run True started by (auto simp: evidence_failure_def)
  qed
qed

lemma batch_run_id_not_blank [simp]: "\<not> blank (batch_case_run_id bid sid cid)"
  by (simp add: batch_case_run_id_def blank_iff_all_space is_space_def)

lemma failure_evidence_renews:
  assumes "write_failure_evidence w rid p crid t m s = ((res, None), s')"
  shows "renewed_report rid s s' \<and> cr_Status res = StatusFailed"
proof -
  define t0 where "t0 = (if t = zero_time then time_now w s else t)"
  define r0 where "r0 = no_result\<lparr>cr_OK := False, cr_RunID := trim_space crid, cr_CaseID := trim_space (cp_ID p), cr_Status := StatusFailed,
    cr_FailurePhase := ''materialization'', cr_FailureCategory := ''materialization-error'',
    cr_Error := first_failure_value m ''case run failed'', cr_EvidencePath := case_evidence_path (cp_EvidenceDir p) crid,
    cr_StartedAt := tf_format (bw_times w) t0\<rparr>"
  obtain e1 s1 where ev: "write_evidence_files w rid (evidence_files r0 [[], ''case.json'', ''request.json'']) s = (e1, s1)" by fastforce
  note run = assms [unfolded write_failure_evidence_def Let_def t0_def [symmetric], unfolded r0_def [symmetric] ev prod.case]
  have "e1 = None" "write_outcome w rid t0 r0 [''assertions.json'', ''error.json''] s1 = ((res, None), s')"
    using run by (auto simp: write_failure_outcome_def evidence_failure_def split: if_splits option.splits)
  then have "renewed_report rid s1 s'" "cr_Status res = cr_Status r0" using outcome_renews by blast+
  moreover have "renewed_report rid s s1" using ev \<open>e1 = None\<close> evidence_renews by blast
  moreover have "cr_Status r0 = StatusFailed" by (simp add: r0_def)
  ultimately show ?thesis using renewed_report_trans by metis
qed

section \<open>Every case is reported\<close>

definition case_reported :: "case_plan \<Rightarrow> batch_case \<Rightarrow> bool" where
  "case_reported p c \<longleftrightarrow> bc_CaseID c = cp_ID p \<and> bc_Status c \<in> {StatusPassed, StatusFailed}"

definition cases_reported :: "ident \<Rightarrow> case_plan list \<Rightarrow> nat \<Rightarrow> batch_state \<Rightarrow> bool" where
  "cases_reported rid ps n s \<longleftrightarrow> (\<exists>r. bt_runs s rid = Some r \<and> br_BatchRunID r = rid \<and> length (br_Cases r) = length ps \<and>
     list_all2 case_reported (take n ps) (take n (br_Cases r)))"

lemma cases_reported_renewed: "cases_reported rid ps n s \<Longrightarrow> renewed_report rid s s' \<Longrightarrow> cases_reported rid ps n s'"
  by (auto simp: cases_reported_def renewed_report_def)

lemma report_cases [simp]:
  "br_Cases (refresh_counts r) = br_Cases r" "br_Cases (clone_report r) = br_Cases r"
proof -
  have "br_Cases (fold count_case cs r) = br_Cases r" for cs r
    by (induction cs arbitrary: r) (simp_all add: Let_def)
  then show "br_Cases (refresh_counts r) = br_Cases r" by (simp add: refresh_counts_def)
qed (simp add: clone_report_def)

lemma update_case_reports:
  assumes k: "cases_reported rid ps n s" and n: "n < length ps" and item: "case_reported (ps ! n) item"
    and u: "update_case w rid n item s = (None, s')"
  shows "cases_reported rid ps (Suc n) s'"
proof -
  obtain r where r: "bt_runs s rid = Some r" "br_BatchRunID r = rid" "length (br_Cases r) = length ps"
    "list_all2 case_reported (take n ps) (take n (br_Cases r))" using k by (auto simp: cases_reported_def)
  define r1 where "r1 = refresh_counts ((clone_report r)\<lparr>br_Cases := (br_Cases (clone_report r))[n := item]\<rparr>)"
  have g: "get_report rid s = Some (clone_report r)" using r by (simp add: get_report_def)
  obtain e1 s1 where f: "require_fence w rid s = (e1, s1)" by fastforce
  obtain e2 r2 s2 where wr: "write_reports w rid r1 s1 = (e2, r2, s2)" by (metis prod_cases3)
  obtain e3 s3 where cp: "checkpoint w r2 s2 = (e3, s3)" by fastforce
  note run = u [unfolded update_case_def g option.case Let_def r1_def [symmetric] f prod.case wr cp]
  have e: "e1 = None" "e2 = None" "e3 = None" "s' = save_report r2 s3" using run by (auto split: option.splits)
  have "r2 = r1" using write_reports_renews wr e(2) by blast
  moreover have "br_BatchRunID r1 = rid" "br_Cases r1 = (br_Cases r)[n := item]" using r by (simp_all add: r1_def)
  ultimately have "bt_runs s' rid = Some (clone_report r1)" using e(4) by (simp add: save_report_def)
  moreover have "list_all2 case_reported (take (Suc n) ps) (take (Suc n) ((br_Cases r)[n := item]))"
    using r n item by (simp add: take_Suc_conv_app_nth list_all2_appendI)
  ultimately show ?thesis using r \<open>br_Cases r1 = _\<close> \<open>br_BatchRunID r1 = rid\<close> by (simp add: cases_reported_def)
qed

lemma apply_case_result_reports:
  "cr_Status res \<in> {StatusPassed, StatusFailed} \<Longrightarrow> case_reported p (apply_case_result w s res (plan_case_report st p))"
  by (simp add: case_reported_def apply_case_result_def plan_case_report_def Let_def)

lemma materialization_failure_reports:
  assumes "record_materialization_failure w rid n p t m s = (True, s')" "cases_reported rid ps n s" "n < length ps" "ps ! n = p"
  shows "cases_reported rid ps (Suc n) s'"
proof -
  obtain e1 s1 where f: "require_fence w rid s = (e1, s1)" by fastforce
  obtain res e2 s2 where ev: "write_failure_evidence w rid p (batch_case_run_id rid (cp_StepID p) (cp_ID p)) t m s1 = ((res, e2), s2)"
    by (metis prod.exhaust)
  obtain e3 s3 where c: "record_composite w rid None (Case_Records p res) s2 = (e3, s3)" by fastforce
  define item where "item = apply_case_result w s3 res (plan_case_report StatusFailed p)"
  obtain e4 s4 where u: "update_case w rid n item s3 = (e4, s4)" by fastforce
  have e: "e1 = None" "e2 = None" "e3 = None" "e4 = None" "s' = s4"
    using assms(1) f ev c u by (auto simp: record_materialization_failure_def item_def split: option.splits)
  note ev1 = failure_evidence_renews [OF ev [unfolded e(2)]]
  have "renewed_report rid s s3"
    using fence_renews [OF f [unfolded e(1)]] ev1 composite_renews [OF c [unfolded e(3)]] renewed_report_trans by metis
  then have "cases_reported rid ps n s3" using assms(2) cases_reported_renewed by blast
  moreover have "case_reported (ps ! n) item" using ev1 assms(4) by (simp add: item_def apply_case_result_reports)
  ultimately show ?thesis using update_case_reports [OF _ assms(3) _ u [unfolded e(4)]] e(5) by simp
qed

lemma case_result_reports:
  assumes "record_case_result w rid n p res s = (True, s')" "cases_reported rid ps n s" "n < length ps" "ps ! n = p"
    and "cr_Status res \<in> {StatusPassed, StatusFailed}"
  shows "cases_reported rid ps (Suc n) s'"
proof -
  define item where "item = apply_case_result w s res (plan_case_report StatusFailed p)"
  obtain e1 s1 where c: "record_composite w rid None (Case_Records p res) s = (e1, s1)" by fastforce
  define tr where "tr = (if bc_Status item = StatusPassed \<and> \<not> blank (bw_workflow w) \<and> \<not> blank (cp_StepID p)
    then trace_steps w rid (bw_records w (moment s1) None (Trace_Records p res)) None s1 else (None, s1))"
  obtain e2 s2 where t: "tr = (e2, s2)" by fastforce
  obtain e3 s3 where u: "update_case w rid n item s2 = (e3, s3)" by fastforce
  note run = assms(1) [unfolded record_case_result_def Let_def item_def [symmetric] c prod.case tr_def [symmetric] t u]
  have e: "e1 = None" "e2 = None" "e3 = None" "s' = s3" using run by (auto split: option.splits)
  have "renewed_report rid s1 s2" using t [unfolded tr_def e(2)] trace_renews by (auto split: if_splits)
  then have "renewed_report rid s s2" using composite_renews [OF c [unfolded e(1)]] renewed_report_trans by blast
  then have "cases_reported rid ps n s2" using assms(2) cases_reported_renewed by blast
  moreover have "case_reported (ps ! n) item" using assms(4,5) by (simp add: item_def apply_case_result_reports)
  ultimately show ?thesis using update_case_reports [OF _ assms(3) _ u [unfolded e(3)]] e(4) by simp
qed

lemma run_batch_case_reports:
  assumes "run_batch_case w rid n p ov s = (Some ov', s')" "cases_reported rid ps n s" "n < length ps" "ps ! n = p"
  shows "cases_reported rid ps (Suc n) s'"
proof -
  obtain e1 s1 where f1: "require_fence w rid s = (e1, s1)" by fastforce
  have e1: "e1 = None" using assms(1) f1 by (auto simp: run_batch_case_def split: option.splits)
  have k1: "cases_reported rid ps n s1" using assms(2) fence_renews [OF f1 [unfolded e1]] by (rule cases_reported_renewed)
  show ?thesis
  proof (cases "materialize_case w p ov s1")
    case (Inl m)
    obtain go s2 where mf: "record_materialization_failure w rid n p (time_now w s1) m s1 = (go, s2)" by fastforce
    have "go \<and> s' = s2" using assms(1) f1 e1 Inl mf by (auto simp: run_batch_case_def split: if_splits)
    then show ?thesis using materialization_failure_reports [of w rid n p] k1 assms(3,4) mf by simp
  next
    case (Inr y)
    obtain path base merged where y: "y = (path, base, merged)" by (metis prod_cases3)
    obtain e2 s2 where f2: "require_fence w rid s1 = (e2, s2)" by fastforce
    obtain res e3 s3 where rc: "run_api_case w rid path base (cp_EvidenceDir p) (batch_case_run_id rid (cp_StepID p) (cp_ID p)) merged
        (safe_execution_timeout (cp_TimeoutSeconds p)) s2 = ((res, e3), s3)" by (metis prod.exhaust)
    define item where "item = apply_case_result w s3 res (plan_case_report StatusFailed p)"
    obtain go4 s4 where mf: "record_materialization_failure w rid n p (time_now w s2) (bw_error_text w (the e3)) s3 = (go4, s4)" by fastforce
    obtain e5 s5 where u: "update_case w rid n item s3 = (e5, s5)" by fastforce
    obtain go6 s6 where r: "record_case_result w rid n p res s3 = (go6, s6)" by fastforce
    note run = assms(1) [unfolded run_batch_case_def Let_def f1 e1 prod.case option.case Inr y sum.case f2 rc item_def [symmetric] u r]
    have e2: "e2 = None" using run by (auto split: option.splits)
    have k2: "cases_reported rid ps n s2" using k1 fence_renews [OF f2 [unfolded e2]] by (rule cases_reported_renewed)
    note ran = api_case_renews [OF rc batch_run_id_not_blank]
    show ?thesis
    proof (cases e3)
      case None
      then have "go6 \<and> s' = s6" using run e2 by (auto split: if_splits)
      moreover have "cases_reported rid ps n s3" using k2 ran None cases_reported_renewed by blast
      ultimately show ?thesis using case_result_reports [of w rid n p res s3] ran None assms(3,4) r by simp
    next
      case (Some x)
      show ?thesis
      proof (cases "blank (cr_RunID res)")
        case True
        then have "go4 \<and> s' = s4" using run e2 Some mf by (auto split: if_splits)
        moreover have "s3 = s2" using ran Some True by simp
        ultimately show ?thesis using materialization_failure_reports [of w rid n p] k2 assms(3,4) mf by simp
      next
        case False
        then have "cr_FailureCategory res = ''evidence-persistence-error''" using ran Some by simp
        then show ?thesis using run e2 Some False by simp
      qed
    qed
  qed
qed

lemma run_cases_reports:
  "run_cases w rid n qs ov s = (True, s') \<Longrightarrow> cases_reported rid ps n s \<Longrightarrow> drop n ps = qs \<Longrightarrow> n \<le> length ps \<Longrightarrow>
   cases_reported rid ps (length ps) s'"
proof (induction qs arbitrary: n ov s)
  case (Cons q qs)
  obtain x s1 where c: "run_batch_case w rid n q ov s = (x, s1)" by fastforce
  have "drop (Suc n) ps = tl (drop n ps)" by (simp add: drop_Suc tl_drop)
  moreover have "n < length ps" using Cons.prems(3) by (cases "n < length ps") simp_all
  ultimately have n: "n < length ps" "ps ! n = q" "drop (Suc n) ps = qs"
    using Cons.prems(3) nth_via_drop [OF Cons.prems(3)] by simp_all
  show ?case using Cons.prems c Cons.IH run_batch_case_reports [of w rid n q ov s _ s1] n by (cases x) auto
qed simp

lemma counted:
  "br_Failed (fold count_case cs r) = br_Failed r + int (length (filter (\<lambda>c. bc_Status c = StatusFailed) cs)) \<and>
   br_Completed (fold count_case cs r) =
     br_Completed r + int (length (filter (\<lambda>c. bc_Status c \<in> {StatusPassed, StatusFailed, StatusSkipped}) cs))"
proof (induction cs arbitrary: r)
  case (Cons c cs)
  have "StatusPassed \<noteq> StatusFailed" by (simp add: StatusPassed_def StatusFailed_def)
  then show ?case using Cons [of "count_case c r"] by auto
qed simp

lemma refresh_counts_counts:
  "br_Failed (refresh_counts r) = int (length (filter (\<lambda>c. bc_Status c = StatusFailed) (br_Cases r)))"
  "br_Completed (refresh_counts r) =
     int (length (filter (\<lambda>c. bc_Status c \<in> {StatusPassed, StatusFailed, StatusSkipped}) (br_Cases r)))"
  by (simp_all add: refresh_counts_def counted)

lemma final_report_status:
  "br_Status (final_report w r s) = (if \<exists>c \<in> set (br_Cases r). bc_Status c = StatusFailed then StatusFailed else StatusPassed)"
  "br_OK (final_report w r s) \<longleftrightarrow> \<not> (\<exists>c \<in> set (br_Cases r). bc_Status c = StatusFailed)"
  "br_Completed (final_report w r s) = br_Completed (refresh_counts r)"
  by (auto simp: final_report_def refresh_counts_counts Let_def filter_empty_conv)

text \<open>
  A batch whose cases were all run ends with a report of every planned case, in the order of the plan, each passed or
  failed; the batch is completed as a whole, and it passes exactly if every case of it passed. Between two cases the
  report in memory changes in nothing but its lease, whatever the heartbeat and other processes do.
\<close>

theorem completed_batch_reports_every_case:
  assumes "run_cases w rid 0 ps [] s = (True, s')"
    and "bt_runs s rid = Some r0" "br_BatchRunID r0 = rid" "length (br_Cases r0) = length ps"
  shows "\<exists>r. bt_runs s' rid = Some r \<and> list_all2 case_reported ps (br_Cases r) \<and>
    br_Completed (final_report w r s') = int (length ps) \<and>
    (br_Status (final_report w r s') = StatusPassed \<longleftrightarrow> list_all (\<lambda>c. bc_Status c = StatusPassed) (br_Cases r))"
proof -
  have "cases_reported rid ps 0 s" using assms(2-4) by (simp add: cases_reported_def)
  then have "cases_reported rid ps (length ps) s'" using run_cases_reports [OF assms(1)] by simp
  then obtain r where r: "bt_runs s' rid = Some r" "list_all2 case_reported ps (br_Cases r)"
    by (auto simp: cases_reported_def)
  then have st: "bc_Status c \<in> {StatusPassed, StatusFailed}" if "c \<in> set (br_Cases r)" for c
    using that by (auto simp: case_reported_def list_all2_conv_all_nth in_set_conv_nth)
  then have "filter (\<lambda>c. bc_Status c \<in> {StatusPassed, StatusFailed, StatusSkipped}) (br_Cases r) = br_Cases r" by (intro filter_True) auto
  then have "br_Completed (final_report w r s') = int (length ps)"
    using r list_all2_lengthD [of case_reported ps "br_Cases r"] by (simp add: final_report_status refresh_counts_counts)
  moreover have ne: "StatusPassed \<noteq> StatusFailed" by (simp add: StatusPassed_def StatusFailed_def)
  have "br_Status (final_report w r s') = StatusPassed \<longleftrightarrow> list_all (\<lambda>c. bc_Status c = StatusPassed) (br_Cases r)"
    using st by (simp add: final_report_status list_all_iff) (metis ne)
  ultimately show ?thesis using r by blast
qed

section \<open>Recovery\<close>

lemma hydrate_status: "br_Status (hydrate_report tf run r) = (if blank (xr_Status run) then br_Status r else xr_Status run)"
  by (simp add: hydrate_report_def Let_def)

lemma decoded_status:
  assumes "decode_stored_report tf run = Some r" "\<not> blank (br_BatchRunID r)"
  shows "br_Status r = xr_Status run \<or> blank (xr_Status run)"
proof -
  obtain r0 where r0: "(if blank (br_BatchRunID r0) then Some r0 else if br_BatchRunID r0 \<noteq> xr_ID run then None
      else Option.bind (decode_lease (xr_SummaryJSON run)) (\<lambda>l. Some (hydrate_report tf run (r0\<lparr>br_lease := l\<rparr>)))) = Some r"
    using assms(1) unfolding decode_stored_report_def bind_eq_Some_conv by blast
  then obtain l where "r = hydrate_report tf run (r0\<lparr>br_lease := l\<rparr>)"
    using assms(2) by (auto simp: bind_eq_Some_conv split: if_splits)
  then show ?thesis by (simp add: hydrate_status)
qed

lemma swap_run_status:
  assumes "swap_run w current u s = (None, s')" "xr_ID u = rid"
  shows "\<exists>row. bt_db s' rid = Some row \<and> xr_Status row = xr_Status u"
proof -
  let ?u = "u\<lparr>xr_UpdatedAt := next_revision (xr_UpdatedAt current) (time_now w s)\<rparr>"
  obtain a where st: "run_statement w (compare_and_swap_run (bw_dialect w) (time_now w s) (xr_UpdatedAt current) StatusRunning ?u) s = (Inr a, s')"
    using assms(1) by (auto simp: swap_run_def split: prod.splits sum.splits)
  from st show ?thesis
  proof (cases rule: run_statement_db)
    case (applied r)
    then have "compare_and_swap_run (bw_dialect w) (time_now w s) (xr_UpdatedAt current) StatusRunning ?u
        (bw_commits w (bt_step s) (bt_db s)) = (Inr a, bt_db s')" by auto
    then show ?thesis using assms(2) by (auto dest!: swap_result simp: prepare_run_texts_def)
  qed auto
qed

lemma recovered:
  "recover_report w rid n s = (Report_Found r, s') \<Longrightarrow>
   (\<exists>row. bt_db s' rid = Some row \<and> (xr_Status row = br_Status r \<or> blank (xr_Status row))) \<and>
   (br_Status r = StatusRunning \<longrightarrow> lease_active_at (bw_times w) (br_lease r) (time_now w s'))"
proof (induction n arbitrary: s)
  case (Suc n)
  obtain cur s1 where rs: "run_statement w (\<lambda>db. (get_run (bw_dialect w) rid db, db)) s = (cur, s1)" by fastforce
  obtain run where c: "cur = Inr run" using Suc.prems rs by (cases cur) (auto split: if_splits)
  obtain row where row: "bt_db s1 rid = Some row" "run = (scan_run (bw_dialect w) row)\<lparr>xr_ID := rid\<rparr>"
    using read_row rs c by blast
  obtain r0 where d: "decode_stored_report (bw_times w) run = Some r0" using Suc.prems rs c by (auto split: option.splits)
  have nb: "\<not> blank (br_BatchRunID r0)" using Suc.prems rs c d by (auto split: if_splits)
  show ?case
  proof (cases "br_Status r0 \<noteq> StatusRunning \<or> lease_active_at (bw_times w) (br_lease r0) (time_now w s1)")
    case True
    then have "r = r0 \<and> s' = s1" using Suc.prems rs c d nb by auto
    then show ?thesis using decoded_status [OF d nb] row True by auto
  next
    case False
    define r' where "r' = mark_interrupted_report (now_text w s1) r0"
    obtain e s2 where sw: "swap_run w run (apply_report_to_run (bw_times w) (time_now w s1) r' run) s1 = (e, s2)" by fastforce
    have st: "br_Status r' = StatusFailed"
    proof -
      have "br_Status (fold count_case cs x) = br_Status x" for cs x by (induction cs arbitrary: x) (simp_all add: Let_def)
      then show ?thesis by (simp add: r'_def mark_interrupted_report_def refresh_counts_def append_error_def Let_def)
    qed
    show ?thesis
    proof (cases e)
      case None
      then have "r = r' \<and> s' = s2" using Suc.prems rs c d nb False sw by (auto simp: r'_def)
      moreover have "\<exists>row. bt_db s2 rid = Some row \<and> xr_Status row = StatusFailed"
        using swap_run_status [OF sw [unfolded None], of rid] row(2) st by (simp add: apply_report_to_run_def)
      ultimately show ?thesis using st by (auto simp: StatusFailed_def StatusRunning_def)
    next
      case (Some x)
      then have "recover_report w rid n s2 = (Report_Found r, s')"
        using Suc.prems rs c d nb False sw by (auto simp: r'_def split: if_splits)
      then show ?thesis by (rule Suc.IH)
    qed
  qed
qed simp

section \<open>Properties of a batch\<close>

text \<open>
  C9. Whatever a batch does after it started, it does right after the row of the batch was found running under its own
  lease and the lease was renewed, by a statement that nothing but its own effects follow: every request it sends,
  every file it writes and every record it stores. Requests wait at most 600 seconds.
\<close>

theorem batch_effects_hold_lease:
  assumes "own_runs w rid s" "bt_log s = []"
  shows "list_all (held_event w) (bt_log (run_batch w rid ps s))"
proof -
  have "lease_monitor.inv w rid s" unfolding lease_monitor.inv_def using assms by simp
  then have "lease_monitor.inv w rid (run_batch w rid ps s)" by (rule lease_monitor.inv_run_batch)
  then show ?thesis unfolding lease_monitor.inv_def by blast
qed

text \<open>
  C10. A batch that another process recovered, or that is final for another reason, is left alone by the process that
  ran it: it sends no further request, writes no file, stores no record and does not change the row. The other
  connections may do to the table whatever moves its rows forward.
\<close>

theorem recovered_batch_is_left_alone:
  assumes "stored_report_of w1 rid s1 = (Report_Found r, s2)" "br_Status r \<noteq> StatusRunning"
    and "bt_db s = bt_db s2" "own_runs w rid s" "commits_evolve w" "trim_space rid = rid"
  shows "bt_log (run_batch w rid ps s) = bt_log s \<and> bt_db (run_batch w rid ps s) rid = bt_db s rid"
proof -
  have "recover_report w1 rid 3 s1 = (Report_Found r, s2)"
    using assms(1,6) by (simp add: stored_report_of_def Let_def split: if_splits)
  then obtain row where row: "bt_db s2 rid = Some row" "xr_Status row = br_Status r \<or> blank (xr_Status row)"
    using recovered by blast
  have "\<not> blank StatusRunning" by (simp add: StatusRunning_def blank_iff_all_space is_space_def)
  then have final: "xr_Status row \<noteq> StatusRunning" using row(2) assms(2) by metis
  have "silent_monitor.inv w rid row (bt_log s) s" unfolding silent_monitor.inv_def using assms(3,4) row(1) by simp
  then have "silent_monitor.inv w rid row (bt_log s) (run_batch w rid ps s)" by (rule silent_monitor.inv_run_batch)
  then show ?thesis unfolding silent_monitor.inv_def using final assms(3,5) row(1) by simp
qed

text \<open>
  C11. A batch only moves the rows of the table of runs forward: a row stays as it is, or it was running and its
  revision grew. So no batch ever changes a run that is final, its own or another, and no run is lost.
\<close>

theorem batch_rows_move_forward:
  assumes "own_runs w rid s" "commits_evolve w"
  shows "runs_evolve (bw_dialect w) (bt_db s) (bt_db (run_batch w rid ps s))"
proof -
  have "forward_monitor.inv w rid (bt_db s) s" unfolding forward_monitor.inv_def using assms by simp
  then have "forward_monitor.inv w rid (bt_db s) (run_batch w rid ps s)" by (rule forward_monitor.inv_run_batch)
  then show ?thesis unfolding forward_monitor.inv_def using assms(2) by simp
qed

lemma recovery_evolves: "commits_evolve w \<Longrightarrow> recover_report w rid n s = (res, s') \<Longrightarrow> runs_evolve (bw_dialect w) (bt_db s) (bt_db s')"
proof (induction n arbitrary: s)
  case (Suc n)
  obtain cur s1 where rs: "run_statement w (\<lambda>db. (get_run (bw_dialect w) rid db, db)) s = (cur, s1)" by fastforce
  note e1 = read_evolves [OF Suc.prems(1) rs]
  show ?case
  proof (cases "s' = s1")
    case False
    then obtain run r0 where c: "cur = Inr run" "decode_stored_report (bw_times w) run = Some r0"
      using Suc.prems(2) rs by (auto split: sum.splits option.splits if_splits)
    define u where "u = apply_report_to_run (bw_times w) (time_now w s1) (mark_interrupted_report (now_text w s1) r0) run"
    obtain e s2 where sw: "swap_run w run u s1 = (e, s2)" by fastforce
    obtain row where row: "bt_db s1 rid = Some row" "run = (scan_run (bw_dialect w) row)\<lparr>xr_ID := rid\<rparr>"
      using read_row rs c(1) by blast
    have "xr_ID u = rid" using row(2) by (simp add: u_def apply_report_to_run_def)
    then have e2: "runs_evolve (bw_dialect w) (bt_db s) (bt_db s2)"
      using swap_evolves [OF Suc.prems(1) row _ sw] e1 runs_evolve_trans by blast
    have "s' = s2 \<or> recover_report w rid n s2 = (res, s')"
      using Suc.prems(2) rs c False sw by (auto simp: u_def Let_def split: option.splits if_splits)
    then show ?thesis using e2 Suc.IH [OF Suc.prems(1)] runs_evolve_trans by blast
  qed (use e1 in simp)
qed simp

text \<open>
  C12. Asking for the report of a batch returns what is stored: the status of the report is that of the row, and a report
  that says that the batch runs has a lease that is active at that moment. It takes over nothing but a running row, by a
  swap that fails if the row was renewed meanwhile.
\<close>

theorem recovery_spares_live_batches:
  assumes "stored_report_of w rid s = (Report_Found r, s')" "trim_space rid = rid" "commits_evolve w"
  shows "(\<exists>row. bt_db s' rid = Some row \<and> (xr_Status row = br_Status r \<or> blank (xr_Status row))) \<and>
    (br_Status r = StatusRunning \<longrightarrow> lease_active_at (bw_times w) (br_lease r) (time_now w s')) \<and>
    runs_evolve (bw_dialect w) (bt_db s) (bt_db s')"
proof -
  have "recover_report w rid 3 s = (Report_Found r, s')"
    using assms(1,2) by (simp add: stored_report_of_def Let_def split: if_splits)
  then show ?thesis using recovered recovery_evolves [OF assms(3)] by blast
qed

section \<open>A batch to apply the properties to\<close>

definition demo_plan :: case_plan where
  "demo_plan = \<lparr>cp_ID = ''login'', cp_DisplayName = [], cp_Scenario = [], cp_NodeID = ''n'', cp_NodeDisplayName = [], cp_Operation = [],
     cp_Method = ''GET'', cp_Path = ''/'', cp_StepID = [], cp_CasePath = ''c.json'', cp_BaseURL = ''http://h'', cp_EvidenceDir = ''e'',
     cp_TimeoutSeconds = 0, cp_Overrides = [], cp_Execution = False\<rparr>"

definition demo_lease :: batch_lease where
  "demo_lease = \<lparr>bl_HolderIdentity = ''p'', bl_Token = ''t'', bl_RenewTime = ''x'', bl_LeaseDurationMillis = 1\<rparr>"

definition demo_report :: batch_report where
  "demo_report = \<lparr>br_OK = True, br_BatchRunID = ''batch.b'', br_RequestID = [], br_EnvironmentID = [], br_ProfileID = [], br_CaseIDs = [],
     br_NodeIDs = None, br_WorkflowID = [], br_Suite = None, br_Status = StatusRunning, br_Total = 1, br_Completed = 0, br_Passed = 0,
     br_Failed = 0, br_Skipped = 0, br_ReportURL = [], br_StartedAt = [], br_FinishedAt = [], br_Nodes = [],
     br_Cases = [plan_case_report StatusRunning demo_plan], br_Acceptance = [], br_Error = [], br_FailureCategory = [],
     br_HTMLReportPath = [], br_HTMLReportURL = [], br_JUnitReportPath = [], br_JUnitReportURL = [], br_ArtifactManifestPath = [],
     br_ArtifactManifestURL = [], br_FailureSummaryPath = [], br_FailureSummaryURL = [], br_lease = demo_lease\<rparr>"

definition demo_row :: "string \<Rightarrow> string \<Rightarrow> stored_run" where
  "demo_row status summary = \<lparr>xr_ID = ''batch.b'', xr_ProfileID = [], xr_EnvironmentID = [], xr_WorkflowID = [], xr_Status = status,
     xr_EvidenceRoot = [], xr_SummaryJSON = summary, xr_TestPlanMapID = [], xr_TestPlanPathID = [], xr_PlannerSummaryJSON = ''{}'',
     xr_StartedAt = 0, xr_FinishedAt = 0, xr_CreatedAt = 0, xr_UpdatedAt = 1000\<rparr>"

text \<open>A world in which the database is reachable for \<open>k\<close> statements, and every request is answered with status 200.\<close>

definition demo_world :: "nat \<Rightarrow> batch_world" where
  "demo_world k = \<lparr>bw_dialect = \<lparr>sd_read = (\<lambda>t. max 0 (truncate_us t)), sd_after = (\<lambda>a b. b < a)\<rparr>,
     bw_times = \<lparr>tf_format = (\<lambda>_. ''x''), tf_parse = (\<lambda>_. Some 0)\<rparr>, bw_clock = (\<lambda>n. 2000), bw_commits = (\<lambda>n db. db),
     bw_outage = (\<lambda>n. if n < k then None else Some Before_Statement), bw_beat = (\<lambda>n. False), bw_error_text = (\<lambda>e. ''e''),
     bw_owner = ''p'', bw_token = ''t'', bw_leaseMillis = 1, bw_write_report = (\<lambda>n k r. None), bw_write_file = (\<lambda>n p. None),
     bw_read_case = (\<lambda>n p. Inr \<lparr>cf_ID = ''login'', cf_Method = ''GET'', cf_Path = ''/'', cf_ExpectedStatusCodes = [200],
       cf_ResponseContains = [], cf_ResponseNotContains = []\<rparr>),
     bw_read_assertions = (\<lambda>n p. []), bw_materialize = (\<lambda>n p. Inl []), bw_http = (\<lambda>n f b ov. Answer 200 []),
     bw_records = (\<lambda>n r c. []), bw_exports = (\<lambda>n p e. []), bw_acceptance = (\<lambda>n r. []), bw_profile = [], bw_workflow = [],
     bw_rules = []\<rparr>"

definition demo_batch :: batch_state where
  "demo_batch = \<lparr>bt_db = [''batch.b'' \<mapsto> demo_row StatusRunning (obj_text [(''_lease'', lease_json demo_lease)])],
     bt_runs = [''batch.b'' \<mapsto> demo_report], bt_step = 0, bt_log = []\<rparr>"

definition demo_final :: batch_state where
  "demo_final = \<lparr>bt_db = [''batch.b'' \<mapsto> demo_row StatusFailed (obj_text [(''batchRunId'', JStr ''batch.b'')])],
     bt_runs = Map.empty, bt_step = 0, bt_log = []\<rparr>"

lemma demo_effects:
  "map be_effect (bt_log (run_batch (demo_world 4) ''batch.b'' [] demo_batch)) = [Report_Written 0]"
  by code_simp

lemma demo_stored:
  "case fst (stored_report_of (demo_world 9) ''batch.b'' demo_final) of Report_Found r \<Rightarrow> br_Status r = StatusFailed | _ \<Rightarrow> False"
  by code_simp

lemma demo_found: "\<exists>r s'. stored_report_of (demo_world 9) ''batch.b'' demo_final = (Report_Found r, s') \<and> br_Status r = StatusFailed"
  using demo_stored by (cases "stored_report_of (demo_world 9) ''batch.b'' demo_final") (auto split: stored_report.splits)

lemma demo_evolves: "commits_evolve (demo_world k)"
proof -
  define rd :: "time \<Rightarrow> time" where "rd t = max 0 (truncate_us t)" for t
  have z: "truncate_us 0 = 0" "truncate_us microsecond = microsecond" by (simp_all add: truncate_us_def microsecond_def)
  have pos: "0 \<le> truncate_us t" if "0 \<le> t" for t
    using that by (simp add: truncate_us_def microsecond_def zmod_le_nonneg_dividend)
  have "rd t = truncate_us (rd t)" for t by (cases "truncate_us t \<le> 0") (simp_all add: rd_def z max_absorb1 max_absorb2)
  moreover have "truncate_us (rd t + microsecond) = rd t + microsecond" for t
    by (cases "truncate_us t \<le> 0") (simp_all add: rd_def z max_absorb1 max_absorb2)
  moreover have "0 \<le> rd t" "0 \<le> microsecond" for t by (simp_all add: rd_def microsecond_def)
  ultimately have "0 \<le> rd t" "rd (rd t) = rd t" "rd (rd t + microsecond) = rd t + microsecond" for t
    by (simp_all add: rd_def [of "rd _"] rd_def [of "rd _ + _"])
  moreover have "rd (truncate_us t) = truncate_us t" if "0 \<le> t" for t using pos [OF that] by (simp add: rd_def)
  moreover have "sd_read (bw_dialect (demo_world k)) = rd" "bw_commits (demo_world k) n db = db" for n db
    by (simp_all add: demo_world_def rd_def fun_eq_iff)
  ultimately show ?thesis by (simp add: commits_evolve_def keeps_revisions_def)
qed

lemma demo_own: "own_runs (demo_world k) ''batch.b'' (s\<lparr>bt_runs := [''batch.b'' \<mapsto> demo_report]\<rparr>)"
  by (simp add: own_runs_def own_report_def own_lease_def demo_report_def demo_lease_def demo_world_def)

lemma demo_batch_own: "own_runs (demo_world k) ''batch.b'' demo_batch"
  using demo_own [of k demo_batch] by (simp add: demo_batch_def)

lemma demo_trim: "trim_space ''batch.b'' = ''batch.b''"
  by code_simp

theorem batch_effects_hold_lease_witness:
  "bt_log demo_batch = [] \<and> map be_effect (bt_log (run_batch (demo_world 4) ''batch.b'' [] demo_batch)) = [Report_Written 0] \<and>
   list_all (held_event (demo_world 4)) (bt_log (run_batch (demo_world 4) ''batch.b'' [] demo_batch))"
proof -
  have "bt_log demo_batch = []" by (simp add: demo_batch_def)
  then show ?thesis using batch_effects_hold_lease [OF demo_batch_own] demo_effects by simp
qed

theorem recovered_batch_is_left_alone_witness:
  "\<exists>r s2. stored_report_of (demo_world 9) ''batch.b'' demo_final = (Report_Found r, s2) \<and> br_Status r = StatusFailed \<and>
     bt_log (run_batch (demo_world 9) ''batch.b'' [demo_plan] (s2\<lparr>bt_runs := [''batch.b'' \<mapsto> demo_report]\<rparr>)) = bt_log s2"
proof -
  obtain r s2 where f: "stored_report_of (demo_world 9) ''batch.b'' demo_final = (Report_Found r, s2)" "br_Status r = StatusFailed"
    using demo_found by blast
  have "br_Status r \<noteq> StatusRunning" using f(2) by (simp add: StatusFailed_def StatusRunning_def)
  then show ?thesis
    using recovered_batch_is_left_alone [OF f(1) _ _ demo_own demo_evolves demo_trim] f
    by (intro exI conjI) auto
qed

theorem batch_rows_move_forward_witness:
  "runs_evolve (bw_dialect (demo_world 9)) (bt_db demo_batch) (bt_db (run_batch (demo_world 9) ''batch.b'' [demo_plan] demo_batch))"
  by (rule batch_rows_move_forward [OF demo_batch_own demo_evolves])

theorem recovery_spares_live_batches_witness:
  "\<exists>r s2 row. stored_report_of (demo_world 9) ''batch.b'' demo_final = (Report_Found r, s2) \<and> bt_db s2 ''batch.b'' = Some row \<and>
     (xr_Status row = br_Status r \<or> blank (xr_Status row))"
  using demo_found recovery_spares_live_batches [OF _ demo_trim demo_evolves] by blast

end
