(* ===== verification/Go_Stable.thy ===== *)
theory Go_Stable
  imports Go_Sort
begin

text \<open>
  The algorithm of \<open>sort.SliceStable\<close>: insertion sort on blocks of twenty, then merging neighbouring blocks by
  rotations. It matters where a \<open>less\<close> function is not a strict weak order, so that the result is not determined
  by being sorted and stable. What holds even then: the result is a permutation, and it is sorted by every key that
  \<open>less\<close> respects.
\<close>

section \<open>Insertion and search\<close>

fun insert_back :: "('a \<Rightarrow> 'a \<Rightarrow> bool) \<Rightarrow> 'a \<Rightarrow> 'a list \<Rightarrow> 'a list" where
  "insert_back lt x [] = [x]"
| "insert_back lt x (y # ys) = (if lt x y then y # insert_back lt x ys else x # y # ys)"

definition insertion_sort :: "('a \<Rightarrow> 'a \<Rightarrow> bool) \<Rightarrow> 'a list \<Rightarrow> 'a list" where
  "insertion_sort lt xs = rev (fold (insert_back lt) xs [])"

function first_not :: "(nat \<Rightarrow> bool) \<Rightarrow> nat \<Rightarrow> nat \<Rightarrow> nat" where
  "first_not P i j = (if i < j then let h = (i + j) div 2 in if P h then first_not P (Suc h) j else first_not P i h else i)"
  by pat_completeness auto
termination by (relation "measure (\<lambda>(P, i, j). j - i)") auto

declare first_not.simps [simp del]

lemma first_not_spec:
  "i \<le> j \<Longrightarrow> i \<le> first_not P i j \<and> first_not P i j \<le> j \<and>
     (i < first_not P i j \<longrightarrow> P (first_not P i j - 1)) \<and> (first_not P i j < j \<longrightarrow> \<not> P (first_not P i j))"
proof (induction P i j rule: first_not.induct)
  case (1 P i j)
  show ?case
  proof (cases "i < j")
    case True
    let ?h = "(i + j) div 2"
    have h: "i \<le> ?h" "?h < j" using True by auto
    show ?thesis
    proof (cases "P ?h")
      case p: True
      let ?k = "first_not P (Suc ?h) j"
      have e: "first_not P i j = ?k" using True p by (subst first_not.simps) (simp add: Let_def)
      have ih: "Suc ?h \<le> ?k \<and> ?k \<le> j \<and> (Suc ?h < ?k \<longrightarrow> P (?k - 1)) \<and> (?k < j \<longrightarrow> \<not> P ?k)"
        using 1(1) [OF True refl p] h by simp
      have "P (?k - 1)"
      proof (cases "Suc ?h < ?k")
        case False
        then have "?k - 1 = ?h" using ih by linarith
        then show ?thesis using p by simp
      qed (use ih in blast)
      then show ?thesis using ih h unfolding e by linarith
    next
      case p: False
      let ?k = "first_not P i ?h"
      have e: "first_not P i j = ?k" using True p by (subst first_not.simps) (simp add: Let_def)
      have ih: "i \<le> ?k \<and> ?k \<le> ?h \<and> (i < ?k \<longrightarrow> P (?k - 1)) \<and> (?k < ?h \<longrightarrow> \<not> P ?k)"
        using 1(2) [OF True refl p] h by simp
      have "\<not> P ?k"
      proof (cases "?k < ?h")
        case False
        then have "?k = ?h" using ih by linarith
        then show ?thesis using p by simp
      qed (use ih in blast)
      then show ?thesis using ih h unfolding e by linarith
    qed
  qed (use 1 in \<open>simp add: first_not.simps\<close>)
qed

section \<open>Merging\<close>

text \<open>
  \<open>symMerge\<close> of the neighbouring runs \<open>u\<close>, from position \<open>a\<close>, and \<open>v\<close>: how many
  elements of each come before the middle. The recursion halves the length, so the length bounds it.
\<close>

definition sym_split :: "('a \<Rightarrow> 'a \<Rightarrow> bool) \<Rightarrow> nat \<Rightarrow> 'a list \<Rightarrow> 'a list \<Rightarrow> nat \<times> nat" where
  "sym_split lt a u v =
     (let m = a + length u; b = m + length v; mid = (a + b) div 2; n = mid + m;
          after = (\<lambda>c. \<not> lt (v ! (n - 1 - c - m)) (u ! (c - a)));
          s = (if mid < m then first_not after (n - b) mid else first_not after a m)
      in (s - a, n - s - m))"

definition insert_first :: "('a \<Rightarrow> 'a \<Rightarrow> bool) \<Rightarrow> nat \<Rightarrow> 'a list \<Rightarrow> 'a list \<Rightarrow> nat" where
  "insert_first lt a u v = (let m = a + length u in first_not (\<lambda>h. lt (v ! (h - m)) (hd u)) m (m + length v) - m)"

definition insert_last :: "('a \<Rightarrow> 'a \<Rightarrow> bool) \<Rightarrow> nat \<Rightarrow> 'a list \<Rightarrow> 'a list \<Rightarrow> nat" where
  "insert_last lt a u v = first_not (\<lambda>h. \<not> lt (hd v) (u ! (h - a))) a (a + length u) - a"

fun sym_merge :: "('a \<Rightarrow> 'a \<Rightarrow> bool) \<Rightarrow> nat \<Rightarrow> nat \<Rightarrow> 'a list \<Rightarrow> 'a list \<Rightarrow> 'a list" where
  "sym_merge lt 0 a u v = u @ v"
| "sym_merge lt (Suc fuel) a u v =
     (if u = [] \<or> v = [] then u @ v
      else if length u = 1 then take (insert_first lt a u v) v @ u @ drop (insert_first lt a u v) v
      else if length v = 1 then take (insert_last lt a u v) u @ v @ drop (insert_last lt a u v) u
      else (case sym_split lt a u v of (i, j) \<Rightarrow>
          sym_merge lt fuel a (take i u) (take j v) @ sym_merge lt fuel (a + i + j) (drop i u) (drop j v)))"

fun merge_pairs :: "('a \<Rightarrow> 'a \<Rightarrow> bool) \<Rightarrow> nat \<Rightarrow> 'a list list \<Rightarrow> 'a list list" where
  "merge_pairs lt a (u # v # bs) =
     sym_merge lt (length u + length v) a u v # merge_pairs lt (a + length u + length v) bs"
| "merge_pairs lt a bs = bs"

lemma length_merge_pairs: "2 * length (merge_pairs lt a bs) \<le> Suc (length bs)"
  by (induction lt a bs rule: merge_pairs.induct) auto

function merge_blocks :: "('a \<Rightarrow> 'a \<Rightarrow> bool) \<Rightarrow> 'a list list \<Rightarrow> 'a list list" where
  "merge_blocks lt bs = (if length bs \<le> 1 then bs else merge_blocks lt (merge_pairs lt 0 bs))"
  by pat_completeness auto
termination
proof (relation "measure (\<lambda>(lt, bs). length bs)")
  fix lt :: "'a \<Rightarrow> 'a \<Rightarrow> bool" and bs :: "'a list list"
  assume "\<not> length bs \<le> 1"
  then have "length (merge_pairs lt 0 bs) < length bs" using length_merge_pairs [of lt 0 bs] by linarith
  then show "((lt, merge_pairs lt 0 bs), lt, bs) \<in> measure (\<lambda>(lt, bs). length bs)" by simp
qed simp

declare merge_blocks.simps [simp del]

function blocks_of :: "'a list \<Rightarrow> 'a list list" where
  "blocks_of xs = (if xs = [] then [] else take 20 xs # blocks_of (drop 20 xs))"
  by pat_completeness auto
termination by (relation "measure length") auto

declare blocks_of.simps [simp del]

definition slice_stable :: "('a \<Rightarrow> 'a \<Rightarrow> bool) \<Rightarrow> 'a list \<Rightarrow> 'a list" where
  "slice_stable lt xs = concat (merge_blocks lt (map (insertion_sort lt) (blocks_of xs)))"

section \<open>The result is a permutation\<close>

lemma mset_insert_back [simp]: "mset (insert_back lt x xs) = add_mset x (mset xs)"
  by (induction xs) simp_all

lemma mset_insertion_sort [simp]: "mset (insertion_sort lt xs) = mset xs"
proof -
  have "mset (fold (insert_back lt) xs acc) = mset xs + mset acc" for acc
    by (induction xs arbitrary: acc) simp_all
  then show ?thesis by (simp add: insertion_sort_def)
qed

lemma mset_split: "mset (take i xs) + mset (drop i xs) = mset xs"
  by (metis append_take_drop_id mset_append)

lemma mset_sym_merge [simp]: "mset (sym_merge lt fuel a u v) = mset u + mset v"
proof (induction fuel arbitrary: a u v)
  case (Suc fuel)
  obtain i j where ij: "sym_split lt a u v = (i, j)" by fastforce
  have "mset (take i u) + mset (take j v) + (mset (drop i u) + mset (drop j v)) = mset u + mset v"
    using mset_split [of i u] mset_split [of j v] by (metis add.assoc add.left_commute)
  moreover have "mset (take k v) + (mset u + mset (drop k v)) = mset u + mset v" for k
    using mset_split [of k v] by (metis add.left_commute)
  moreover have "mset (take k u) + (mset v + mset (drop k u)) = mset u + mset v" for k
    using mset_split [of k u] by (metis add.commute add.left_commute)
  ultimately show ?case by (simp add: Suc ij)
qed simp

lemma mset_merge_pairs: "mset (concat (merge_pairs lt a bs)) = mset (concat bs)"
  by (induction lt a bs rule: merge_pairs.induct) simp_all

lemma mset_merge_blocks: "mset (concat (merge_blocks lt bs)) = mset (concat bs)"
proof (induction lt bs rule: merge_blocks.induct)
  case (1 lt bs)
  then show ?case by (subst merge_blocks.simps) (simp add: mset_merge_pairs)
qed

lemma concat_blocks_of: "concat (blocks_of xs) = xs"
proof (induction xs rule: blocks_of.induct)
  case (1 xs)
  then show ?case by (subst blocks_of.simps) simp
qed

lemma mset_slice_stable [simp]: "mset (slice_stable lt xs) = mset xs"
proof -
  have "mset (concat (map (insertion_sort lt) bs)) = mset (concat bs)" for bs
    by (induction bs) simp_all
  then show ?thesis by (simp add: slice_stable_def mset_merge_blocks concat_blocks_of)
qed

lemma set_slice_stable [simp]: "set (slice_stable lt xs) = set xs"
  by (metis mset_slice_stable set_mset_mset)

lemma length_slice_stable [simp]: "length (slice_stable lt xs) = length xs"
  by (metis mset_slice_stable size_mset)

section \<open>The result is sorted by a key\<close>

definition keeps_key :: "('a \<Rightarrow> 'a \<Rightarrow> bool) \<Rightarrow> ('a \<Rightarrow> 'k::linorder) \<Rightarrow> bool" where
  "keeps_key lt key \<longleftrightarrow> (\<forall>x y. (key x < key y \<longrightarrow> lt x y) \<and> (lt x y \<longrightarrow> key x \<le> key y))"

lemma keeps_keyD:
  assumes "keeps_key lt key"
  shows "lt x y \<Longrightarrow> key x \<le> key y" "\<not> lt x y \<Longrightarrow> key y \<le> key x"
  using assms unfolding keeps_key_def by (metis, metis leI)

lemma insertion_sort_sorted:
  assumes lt: "keeps_key lt key"
  shows "sorted (map key (insertion_sort lt xs))"
proof -
  have ins: "sorted_wrt (\<ge>) (map key (insert_back lt x acc))" if "sorted_wrt (\<ge>) (map key acc)" for x acc
    using that
  proof (induction acc)
    case (Cons y ys)
    have s: "set (insert_back lt x ys) = insert x (set ys)"
      using mset_insert_back [of lt x ys] by (metis set_mset_add_mset_insert set_mset_mset)
    show ?case using Cons keeps_keyD [OF lt, of x y] s by auto
  qed simp
  have "sorted_wrt (\<ge>) (map key (fold (insert_back lt) xs acc))" if "sorted_wrt (\<ge>) (map key acc)" for acc
    using that
  proof (induction xs arbitrary: acc)
    case (Cons x xs)
    show ?case using Cons.IH [OF ins [OF Cons.prems, of x]] by simp
  qed simp
  from this [of "[]"] show ?thesis
    by (simp add: insertion_sort_def rev_map [symmetric] sorted_wrt_rev)
qed

lemma sorted_cut:
  fixes key :: "'a \<Rightarrow> 'k::linorder"
  assumes "sorted (map key v)"
  shows sorted_cut_left: "(0 < k \<Longrightarrow> k \<le> length v \<Longrightarrow> key (v ! (k - 1)) \<le> c) \<Longrightarrow> k \<le> length v \<Longrightarrow> y \<in> set (take k v) \<Longrightarrow> key y \<le> c"
    and sorted_cut_right: "(k < length v \<Longrightarrow> c \<le> key (v ! k)) \<Longrightarrow> y \<in> set (drop k v) \<Longrightarrow> c \<le> key y"
proof -
  assume c: "0 < k \<Longrightarrow> k \<le> length v \<Longrightarrow> key (v ! (k - 1)) \<le> c" and k: "k \<le> length v" and y: "y \<in> set (take k v)"
  from y obtain i where i: "i < k" "y = v ! i" using k by (auto simp: in_set_conv_nth)
  then have "key y \<le> key (v ! (k - 1))" using sorted_nth_mono [OF assms, of i "k - 1"] k by simp
  then show "key y \<le> c" using c i k by fastforce
next
  assume c: "k < length v \<Longrightarrow> c \<le> key (v ! k)" and y: "y \<in> set (drop k v)"
  from y obtain i where "i < length v - k" "y = drop k v ! i" by (auto simp: in_set_conv_nth)
  then have i: "k + i < length v" "y = v ! (k + i)" by simp_all
  then have "key (v ! k) \<le> key y" using sorted_nth_mono [OF assms, of k "k + i"] by simp
  then show "c \<le> key y" using c i by fastforce
qed

lemma sorted_take_drop:
  "sorted (map key v) \<Longrightarrow> sorted (map key (take k v)) \<and> sorted (map key (drop k v))"
  by (metis sorted_wrt_take sorted_wrt_drop take_map drop_map)

lemma sorted_inserted:
  assumes "sorted (map key v)" "k \<le> length v" "0 < k \<Longrightarrow> key (v ! (k - 1)) \<le> key x" "k < length v \<Longrightarrow> key x \<le> key (v ! k)"
  shows "sorted (map key (take k v @ [x] @ drop k v))"
proof -
  have l: "key y \<le> key x" if "y \<in> set (take k v)" for y using sorted_cut_left [OF assms(1) _ assms(2) that] assms(3) by blast
  have r: "key x \<le> key y" if "y \<in> set (drop k v)" for y using sorted_cut_right [OF assms(1) assms(4) that] by blast
  show ?thesis using sorted_take_drop [OF assms(1), of k] l r by (auto simp: sorted_append intro: order_trans)
qed

lemma sym_split_spec:
  assumes lt: "keeps_key lt key" and n: "u \<noteq> []" "v \<noteq> []" and s: "sym_split lt a u v = (i, j)"
  shows "i \<le> length u" "j \<le> length v" "i + j = (length u + length v) div 2"
    "0 < i \<Longrightarrow> j < length v \<Longrightarrow> key (u ! (i - 1)) \<le> key (v ! j)"
    "i < length u \<Longrightarrow> 0 < j \<Longrightarrow> key (v ! (j - 1)) \<le> key (u ! i)"
proof -
  define m b mid where "m = a + length u" and "b = m + length v" and "mid = (a + b) div 2"
  define after where "after = (\<lambda>c. \<not> lt (v ! (mid + m - 1 - c - m)) (u ! (c - a)))"
  define lo r where "lo = (if mid < m then mid + m - b else a)" and "r = (if mid < m then mid else m)"
  define p where "p = first_not after lo r"
  have e: "i = p - a" "j = mid + m - p - m"
    using s unfolding sym_split_def Let_def p_def lo_def r_def after_def mid_def b_def m_def by (auto split: if_splits)
  have bounds: "a \<le> lo" "lo \<le> r" "r \<le> m" "r \<le> mid" "mid + m - b \<le> lo" "a < m" "m < b" "a \<le> mid" "mid \<le> b"
    using n unfolding lo_def r_def mid_def b_def m_def by (auto split: if_splits)
  note p = first_not_spec [OF bounds(2), of after, folded p_def]
  have ps: "a \<le> p" "p \<le> m" "p \<le> mid" "mid + m \<le> p + b" using p bounds by linarith+
  show "i \<le> length u" "j \<le> length v" using ps unfolding e m_def b_def by linarith+
  have "i + j = mid - a" using ps unfolding e by linarith
  then show "i + j = (length u + length v) div 2" unfolding mid_def b_def m_def by linarith
  show "key (u ! (i - 1)) \<le> key (v ! j)" if "0 < i" "j < length v"
  proof -
    have "lo < p" using that ps bounds unfolding e lo_def m_def b_def by (auto split: if_splits)
    then have "after (p - 1)" using p by blast
    moreover have "mid + m - 1 - (p - 1) - m = j" "p - 1 - a = i - 1" using that ps unfolding e by linarith+
    ultimately show ?thesis using keeps_keyD(2) [OF lt] unfolding after_def by simp
  qed
  show "key (v ! (j - 1)) \<le> key (u ! i)" if "i < length u" "0 < j"
  proof -
    have "p < r" using that ps bounds unfolding e r_def m_def b_def by (auto split: if_splits)
    then have "\<not> after p" using p by blast
    moreover have "mid + m - 1 - p - m = j - 1" using that ps unfolding e by linarith
    ultimately show ?thesis using keeps_keyD(1) [OF lt] unfolding after_def e by simp
  qed
qed

lemma set_sym_merge [simp]: "set (sym_merge lt fuel a u v) = set u \<union> set v"
  by (metis mset_sym_merge set_mset_mset set_mset_union)

lemma sorted_across:
  fixes key :: "'a \<Rightarrow> 'k::linorder"
  assumes "sorted (map key u)" "sorted (map key v)" "i \<le> length u"
    and between: "0 < i \<Longrightarrow> j < length v \<Longrightarrow> key (u ! (i - 1)) \<le> key (v ! j)"
    and "x \<in> set (take i u)" "y \<in> set (drop j v)"
  shows "key x \<le> key y"
proof -
  have "0 < i" using assms(5) by (cases i) auto
  moreover have "j < length v" using assms(6) by (cases "j < length v") auto
  ultimately have "key (u ! (i - 1)) \<le> key (v ! j)" by (rule between)
  moreover have "key x \<le> key (u ! (i - 1))" by (rule sorted_cut_left [OF assms(1) _ assms(3,5)]) simp
  moreover have "key (v ! j) \<le> key y" by (rule sorted_cut_right [OF assms(2) _ assms(6)]) simp
  ultimately show ?thesis by order
qed

lemma sym_merge_sorted:
  assumes lt: "keeps_key lt key"
  shows "sorted (map key u) \<Longrightarrow> sorted (map key v) \<Longrightarrow> length u + length v \<le> fuel \<Longrightarrow> sorted (map key (sym_merge lt fuel a u v))"
proof (induction fuel arbitrary: a u v)
  case (Suc fuel)
  note su = Suc.prems(1) and sv = Suc.prems(2)
  consider "u = [] \<or> v = []" | "u \<noteq> []" "v \<noteq> []" "length u = 1" | "u \<noteq> []" "v \<noteq> []" "length u \<noteq> 1" "length v = 1"
    | "u \<noteq> []" "v \<noteq> []" "length u \<noteq> 1" "length v \<noteq> 1" by blast
  then show ?case
  proof cases
    case 1
    then show ?thesis using su sv by auto
  next
    case 2
    obtain x where x: "u = [x]" using 2(3) by (metis One_nat_def length_0_conv length_Suc_conv)
    let ?k = "insert_first lt a u v"
    define m where "m = a + length u"
    have k: "?k = first_not (\<lambda>h. lt (v ! (h - m)) x) m (m + length v) - m" using x by (simp add: insert_first_def m_def)
    note f = first_not_spec [of m "m + length v" "\<lambda>h. lt (v ! (h - m)) x"]
    have at: "?k \<le> length v" "0 < ?k \<Longrightarrow> lt (v ! (?k - 1)) x" "?k < length v \<Longrightarrow> \<not> lt (v ! ?k) x"
      using f unfolding k by (auto simp: diff_commute)
    have "sorted (map key (take ?k v @ [x] @ drop ?k v))"
      by (rule sorted_inserted [OF sv at(1) keeps_keyD(1) [OF lt at(2)] keeps_keyD(2) [OF lt at(3)]])
    then show ?thesis using 2 x by simp
  next
    case 3
    obtain x where x: "v = [x]" using 3(4) by (metis One_nat_def length_0_conv length_Suc_conv)
    let ?k = "insert_last lt a u v"
    have k: "?k = first_not (\<lambda>h. \<not> lt x (u ! (h - a))) a (a + length u) - a" using x by (simp add: insert_last_def)
    note f = first_not_spec [of a "a + length u" "\<lambda>h. \<not> lt x (u ! (h - a))"]
    have at: "?k \<le> length u" "0 < ?k \<Longrightarrow> \<not> lt x (u ! (?k - 1))" "?k < length u \<Longrightarrow> lt x (u ! ?k)"
      using f unfolding k by (auto simp: diff_commute)
    have "sorted (map key (take ?k u @ [x] @ drop ?k u))"
      by (rule sorted_inserted [OF su at(1) keeps_keyD(2) [OF lt at(2)] keeps_keyD(1) [OF lt at(3)]])
    then show ?thesis using 3 x by simp
  next
    case 4
    obtain i j where ij: "sym_split lt a u v = (i, j)" by fastforce
    note s = sym_split_spec [OF lt 4(1,2) ij]
    have two: "2 \<le> length w" if "w \<noteq> []" "length w \<noteq> 1" for w :: "'a list"
      using that by (cases w rule: remdups_adj.cases) simp_all
    note two = two [OF 4(1,3)] two [OF 4(2,4)]
    have uv: "key x \<le> key y" if "x \<in> set (take i u)" "y \<in> set (drop j v)" for x y
      by (rule sorted_across [OF su sv s(1) s(4) that])
    have vu: "key x \<le> key y" if "x \<in> set (take j v)" "y \<in> set (drop i u)" for x y
      by (rule sorted_across [OF sv su s(2) s(5) [rotated] that]) simp_all
    have own: "key x \<le> key y" if "sorted (map key w)" "x \<in> set (take k w)" "y \<in> set (drop k w)" for x y k w
    proof -
      have "sorted (map key (take k w @ drop k w))" using that(1) by simp
      then show ?thesis using that(2,3) by (simp only: map_append sorted_append) simp
    qed
    have len: "length (take i u) + length (take j v) \<le> fuel" "length (drop i u) + length (drop j v) \<le> fuel"
      using s(1-3) two Suc.prems(3) by auto
    have "sorted (map key (sym_merge lt fuel a (take i u) (take j v)))"
      "sorted (map key (sym_merge lt fuel (a + i + j) (drop i u) (drop j v)))"
      using Suc.IH [OF _ _ len(1), of a] Suc.IH [OF _ _ len(2), of "a + i + j"] sorted_take_drop [OF su] sorted_take_drop [OF sv] by blast+
    moreover have "key x \<le> key y" if "x \<in> set (take i u) \<union> set (take j v)" "y \<in> set (drop i u) \<union> set (drop j v)" for x y
      using that uv vu own [OF su] own [OF sv] by blast
    ultimately show ?thesis using 4 ij by (auto simp: sorted_append)
  qed
qed simp

lemma merge_pairs_sorted:
  "keeps_key lt key \<Longrightarrow> \<forall>b \<in> set bs. sorted (map key b) \<Longrightarrow> \<forall>b \<in> set (merge_pairs lt a bs). sorted (map key b)"
  by (induction lt a bs rule: merge_pairs.induct) (auto simp: sym_merge_sorted)

lemma merge_blocks_sorted:
  "keeps_key lt key \<Longrightarrow> \<forall>b \<in> set bs. sorted (map key b) \<Longrightarrow> sorted (map key (concat (merge_blocks lt bs)))"
proof (induction lt bs rule: merge_blocks.induct)
  case (1 lt bs)
  show ?case
  proof (cases "length bs \<le> 1")
    case True
    then have "bs = [] \<or> (\<exists>b. bs = [b])" by (cases bs) auto
    then have "sorted (map key (concat bs))" using 1(3) by auto
    then show ?thesis using True by (subst merge_blocks.simps) simp
  next
    case False
    then show ?thesis using 1(1) [OF False 1(2) merge_pairs_sorted [OF 1(2,3)]] by (subst merge_blocks.simps) simp
  qed
qed

theorem slice_stable_sorted:
  assumes "keeps_key lt key"
  shows "sorted (map key (slice_stable lt xs))"
  unfolding slice_stable_def by (rule merge_blocks_sorted [OF assms]) (simp add: insertion_sort_sorted [OF assms])

end
