(* ===== verification/Case_Suite.thy ===== *)
theory Case_Suite
  imports Batch_Runner Catalog Go_Stable
begin

text \<open>
  Suites of API cases (\<open>internal/domain/casesuite\<close>): the selection of cases by a filter, the state of
  each case in the stored runs, whether it can be executed, and the reports made of that: coverage, inspection, the plan
  of a run, stability, impact, priority and the brief.

  The store of runs is an interface of the code and an argument here. Every reading of the clock is an argument,
  already formatted. Strings are compared and searched as bytes, and lower case is that of ASCII.
\<close>

section \<open>The profile\<close>

record service =
  sv_ID :: ident
  sv_DisplayName :: string
  sv_Kind :: string
  sv_AttachedTemplateIDs :: "ident list"
  sv_GitURL :: string
  sv_GitBranch :: string
  sv_RepoEnv :: string
  sv_SourcePath :: string
  sv_ContainerName :: string
  sv_Image :: string
  sv_DockerService :: string
  sv_ServicePort :: int
  sv_ManagementPort :: int
  sv_MemoryMb :: int
  sv_CPUMilli :: int
  sv_StartupCommand :: string
  sv_HealthURL :: string
  sv_LogPath :: string
  sv_Status :: string
  sv_SortOrder :: int

record interface_node =
  in_ID :: ident
  in_DisplayName :: string
  in_ServiceID :: ident
  in_Operation :: string
  in_Method :: string
  in_Path :: string
  in_TemplateID :: ident
  in_Version :: string
  in_Status :: string
  in_Tags :: "string list"
  in_Description :: string
  in_TimeoutMs :: int
  in_SortOrder :: int
  in_CreatedAt :: string
  in_UpdatedAt :: string

definition no_node :: interface_node where
  "no_node = \<lparr>in_ID = [], in_DisplayName = [], in_ServiceID = [], in_Operation = [], in_Method = [], in_Path = [],
     in_TemplateID = [], in_Version = [], in_Status = [], in_Tags = [], in_Description = [], in_TimeoutMs = 0,
     in_SortOrder = 0, in_CreatedAt = [], in_UpdatedAt = []\<rparr>"

record executor_descriptor =
  xd_ID :: ident
  xd_DisplayName :: string
  xd_Description :: string
  xd_Kind :: string
  xd_Tool :: string
  xd_SourcePath :: string
  xd_Command :: string
  xd_Args :: "string list"
  xd_WorkingDir :: string
  xd_Env :: "string \<rightharpoonup> string"
  xd_Tags :: "string list"
  xd_Status :: string
  xd_TimeoutSeconds :: int
  xd_ArtifactPaths :: "string list"
  xd_SortOrder :: int

record request_template =
  qt_ID :: ident
  qt_DisplayName :: string
  qt_NodeID :: ident
  qt_Method :: string
  qt_Path :: string
  qt_TemplateJSON :: string

text \<open>What the suites read of a bundle. Its cases have the fields of the catalog's cases that matter here.\<close>

record profile_bundle =
  bu_ID :: ident
  bu_Services :: "service list"
  bu_Workflows :: "workflow list"
  bu_InterfaceNodes :: "interface_node list"
  bu_APICases :: "api_case list"
  bu_Executors :: "executor_descriptor list"
  bu_RequestTemplates :: "request_template list"
  bu_WorkflowBindings :: "workflow_binding list"
  bu_TemplateConfigs :: "template_config list"

record catalog_with_templates = profile_catalog +
  pc_RequestTemplates :: "request_template list"

definition case_tags :: "api_case \<Rightarrow> string list" where
  "case_tags c = (case ac_Tags c of None \<Rightarrow> [] | Some ts \<Rightarrow> ts)"

section \<open>The store of runs\<close>

record api_case_run =
  kr_ID :: ident
  kr_RunID :: ident
  kr_CaseID :: ident
  kr_Status :: string
  kr_RequestSummaryJSON :: string
  kr_AssertionSummaryJSON :: string
  kr_TestPlanNodeID :: ident
  kr_TestPlanOperation :: string
  kr_PlannerSummaryJSON :: string
  kr_StartedAt :: time
  kr_FinishedAt :: time
  kr_CreatedAt :: time

record run_record =
  rc_Run :: stored_run
  rc_CaseRun :: api_case_run

text \<open>
  \<open>RecordStore\<close> and the two operations that a store may have in addition: the records of a list of cases in
  one query, and the catalog.
\<close>

record record_store =
  rs_ListRuns :: "string + stored_run list"
  rs_ListAPICaseRuns :: "ident \<Rightarrow> string + api_case_run list"
  rs_ListRecords :: "(ident list \<Rightarrow> string + run_record list) option"
  rs_GetCatalog :: "(string + catalog_with_templates) option"

section \<open>Texts\<close>

record suite_filter =
  sf_Filter :: string
  sf_NodeID :: ident
  sf_Tags :: "string list"
  sf_Status :: string
  sf_Owner :: string
  sf_Priority :: string

text \<open>The texts of the list that are not blank and do not repeat an earlier one in another case.\<close>

fun compact_folded :: "string set \<Rightarrow> string list \<Rightarrow> string list" where
  "compact_folded seen [] = []"
| "compact_folded seen (p # ps) =
     (let part = trim_space p in
      if part = [] \<or> to_lower part \<in> seen then compact_folded seen ps
      else part # compact_folded (insert (to_lower part) seen) ps)"

definition normalize_string_list :: "string list \<Rightarrow> string list" where
  "normalize_string_list vs = compact_folded {} (concat (map (split_on (CHR '','')) vs))"

definition normalize_filter :: "suite_filter \<Rightarrow> suite_filter" where
  "normalize_filter f = \<lparr>sf_Filter = trim_space (sf_Filter f), sf_NodeID = trim_space (sf_NodeID f),
     sf_Tags = normalize_string_list (sf_Tags f), sf_Status = trim_space (sf_Status f), sf_Owner = trim_space (sf_Owner f),
     sf_Priority = trim_space (sf_Priority f)\<rparr>"

definition CaseLifecycleActive :: string where "CaseLifecycleActive = ''active''"
definition CaseLifecycleInvalid :: string where "CaseLifecycleInvalid = ''invalid''"

definition is_known_case_lifecycle :: "string \<Rightarrow> bool" where
  "is_known_case_lifecycle st \<longleftrightarrow>
     to_lower (trim_space st) \<in> {''draft'', ''review'', CaseLifecycleActive, ''quarantined'', ''deprecated''}"

definition normalize_case_lifecycle :: "string \<Rightarrow> string" where
  "normalize_case_lifecycle st0 =
     (let st = to_lower (trim_space st0) in
      if st = [] then CaseLifecycleActive else if is_known_case_lifecycle st then st else CaseLifecycleInvalid)"

definition is_executable_case_lifecycle :: "string \<Rightarrow> bool" where
  "is_executable_case_lifecycle st \<longleftrightarrow> normalize_case_lifecycle st = CaseLifecycleActive"

definition suite_case_status :: "api_case \<Rightarrow> string" where
  "suite_case_status c = normalize_case_lifecycle (ac_Status c)"

definition search_text :: "string \<Rightarrow> string" where
  "search_text v = filter (\<lambda>c. c \<notin> set '' -_./'') (to_lower (trim_space v))"

definition has_all_tags :: "string list \<Rightarrow> string list \<Rightarrow> bool" where
  "has_all_tags actual required =
     list_all (\<lambda>t. search_text t = [] \<or> search_text t \<in> set (map search_text actual)) required"

definition matches_text :: "string \<Rightarrow> string list \<Rightarrow> bool" where
  "matches_text flt vs =
     (let needle = search_text flt in
      needle = [] \<or> list_ex (\<lambda>v. let h = search_text v in h \<noteq> [] \<and> (str_contains h needle \<or> str_contains needle h)) vs)"

text \<open>The texts of a case that a filter and a signal are matched with.\<close>

definition case_texts :: "api_case \<Rightarrow> string list" where
  "case_texts c = [ac_ID c, ac_DisplayName c, ac_Description c, ac_Scenario c, ac_Owner c, ac_Priority c,
     str_join '' '' (case_tags c), ac_NodeID c]"

definition node_texts :: "interface_node \<Rightarrow> string list" where
  "node_texts n = [in_ID n, in_DisplayName n, in_ServiceID n, in_Operation n, in_Method n, in_Path n, in_Description n,
     str_join '' '' (in_Tags n)]"

definition case_matches :: "api_case \<Rightarrow> suite_filter \<Rightarrow> bool" where
  "case_matches c f0 =
     (let f = normalize_filter f0 in
      (sf_NodeID f = [] \<or> ac_NodeID c = sf_NodeID f) \<and>
      (sf_Status f = [] \<or> equal_fold (suite_case_status c) (sf_Status f)) \<and>
      (sf_Owner f = [] \<or> equal_fold (trim_space (ac_Owner c)) (sf_Owner f)) \<and>
      (sf_Priority f = [] \<or> equal_fold (trim_space (ac_Priority c)) (sf_Priority f)) \<and>
      (sf_Tags f = [] \<or> has_all_tags (case_tags c) (sf_Tags f)) \<and>
      matches_text (sf_Filter f) (case_texts c))"

definition case_before :: "api_case \<Rightarrow> api_case \<Rightarrow> bool" where
  "case_before c d =
     (if ac_NodeID c \<noteq> ac_NodeID d then ac_NodeID c < ac_NodeID d
      else if ac_SortOrder c \<noteq> ac_SortOrder d then ac_SortOrder c < ac_SortOrder d else ac_ID c < ac_ID d)"

definition select_cases :: "profile_bundle \<Rightarrow> suite_filter \<Rightarrow> api_case list" where
  "select_cases b f = order_by case_before (filter (\<lambda>c. case_matches c (normalize_filter f)) (bu_APICases b))"

definition case_ids :: "api_case list \<Rightarrow> ident list" where
  "case_ids cs = filter (\<lambda>i. \<not> blank i) (map ac_ID cs)"

definition detail_url :: "ident \<Rightarrow> string" where
  "detail_url i = (if blank i then [] else ''/api/case-run/evidence?caseRunId='' @ query_escape i)"

text \<open>The difference of two times is a duration of 64 bits and saturates.\<close>

definition elapsed_ms :: "time \<Rightarrow> time \<Rightarrow> int" where
  "elapsed_ms started finished =
     (if started = zero_time \<or> finished = zero_time \<or> finished < started then 0
      else min (finished - started) (2 ^ 63 - 1) div 1000000)"

definition normalize_run_state :: "string \<Rightarrow> string" where
  "normalize_run_state v0 =
     (let v = to_lower (trim_space v0) in
      if v \<in> {''notrun'', ''not-run'', ''missing'', ''never-run''} then ''not-run''
      else if v \<in> {''pass'', ''passed'', ''success'', ''ok''} then StatusPassed
      else if v \<in> {''fail'', ''failed'', ''error''} then StatusFailed else v)"

definition run_state_set :: "string list \<Rightarrow> string set" where
  "run_state_set vs = set (filter (\<lambda>v. v \<noteq> []) (map normalize_run_state vs))"

definition is_passed_status :: "string \<Rightarrow> bool" where
  "is_passed_status st \<longleftrightarrow> to_lower (trim_space st) \<in> {''pass'', ''passed'', ''success'', ''ok''}"

definition assertion_summary_reason :: "string \<Rightarrow> string" where
  "assertion_summary_reason raw =
     (case Option.bind (json_unmarshal raw) json_obj of
        None \<Rightarrow> []
      | Some kvs \<Rightarrow>
          (case (text_field ''failureReason'' kvs, int_field ''errorCount'' kvs) of
             (Some reason, Some n) \<Rightarrow>
               if \<not> blank reason then reason
               else if 0 < n then ''assertion errors: '' @ string_of_int n else []
           | _ \<Rightarrow> []))"

section \<open>The state of each case\<close>

record case_state =
  cs_Latest :: "run_record option"
  cs_HasPassed :: bool

definition no_state :: case_state where
  "no_state = \<lparr>cs_Latest = None, cs_HasPassed = False\<rparr>"

definition record_newer :: "run_record \<Rightarrow> run_record \<Rightarrow> bool" where
  "record_newer l r \<longleftrightarrow>
     time_after (kr_CreatedAt (rc_CaseRun l)) (kr_CreatedAt (rc_CaseRun r)) \<or>
     (kr_CreatedAt (rc_CaseRun l) = kr_CreatedAt (rc_CaseRun r) \<and> kr_ID (rc_CaseRun r) < kr_ID (rc_CaseRun l))"

definition latest_record :: "case_state \<Rightarrow> run_record option" where
  "latest_record st = (case cs_Latest st of None \<Rightarrow> None | Some r \<Rightarrow> if kr_ID (rc_CaseRun r) = [] then None else Some r)"

definition update_state :: "run_record \<Rightarrow> case_state \<Rightarrow> case_state" where
  "update_state r st = \<lparr>cs_Latest = (case latest_record st of None \<Rightarrow> Some r
       | Some l \<Rightarrow> if record_newer r l then Some r else cs_Latest st),
     cs_HasPassed = (is_passed_status (kr_Status (rc_CaseRun r)) \<or> cs_HasPassed st)\<rparr>"

text \<open>A case without records has the zero state.\<close>

definition state_by_case :: "run_record list \<Rightarrow> ident \<Rightarrow> case_state" where
  "state_by_case rs = fold (\<lambda>r m. let i = kr_CaseID (rc_CaseRun r) in m(i := update_state r (m i))) rs (\<lambda>_. no_state)"

fun list_records :: "(ident \<Rightarrow> string + api_case_run list) \<Rightarrow> ident set \<Rightarrow> stored_run list \<Rightarrow> string + run_record list" where
  "list_records case_runs wanted [] = Inr []"
| "list_records case_runs wanted (r # rs) =
     (case case_runs (xr_ID r) of
        Inl e \<Rightarrow> Inl e
      | Inr ks \<Rightarrow>
          (case list_records case_runs wanted rs of
             Inl e \<Rightarrow> Inl e
           | Inr out \<Rightarrow> Inr (map (\<lambda>k. \<lparr>rc_Run = r, rc_CaseRun = k\<rparr>) (filter (\<lambda>k. kr_CaseID k \<in> wanted) ks) @ out)))"

definition records_for_case_ids :: "record_store option \<Rightarrow> ident list \<Rightarrow> string + run_record list" where
  "records_for_case_ids runtime ids =
     (case runtime of
        None \<Rightarrow> Inr []
      | Some rs \<Rightarrow>
          if ids = [] then Inr []
          else (case rs_ListRecords rs of
              Some query \<Rightarrow> query ids
            | None \<Rightarrow>
                (case rs_ListRuns rs of
                   Inl e \<Rightarrow> Inl e
                 | Inr runs \<Rightarrow> list_records (rs_ListAPICaseRuns rs) (set ids) runs)))"

section \<open>Coverage\<close>

record suite_counts =
  sc_Total :: int
  sc_Passed :: int
  sc_Failed :: int
  sc_NotRun :: int

record suite_item =
  si_CaseID :: ident
  si_Title :: string
  si_Description :: string
  si_NodeID :: ident
  si_NodeName :: string
  si_Tags :: "string list"
  si_Priority :: string
  si_Owner :: string
  si_LatestStatus :: string
  si_LatestRunID :: ident
  si_CaseRunID :: ident
  si_DetailURL :: string
  si_ElapsedMs :: int
  si_HasPassed :: bool
  si_Reason :: string

record suite_report =
  sr_OK :: bool
  sr_ProfileID :: ident
  sr_GeneratedAt :: string
  sr_Filters :: suite_filter
  sr_Counts :: suite_counts
  sr_Items :: "suite_item list"
  sr_Warnings :: "string list"

definition ReasonNoRunRecorded :: string where "ReasonNoRunRecorded = ''no run recorded in Store''"

definition node_of :: "profile_bundle \<Rightarrow> ident \<Rightarrow> interface_node" where
  "node_of b i = (case index_by in_ID (bu_InterfaceNodes b) i of None \<Rightarrow> no_node | Some n \<Rightarrow> n)"

definition coverage_row :: "interface_node \<Rightarrow> case_state \<Rightarrow> api_case \<Rightarrow> suite_item" where
  "coverage_row node st c =
     (let row = \<lparr>si_CaseID = ac_ID c, si_Title = first_non_empty [ac_DisplayName c, ac_ID c], si_Description = ac_Description c,
            si_NodeID = ac_NodeID c, si_NodeName = first_non_empty [in_DisplayName node, ac_NodeID c], si_Tags = case_tags c,
            si_Priority = ac_Priority c, si_Owner = ac_Owner c, si_LatestStatus = ''not-run'', si_LatestRunID = [],
            si_CaseRunID = [], si_DetailURL = [], si_ElapsedMs = 0, si_HasPassed = cs_HasPassed st,
            si_Reason = ReasonNoRunRecorded\<rparr>
      in case latest_record st of
           None \<Rightarrow> row
         | Some r \<Rightarrow>
             (let k = rc_CaseRun r in
              row\<lparr>si_LatestStatus := kr_Status k, si_LatestRunID := xr_ID (rc_Run r), si_CaseRunID := kr_ID k,
                si_DetailURL := detail_url (kr_ID k), si_ElapsedMs := elapsed_ms (kr_StartedAt k) (kr_FinishedAt k),
                si_Reason := (if is_passed_status (kr_Status k) then []
                  else first_non_empty [assertion_summary_reason (kr_AssertionSummaryJSON k), ''latest run is '' @ kr_Status k])\<rparr>))"

definition add_coverage :: "interface_node \<Rightarrow> case_state \<Rightarrow> api_case \<Rightarrow> suite_report \<Rightarrow> suite_report" where
  "add_coverage node st c r0 =
     (let r = r0\<lparr>sr_Items := sr_Items r0 @ [coverage_row node st c]\<rparr>; k = sr_Counts r0 in
      case latest_record st of
        None \<Rightarrow> r\<lparr>sr_OK := False, sr_Counts := k\<lparr>sc_NotRun := sc_NotRun k + 1\<rparr>\<rparr>
      | Some l \<Rightarrow>
          if is_passed_status (kr_Status (rc_CaseRun l)) then r\<lparr>sr_Counts := k\<lparr>sc_Passed := sc_Passed k + 1\<rparr>\<rparr>
          else r\<lparr>sr_OK := False, sr_Counts := k\<lparr>sc_Failed := sc_Failed k + 1\<rparr>\<rparr>)"

definition new_coverage :: "string \<Rightarrow> profile_bundle \<Rightarrow> record_store option \<Rightarrow> suite_filter \<Rightarrow> api_case list \<Rightarrow> suite_report" where
  "new_coverage now b runtime f cases =
     (let n_cases = int (length cases);
          r = \<lparr>sr_OK = True, sr_ProfileID = bu_ID b, sr_GeneratedAt = now, sr_Filters = normalize_filter f,
            sr_Counts = \<lparr>sc_Total = n_cases, sc_Passed = 0, sc_Failed = 0, sc_NotRun = 0\<rparr>, sr_Items = [], sr_Warnings = []\<rparr>
      in if runtime \<noteq> None then r
         else r\<lparr>sr_OK := (cases = []), sr_Counts := (sr_Counts r)\<lparr>sc_NotRun := n_cases\<rparr>,
           sr_Warnings := [''runtime store is not configured'']\<rparr>)"

definition coverage :: "string \<Rightarrow> profile_bundle \<Rightarrow> record_store option \<Rightarrow> suite_filter \<Rightarrow> api_case list \<Rightarrow> string + suite_report" where
  "coverage now b runtime f cases =
     (case records_for_case_ids runtime (case_ids cases) of
        Inl e \<Rightarrow> Inl e
      | Inr records \<Rightarrow>
          Inr (fold (\<lambda>c. add_coverage (node_of b (ac_NodeID c)) (state_by_case records (ac_ID c)) c) cases
            (new_coverage now b runtime f cases)))"

section \<open>Execution configurations\<close>

definition active_status :: "string \<Rightarrow> bool" where
  "active_status st \<longleftrightarrow> blank st \<or> equal_fold (trim_space st) ''active''"

definition body_present :: "string \<Rightarrow> bool" where
  "body_present t \<longleftrightarrow> trim_space t \<noteq> [] \<and> trim_space t \<noteq> ''null''"

definition body_patch_present :: "string \<Rightarrow> bool" where
  "body_patch_present t \<longleftrightarrow> trim_space t \<noteq> [] \<and> trim_space t \<noteq> ''null'' \<and> trim_space t \<noteq> ''[]''"

definition method_needs_body :: "string \<Rightarrow> bool" where
  "method_needs_body m \<longleftrightarrow> to_lower (trim_space m) \<in> {''post'', ''put'', ''patch''}"

definition case_can_render_body :: "string \<Rightarrow> string \<Rightarrow> string \<Rightarrow> ident \<Rightarrow> ident set \<Rightarrow> bool" where
  "case_can_render_body mode patch payload template_id template_bodies \<longleftrightarrow>
     trim_space mode = ''template_patch'' \<and> body_patch_present patch \<and>
     (body_present payload \<or> trim_space template_id \<in> template_bodies)"

definition execution_body_sources :: "api_case list \<Rightarrow> request_template list \<Rightarrow> ident set" where
  "execution_body_sources cases templates =
     (let template_bodies = set (map (\<lambda>t. trim_space (qt_ID t)) (filter (\<lambda>t. body_present (qt_TemplateJSON t)) templates)) in
      set (map (\<lambda>c. trim_space (ac_ID c)) (filter (\<lambda>c. trim_space (ac_ID c) \<noteq> [] \<and>
        case_can_render_body (ac_RenderMode c) (ac_PatchJSON c) (ac_PayloadTemplateJSON c) (ac_RequestTemplateID c) template_bodies) cases)))"

text \<open>
  The members of a configuration that are read: the case, and the method, node and path of its execution and whether it
  has a body; the body \<open>null\<close> counts as none. Of an execution that is given twice the last one is read.
\<close>

definition execution_of_obj :: "obj \<Rightarrow> (string \<times> ident \<times> string \<times> bool) option" where
  "execution_of_obj kvs = do {
     m \<leftarrow> text_field ''method'' kvs; n \<leftarrow> text_field ''nodeId'' kvs; p \<leftarrow> text_field ''path'' kvs;
     has_body \<leftarrow> decode_field (\<lambda>_. Some True) True False ''body'' kvs;
     Some (m, n, p, has_body) }"

definition execution_config_of_text :: "string \<Rightarrow> (ident \<times> string \<times> ident \<times> string \<times> bool) option" where
  "execution_config_of_text raw = do {
     v \<leftarrow> json_unmarshal raw; kvs \<leftarrow> json_obj v; cid \<leftarrow> text_field ''caseId'' kvs;
     e \<leftarrow> decode_field (\<lambda>w. Option.bind (json_obj w) execution_of_obj) False ([], [], [], False) ''caseExecution'' kvs;
     Some (cid, e) }"

definition execution_config_case_id :: "template_config \<Rightarrow> ident set \<Rightarrow> ident option" where
  "execution_config_case_id tc sources =
     (case execution_config_of_text (tc_ConfigJSON tc) of
        None \<Rightarrow> None
      | Some (cid0, m, n, p, has_body) \<Rightarrow>
          (let cid = (if blank cid0 \<and> tc_ScopeType tc = ''case'' then trim_space (tc_ScopeID tc) else trim_space cid0) in
           if cid = [] \<or> (m = [] \<and> n = [] \<and> p = []) \<or> (method_needs_body m \<and> \<not> has_body \<and> cid \<notin> sources)
           then None else Some cid))"

definition config_cases :: "template_config list \<Rightarrow> ident set \<Rightarrow> ident set" where
  "config_cases tcs sources =
     set (List.map_filter (\<lambda>tc. if active_status (tc_Status tc) then execution_config_case_id tc sources else None) tcs)"

definition execution_config_set :: "profile_bundle \<Rightarrow> record_store option \<Rightarrow> ident set" where
  "execution_config_set b runtime =
     config_cases (bu_TemplateConfigs b) (execution_body_sources (bu_APICases b) (bu_RequestTemplates b)) \<union>
     (case Option.bind runtime rs_GetCatalog of
        Some (Inr c) \<Rightarrow> config_cases (pc_TemplateConfigs c) (execution_body_sources (pc_APICases c) (pc_RequestTemplates c))
      | _ \<Rightarrow> {})"

section \<open>Inspection\<close>

record inspection_counts =
  ic_Total :: int
  ic_Ready :: int
  ic_Blocked :: int
  ic_Passed :: int
  ic_Failed :: int
  ic_NotRun :: int
  ic_MissingRunnable :: int
  ic_MissingExecution :: int
  ic_Inactive :: int

record inspection_item =
  ii_CaseID :: ident
  ii_Title :: string
  ii_Description :: string
  ii_NodeID :: ident
  ii_NodeName :: string
  ii_ServiceID :: ident
  ii_ServiceReady :: bool
  ii_ServiceIssues :: "string list"
  ii_Tags :: "string list"
  ii_Priority :: string
  ii_Owner :: string
  ii_Status :: string
  ii_Ready :: bool
  ii_HasRunnableFile :: bool
  ii_HasExecutionConfig :: bool
  ii_LatestStatus :: string
  ii_LatestRunID :: ident
  ii_CaseRunID :: ident
  ii_DetailURL :: string
  ii_ElapsedMs :: int
  ii_HasPassed :: bool
  ii_Issues :: "string list"
  ii_SuggestedAction :: string

record inspection_report =
  ir_OK :: bool
  ir_ProfileID :: ident
  ir_GeneratedAt :: string
  ir_Filters :: suite_filter
  ir_Counts :: inspection_counts
  ir_Items :: "inspection_item list"
  ir_Warnings :: "string list"

definition QualityActionAddRunnable :: string where "QualityActionAddRunnable = ''add-runnable-source''"

definition suggested_action :: "inspection_item \<Rightarrow> string" where
  "suggested_action i =
     (if \<not> is_executable_case_lifecycle (ii_Status i) then ''review-status''
      else if \<not> ii_HasRunnableFile i \<and> \<not> ii_HasExecutionConfig i then QualityActionAddRunnable
      else if normalize_run_state (ii_LatestStatus i) = StatusFailed then ''rerun''
      else if normalize_run_state (ii_LatestStatus i) = ''not-run'' then ''run'' else ''keep'')"

definition has_docker_service_facts :: "service \<Rightarrow> bool" where
  "has_docker_service_facts s \<longleftrightarrow> \<not> blank (sv_DockerService s) \<or> \<not> blank (sv_ContainerName s) \<or> \<not> blank (sv_Image s)"

definition inspect_case_service_readiness :: "ident \<Rightarrow> (ident \<rightharpoonup> service) \<Rightarrow> bool \<times> string list" where
  "inspect_case_service_readiness sid services =
     (if blank sid then (True, [])
      else (case services sid of
          None \<Rightarrow> (False, [''missing-service''])
        | Some s \<Rightarrow>
            (let st = to_lower (trim_space (sv_Status s)) in
             if st \<noteq> [] \<and> st \<noteq> CaseLifecycleActive then (False, [''service-status-'' @ st])
             else if blank (sv_StartupCommand s) \<and> blank (sv_HealthURL s) \<and> \<not> has_docker_service_facts s
             then (False, [''missing-service-startup-command'']) else (True, []))))"

definition inspection_issues :: "inspection_item \<Rightarrow> string list" where
  "inspection_issues i =
     (if is_executable_case_lifecycle (ii_Status i) then [] else [''case status is '' @ ii_Status i]) @
     (if \<not> ii_HasRunnableFile i \<and> \<not> ii_HasExecutionConfig i then [''missing runnable case file or execution config''] else []) @
     map (\<lambda>x. ''service '' @ x) (ii_ServiceIssues i)"

definition inspection_row :: "api_case \<Rightarrow> suite_item \<Rightarrow> bool \<Rightarrow> interface_node \<Rightarrow> (ident \<rightharpoonup> service) \<Rightarrow> inspection_item" where
  "inspection_row c cov has_config node services =
     (let sid = trim_space (in_ServiceID node);
          svc = inspect_case_service_readiness sid services;
          row = \<lparr>ii_CaseID = ac_ID c, ii_Title = first_non_empty [ac_DisplayName c, ac_ID c], ii_Description = ac_Description c,
            ii_NodeID = ac_NodeID c, ii_NodeName = si_NodeName cov, ii_ServiceID = sid, ii_ServiceReady = fst svc,
            ii_ServiceIssues = snd svc, ii_Tags = case_tags c, ii_Priority = ac_Priority c, ii_Owner = ac_Owner c,
            ii_Status = suite_case_status c, ii_Ready = False, ii_HasRunnableFile = (\<not> blank (ac_CasePath c)),
            ii_HasExecutionConfig = has_config, ii_LatestStatus = first_non_empty [si_LatestStatus cov, ''not-run''],
            ii_LatestRunID = si_LatestRunID cov, ii_CaseRunID = si_CaseRunID cov, ii_DetailURL = si_DetailURL cov,
            ii_ElapsedMs = si_ElapsedMs cov, ii_HasPassed = si_HasPassed cov, ii_Issues = [], ii_SuggestedAction = []\<rparr>
      in row\<lparr>ii_Issues := inspection_issues row, ii_Ready := (inspection_issues row = []),
           ii_SuggestedAction := suggested_action row\<rparr>)"

definition add_inspection_row :: "inspection_item \<Rightarrow> inspection_report \<Rightarrow> inspection_report" where
  "add_inspection_row i r =
     (let k0 = ir_Counts r;
          k1 = (if ii_Ready i then k0\<lparr>ic_Ready := ic_Ready k0 + 1\<rparr> else k0\<lparr>ic_Blocked := ic_Blocked k0 + 1\<rparr>);
          k2 = (if is_executable_case_lifecycle (ii_Status i) then k1 else k1\<lparr>ic_Inactive := ic_Inactive k1 + 1\<rparr>);
          k3 = (if ii_HasRunnableFile i then k2 else k2\<lparr>ic_MissingRunnable := ic_MissingRunnable k2 + 1\<rparr>);
          k4 = (if ii_HasExecutionConfig i then k3 else k3\<lparr>ic_MissingExecution := ic_MissingExecution k3 + 1\<rparr>);
          st = normalize_run_state (ii_LatestStatus i);
          k5 = (if st = StatusPassed then k4\<lparr>ic_Passed := ic_Passed k4 + 1\<rparr>
            else if st = StatusFailed then k4\<lparr>ic_Failed := ic_Failed k4 + 1\<rparr>
            else k4\<lparr>ic_NotRun := ic_NotRun k4 + 1\<rparr>)
      in r\<lparr>ir_OK := (ir_OK r \<and> ii_Ready i), ir_Counts := k5, ir_Items := ir_Items r @ [i]\<rparr>)"

definition new_inspection :: "ident \<Rightarrow> suite_report \<Rightarrow> int \<Rightarrow> inspection_report" where
  "new_inspection pid cov n_cases =
     \<lparr>ir_OK = (n_cases \<noteq> 0), ir_ProfileID = pid, ir_GeneratedAt = sr_GeneratedAt cov, ir_Filters = sr_Filters cov,
      ir_Counts = \<lparr>ic_Total = n_cases, ic_Ready = 0, ic_Blocked = 0, ic_Passed = 0, ic_Failed = 0, ic_NotRun = 0,
        ic_MissingRunnable = 0, ic_MissingExecution = 0, ic_Inactive = 0\<rparr>,
      ir_Items = [], ir_Warnings = sr_Warnings cov @ (if n_cases = 0 then [''no cases matched selector''] else [])\<rparr>"

definition no_item :: suite_item where
  "no_item = \<lparr>si_CaseID = [], si_Title = [], si_Description = [], si_NodeID = [], si_NodeName = [], si_Tags = [],
     si_Priority = [], si_Owner = [], si_LatestStatus = [], si_LatestRunID = [], si_CaseRunID = [], si_DetailURL = [],
     si_ElapsedMs = 0, si_HasPassed = False, si_Reason = []\<rparr>"

definition item_of :: "suite_item list \<Rightarrow> ident \<Rightarrow> suite_item" where
  "item_of items i = (case index_by si_CaseID items i of None \<Rightarrow> no_item | Some x \<Rightarrow> x)"

definition inspect_case :: "profile_bundle \<Rightarrow> record_store option \<Rightarrow> suite_report \<Rightarrow> api_case \<Rightarrow> inspection_item" where
  "inspect_case b runtime cov c = inspection_row c (item_of (sr_Items cov) (ac_ID c)) (ac_ID c \<in> execution_config_set b runtime)
     (node_of b (ac_NodeID c)) (index_by sv_ID (bu_Services b))"

definition inspect :: "string \<Rightarrow> profile_bundle \<Rightarrow> record_store option \<Rightarrow> suite_filter \<Rightarrow> api_case list \<Rightarrow> string + inspection_report" where
  "inspect now b runtime f cases =
     (case coverage now b runtime f cases of
        Inl e \<Rightarrow> Inl e
      | Inr cov \<Rightarrow>
          Inr (fold (\<lambda>c. add_inspection_row (inspect_case b runtime cov c)) cases
            (new_inspection (bu_ID b) cov (int (length cases)))))"

section \<open>The plan of a run\<close>

record plan_options =
  po_RequestID :: ident
  po_Actions :: "string list"
  po_BaseURL :: string
  po_EvidenceDir :: string
  po_TimeoutSeconds :: int

record plan_counts =
  pk_Total :: int
  pk_Ready :: int
  pk_Blocked :: int
  pk_Selected :: int
  pk_Skipped :: int

record batch_request =
  bq_RequestID :: ident
  bq_CaseIDs :: "ident list"
  bq_BaseURL :: string
  bq_EvidenceDir :: string
  bq_TimeoutSeconds :: int

record suite_plan_report =
  pp_OK :: bool
  pp_ProfileID :: ident
  pp_GeneratedAt :: string
  pp_Filters :: suite_filter
  pp_Options :: plan_options
  pp_Counts :: plan_counts
  pp_CaseIDs :: "ident list"
  pp_Selected :: "inspection_item list"
  pp_Blocked :: "inspection_item list"
  pp_Skipped :: "inspection_item list"
  pp_BatchRequest :: batch_request
  pp_Warnings :: "string list"

text \<open>The request of a batch never carries overrides.\<close>

definition new_batch_request :: "ident list \<Rightarrow> ident \<Rightarrow> string \<Rightarrow> string \<Rightarrow> int \<Rightarrow> batch_request" where
  "new_batch_request ids rid base dir timeout = \<lparr>bq_RequestID = trim_space rid, bq_CaseIDs = ids, bq_BaseURL = trim_space base,
     bq_EvidenceDir = trim_space dir, bq_TimeoutSeconds = timeout\<rparr>"

definition action_set :: "string list \<Rightarrow> string set" where
  "action_set vs = set (filter (\<lambda>v. v \<noteq> []) (map (\<lambda>v. to_lower (trim_space v)) vs))"

definition plan_item_group :: "string set \<Rightarrow> inspection_item \<Rightarrow> suite_plan_report \<Rightarrow> suite_plan_report" where
  "plan_item_group actions i r =
     (if \<not> ii_Ready i then r\<lparr>pp_Blocked := pp_Blocked r @ [i]\<rparr>
      else if actions \<noteq> {} \<and> ii_SuggestedAction i \<notin> actions then r\<lparr>pp_Skipped := pp_Skipped r @ [i]\<rparr>
      else r\<lparr>pp_Selected := pp_Selected r @ [i], pp_CaseIDs := pp_CaseIDs r @ [ii_CaseID i]\<rparr>)"

definition plan_of_inspection :: "profile_bundle \<Rightarrow> plan_options \<Rightarrow> inspection_report \<Rightarrow> suite_plan_report" where
  "plan_of_inspection b o0 ins =
     (let opts = o0\<lparr>po_Actions := normalize_string_list (po_Actions o0)\<rparr>; k = ir_Counts ins;
          r0 = \<lparr>pp_OK = True, pp_ProfileID = bu_ID b, pp_GeneratedAt = ir_GeneratedAt ins, pp_Filters = ir_Filters ins,
            pp_Options = opts, pp_Counts = \<lparr>pk_Total = ic_Total k, pk_Ready = ic_Ready k, pk_Blocked = ic_Blocked k,
              pk_Selected = 0, pk_Skipped = 0\<rparr>, pp_CaseIDs = [], pp_Selected = [], pp_Blocked = [], pp_Skipped = [],
            pp_BatchRequest = new_batch_request [] [] [] [] 0, pp_Warnings = ir_Warnings ins\<rparr>;
          r1 = fold (plan_item_group (action_set (po_Actions opts))) (ir_Items ins) r0;
          r2 = r1\<lparr>pp_Counts := (pp_Counts r1)\<lparr>pk_Selected := int (length (pp_Selected r1)),
              pk_Skipped := int (length (pp_Skipped r1))\<rparr>,
            pp_BatchRequest := new_batch_request (pp_CaseIDs r1) (po_RequestID opts) (po_BaseURL opts) (po_EvidenceDir opts)
              (po_TimeoutSeconds opts)\<rparr>
      in if pp_CaseIDs r2 \<noteq> [] then r2
         else r2\<lparr>pp_OK := False, pp_Warnings := pp_Warnings r2 @ [''no ready cases selected for execution'']\<rparr>)"

definition suite_plan :: "string \<Rightarrow> profile_bundle \<Rightarrow> record_store option \<Rightarrow> suite_filter \<Rightarrow> api_case list \<Rightarrow> plan_options \<Rightarrow>
  string + suite_plan_report" where
  "suite_plan now b runtime f cases opts = map_sum id (plan_of_inspection b opts) (inspect now b runtime f cases)"

section \<open>Stability\<close>

record stability_counts =
  tk_Total :: int
  tk_Stable :: int
  tk_Unstable :: int
  tk_NotRun :: int
  tk_Passed :: int
  tk_Failed :: int

record recent_run =
  rr_RunID :: ident
  rr_CaseRunID :: ident
  rr_Status :: string
  rr_DetailURL :: string
  rr_ElapsedMs :: int
  rr_CreatedAt :: string

record stability_item =
  ti_CaseID :: ident
  ti_Title :: string
  ti_Description :: string
  ti_NodeID :: ident
  ti_NodeName :: string
  ti_Tags :: "string list"
  ti_Priority :: string
  ti_Owner :: string
  ti_LatestStatus :: string
  ti_Passed :: int
  ti_Failed :: int
  ti_Transitions :: int
  ti_Unstable :: bool
  ti_Reason :: string
  ti_Recent :: "recent_run list"

record stability_report =
  tb_OK :: bool
  tb_ProfileID :: ident
  tb_GeneratedAt :: string
  tb_Filters :: suite_filter
  tb_Limit :: int
  tb_Counts :: stability_counts
  tb_Items :: "stability_item list"
  tb_Warnings :: "string list"

definition records_of_case :: "run_record list \<Rightarrow> ident \<Rightarrow> run_record list" where
  "records_of_case rs i = order_by record_newer (filter (\<lambda>r. kr_CaseID (rc_CaseRun r) = i) rs)"

definition run_state_of :: "run_record \<Rightarrow> string" where
  "run_state_of r = normalize_run_state (kr_Status (rc_CaseRun r))"

definition stability_recent_run :: "time_format \<Rightarrow> run_record \<Rightarrow> recent_run" where
  "stability_recent_run tf r = (let k = rc_CaseRun r in
     \<lparr>rr_RunID = xr_ID (rc_Run r), rr_CaseRunID = kr_ID k, rr_Status = normalize_run_state (kr_Status k),
      rr_DetailURL = detail_url (kr_ID k), rr_ElapsedMs = elapsed_ms (kr_StartedAt k) (kr_FinishedAt k),
      rr_CreatedAt = tf_format tf (kr_CreatedAt k)\<rparr>)"

definition base_stability_item :: "api_case \<Rightarrow> interface_node \<Rightarrow> stability_item" where
  "base_stability_item c node = \<lparr>ti_CaseID = ac_ID c, ti_Title = first_non_empty [ac_DisplayName c, ac_ID c],
     ti_Description = ac_Description c, ti_NodeID = ac_NodeID c, ti_NodeName = first_non_empty [in_DisplayName node, ac_NodeID c],
     ti_Tags = case_tags c, ti_Priority = ac_Priority c, ti_Owner = ac_Owner c, ti_LatestStatus = ''not-run'', ti_Passed = 0,
     ti_Failed = 0, ti_Transitions = 0, ti_Unstable = False, ti_Reason = [], ti_Recent = []\<rparr>"

text \<open>The first argument is the state of the run before, when there is one.\<close>

fun add_stability_run_stats :: "string option \<Rightarrow> run_record list \<Rightarrow> stability_item \<Rightarrow> stability_item" where
  "add_stability_run_stats previous [] row = row"
| "add_stability_run_stats previous (r # rs) row =
     (let st = run_state_of r;
          row1 = (if st = StatusPassed then row\<lparr>ti_Passed := ti_Passed row + 1\<rparr>
            else if st = StatusFailed then row\<lparr>ti_Failed := ti_Failed row + 1\<rparr> else row);
          row2 = (if previous \<noteq> None \<and> previous \<noteq> Some st then row1\<lparr>ti_Transitions := ti_Transitions row1 + 1\<rparr> else row1)
      in add_stability_run_stats (Some st) rs row2)"

definition stability_item_for_case :: "time_format \<Rightarrow> api_case \<Rightarrow> interface_node \<Rightarrow> run_record list \<Rightarrow> nat \<Rightarrow> stability_item" where
  "stability_item_for_case tf c node rs0 limit =
     (case take limit rs0 of
        [] \<Rightarrow> (base_stability_item c node)\<lparr>ti_Reason := ReasonNoRunRecorded\<rparr>
      | r # rs \<Rightarrow>
          (let row = add_stability_run_stats None (r # rs) ((base_stability_item c node)\<lparr>
                 ti_Recent := map (stability_recent_run tf) (r # rs), ti_LatestStatus := run_state_of r\<rparr>);
               unstable = (ti_Passed row > 0 \<and> ti_Failed row > 0 \<and> ti_Transitions row > 0)
           in row\<lparr>ti_Unstable := unstable,
                ti_Reason := (if unstable then ''recent runs include both passed and failed results'' else ti_Reason row)\<rparr>))"

definition apply_stability_counts :: "stability_item \<Rightarrow> stability_report \<Rightarrow> stability_report" where
  "apply_stability_counts row r =
     (let k0 = tb_Counts r;
          k1 = (if ti_Reason row = ReasonNoRunRecorded then k0\<lparr>tk_NotRun := tk_NotRun k0 + 1\<rparr>
            else if ti_Unstable row then k0\<lparr>tk_Unstable := tk_Unstable k0 + 1\<rparr> else k0\<lparr>tk_Stable := tk_Stable k0 + 1\<rparr>);
          k2 = (if ti_LatestStatus row = StatusPassed then k1\<lparr>tk_Passed := tk_Passed k1 + 1\<rparr> else k1);
          k3 = (if ti_LatestStatus row = StatusFailed then k2\<lparr>tk_Failed := tk_Failed k2 + 1\<rparr> else k2)
      in r\<lparr>tb_OK := (tb_OK r \<and> ti_Reason row \<noteq> ReasonNoRunRecorded \<and> \<not> ti_Unstable row), tb_Counts := k3\<rparr>)"

definition stability :: "time_format \<Rightarrow> string \<Rightarrow> profile_bundle \<Rightarrow> record_store option \<Rightarrow> suite_filter \<Rightarrow> api_case list \<Rightarrow> int \<Rightarrow>
  string + stability_report" where
  "stability tf now b runtime f cases limit0 =
     (let limit = (if limit0 \<le> 0 then 10 else limit0); n_cases = int (length cases);
          r0 = \<lparr>tb_OK = (runtime \<noteq> None \<or> cases = []), tb_ProfileID = bu_ID b, tb_GeneratedAt = now,
            tb_Filters = normalize_filter f, tb_Limit = limit,
            tb_Counts = \<lparr>tk_Total = n_cases, tk_Stable = 0, tk_Unstable = 0, tk_NotRun = (if runtime = None then n_cases else 0),
              tk_Passed = 0, tk_Failed = 0\<rparr>,
            tb_Items = [], tb_Warnings = (if runtime = None then [''runtime store is not configured''] else [])\<rparr>
      in case records_for_case_ids runtime (case_ids cases) of
           Inl e \<Rightarrow> Inl e
         | Inr records \<Rightarrow>
             Inr (fold (\<lambda>c r.
               let row = stability_item_for_case tf c (node_of b (ac_NodeID c)) (records_of_case records (ac_ID c)) (nat limit)
               in (apply_stability_counts row r)\<lparr>tb_Items := tb_Items r @ [row]\<rparr>) cases r0))"

section \<open>Impact of signals\<close>

text \<open>Reasons by identifier; without a reason the list is empty.\<close>

record impact_selection =
  im_nodeReasons :: "ident \<Rightarrow> string list"
  im_workflowReasons :: "ident \<Rightarrow> string list"
  im_caseReasons :: "ident \<Rightarrow> string list"

definition append_reason :: "string list \<Rightarrow> string \<Rightarrow> string list" where
  "append_reason existing reason0 =
     (let reason = trim_space reason0 in
      if reason = [] \<or> reason \<in> set existing then existing else existing @ [reason])"

definition node_reason :: "ident \<Rightarrow> string \<Rightarrow> impact_selection \<Rightarrow> impact_selection" where
  "node_reason i reason m = m\<lparr>im_nodeReasons := (im_nodeReasons m)(i := append_reason (im_nodeReasons m i) reason)\<rparr>"

definition workflow_reason :: "ident \<Rightarrow> string \<Rightarrow> impact_selection \<Rightarrow> impact_selection" where
  "workflow_reason i reason m = m\<lparr>im_workflowReasons := (im_workflowReasons m)(i := append_reason (im_workflowReasons m i) reason)\<rparr>"

definition case_reason :: "ident \<Rightarrow> string \<Rightarrow> impact_selection \<Rightarrow> impact_selection" where
  "case_reason i reason m = m\<lparr>im_caseReasons := (im_caseReasons m)(i := append_reason (im_caseReasons m i) reason)\<rparr>"

definition match_signal :: "profile_bundle \<Rightarrow> string \<Rightarrow> impact_selection \<Rightarrow> impact_selection" where
  "match_signal b signal m0 =
     (let m1 = fold (\<lambda>n m. if matches_text signal (node_texts n)
            then node_reason (in_ID n) (''matched node signal: '' @ signal) m else m) (bu_InterfaceNodes b) m0;
          m2 = fold (\<lambda>w m. if matches_text signal [wf_ID w, wf_DisplayName w, wf_Description w]
            then workflow_reason (wf_ID w) (''matched workflow signal: '' @ signal) m else m) (bu_Workflows b) m1
      in fold (\<lambda>c m. if matches_text signal (case_texts c)
            then case_reason (ac_ID c) (''matched case signal: '' @ signal) m else m) (bu_APICases b) m2)"

definition spread_binding :: "workflow_binding \<Rightarrow> impact_selection \<Rightarrow> impact_selection" where
  "spread_binding wb m0 =
     (let m1 = (if im_nodeReasons m0 (wb_NodeID wb) \<noteq> []
            then workflow_reason (wb_WorkflowID wb) (''contains impacted node: '' @ wb_NodeID wb) m0 else m0)
      in if im_workflowReasons m1 (wb_WorkflowID wb) = [] then m1
         else
           (let reason = ''bound to impacted workflow: '' @ wb_WorkflowID wb;
                m2 = (if blank (wb_NodeID wb) then m1 else node_reason (wb_NodeID wb) reason m1)
            in if blank (wb_CaseID wb) then m2 else case_reason (wb_CaseID wb) reason m2))"

definition attach_case :: "api_case \<Rightarrow> impact_selection \<Rightarrow> impact_selection" where
  "attach_case c m = (if im_nodeReasons m (ac_NodeID c) = [] then m
     else case_reason (ac_ID c) (''attached to impacted node: '' @ ac_NodeID c) m)"

definition no_impact :: impact_selection where
  "no_impact = \<lparr>im_nodeReasons = \<lambda>_. [], im_workflowReasons = \<lambda>_. [], im_caseReasons = \<lambda>_. []\<rparr>"

definition collect_impact :: "profile_bundle \<Rightarrow> string list \<Rightarrow> impact_selection" where
  "collect_impact b signals =
     fold attach_case (bu_APICases b) (fold spread_binding (bu_WorkflowBindings b) (fold (match_signal b) signals no_impact))"

definition impact_cases :: "profile_bundle \<Rightarrow> suite_filter \<Rightarrow> (ident \<Rightarrow> string list) \<Rightarrow> api_case list" where
  "impact_cases b f reasons = filter (\<lambda>c. reasons (ac_ID c) \<noteq> []) (select_cases b f)"

record impact_counts =
  ik_Signals :: int
  ik_Nodes :: int
  ik_Workflows :: int
  ik_Cases :: int
  ik_Selected :: int
  ik_Blocked :: int

record impact_node =
  ip_ID :: ident
  ip_DisplayName :: string
  ip_ServiceID :: ident
  ip_Operation :: string
  ip_Method :: string
  ip_Path :: string
  ip_Reasons :: "string list"

record impact_workflow =
  iw_ID :: ident
  iw_DisplayName :: string
  iw_Reasons :: "string list"

record impact_case =
  ia_Item :: inspection_item
  ia_Reasons :: "string list"

record impact_report =
  ie_OK :: bool
  ie_ProfileID :: ident
  ie_GeneratedAt :: string
  ie_Filters :: suite_filter
  ie_Signals :: "string list"
  ie_Counts :: impact_counts
  ie_Nodes :: "impact_node list"
  ie_Workflows :: "impact_workflow list"
  ie_Cases :: "impact_case list"
  ie_Plan :: suite_plan_report
  ie_BatchRequest :: batch_request
  ie_Warnings :: "string list"

definition impact_nodes :: "profile_bundle \<Rightarrow> (ident \<Rightarrow> string list) \<Rightarrow> impact_node list" where
  "impact_nodes b reasons = map (\<lambda>n. \<lparr>ip_ID = in_ID n, ip_DisplayName = in_DisplayName n, ip_ServiceID = in_ServiceID n,
     ip_Operation = in_Operation n, ip_Method = in_Method n, ip_Path = in_Path n, ip_Reasons = reasons (in_ID n)\<rparr>)
     (filter (\<lambda>n. reasons (in_ID n) \<noteq> []) (bu_InterfaceNodes b))"

definition impact_workflows :: "profile_bundle \<Rightarrow> (ident \<Rightarrow> string list) \<Rightarrow> impact_workflow list" where
  "impact_workflows b reasons = map (\<lambda>w. \<lparr>iw_ID = wf_ID w, iw_DisplayName = wf_DisplayName w, iw_Reasons = reasons (wf_ID w)\<rparr>)
     (filter (\<lambda>w. reasons (wf_ID w) \<noteq> []) (bu_Workflows b))"

definition impact_case_before :: "impact_case \<Rightarrow> impact_case \<Rightarrow> bool" where
  "impact_case_before x y =
     (let i = ia_Item x; j = ia_Item y in
      if ii_NodeID i \<noteq> ii_NodeID j then ii_NodeID i < ii_NodeID j
      else if ii_CaseID i \<noteq> ii_CaseID j then ii_CaseID i < ii_CaseID j else ii_Title i < ii_Title j)"

definition impact_case_rows :: "suite_plan_report \<Rightarrow> (ident \<Rightarrow> string list) \<Rightarrow> impact_case list" where
  "impact_case_rows p reasons = slice_stable impact_case_before
     (map (\<lambda>i. \<lparr>ia_Item = i, ia_Reasons = reasons (ii_CaseID i)\<rparr>) (pp_Selected p @ pp_Blocked p @ pp_Skipped p))"

text \<open>The readings of the clock are numbered in the order in which they are taken.\<close>

definition impact :: "(nat \<Rightarrow> string) \<Rightarrow> profile_bundle \<Rightarrow> record_store option \<Rightarrow> suite_filter \<Rightarrow> string list \<Rightarrow> plan_options \<Rightarrow>
  string + impact_report" where
  "impact now b runtime f0 signals0 opts =
     (let f = normalize_filter f0; signals = normalize_string_list signals0; m = collect_impact b signals in
      case suite_plan (now 0) b runtime f (impact_cases b f (im_caseReasons m)) opts of
        Inl e \<Rightarrow> Inl e
      | Inr p \<Rightarrow>
          (let nodes = impact_nodes b (im_nodeReasons m); workflows = impact_workflows b (im_workflowReasons m);
               cases = impact_case_rows p (im_caseReasons m)
           in Inr \<lparr>ie_OK = (pp_OK p \<and> signals \<noteq> []), ie_ProfileID = bu_ID b, ie_GeneratedAt = now 1, ie_Filters = f,
             ie_Signals = signals,
             ie_Counts = \<lparr>ik_Signals = int (length signals), ik_Nodes = int (length nodes),
               ik_Workflows = int (length workflows), ik_Cases = int (length cases), ik_Selected = pk_Selected (pp_Counts p),
               ik_Blocked = pk_Blocked (pp_Counts p)\<rparr>,
             ie_Nodes = nodes, ie_Workflows = workflows, ie_Cases = cases, ie_Plan = p, ie_BatchRequest = pp_BatchRequest p,
             ie_Warnings = pp_Warnings p @ (if signals = [] then [''no impact signals provided''] else [])\<rparr>))"

section \<open>Priority\<close>

record priority_options =
  pq_Signals :: "string list"
  pq_Limit :: int
  pq_RequestID :: ident
  pq_BaseURL :: string
  pq_EvidenceDir :: string
  pq_TimeoutSeconds :: int

record priority_item =
  pi_Item :: inspection_item
  pi_Score :: int
  pi_Reasons :: "string list"

record priority_report =
  pr_OK :: bool
  pr_ProfileID :: ident
  pr_GeneratedAt :: string
  pr_Filters :: suite_filter
  pr_Options :: priority_options
  pr_Counts :: plan_counts
  pr_CaseIDs :: "ident list"
  pr_Selected :: "priority_item list"
  pr_Skipped :: "priority_item list"
  pr_Blocked :: "priority_item list"
  pr_BatchRequest :: batch_request
  pr_Warnings :: "string list"

definition priority_weight :: "string \<Rightarrow> int" where
  "priority_weight v0 =
     (let v = to_lower (trim_space v0) in
      if v \<in> {''p0'', ''0'', ''critical''} then 30
      else if v \<in> {''p1'', ''1'', ''high''} then 20
      else if v \<in> {''p2'', ''2'', ''medium''} then 10 else 0)"

definition priority_score :: "inspection_item \<Rightarrow> bool \<Rightarrow> string list \<Rightarrow> int \<times> string list" where
  "priority_score i unstable impact_reasons =
     (let st = normalize_run_state (ii_LatestStatus i); weight = priority_weight (ii_Priority i);
          parts = (if impact_reasons \<noteq> [] then [(100, ''impacted'')] else []) @
            (if st = StatusFailed then [(60, ''latest failed'')] else if st = ''not-run'' then [(30, ''not run'')]
             else if st = StatusPassed then [(5, ''latest passed'')] else []) @
            (if unstable then [(40, ''unstable'')] else []) @
            (if 0 < weight then [(weight, ''priority '' @ to_lower (trim_space (ii_Priority i)))] else []) @
            (if ii_Ready i then [] else [(-1000, ''blocked'')])
      in (sum_list (map fst parts), map snd parts))"

definition item_unstable :: "stability_item list \<Rightarrow> ident \<Rightarrow> bool" where
  "item_unstable items i = (case index_by ti_CaseID items i of None \<Rightarrow> False | Some t \<Rightarrow> ti_Unstable t)"

definition scored_item :: "stability_item list \<Rightarrow> (ident \<Rightarrow> string list) \<Rightarrow> inspection_item \<Rightarrow> priority_item" where
  "scored_item items reasons i =
     (let s = priority_score i (item_unstable items (ii_CaseID i)) (reasons (ii_CaseID i))
      in \<lparr>pi_Item = i, pi_Score = fst s, pi_Reasons = snd s\<rparr>)"

text \<open>The scored items that are ready and those that are blocked.\<close>

definition scored_priority_items :: "inspection_item list \<Rightarrow> stability_item list \<Rightarrow> (ident \<Rightarrow> string list) \<Rightarrow>
  priority_item list \<times> priority_item list" where
  "scored_priority_items is items reasons =
     (let rows = map (scored_item items reasons) is
      in (filter (\<lambda>r. ii_Ready (pi_Item r)) rows, filter (\<lambda>r. \<not> ii_Ready (pi_Item r)) rows))"

definition priority_before :: "priority_item \<Rightarrow> priority_item \<Rightarrow> bool" where
  "priority_before x y =
     (let i = pi_Item x; j = pi_Item y in
      if pi_Score x \<noteq> pi_Score y then pi_Score x > pi_Score y
      else if ii_Priority i \<noteq> ii_Priority j then priority_weight (ii_Priority i) > priority_weight (ii_Priority j)
      else if ii_NodeID i \<noteq> ii_NodeID j then ii_NodeID i < ii_NodeID j else ii_CaseID i < ii_CaseID j)"

definition sort_priority_items :: "priority_item list \<Rightarrow> priority_item list" where
  "sort_priority_items = slice_stable priority_before"

definition priority_limit :: "int \<Rightarrow> nat \<Rightarrow> nat" where
  "priority_limit requested available = (if requested \<le> 0 \<or> int available < requested then available else nat requested)"

fun append_unique_strings :: "string list \<Rightarrow> string list \<Rightarrow> string list" where
  "append_unique_strings vs [] = vs"
| "append_unique_strings vs (a # as) =
     (if a = [] \<or> a \<in> set vs then append_unique_strings vs as else append_unique_strings (vs @ [a]) as)"

definition priority_from_parts :: "string \<Rightarrow> profile_bundle \<Rightarrow> suite_filter \<Rightarrow> inspection_report \<Rightarrow> stability_report \<Rightarrow>
  priority_options \<Rightarrow> priority_report" where
  "priority_from_parts now b f ins stab o0 =
     (let opts = o0\<lparr>pq_Signals := normalize_string_list (pq_Signals o0)\<rparr>;
          split = scored_priority_items (ir_Items ins) (tb_Items stab) (im_caseReasons (collect_impact b (pq_Signals opts)));
          scored = sort_priority_items (fst split);
          limit = priority_limit (pq_Limit opts) (length scored);
          selected = take limit scored; skipped = drop limit scored; ids = map (\<lambda>r. ii_CaseID (pi_Item r)) selected;
          warnings = append_unique_strings (append_unique_strings [] (ir_Warnings ins)) (tb_Warnings stab)
      in \<lparr>pr_OK = (ids \<noteq> []), pr_ProfileID = bu_ID b, pr_GeneratedAt = now, pr_Filters = normalize_filter f, pr_Options = opts,
        pr_Counts = \<lparr>pk_Total = int (length (ir_Items ins)), pk_Ready = int (length scored),
          pk_Blocked = int (length (snd split)), pk_Selected = int (length selected), pk_Skipped = int (length skipped)\<rparr>,
        pr_CaseIDs = ids, pr_Selected = selected, pr_Skipped = skipped, pr_Blocked = snd split,
        pr_BatchRequest = new_batch_request ids (pq_RequestID opts) (pq_BaseURL opts) (pq_EvidenceDir opts) (pq_TimeoutSeconds opts),
        pr_Warnings = warnings @ (if ids = [] then [''no ready cases selected for prioritized execution''] else [])\<rparr>)"

definition priority :: "time_format \<Rightarrow> (nat \<Rightarrow> string) \<Rightarrow> profile_bundle \<Rightarrow> record_store option \<Rightarrow> suite_filter \<Rightarrow> api_case list \<Rightarrow>
  priority_options \<Rightarrow> string + priority_report" where
  "priority tf now b runtime f0 cases o0 =
     (let f = normalize_filter f0; opts = o0\<lparr>pq_Signals := normalize_string_list (pq_Signals o0)\<rparr> in
      case inspect (now 0) b runtime f cases of
        Inl e \<Rightarrow> Inl e
      | Inr ins \<Rightarrow>
          (case stability tf (now 1) b runtime f cases 10 of
             Inl e \<Rightarrow> Inl e
           | Inr stab \<Rightarrow> Inr (priority_from_parts (now 2) b f ins stab opts)))"

section \<open>The brief\<close>

record brief_options =
  bo_Signals :: "string list"
  bo_Limit :: int
  bo_StabilityLimit :: int
  bo_RequestID :: ident
  bo_BaseURL :: string
  bo_EvidenceDir :: string
  bo_TimeoutSeconds :: int

record brief_counts =
  bk_Total :: int
  bk_Ready :: int
  bk_Blocked :: int
  bk_Passed :: int
  bk_Failed :: int
  bk_NotRun :: int
  bk_Unstable :: int
  bk_PrioritySelected :: int
  bk_PrioritySkipped :: int

record brief_report =
  bf_OK :: bool
  bf_ProfileID :: ident
  bf_GeneratedAt :: string
  bf_Filters :: suite_filter
  bf_Options :: brief_options
  bf_Counts :: brief_counts
  bf_Recommended :: "priority_item list"
  bf_Blocked :: "priority_item list"
  bf_Readiness :: "inspection_item list"
  bf_Coverage :: "suite_item list"
  bf_Stability :: "stability_item list"
  bf_BatchRequest :: batch_request
  bf_Warnings :: "string list"

definition brief_of_parts :: "string \<Rightarrow> profile_bundle \<Rightarrow> suite_filter \<Rightarrow> brief_options \<Rightarrow> bool \<Rightarrow> suite_report \<Rightarrow>
  inspection_report \<Rightarrow> stability_report \<Rightarrow> priority_report \<Rightarrow> brief_report" where
  "brief_of_parts now b f opts no_cases cov ins stab prio =
     \<lparr>bf_OK = (\<not> no_cases), bf_ProfileID = bu_ID b, bf_GeneratedAt = now, bf_Filters = f, bf_Options = opts,
      bf_Counts = \<lparr>bk_Total = ic_Total (ir_Counts ins), bk_Ready = ic_Ready (ir_Counts ins), bk_Blocked = ic_Blocked (ir_Counts ins),
        bk_Passed = sc_Passed (sr_Counts cov), bk_Failed = sc_Failed (sr_Counts cov), bk_NotRun = sc_NotRun (sr_Counts cov),
        bk_Unstable = tk_Unstable (tb_Counts stab), bk_PrioritySelected = pk_Selected (pr_Counts prio),
        bk_PrioritySkipped = pk_Skipped (pr_Counts prio)\<rparr>,
      bf_Recommended = pr_Selected prio, bf_Blocked = pr_Blocked prio, bf_Readiness = ir_Items ins, bf_Coverage = sr_Items cov,
      bf_Stability = tb_Items stab, bf_BatchRequest = pr_BatchRequest prio,
      bf_Warnings = fold (\<lambda>ws acc. append_unique_strings acc ws)
        [sr_Warnings cov, ir_Warnings ins, tb_Warnings stab, pr_Warnings prio, if no_cases then [''no cases matched selector''] else []] []\<rparr>"

definition brief :: "time_format \<Rightarrow> (nat \<Rightarrow> string) \<Rightarrow> profile_bundle \<Rightarrow> record_store option \<Rightarrow> suite_filter \<Rightarrow> api_case list \<Rightarrow>
  brief_options \<Rightarrow> string + brief_report" where
  "brief tf now b runtime f0 cases o0 =
     (let f = normalize_filter f0;
          opts = o0\<lparr>bo_Signals := normalize_string_list (bo_Signals o0),
            bo_StabilityLimit := (if bo_StabilityLimit o0 \<le> 0 then 10 else bo_StabilityLimit o0)\<rparr>
      in case coverage (now 0) b runtime f cases of
           Inl e \<Rightarrow> Inl e
         | Inr cov \<Rightarrow>
             (case inspect (now 1) b runtime f cases of
                Inl e \<Rightarrow> Inl e
              | Inr ins \<Rightarrow>
                  (case stability tf (now 2) b runtime f cases (bo_StabilityLimit opts) of
                     Inl e \<Rightarrow> Inl e
                   | Inr stab \<Rightarrow>
                       Inr (brief_of_parts (now 4) b f opts (cases = []) cov ins stab
                         (priority_from_parts (now 3) b f ins stab
                           \<lparr>pq_Signals = bo_Signals opts, pq_Limit = bo_Limit opts, pq_RequestID = bo_RequestID opts,
                            pq_BaseURL = bo_BaseURL opts, pq_EvidenceDir = bo_EvidenceDir opts,
                            pq_TimeoutSeconds = bo_TimeoutSeconds opts\<rparr>)))))"

end
