(* ===== verification/Case_Quality.thy ===== *)
theory Case_Quality
  imports Case_Suite
begin

text \<open>
  The quality of the cases of a profile (\<open>quality.go\<close> and \<open>quality_evaluation.go\<close> in
  \<open>internal/domain/casesuite\<close>): what each case lacks, the nodes without cases, and the actions that are
  proposed.
\<close>

section \<open>Quality\<close>

record quality_counts =
  qk_Nodes :: int
  qk_NodesWithoutCases :: int
  qk_Cases :: int
  qk_CompleteCases :: int
  qk_IncompleteCases :: int
  qk_MissingDescription :: int
  qk_MissingTags :: int
  qk_MissingPriority :: int
  qk_MissingOwner :: int
  qk_MissingRunnable :: int
  qk_MissingExecution :: int
  qk_Inactive :: int
  qk_NonExecutableLifecycle :: int
  qk_InvalidStatus :: int

definition no_quality_counts :: quality_counts where
  "no_quality_counts = \<lparr>qk_Nodes = 0, qk_NodesWithoutCases = 0, qk_Cases = 0, qk_CompleteCases = 0, qk_IncompleteCases = 0,
     qk_MissingDescription = 0, qk_MissingTags = 0, qk_MissingPriority = 0, qk_MissingOwner = 0, qk_MissingRunnable = 0,
     qk_MissingExecution = 0, qk_Inactive = 0, qk_NonExecutableLifecycle = 0, qk_InvalidStatus = 0\<rparr>"

record quality_case =
  qc_CaseID :: ident
  qc_Title :: string
  qc_NodeID :: ident
  qc_NodeName :: string
  qc_Status :: string
  qc_Lifecycle :: string
  qc_Tags :: "string list"
  qc_Priority :: string
  qc_Owner :: string
  qc_HasDescription :: bool
  qc_HasRunnableFile :: bool
  qc_HasExecutionConfig :: bool
  qc_Complete :: bool
  qc_Issues :: "string list"

record quality_node =
  qn_NodeID :: ident
  qn_DisplayName :: string
  qn_ServiceID :: ident
  qn_Operation :: string
  qn_Method :: string
  qn_Path :: string
  qn_CaseCount :: int
  qn_Issues :: "string list"

record quality_report =
  qr_OK :: bool
  qr_ProfileID :: ident
  qr_GeneratedAt :: string
  qr_Filters :: suite_filter
  qr_Counts :: quality_counts
  qr_Cases :: "quality_case list"
  qr_Nodes :: "quality_node list"
  qr_Warnings :: "string list"

definition interface_node_status :: "interface_node \<Rightarrow> string" where
  "interface_node_status n = (let st = to_lower (trim_space (in_Status n)) in if st = [] then CaseLifecycleActive else st)"

definition quality_node_matches_filter :: "interface_node \<Rightarrow> suite_filter \<Rightarrow> bool" where
  "quality_node_matches_filter n f \<longleftrightarrow>
     (sf_NodeID f = [] \<or> in_ID n = sf_NodeID f) \<and>
     (sf_Status f = [] \<or> equal_fold (interface_node_status n) (sf_Status f)) \<and>
     matches_text (sf_Filter f) (node_texts n)"

definition has_external_source :: "api_case \<Rightarrow> bool" where
  "has_external_source c \<longleftrightarrow> \<not> blank (ac_SourcePath c) \<or> \<not> blank (ac_SourceKind c) \<or> \<not> blank (ac_ExecutorID c)"

definition has_runnable_source :: "api_case \<Rightarrow> bool" where
  "has_runnable_source c \<longleftrightarrow> \<not> blank (ac_CasePath c) \<or> has_external_source c"

definition executor_reference_set :: "profile_bundle \<Rightarrow> ident \<rightharpoonup> executor_descriptor" where
  "executor_reference_set b = index_by (\<lambda>x. trim_space (xd_ID x)) (filter (\<lambda>x. \<not> blank (xd_ID x)) (bu_Executors b))"

definition has_usable_executor_reference :: "api_case \<Rightarrow> (ident \<rightharpoonup> executor_descriptor) \<Rightarrow> bool" where
  "has_usable_executor_reference c refs =
     (let eid = trim_space (ac_ExecutorID c) in
      if eid = [] \<or> blank (ac_SourcePath c) then False
      else (case refs eid of
          None \<Rightarrow> False
        | Some x \<Rightarrow>
            (let st = trim_space (to_lower (xd_Status x)); sk = trim_space (to_lower (ac_SourceKind c));
                 ek = trim_space (to_lower (xd_Kind x))
             in (st = [] \<or> st = ''active'') \<and> (sk = [] \<or> ek = [] \<or> sk = ek))))"

definition quality_case_issues :: "api_case \<Rightarrow> quality_case \<Rightarrow> (ident \<rightharpoonup> executor_descriptor) \<Rightarrow> string list" where
  "quality_case_issues c row refs =
     (if has_external_source c \<and> \<not> has_usable_executor_reference c refs then [''missing-executor''] else []) @
     (if qc_Lifecycle row = CaseLifecycleInvalid then [''invalid-status''] else []) @
     (if is_executable_case_lifecycle (qc_Lifecycle row) then [] else [''inactive'', ''non-executable-lifecycle'']) @
     (if qc_HasDescription row then [] else [''missing-description'']) @
     (if qc_Tags row = [] then [''missing-tags''] else []) @
     (if blank (qc_Priority row) then [''missing-priority''] else []) @
     (if blank (qc_Owner row) then [''missing-owner''] else []) @
     (if qc_HasRunnableFile row then [] else [''missing-runnable-source'']) @
     (if qc_HasExecutionConfig row then [] else [''missing-execution-config''])"

definition quality_case_row :: "profile_bundle \<Rightarrow> record_store option \<Rightarrow> api_case \<Rightarrow> quality_case" where
  "quality_case_row b runtime c =
     (let refs = executor_reference_set b;
          row = \<lparr>qc_CaseID = ac_ID c, qc_Title = first_non_empty [ac_DisplayName c, ac_ID c], qc_NodeID = ac_NodeID c,
            qc_NodeName = first_non_empty [in_DisplayName (node_of b (ac_NodeID c)), ac_NodeID c], qc_Status = suite_case_status c,
            qc_Lifecycle = suite_case_status c, qc_Tags = case_tags c, qc_Priority = ac_Priority c, qc_Owner = ac_Owner c,
            qc_HasDescription = (\<not> blank (ac_Description c)), qc_HasRunnableFile = has_runnable_source c,
            qc_HasExecutionConfig = (ac_ID c \<in> execution_config_set b runtime \<or> has_usable_executor_reference c refs),
            qc_Complete = False, qc_Issues = []\<rparr>;
          issues = quality_case_issues c row refs
      in row\<lparr>qc_Issues := issues, qc_Complete := (issues = [])\<rparr>)"

definition count_case_issue :: "string \<Rightarrow> quality_counts \<Rightarrow> quality_counts" where
  "count_case_issue issue k =
     (if issue = ''invalid-status'' then k\<lparr>qk_InvalidStatus := qk_InvalidStatus k + 1\<rparr>
      else if issue = ''inactive'' then k\<lparr>qk_Inactive := qk_Inactive k + 1\<rparr>
      else if issue = ''non-executable-lifecycle'' then k\<lparr>qk_NonExecutableLifecycle := qk_NonExecutableLifecycle k + 1\<rparr>
      else if issue = ''missing-description'' then k\<lparr>qk_MissingDescription := qk_MissingDescription k + 1\<rparr>
      else if issue = ''missing-tags'' then k\<lparr>qk_MissingTags := qk_MissingTags k + 1\<rparr>
      else if issue = ''missing-priority'' then k\<lparr>qk_MissingPriority := qk_MissingPriority k + 1\<rparr>
      else if issue = ''missing-owner'' then k\<lparr>qk_MissingOwner := qk_MissingOwner k + 1\<rparr>
      else if issue = ''missing-runnable-source'' then k\<lparr>qk_MissingRunnable := qk_MissingRunnable k + 1\<rparr>
      else if issue = ''missing-execution-config'' then k\<lparr>qk_MissingExecution := qk_MissingExecution k + 1\<rparr> else k)"

definition add_quality_case :: "quality_case \<Rightarrow> quality_report \<Rightarrow> quality_report" where
  "add_quality_case row r =
     (let k0 = qr_Counts r;
          k = (if qc_Complete row then k0\<lparr>qk_CompleteCases := qk_CompleteCases k0 + 1\<rparr>
            else k0\<lparr>qk_IncompleteCases := qk_IncompleteCases k0 + 1\<rparr>)
      in r\<lparr>qr_Counts := fold count_case_issue (qc_Issues row) k, qr_Cases := qr_Cases r @ [row]\<rparr>)"

definition case_counts_by_node :: "api_case list \<Rightarrow> ident \<Rightarrow> nat" where
  "case_counts_by_node cases i = length (filter (\<lambda>c. \<not> blank (ac_NodeID c) \<and> ac_NodeID c = i) cases)"

definition add_node_if_uncovered :: "suite_filter \<Rightarrow> api_case list \<Rightarrow> interface_node \<Rightarrow> quality_report \<Rightarrow> quality_report" where
  "add_node_if_uncovered f cases n r =
     (if \<not> quality_node_matches_filter n f then r
      else
        (let k = (qr_Counts r)\<lparr>qk_Nodes := qk_Nodes (qr_Counts r) + 1\<rparr> in
         if 0 < case_counts_by_node cases (in_ID n) then r\<lparr>qr_Counts := k\<rparr>
         else r\<lparr>qr_Counts := k\<lparr>qk_NodesWithoutCases := qk_NodesWithoutCases k + 1\<rparr>,
           qr_Nodes := qr_Nodes r @ [\<lparr>qn_NodeID = in_ID n, qn_DisplayName = in_DisplayName n, qn_ServiceID = in_ServiceID n,
             qn_Operation = in_Operation n, qn_Method = in_Method n, qn_Path = in_Path n, qn_CaseCount = 0,
             qn_Issues = [''no-maintained-cases'']\<rparr>]\<rparr>))"

definition finish_quality :: "quality_report \<Rightarrow> quality_report" where
  "finish_quality r =
     (let k = (qr_Counts r)\<lparr>qk_Cases := int (length (qr_Cases r))\<rparr> in
      r\<lparr>qr_Counts := k, qr_OK := (qk_IncompleteCases k = 0 \<and> qk_NodesWithoutCases k = 0),
        qr_Warnings := qr_Warnings r @ (if qk_Cases k = 0 then [''no cases matched selector''] else [])\<rparr>)"

definition quality :: "string \<Rightarrow> profile_bundle \<Rightarrow> record_store option \<Rightarrow> suite_filter \<Rightarrow> api_case list \<Rightarrow> quality_report" where
  "quality now b runtime f0 cases =
     (let f = normalize_filter f0;
          r0 = \<lparr>qr_OK = True, qr_ProfileID = bu_ID b, qr_GeneratedAt = now, qr_Filters = f, qr_Counts = no_quality_counts,
            qr_Cases = [], qr_Nodes = [], qr_Warnings = []\<rparr>
      in finish_quality (fold (add_node_if_uncovered f cases) (bu_InterfaceNodes b)
           (fold (\<lambda>c. add_quality_case (quality_case_row b runtime c)) cases r0)))"

section \<open>What to do about quality\<close>

record quality_plan_counts =
  qp_Total :: int
  qp_DraftCase :: int
  qp_CompleteMetadata :: int
  qp_AddRunnable :: int
  qp_AddExecution :: int
  qp_ReviewLifecycle :: int

record quality_action =
  qa_Type :: string
  qa_NodeID :: ident
  qa_NodeName :: string
  qa_CaseID :: ident
  qa_CaseTitle :: string
  qa_SuggestedCaseID :: ident
  qa_Fields :: "string list"
  qa_Issues :: "string list"
  qa_Command :: "string list"
  qa_Reason :: string

record quality_plan_report =
  ql_OK :: bool
  ql_ProfileID :: ident
  ql_GeneratedAt :: string
  ql_Filters :: suite_filter
  ql_Counts :: quality_plan_counts
  ql_Actions :: "quality_action list"
  ql_Quality :: quality_report
  ql_Warnings :: "string list"

text \<open>A byte that is not ASCII is no letter here.\<close>

fun slug_loop :: "bool \<Rightarrow> string \<Rightarrow> string \<Rightarrow> string" where
  "slug_loop last_dash acc [] = acc"
| "slug_loop last_dash acc (c # cs) =
     (if is_alnum c then slug_loop False (acc @ [c]) cs
      else if \<not> last_dash \<and> acc \<noteq> [] then slug_loop True (acc @ ''-'') cs
      else slug_loop last_dash acc cs)"

definition slug_value :: "string \<Rightarrow> string" where
  "slug_value v =
     (let s = slug_loop False [] (to_lower (trim_space v)); dash = (\<lambda>c. c = CHR ''-'');
          t = rev (dropWhile dash (rev (dropWhile dash s)))
      in if t = [] then ''case'' else t)"

definition suggested_case_id :: "ident \<Rightarrow> ident" where
  "suggested_case_id nid = ''case.'' @ slug_value nid @ ''.default''"

definition action_rank :: "string \<Rightarrow> nat" where
  "action_rank t =
     (if t = ''draft-case'' then 0 else if t = ''complete-case-metadata'' then 1 else if t = ''review-case-lifecycle'' then 2
      else if t = QualityActionAddRunnable then 3 else if t = ''add-execution-config'' then 4 else 99)"

definition missing_metadata_fields :: "quality_case \<Rightarrow> string list" where
  "missing_metadata_fields q =
     (if qc_HasDescription q then [] else [''description'']) @ (if qc_Tags q = [] then [''tags''] else []) @
     (if blank (qc_Priority q) then [''priority''] else []) @ (if blank (qc_Owner q) then [''owner''] else [])"

definition metadata_issues :: "string list \<Rightarrow> string list" where
  "metadata_issues = filter (\<lambda>i. i \<in> {''missing-description'', ''missing-tags'', ''missing-priority'', ''missing-owner''})"

definition case_lifecycle_issues :: "string list \<Rightarrow> string list" where
  "case_lifecycle_issues = filter (\<lambda>i. i \<in> {''invalid-status'', ''non-executable-lifecycle''})"

definition case_action :: "quality_case \<Rightarrow> string \<Rightarrow> string list \<Rightarrow> string list \<Rightarrow> string \<Rightarrow> quality_action" where
  "case_action q kind missing issues reason = \<lparr>qa_Type = kind, qa_NodeID = qc_NodeID q, qa_NodeName = [], qa_CaseID = qc_CaseID q,
     qa_CaseTitle = qc_Title q, qa_SuggestedCaseID = [], qa_Fields = missing, qa_Issues = issues, qa_Command = [],
     qa_Reason = reason\<rparr>"

definition node_action :: "quality_node \<Rightarrow> quality_action" where
  "node_action n =
     (let sid = suggested_case_id (qn_NodeID n) in
      \<lparr>qa_Type = ''draft-case'', qa_NodeID = qn_NodeID n, qa_NodeName = qn_DisplayName n, qa_CaseID = [], qa_CaseTitle = [],
       qa_SuggestedCaseID = sid, qa_Fields = [], qa_Issues = qn_Issues n,
       qa_Command = [''interface-node'', ''case'', ''draft'', ''--node'', qn_NodeID n, ''--case-id'', sid, ''--title'',
         first_non_empty [qn_DisplayName n, qn_NodeID n] @ '' Default Case''],
       qa_Reason = ''interface node has no maintained cases''\<rparr>)"

definition case_actions :: "quality_case \<Rightarrow> quality_action list" where
  "case_actions q =
     (if qc_Complete q then []
      else (let lifecycle = case_lifecycle_issues (qc_Issues q); missing = missing_metadata_fields q in
        (if lifecycle = [] then []
         else [case_action q ''review-case-lifecycle'' [] lifecycle ''case lifecycle status is not executable'']) @
        (if missing = [] then []
         else [case_action q ''complete-case-metadata'' missing (metadata_issues (qc_Issues q)) ''case metadata is incomplete'']) @
        (if qc_HasRunnableFile q then []
         else [case_action q QualityActionAddRunnable [] [''missing-runnable-source''] ''case has no runnable API case file'']) @
        (if qc_HasExecutionConfig q then []
         else [case_action q ''add-execution-config'' [] [''missing-execution-config''] ''case has no execution config''])))"

definition action_before :: "quality_action \<Rightarrow> quality_action \<Rightarrow> bool" where
  "action_before x y =
     (if action_rank (qa_Type x) \<noteq> action_rank (qa_Type y) then action_rank (qa_Type x) < action_rank (qa_Type y)
      else if qa_NodeID x \<noteq> qa_NodeID y then qa_NodeID x < qa_NodeID y else qa_CaseID x < qa_CaseID y)"

text \<open>Each kind of action is counted when it is added.\<close>

definition count_actions :: "quality_action list \<Rightarrow> string \<Rightarrow> int" where
  "count_actions as kind = int (length (filter (\<lambda>a. qa_Type a = kind) as))"

definition quality_plan :: "(nat \<Rightarrow> string) \<Rightarrow> profile_bundle \<Rightarrow> record_store option \<Rightarrow> suite_filter \<Rightarrow> api_case list \<Rightarrow>
  quality_plan_report" where
  "quality_plan now b runtime f cases =
     (let q = quality (now 0) b runtime f cases;
          as = map node_action (qr_Nodes q) @ concat (map case_actions (qr_Cases q))
      in \<lparr>ql_OK = True, ql_ProfileID = bu_ID b, ql_GeneratedAt = now 1, ql_Filters = qr_Filters q,
        ql_Counts = \<lparr>qp_Total = int (length as), qp_DraftCase = count_actions as ''draft-case'',
          qp_CompleteMetadata = count_actions as ''complete-case-metadata'',
          qp_AddRunnable = count_actions as QualityActionAddRunnable, qp_AddExecution = count_actions as ''add-execution-config'',
          qp_ReviewLifecycle = count_actions as ''review-case-lifecycle''\<rparr>,
        ql_Actions = slice_stable action_before as, ql_Quality = q, ql_Warnings = qr_Warnings q\<rparr>)"

end
