(* ===== verification/Case_Suite_Facts.thy ===== *)
theory Case_Suite_Facts
  imports Case_Quality
begin

text \<open>
  What the reports on a suite of cases promise: the selection is the sorted list of the matching cases, the latest run of a
  case does not depend on the order of the records, a plan requests the cases that are ready, and a limited priority
  list keeps the best scores. Two reports do less than they seem to: the coverage without a store counts every case twice
  as not run, and the impact of a signal depends on the order of the bindings.
\<close>

section \<open>Normalised filters\<close>

definition part_ok :: "string \<Rightarrow> bool" where
  "part_ok p \<longleftrightarrow> p \<noteq> [] \<and> trim_space p = p \<and> CHR '','' \<notin> set p"

lemma split_on_parts: "p \<in> set (split_on d s) \<Longrightarrow> d \<notin> set p"
proof (induction s arbitrary: p)
  case (Cons c s)
  then show ?case by (cases "split_on d s") (auto split: if_splits)
qed simp

lemma split_on_single: "d \<notin> set s \<Longrightarrow> split_on d s = [s]"
  by (induction s) auto

lemma trim_space_subset: "set (trim_space s) \<subseteq> set s"
  unfolding trim_space_def trim_left_def by (metis (no_types, lifting) set_dropWhileD set_rev subsetI)

lemma compact_folded_parts:
  "list_all part_ok (compact_folded seen ps) \<or> \<not> (\<forall>p \<in> set ps. CHR '','' \<notin> set p)"
  by (induction seen ps rule: compact_folded.induct) (use trim_space_subset in \<open>auto simp: Let_def part_ok_def\<close>)

lemma compact_folded_distinct:
  "distinct (map to_lower (compact_folded seen ps)) \<and> to_lower ` set (compact_folded seen ps) \<inter> seen = {}"
  by (induction seen ps rule: compact_folded.induct) (auto simp: Let_def)

lemma compact_folded_fixed:
  "list_all part_ok ps \<Longrightarrow> distinct (map to_lower ps) \<Longrightarrow> to_lower ` set ps \<inter> seen = {} \<Longrightarrow> compact_folded seen ps = ps"
  by (induction ps arbitrary: seen) (auto simp: Let_def part_ok_def)

lemma normalize_string_list_parts: "list_all part_ok (normalize_string_list vs)"
  using compact_folded_parts [of "{}" "concat (map (split_on (CHR '','')) vs)"] split_on_parts
  by (auto simp: normalize_string_list_def)

lemma normalize_string_list_idem [simp]: "normalize_string_list (normalize_string_list vs) = normalize_string_list vs"
proof -
  let ?n = "normalize_string_list vs"
  have "concat (map (split_on (CHR '','')) ps) = ps" if "list_all part_ok ps" for ps
    using that by (induction ps) (auto simp: part_ok_def split_on_single)
  moreover have "compact_folded {} ?n = ?n"
    using compact_folded_fixed [OF normalize_string_list_parts [of vs], of "{}"]
      compact_folded_distinct [of "{}" "concat (map (split_on (CHR '','')) vs)"]
    by (simp add: normalize_string_list_def)
  ultimately show ?thesis using normalize_string_list_parts [of vs] by (simp add: normalize_string_list_def)
qed

lemma normalize_filter_idem [simp]: "normalize_filter (normalize_filter f) = normalize_filter f"
  by (simp add: normalize_filter_def)

lemma case_matches_normalized [simp]: "case_matches c (normalize_filter f) = case_matches c f"
  by (simp add: case_matches_def Let_def)

section \<open>Selection\<close>

definition case_key :: "api_case \<Rightarrow> ident \<times> int \<times> ident" where
  "case_key c = (ac_NodeID c, ac_SortOrder c, ac_ID c)"

lemma order_by_key:
  assumes "\<And>x y. lt x y \<longleftrightarrow> key x < key y"
  shows "order_by lt xs = sort_key key xs"
proof -
  have "insert_before lt x ys = insort_key key x ys" for x ys
    by (induction ys) (auto simp: assms not_less)
  then have "insert_before lt = insort_key key" by blast
  then show ?thesis by (simp add: order_by_def sort_key_def)
qed

lemma case_before_key: "case_before c d \<longleftrightarrow> case_key c < case_key d"
  by (auto simp: case_before_def case_key_def less_prod_def)

text \<open>
  C18. Selecting cases gives the cases of the bundle that match the filter, each as often as the bundle has it, in the
  order of their node, their sort order and their identifier; cases that agree in all three keep their order. A filter
  selects the same cases before and after it is normalised.
\<close>

theorem select_cases_sorted:
  "select_cases b f = sort_key case_key (filter (\<lambda>c. case_matches c f) (bu_APICases b)) \<and>
   select_cases b (normalize_filter f) = select_cases b f"
  by (simp add: select_cases_def order_by_key [of case_before case_key] case_before_key)

section \<open>The latest run of a case\<close>

lemma state_by_case_fold:
  "state_by_case rs i = fold update_state (filter (\<lambda>r. kr_CaseID (rc_CaseRun r) = i) rs) no_state"
proof -
  have "fold (\<lambda>r m. let i = kr_CaseID (rc_CaseRun r) in m(i := update_state r (m i))) rs m i =
      fold update_state (filter (\<lambda>r. kr_CaseID (rc_CaseRun r) = i) rs) (m i)" for m
    by (induction rs arbitrary: m) (auto simp: Let_def)
  then show ?thesis by (simp add: state_by_case_def)
qed

definition run_id :: "run_record \<Rightarrow> ident" where
  "run_id r = kr_ID (rc_CaseRun r)"

definition run_age :: "run_record \<Rightarrow> time \<times> ident" where
  "run_age r = (kr_CreatedAt (rc_CaseRun r), run_id r)"

lemma record_newer_age: "record_newer l r \<longleftrightarrow> run_age r < run_age l"
  by (auto simp: record_newer_def run_age_def run_id_def time_after_def less_prod_def)

definition newest_of :: "run_record list \<Rightarrow> case_state \<Rightarrow> bool" where
  "newest_of rs st \<longleftrightarrow>
     (case cs_Latest st of None \<Rightarrow> rs = [] | Some r \<Rightarrow> r \<in> set rs \<and> (\<forall>x \<in> set rs. run_age x \<le> run_age r)) \<and>
     (cs_HasPassed st \<longleftrightarrow> list_ex (\<lambda>r. is_passed_status (kr_Status (rc_CaseRun r))) rs)"

lemma newest_of_fold:
  assumes "\<forall>r \<in> set (rs @ rs'). run_id r \<noteq> []" "newest_of rs st"
  shows "newest_of (rs @ rs') (fold update_state rs' st)"
  using assms
proof (induction rs' arbitrary: rs st)
  case (Cons r rs')
  have "newest_of (rs @ [r]) (update_state r st)"
    using Cons.prems unfolding newest_of_def update_state_def latest_record_def run_id_def [symmetric]
    by (auto simp: record_newer_age not_less split: option.splits)
  then show ?case using Cons.IH [of "rs @ [r]" "update_state r st"] Cons.prems(1) by simp
qed simp

lemma newest_of_state:
  assumes "\<forall>r \<in> set rs. run_id r \<noteq> []"
  shows "newest_of (filter (\<lambda>r. kr_CaseID (rc_CaseRun r) = i) rs) (state_by_case rs i)"
  using newest_of_fold [of "[]" "filter (\<lambda>r. kr_CaseID (rc_CaseRun r) = i) rs" no_state] assms
  by (simp add: state_by_case_fold newest_of_def no_state_def)

lemma newest_of_unique:
  assumes "newest_of rs st" "newest_of rs' st'" "set rs = set rs'" "inj_on run_id (set rs)"
  shows "st = st'"
proof -
  have e: "rs = [] \<longleftrightarrow> rs' = []" using assms(3) by (metis set_empty)
  have "cs_Latest st = cs_Latest st'"
  proof (cases "cs_Latest st"; cases "cs_Latest st'")
    fix r r' assume r: "cs_Latest st = Some r" "cs_Latest st' = Some r'"
    then have m: "r \<in> set rs" "r' \<in> set rs" using assms(1-3) by (simp_all add: newest_of_def)
    then have "run_age r = run_age r'" using r assms(1-3) by (intro order_antisym) (simp_all add: newest_of_def)
    then have "r = r'" using assms(4) m by (auto simp: run_age_def inj_on_def)
    then show ?thesis using r by simp
  qed (use assms(1-3) e in \<open>auto simp: newest_of_def\<close>)
  moreover have "cs_HasPassed st = cs_HasPassed st'" using assms(1-3) by (auto simp: newest_of_def list_ex_iff)
  ultimately show ?thesis by simp
qed

text \<open>
  C16. The latest run of a case is the record with the greatest time of creation, and among those the greatest
  identifier; whether the case has ever passed is whether one of its records did. Neither depends on the order in which
  the store lists the records.
\<close>

theorem latest_run_of_case:
  assumes "\<forall>r \<in> set rs. run_id r \<noteq> []" "inj_on run_id (set rs)" "mset rs' = mset rs"
  shows "newest_of (filter (\<lambda>r. kr_CaseID (rc_CaseRun r) = i) rs) (state_by_case rs i) \<and> state_by_case rs' i = state_by_case rs i"
proof -
  have s: "set rs' = set rs" using assms(3) by (metis set_mset_mset)
  note n = newest_of_state [OF assms(1), of i]
  have n': "newest_of (filter (\<lambda>r. kr_CaseID (rc_CaseRun r) = i) rs') (state_by_case rs' i)"
    using newest_of_state [of rs' i] assms(1) s by simp
  have "inj_on run_id (set (filter (\<lambda>r. kr_CaseID (rc_CaseRun r) = i) rs'))" using assms(2) s by (auto intro: inj_on_subset)
  then show ?thesis using n newest_of_unique [OF n' n] s by simp
qed

section \<open>Coverage\<close>

definition tally :: "suite_counts \<Rightarrow> int" where
  "tally k = sc_Passed k + sc_Failed k + sc_NotRun k"

lemma add_coverage_sums:
  "tally (sr_Counts (add_coverage n st c r)) = tally (sr_Counts r) + 1"
    "sc_Total (sr_Counts (add_coverage n st c r)) = sc_Total (sr_Counts r)"
    "map si_CaseID (sr_Items (add_coverage n st c r)) = map si_CaseID (sr_Items r) @ [ac_ID c]"
    "latest_record st = None \<Longrightarrow> sc_NotRun (sr_Counts (add_coverage n st c r)) = sc_NotRun (sr_Counts r) + 1"
  by (simp_all add: tally_def add_coverage_def coverage_row_def Let_def del: first_non_empty.simps split: option.splits)

lemma fold_coverage:
  fixes rows :: "api_case \<Rightarrow> interface_node \<times> case_state"
  defines "step \<equiv> \<lambda>c. add_coverage (fst (rows c)) (snd (rows c)) c"
  shows "tally (sr_Counts (fold step cases r)) = tally (sr_Counts r) + int (length cases) \<and>
    sc_Total (sr_Counts (fold step cases r)) = sc_Total (sr_Counts r) \<and>
    map si_CaseID (sr_Items (fold step cases r)) = map si_CaseID (sr_Items r) @ map ac_ID cases \<and>
    ((\<forall>c. latest_record (snd (rows c)) = None) \<longrightarrow>
       sc_NotRun (sr_Counts (fold step cases r)) = sc_NotRun (sr_Counts r) + int (length cases))"
  unfolding step_def by (induction cases arbitrary: r) (simp_all add: add_coverage_sums)

text \<open>
  C17. A coverage report has one item for each case, in the order of the cases. With a store the cases that passed, failed
  and did not run add up to the cases; without one every case is counted twice as not run.
\<close>

theorem coverage_counts_add_up:
  assumes "coverage now b runtime f cases = Inr r"
  shows "map si_CaseID (sr_Items r) = map ac_ID cases \<and> sc_Total (sr_Counts r) = int (length cases) \<and>
    sc_Passed (sr_Counts r) + sc_Failed (sr_Counts r) + sc_NotRun (sr_Counts r) =
      (if runtime = None then 2 * int (length cases) else int (length cases)) \<and>
    (runtime = None \<longrightarrow> sc_NotRun (sr_Counts r) = 2 * int (length cases))"
proof -
  obtain records where records: "records_for_case_ids runtime (case_ids cases) = Inr records"
    and r: "r = fold (\<lambda>c. add_coverage (node_of b (ac_NodeID c)) (state_by_case records (ac_ID c)) c) cases
      (new_coverage now b runtime f cases)"
    using assms by (auto simp: coverage_def split: sum.splits)
  define r0 where "r0 = new_coverage now b runtime f cases"
  have r0: "sr_Items r0 = []" "sc_Total (sr_Counts r0) = int (length cases)"
    "tally (sr_Counts r0) = (if runtime = None then int (length cases) else 0)"
    "runtime = None \<Longrightarrow> sc_NotRun (sr_Counts r0) = int (length cases)"
    by (simp_all add: r0_def new_coverage_def tally_def Let_def)
  have none: "\<forall>c :: api_case. latest_record (state_by_case records (ac_ID c)) = None" if "runtime = None"
    using records that by (simp add: records_for_case_ids_def state_by_case_def latest_record_def no_state_def)
  have sums: "tally (sr_Counts r) = tally (sr_Counts r0) + int (length cases)" "sc_Total (sr_Counts r) = sc_Total (sr_Counts r0)"
    "map si_CaseID (sr_Items r) = map si_CaseID (sr_Items r0) @ map ac_ID cases"
    "runtime = None \<Longrightarrow> sc_NotRun (sr_Counts r) = sc_NotRun (sr_Counts r0) + int (length cases)"
    using fold_coverage [of "\<lambda>c. (node_of b (ac_NodeID c), state_by_case records (ac_ID c))" cases r0] none
    unfolding r r0_def by (simp_all only: fst_conv snd_conv) simp_all
  show ?thesis using sums r0 by (cases runtime) (simp_all add: tally_def)
qed

section \<open>Readiness\<close>

definition service_ready :: "profile_bundle \<Rightarrow> api_case \<Rightarrow> bool" where
  "service_ready b c = fst (inspect_case_service_readiness (trim_space (in_ServiceID (node_of b (ac_NodeID c))))
     (index_by sv_ID (bu_Services b)))"

definition case_ready :: "profile_bundle \<Rightarrow> record_store option \<Rightarrow> api_case \<Rightarrow> bool" where
  "case_ready b runtime c \<longleftrightarrow> normalize_case_lifecycle (ac_Status c) = CaseLifecycleActive \<and>
     (\<not> blank (ac_CasePath c) \<or> ac_ID c \<in> execution_config_set b runtime) \<and> service_ready b c"

lemma to_lower_char_facts: "is_space (to_lower_char c) = is_space c" "to_lower_char (to_lower_char c) = to_lower_char c"
  by (auto simp: to_lower_char_def is_space_def Let_def dest!: arg_cong [where f = "of_char :: char \<Rightarrow> nat"])

lemma to_lower_trim: "to_lower (trim_space (to_lower (trim_space s))) = to_lower (trim_space s)"
proof -
  have d: "dropWhile is_space (map to_lower_char t) = map to_lower_char (dropWhile is_space t)" for t
    by (simp add: dropWhile_map o_def to_lower_char_facts)
  have "trim_space (to_lower t) = to_lower (trim_space t)" for t
    by (simp add: trim_space_def trim_left_def to_lower_def d rev_map)
  then show ?thesis by (simp add: to_lower_def o_def to_lower_char_facts)
qed

lemma executable_status [simp]:
  "is_executable_case_lifecycle (suite_case_status c) \<longleftrightarrow> normalize_case_lifecycle (ac_Status c) = CaseLifecycleActive"
proof -
  have "normalize_case_lifecycle st = CaseLifecycleActive \<longleftrightarrow> st = CaseLifecycleActive"
    if "st \<in> {''draft'', ''review'', CaseLifecycleActive, ''quarantined'', ''deprecated'', CaseLifecycleInvalid}" for st
    using that by (elim insertE emptyE) (simp_all only:, code_simp+)
  moreover have "normalize_case_lifecycle s \<in> {''draft'', ''review'', CaseLifecycleActive, ''quarantined'', ''deprecated'', CaseLifecycleInvalid}" for s
  by (auto simp: normalize_case_lifecycle_def is_known_case_lifecycle_def to_lower_trim Let_def)
  ultimately show ?thesis by (simp add: is_executable_case_lifecycle_def suite_case_status_def)
qed

lemma readiness_issues: "snd (inspect_case_service_readiness sid services) = [] \<longleftrightarrow> fst (inspect_case_service_readiness sid services)"
  by (simp add: inspect_case_service_readiness_def Let_def split: option.splits)

lemma inspect_case_ready [simp]:
  "ii_Ready (inspect_case b runtime cov c) \<longleftrightarrow> case_ready b runtime c" "ii_CaseID (inspect_case b runtime cov c) = ac_ID c"
  by (auto simp: inspect_case_def inspection_row_def inspection_issues_def case_ready_def service_ready_def readiness_issues Let_def)

lemma fold_inspection:
  "ir_Items (fold (\<lambda>c. add_inspection_row (g c)) cases r) = ir_Items r @ map g cases \<and>
   ic_Total (ir_Counts (fold (\<lambda>c. add_inspection_row (g c)) cases r)) = ic_Total (ir_Counts r) \<and>
   ic_Ready (ir_Counts (fold (\<lambda>c. add_inspection_row (g c)) cases r)) =
     ic_Ready (ir_Counts r) + int (length (filter (\<lambda>c. ii_Ready (g c)) cases)) \<and>
   ic_Blocked (ir_Counts (fold (\<lambda>c. add_inspection_row (g c)) cases r)) =
     ic_Blocked (ir_Counts r) + int (length (filter (\<lambda>c. \<not> ii_Ready (g c)) cases))"
  by (induction cases arbitrary: r) (simp_all add: add_inspection_row_def Let_def)

lemma inspected:
  assumes "inspect now b runtime f cases = Inr ins"
  obtains cov where "coverage now b runtime f cases = Inr cov" "ir_Items ins = map (inspect_case b runtime cov) cases"
    "ic_Total (ir_Counts ins) = int (length cases)" "ic_Ready (ir_Counts ins) = int (length (filter (case_ready b runtime) cases))"
    "ic_Blocked (ir_Counts ins) = int (length (filter (\<lambda>c. \<not> case_ready b runtime c) cases))"
proof -
  obtain cov where c: "coverage now b runtime f cases = Inr cov"
    and i: "ins = fold (\<lambda>c. add_inspection_row (inspect_case b runtime cov c)) cases (new_inspection (bu_ID b) cov (int (length cases)))"
    using assms by (auto simp: inspect_def split: sum.splits)
  show ?thesis
    by (rule that [OF c]) (use fold_inspection [of "inspect_case b runtime cov" cases] in \<open>simp_all add: i new_inspection_def\<close>)
qed

section \<open>The plan of a run\<close>

definition wanted_action :: "plan_options \<Rightarrow> inspection_item \<Rightarrow> bool" where
  "wanted_action opts i \<longleftrightarrow> action_set (normalize_string_list (po_Actions opts)) = {} \<or>
     ii_SuggestedAction i \<in> action_set (normalize_string_list (po_Actions opts))"

lemma fold_plan_items:
  "fold (plan_item_group actions) is r = r\<lparr>
     pp_Blocked := pp_Blocked r @ filter (\<lambda>i. \<not> ii_Ready i) is,
     pp_Skipped := pp_Skipped r @ filter (\<lambda>i. ii_Ready i \<and> \<not> (actions = {} \<or> ii_SuggestedAction i \<in> actions)) is,
     pp_Selected := pp_Selected r @ filter (\<lambda>i. ii_Ready i \<and> (actions = {} \<or> ii_SuggestedAction i \<in> actions)) is,
     pp_CaseIDs := pp_CaseIDs r @ map ii_CaseID (filter (\<lambda>i. ii_Ready i \<and> (actions = {} \<or> ii_SuggestedAction i \<in> actions)) is)\<rparr>"
  by (induction "is" arbitrary: r) (simp_all add: plan_item_group_def)

lemma plan_groups:
  fixes opts ins b
  defines "p \<equiv> plan_of_inspection b opts ins"
  shows "pp_Blocked p = filter (\<lambda>i. \<not> ii_Ready i) (ir_Items ins)"
    "pp_Skipped p = filter (\<lambda>i. ii_Ready i \<and> \<not> wanted_action opts i) (ir_Items ins)"
    "pp_Selected p = filter (\<lambda>i. ii_Ready i \<and> wanted_action opts i) (ir_Items ins)"
    "bq_CaseIDs (pp_BatchRequest p) = map ii_CaseID (pp_Selected p)" "pp_OK p \<longleftrightarrow> pp_Selected p \<noteq> []"
    "pk_Total (pp_Counts p) = ic_Total (ir_Counts ins)" "pk_Ready (pp_Counts p) = ic_Ready (ir_Counts ins)"
    "pk_Blocked (pp_Counts p) = ic_Blocked (ir_Counts ins)" "pk_Selected (pp_Counts p) = int (length (pp_Selected p))"
    "pk_Skipped (pp_Counts p) = int (length (pp_Skipped p))"
  unfolding p_def by (simp_all add: plan_of_inspection_def fold_plan_items wanted_action_def new_batch_request_def Let_def)

lemma length_filter_split: "length (filter P xs) + length (filter (\<lambda>x. \<not> P x) xs) = length xs"
  by (induction xs) simp_all

lemma planned:
  assumes "suite_plan now b runtime f cases opts = Inr p"
  obtains ins cov where "p = plan_of_inspection b opts ins" "coverage now b runtime f cases = Inr cov"
    "ir_Items ins = map (inspect_case b runtime cov) cases"
    "pp_Selected p = map (inspect_case b runtime cov)
      (filter (\<lambda>c. case_ready b runtime c \<and> wanted_action opts (inspect_case b runtime cov c)) cases)"
    "pp_Skipped p = map (inspect_case b runtime cov)
      (filter (\<lambda>c. case_ready b runtime c \<and> \<not> wanted_action opts (inspect_case b runtime cov c)) cases)"
    "ic_Total (ir_Counts ins) = int (length cases)" "ic_Ready (ir_Counts ins) = int (length (filter (case_ready b runtime) cases))"
    "ic_Blocked (ir_Counts ins) = int (length (filter (\<lambda>c. \<not> case_ready b runtime c) cases))"
proof -
  obtain ins where ins: "inspect now b runtime f cases = Inr ins" and p: "p = plan_of_inspection b opts ins"
    using assms by (cases "inspect now b runtime f cases") (auto simp: suite_plan_def)
  obtain cov where cov: "coverage now b runtime f cases = Inr cov" "ir_Items ins = map (inspect_case b runtime cov) cases"
    "ic_Total (ir_Counts ins) = int (length cases)" "ic_Ready (ir_Counts ins) = int (length (filter (case_ready b runtime) cases))"
    "ic_Blocked (ir_Counts ins) = int (length (filter (\<lambda>c. \<not> case_ready b runtime c) cases))"
    using inspected [OF ins] by metis
  note g = plan_groups [of b opts ins, folded p]
  show ?thesis
    by (rule that [OF p cov(1,2) _ _ cov(3-5)]) (simp_all add: g(2,3) cov(2) filter_map o_def)
qed

text \<open>
  C13. A plan asks for exactly the cases that are ready and whose suggested action is wanted, in the order of the cases: a
  case is ready when its lifecycle is active, it has a case file or an execution configuration, and the service of its
  node is known, active and can be started or reached. The counts of the plan add up, and it is fine only when it asks for
  something.
\<close>

theorem plan_requests_ready_cases:
  assumes "suite_plan now b runtime f cases opts = Inr p"
  shows "\<exists>cov. coverage now b runtime f cases = Inr cov \<and>
    bq_CaseIDs (pp_BatchRequest p) =
      map ac_ID (filter (\<lambda>c. case_ready b runtime c \<and> wanted_action opts (inspect_case b runtime cov c)) cases) \<and>
    (pp_OK p \<longleftrightarrow> bq_CaseIDs (pp_BatchRequest p) \<noteq> []) \<and>
    pk_Total (pp_Counts p) = int (length cases) \<and>
    pk_Ready (pp_Counts p) = int (length (filter (case_ready b runtime) cases)) \<and>
    pk_Blocked (pp_Counts p) + pk_Ready (pp_Counts p) = pk_Total (pp_Counts p) \<and>
    pk_Selected (pp_Counts p) + pk_Skipped (pp_Counts p) = pk_Ready (pp_Counts p)"
  using assms
proof (rule planned)
  fix ins cov
  assume p: "p = plan_of_inspection b opts ins" and cov: "coverage now b runtime f cases = Inr cov"
    and sel: "pp_Selected p = map (inspect_case b runtime cov)
      (filter (\<lambda>c. case_ready b runtime c \<and> wanted_action opts (inspect_case b runtime cov c)) cases)"
    and skip: "pp_Skipped p = map (inspect_case b runtime cov)
      (filter (\<lambda>c. case_ready b runtime c \<and> \<not> wanted_action opts (inspect_case b runtime cov c)) cases)"
    and counts: "ic_Total (ir_Counts ins) = int (length cases)"
      "ic_Ready (ir_Counts ins) = int (length (filter (case_ready b runtime) cases))"
      "ic_Blocked (ir_Counts ins) = int (length (filter (\<lambda>c. \<not> case_ready b runtime c) cases))"
  note g = plan_groups(4-) [of b opts ins, folded p]
  let ?w = "\<lambda>c. wanted_action opts (inspect_case b runtime cov c)"
  have "length (filter (\<lambda>c. case_ready b runtime c \<and> ?w c) cases) + length (filter (\<lambda>c. case_ready b runtime c \<and> \<not> ?w c) cases) =
      length (filter (case_ready b runtime) cases)"
    using length_filter_split [of ?w "filter (case_ready b runtime) cases"] by simp
  moreover have "length (filter (case_ready b runtime) cases) + length (filter (\<lambda>c. \<not> case_ready b runtime c) cases) = length cases"
    by (rule length_filter_split)
  ultimately show ?thesis
    using cov counts by (intro exI [of _ cov]) (simp add: g sel skip o_def)
qed

section \<open>Priority\<close>

lemma priority_before_score: "keeps_key priority_before (\<lambda>x. - pi_Score x)"
  by (auto simp: keeps_key_def priority_before_def Let_def)

lemma scored_item_simps [simp]: "pi_Item (scored_item items reasons i) = i"
  by (simp add: scored_item_def Let_def)

lemma sorted_take_drop_le:
  "sorted (map key xs) \<Longrightarrow> x \<in> set (take n xs) \<Longrightarrow> y \<in> set (drop n xs) \<Longrightarrow> key x \<le> key y"
proof -
  assume s: "sorted (map key xs)" and xy: "x \<in> set (take n xs)" "y \<in> set (drop n xs)"
  have "sorted (map key (take n xs) @ map key (drop n xs))" using s by (simp flip: map_append)
  then show ?thesis using xy by (auto simp: sorted_append)
qed

text \<open>
  C14. The priority list asks for the best cases: every case that is ready is either selected or skipped, a limit keeps
  that many of them, no skipped case has a better score than a selected one, the selected ones are in the order of
  their scores, and the request of the batch names exactly them. A case that is not ready is never asked for.
\<close>

theorem priority_keeps_best:
  assumes "priority tf now b runtime f cases opts = Inr r"
  shows "mset (map (\<lambda>x. ii_CaseID (pi_Item x)) (pr_Selected r @ pr_Skipped r)) = mset (map ac_ID (filter (case_ready b runtime) cases)) \<and>
    length (pr_Selected r) = priority_limit (pq_Limit opts) (length (filter (case_ready b runtime) cases)) \<and>
    list_all (\<lambda>x. list_all (\<lambda>y. pi_Score y \<le> pi_Score x) (pr_Skipped r)) (pr_Selected r) \<and>
    sorted (rev (map pi_Score (pr_Selected r))) \<and>
    bq_CaseIDs (pr_BatchRequest r) = map (\<lambda>x. ii_CaseID (pi_Item x)) (pr_Selected r)"
proof -
  let ?f = "normalize_filter f"
  obtain ins stab where ins: "inspect (now 0) b runtime ?f cases = Inr ins"
    and r: "r = priority_from_parts (now 2) b ?f ins stab (opts\<lparr>pq_Signals := normalize_string_list (pq_Signals opts)\<rparr>)"
    using assms by (auto simp: priority_def Let_def split: sum.splits)
  obtain cov where cov: "ir_Items ins = map (inspect_case b runtime cov) cases" using inspected [OF ins] by metis
  define reasons where "reasons = im_caseReasons (collect_impact b (normalize_string_list (pq_Signals opts)))"
  define rows where "rows = fst (scored_priority_items (ir_Items ins) (tb_Items stab) reasons)"
  define scored where "scored = sort_priority_items rows"
  define n where "n = priority_limit (pq_Limit opts) (length scored)"
  have rows: "rows = map (\<lambda>c. scored_item (tb_Items stab) reasons (inspect_case b runtime cov c)) (filter (case_ready b runtime) cases)"
    by (simp add: rows_def scored_priority_items_def cov filter_map o_def)
  have parts: "pr_Selected r = take n scored" "pr_Skipped r = drop n scored"
    "bq_CaseIDs (pr_BatchRequest r) = map (\<lambda>x. ii_CaseID (pi_Item x)) (take n scored)"
    unfolding r priority_from_parts_def n_def scored_def rows_def reasons_def Let_def by (simp_all add: new_batch_request_def)
  have sorted: "sorted (map (\<lambda>x. - pi_Score x) scored)"
    unfolding scored_def sort_priority_items_def by (rule slice_stable_sorted [OF priority_before_score])
  have "mset scored = mset rows" by (simp add: scored_def sort_priority_items_def)
  then have "mset (map (\<lambda>x. ii_CaseID (pi_Item x)) scored) = mset (map (\<lambda>x. ii_CaseID (pi_Item x)) rows)"
    by (simp only: mset_map)
  then have m: "mset (map (\<lambda>x. ii_CaseID (pi_Item x)) scored) = mset (map ac_ID (filter (case_ready b runtime) cases))"
    by (simp add: rows o_def)
  have len: "length scored = length (filter (case_ready b runtime) cases)"
    using m by (metis length_map size_mset)
  have best: "pi_Score y \<le> pi_Score x" if "x \<in> set (take n scored)" "y \<in> set (drop n scored)" for x y
    using sorted_take_drop_le [OF sorted that] by simp
  have "sorted (map uminus (map pi_Score (take n scored)))"
    using sorted by (metis (no_types, lifting) comp_apply map_map map_eq_conv sorted_wrt_take take_map)
  then have "sorted (rev (map pi_Score (take n scored)))"
    by (auto simp: sorted_wrt_map sorted_wrt_rev sorted_map)
  moreover have "n \<le> length scored" by (auto simp: n_def priority_limit_def)
  ultimately show ?thesis
    unfolding parts using m best len by (simp add: list_all_iff n_def)
qed

section \<open>Impact\<close>

definition reasons_grow :: "impact_selection \<Rightarrow> impact_selection \<Rightarrow> bool" where
  "reasons_grow m m' \<longleftrightarrow> (\<forall>i. (im_nodeReasons m i \<noteq> [] \<longrightarrow> im_nodeReasons m' i \<noteq> []) \<and>
     (im_workflowReasons m i \<noteq> [] \<longrightarrow> im_workflowReasons m' i \<noteq> []) \<and> (im_caseReasons m i \<noteq> [] \<longrightarrow> im_caseReasons m' i \<noteq> []))"

lemma reasons_grow_refl [simp]: "reasons_grow m m"
  by (simp add: reasons_grow_def)

lemma reasons_grow_trans: "reasons_grow a b \<Longrightarrow> reasons_grow b c \<Longrightarrow> reasons_grow a c"
  by (simp add: reasons_grow_def)

lemma append_reason_grows: "existing \<noteq> [] \<Longrightarrow> append_reason existing reason \<noteq> []"
  by (simp add: append_reason_def Let_def)

lemma reason_grows:
  "reasons_grow m m' \<Longrightarrow> reasons_grow m (node_reason i s m')" "reasons_grow m m' \<Longrightarrow> reasons_grow m (workflow_reason i s m')"
  "reasons_grow m m' \<Longrightarrow> reasons_grow m (case_reason i s m')"
  by (simp_all add: reasons_grow_def node_reason_def workflow_reason_def case_reason_def append_reason_grows)

lemma if_grows: "reasons_grow m a \<Longrightarrow> reasons_grow m c \<Longrightarrow> reasons_grow m (if P then a else c)"
  by simp

lemmas grow_intros = if_grows reason_grows reasons_grow_refl

lemma fold_grows: "(\<And>x m. reasons_grow m (g x m)) \<Longrightarrow> reasons_grow m (fold g xs m)"
  by (induction xs arbitrary: m) (auto intro: reasons_grow_trans)

lemma fold_reaches:
  assumes "x \<in> set xs" "\<And>m. reasons_grow m0 m \<Longrightarrow> P (g x m)" "\<And>y m. reasons_grow m (g y m)"
    and "\<And>m m'. reasons_grow m m' \<Longrightarrow> P m \<Longrightarrow> P m'"
  shows "P (fold g xs m0)"
proof -
  obtain ys zs where xs: "xs = ys @ x # zs" using assms(1) by (metis split_list)
  have "P (g x (fold g ys m0))" by (rule assms(2)) (rule fold_grows [OF assms(3)])
  then show ?thesis unfolding xs using assms(4) [OF fold_grows [OF assms(3)]] by simp
qed

lemma blank_append_first: "\<not> is_space c \<Longrightarrow> \<not> blank (c # s)"
  by (simp add: blank_iff_all_space)

lemma steps_grow [simp]:
  "reasons_grow m (match_signal b s m)" "reasons_grow m (spread_binding wb m)" "reasons_grow m (attach_case c m)"
proof -
  show "reasons_grow m (match_signal b s m)"
    unfolding match_signal_def Let_def
    by (intro reasons_grow_trans [OF fold_grows reasons_grow_trans [OF fold_grows fold_grows]] grow_intros)
  show "reasons_grow m (spread_binding wb m)" unfolding spread_binding_def Let_def by (intro grow_intros)
  show "reasons_grow m (attach_case c m)" unfolding attach_case_def by (intro grow_intros)
qed

lemma reason_given [simp]:
  "\<not> blank s \<Longrightarrow> im_nodeReasons (node_reason i s m) i \<noteq> []"
  "\<not> blank s \<Longrightarrow> im_workflowReasons (workflow_reason i s m) i \<noteq> []"
  "\<not> blank s \<Longrightarrow> im_caseReasons (case_reason i s m) i \<noteq> []"
  by (auto simp: node_reason_def workflow_reason_def case_reason_def append_reason_def blank_def Let_def)

lemma blank_literal: "\<not> blank (CHR ''m'' # s)" "\<not> blank (CHR ''b'' # s)" "\<not> blank (CHR ''a'' # s)"
  by (simp_all add: blank_iff_all_space is_space_def)

lemma grown:
  "reasons_grow m m' \<Longrightarrow> im_nodeReasons m i \<noteq> [] \<Longrightarrow> im_nodeReasons m' i \<noteq> []"
  "reasons_grow m m' \<Longrightarrow> im_workflowReasons m i \<noteq> [] \<Longrightarrow> im_workflowReasons m' i \<noteq> []"
  "reasons_grow m m' \<Longrightarrow> im_caseReasons m i \<noteq> [] \<Longrightarrow> im_caseReasons m' i \<noteq> []"
  by (simp_all add: reasons_grow_def)

lemma node_reached:
  assumes "x \<in> set xs" "\<And>m. reasons_grow m0 m \<Longrightarrow> im_nodeReasons (g x m) i \<noteq> []" "\<And>y m. reasons_grow m (g y m)"
  shows "im_nodeReasons (fold g xs m0) i \<noteq> []"
  by (rule fold_reaches [where P = "\<lambda>m. im_nodeReasons m i \<noteq> []" and g = g, OF assms(1)]) (use assms(2,3) grown(1) in blast)+

lemma workflow_reached:
  assumes "x \<in> set xs" "\<And>m. reasons_grow m0 m \<Longrightarrow> im_workflowReasons (g x m) i \<noteq> []" "\<And>y m. reasons_grow m (g y m)"
  shows "im_workflowReasons (fold g xs m0) i \<noteq> []"
  by (rule fold_reaches [where P = "\<lambda>m. im_workflowReasons m i \<noteq> []" and g = g, OF assms(1)]) (use assms(2,3) grown(2) in blast)+

lemma case_reached:
  assumes "x \<in> set xs" "\<And>m. reasons_grow m0 m \<Longrightarrow> im_caseReasons (g x m) i \<noteq> []" "\<And>y m. reasons_grow m (g y m)"
  shows "im_caseReasons (fold g xs m0) i \<noteq> []"
  by (rule fold_reaches [where P = "\<lambda>m. im_caseReasons m i \<noteq> []" and g = g, OF assms(1)]) (use assms(2,3) grown(3) in blast)+

definition workflow_texts :: "workflow \<Rightarrow> string list" where
  "workflow_texts w = [wf_ID w, wf_DisplayName w, wf_Description w]"

lemma match_signal_nodes:
  assumes "n \<in> set (bu_InterfaceNodes b)" "matches_text s (node_texts n)"
  shows "im_nodeReasons (match_signal b s m) (in_ID n) \<noteq> []"
  unfolding match_signal_def Let_def
  by (rule grown(1) [OF reasons_grow_trans [OF fold_grows fold_grows] node_reached [OF assms(1)]])
    (use assms(2) in \<open>auto intro: grow_intros simp: blank_literal\<close>)

lemma match_signal_workflows:
  assumes "w \<in> set (bu_Workflows b)" "matches_text s (workflow_texts w)"
  shows "im_workflowReasons (match_signal b s m) (wf_ID w) \<noteq> []"
  unfolding match_signal_def Let_def
  by (rule grown(2) [OF fold_grows workflow_reached [OF assms(1)]])
    (use assms(2) in \<open>auto intro: grow_intros simp: blank_literal workflow_texts_def\<close>)

lemma match_signal_cases:
  assumes "c \<in> set (bu_APICases b)" "matches_text s (case_texts c)"
  shows "im_caseReasons (match_signal b s m) (ac_ID c) \<noteq> []"
  unfolding match_signal_def Let_def
  by (rule case_reached [OF assms(1)]) (use assms(2) in \<open>auto intro: grow_intros simp: blank_literal\<close>)

text \<open>A case is hit directly when a signal matches it, its node, or a workflow that binds it or its node.\<close>

definition directly_impacted :: "profile_bundle \<Rightarrow> string list \<Rightarrow> api_case \<Rightarrow> bool" where
  "directly_impacted b signals c = list_ex (\<lambda>s.
     matches_text s (case_texts c) \<or>
     list_ex (\<lambda>n. in_ID n = ac_NodeID c \<and> matches_text s (node_texts n)) (bu_InterfaceNodes b) \<or>
     list_ex (\<lambda>w. matches_text s (workflow_texts w) \<and>
       list_ex (\<lambda>wb. wb_WorkflowID wb = wf_ID w \<and> (wb_CaseID wb = ac_ID c \<or> wb_NodeID wb = ac_NodeID c)) (bu_WorkflowBindings b))
       (bu_Workflows b)) signals"

lemma collect_impact_grows:
  "reasons_grow (fold (match_signal b) signals no_impact) (fold spread_binding (bu_WorkflowBindings b) (fold (match_signal b) signals no_impact))"
  "reasons_grow (fold spread_binding wbs m) (fold attach_case (bu_APICases b) (fold spread_binding wbs m))"
  by (simp_all add: fold_grows)

lemma attached_to_node:
  assumes "c \<in> set (bu_APICases b)" "im_nodeReasons m (ac_NodeID c) \<noteq> []"
  shows "im_caseReasons (fold attach_case (bu_APICases b) m) (ac_ID c) \<noteq> []"
proof (rule case_reached [OF assms(1)])
  fix m' assume "reasons_grow m m'"
  then have "im_nodeReasons m' (ac_NodeID c) \<noteq> []" using assms(2) by (rule grown(1))
  then show "im_caseReasons (attach_case c m') (ac_ID c) \<noteq> []" by (simp add: attach_case_def blank_literal)
qed simp

lemma bound_to_workflow:
  assumes "wb \<in> set wbs" "im_workflowReasons m (wb_WorkflowID wb) \<noteq> []"
  shows "\<not> blank (wb_CaseID wb) \<Longrightarrow> im_caseReasons (fold spread_binding wbs m) (wb_CaseID wb) \<noteq> []"
    and "\<not> blank (wb_NodeID wb) \<Longrightarrow> im_nodeReasons (fold spread_binding wbs m) (wb_NodeID wb) \<noteq> []"
proof -
  define marked where "marked m' = (if im_nodeReasons m' (wb_NodeID wb) \<noteq> []
    then workflow_reason (wb_WorkflowID wb) (''contains impacted node: '' @ wb_NodeID wb) m' else m')" for m'
  have w: "im_workflowReasons (marked m') (wb_WorkflowID wb) \<noteq> []" if "reasons_grow m m'" for m'
  proof -
    have "reasons_grow m' (marked m')" unfolding marked_def by (intro grow_intros)
    then show ?thesis by (rule grown(2) [OF reasons_grow_trans [OF that] assms(2)])
  qed
  define reason where "reason = ''bound to impacted workflow: '' @ wb_WorkflowID wb"
  have given: "\<not> blank reason" by (simp add: reason_def blank_literal)
  have b: "spread_binding wb m' = (if blank (wb_CaseID wb) then n else case_reason (wb_CaseID wb) reason n)"
    if "reasons_grow m m'" "n = (if blank (wb_NodeID wb) then marked m' else node_reason (wb_NodeID wb) reason (marked m'))" for m' n
    using w [OF that(1)] unfolding spread_binding_def marked_def [symmetric] reason_def [symmetric] Let_def that(2)
    by (simp split del: if_split)
  show "im_caseReasons (fold spread_binding wbs m) (wb_CaseID wb) \<noteq> []" if "\<not> blank (wb_CaseID wb)"
    by (rule case_reached [OF assms(1)]) (simp_all add: b [OF _ refl] that given)
  show "im_nodeReasons (fold spread_binding wbs m) (wb_NodeID wb) \<noteq> []" if "\<not> blank (wb_NodeID wb)"
  proof (rule node_reached [OF assms(1)])
    fix m' assume g: "reasons_grow m m'"
    define n where "n = node_reason (wb_NodeID wb) reason (marked m')"
    have e: "spread_binding wb m' = (if blank (wb_CaseID wb) then n else case_reason (wb_CaseID wb) reason n)"
      by (rule b [OF g]) (simp add: n_def that)
    have "reasons_grow n (spread_binding wb m')" unfolding e by (intro grow_intros)
    moreover have "im_nodeReasons n (wb_NodeID wb) \<noteq> []" by (simp add: n_def given)
    ultimately show "im_nodeReasons (spread_binding wb m') (wb_NodeID wb) \<noteq> []" by (rule grown(1))
  qed simp
qed

lemma collect_impact_direct:
  assumes c: "c \<in> set (bu_APICases b)" "directly_impacted b signals c" and ids: "\<not> blank (ac_ID c)" "\<not> blank (ac_NodeID c)"
  shows "im_caseReasons (collect_impact b signals) (ac_ID c) \<noteq> []"
proof -
  define m1 where "m1 = fold (match_signal b) signals no_impact"
  define m2 where "m2 = fold spread_binding (bu_WorkflowBindings b) m1"
  have m: "collect_impact b signals = fold attach_case (bu_APICases b) m2" by (simp add: collect_impact_def m1_def m2_def)
  have g12: "reasons_grow m1 m2" and g23: "reasons_grow m2 (collect_impact b signals)"
    unfolding m m2_def by (simp_all add: fold_grows)
  have attached: "im_caseReasons (collect_impact b signals) (ac_ID c) \<noteq> []" if "im_nodeReasons m2 (ac_NodeID c) \<noteq> []"
    unfolding m by (rule attached_to_node [OF c(1) that])
  obtain s where s: "s \<in> set signals" and hit: "matches_text s (case_texts c) \<or>
      (\<exists>n \<in> set (bu_InterfaceNodes b). in_ID n = ac_NodeID c \<and> matches_text s (node_texts n)) \<or>
      (\<exists>w \<in> set (bu_Workflows b). matches_text s (workflow_texts w) \<and>
        (\<exists>wb \<in> set (bu_WorkflowBindings b). wb_WorkflowID wb = wf_ID w \<and> (wb_CaseID wb = ac_ID c \<or> wb_NodeID wb = ac_NodeID c)))"
    using c(2) by (auto simp: directly_impacted_def list_ex_iff)
  from hit consider (own) "matches_text s (case_texts c)"
    | (node) n where "n \<in> set (bu_InterfaceNodes b)" "in_ID n = ac_NodeID c" "matches_text s (node_texts n)"
    | (workflow) w wb where "w \<in> set (bu_Workflows b)" "matches_text s (workflow_texts w)" "wb \<in> set (bu_WorkflowBindings b)"
      "wb_WorkflowID wb = wf_ID w" "wb_CaseID wb = ac_ID c \<or> wb_NodeID wb = ac_NodeID c" by blast
  then show ?thesis
  proof cases
    case own
    have "im_caseReasons m1 (ac_ID c) \<noteq> []"
      unfolding m1_def by (rule case_reached [OF s]) (rule match_signal_cases [OF c(1) own], simp)
    then show ?thesis using g12 g23 by (metis grown(3))
  next
    case node
    have "im_nodeReasons m1 (in_ID n) \<noteq> []"
      unfolding m1_def by (rule node_reached [OF s]) (rule match_signal_nodes [OF node(1,3)], simp)
    then have "im_nodeReasons m2 (in_ID n) \<noteq> []" by (rule grown(1) [OF g12])
    then show ?thesis using attached node(2) by simp
  next
    case workflow
    have "im_workflowReasons m1 (wf_ID w) \<noteq> []"
      unfolding m1_def by (rule workflow_reached [OF s]) (rule match_signal_workflows [OF workflow(1,2)], simp)
    then have w: "im_workflowReasons m1 (wb_WorkflowID wb) \<noteq> []" using workflow(4) by simp
    show ?thesis
    proof (cases "wb_CaseID wb = ac_ID c")
      case True
      then have "im_caseReasons m2 (ac_ID c) \<noteq> []" using bound_to_workflow(1) [OF workflow(3) w] ids(1) by (simp add: m2_def)
      then show ?thesis by (rule grown(3) [OF g23])
    next
      case False
      then have n: "wb_NodeID wb = ac_NodeID c" using workflow(5) by blast
      then have "im_nodeReasons m2 (ac_NodeID c) \<noteq> []" using bound_to_workflow(2) [OF workflow(3) w] ids(2) by (simp add: m2_def)
      then show ?thesis by (rule attached)
    qed
  qed
qed

text \<open>
  C15. The impact of signals reports every case that the filter selects and that a signal hits directly: its own texts, those
  of its node, or those of a workflow that binds the case or its node.
\<close>

theorem impact_reports_direct_hits:
  assumes "impact now b runtime f signals opts = Inr r"
    and "c \<in> set (bu_APICases b)" "case_matches c f" "directly_impacted b (normalize_string_list signals) c"
    and "\<not> blank (ac_ID c)" "\<not> blank (ac_NodeID c)"
  shows "ac_ID c \<in> set (map (\<lambda>x. ii_CaseID (ia_Item x)) (ie_Cases r)) \<and>
    (ac_ID c \<in> set (bq_CaseIDs (ie_BatchRequest r)) \<longrightarrow> (\<exists>d \<in> set (bu_APICases b). ac_ID d = ac_ID c \<and> case_ready b runtime d))"
proof -
  define m where "m = collect_impact b (normalize_string_list signals)"
  define cases where "cases = impact_cases b (normalize_filter f) (im_caseReasons m)"
  obtain p where p: "suite_plan (now 0) b runtime (normalize_filter f) cases opts = Inr p"
    and r: "ie_Cases r = impact_case_rows p (im_caseReasons m)" "ie_BatchRequest r = pp_BatchRequest p"
    using assms(1) by (auto simp: impact_def m_def cases_def Let_def split: sum.splits)
  have c: "c \<in> set cases"
    using assms(2,3) collect_impact_direct [OF assms(2,4-6)] by (simp add: cases_def impact_cases_def select_cases_def m_def)
  have sub: "set cases \<subseteq> set (bu_APICases b)" by (auto simp: cases_def impact_cases_def select_cases_def)
  obtain ins cov where p': "p = plan_of_inspection b opts ins" and items: "ir_Items ins = map (inspect_case b runtime cov) cases"
    and sel: "pp_Selected p = map (inspect_case b runtime cov)
      (filter (\<lambda>c. case_ready b runtime c \<and> wanted_action opts (inspect_case b runtime cov c)) cases)"
    using planned [OF p] by metis
  have "set (pp_Selected p @ pp_Blocked p @ pp_Skipped p) = set (ir_Items ins)"
    unfolding p' by (auto simp: plan_groups)
  then have "inspect_case b runtime cov c \<in> set (pp_Selected p @ pp_Blocked p @ pp_Skipped p)" using items c by simp
  then have "ac_ID c \<in> ii_CaseID ` set (pp_Selected p @ pp_Blocked p @ pp_Skipped p)" by (rule rev_image_eqI) simp
  moreover have "set (map (\<lambda>x. ii_CaseID (ia_Item x)) (ie_Cases r)) = ii_CaseID ` set (pp_Selected p @ pp_Blocked p @ pp_Skipped p)"
    unfolding r(1) impact_case_rows_def by (simp add: image_image image_Un)
  ultimately have "ac_ID c \<in> set (map (\<lambda>x. ii_CaseID (ia_Item x)) (ie_Cases r))" by simp
  moreover have "\<exists>d \<in> set (bu_APICases b). ac_ID d = i \<and> case_ready b runtime d" if "i \<in> set (bq_CaseIDs (pp_BatchRequest p))" for i
    using that sub unfolding p' plan_groups(4) by (auto simp: sel [unfolded p'])
  ultimately show ?thesis by (simp add: r(2))
qed

section \<open>Examples\<close>

definition sample_case :: "ident \<Rightarrow> ident \<Rightarrow> string \<Rightarrow> api_case" where
  "sample_case i n path = \<lparr>ac_ID = i, ac_DisplayName = [], ac_Description = [], ac_NodeID = n, ac_CaseType = [], ac_Scenario = [],
     ac_Tags = None, ac_Priority = ''p1'', ac_Owner = [], ac_PayloadTemplateJSON = [], ac_RequestTemplateID = [],
     ac_PatchJSON = [], ac_RenderMode = [], ac_ExpectedJSON = [], ac_RequiredForAdmission = False, ac_Status = [],
     ac_SortOrder = 0, ac_CasePath = path, ac_SourceKind = [], ac_SourcePath = [], ac_ExecutorID = [], ac_BaseURL = [],
     ac_EvidenceDir = [], ac_TimeoutSeconds = 0, ac_DefaultOverridesJSON = []\<rparr>"

definition sample_binding :: "ident \<Rightarrow> ident \<Rightarrow> ident \<Rightarrow> workflow_binding" where
  "sample_binding w n c = \<lparr>wb_WorkflowID = w, wb_StepID = [], wb_NodeID = n, wb_CaseID = c, wb_Required = True, wb_SortOrder = 0\<rparr>"

text \<open>One workflow binds the node \<open>orders\<close> and then the case \<open>bill\<close> of the node \<open>invoices\<close>.\<close>

definition sample_bundle :: profile_bundle where
  "sample_bundle = \<lparr>bu_ID = ''profile'', bu_Services = [],
     bu_Workflows = [\<lparr>wf_ID = ''month'', wf_DisplayName = [], wf_Description = [], wf_BaseStepTimeoutMs = 0, wf_TimeoutOffsetMs = 0\<rparr>],
     bu_InterfaceNodes = [no_node\<lparr>in_ID := ''orders''\<rparr>, no_node\<lparr>in_ID := ''invoices''\<rparr>],
     bu_APICases = [sample_case ''buy'' ''orders'' ''buy.yaml'', sample_case ''bill'' ''invoices'' []],
     bu_Executors = [], bu_RequestTemplates = [],
     bu_WorkflowBindings = [sample_binding ''month'' ''orders'' [], sample_binding ''month'' ''invoices'' ''bill''],
     bu_TemplateConfigs = []\<rparr>"

definition sample_record :: "ident \<Rightarrow> ident \<Rightarrow> string \<Rightarrow> time \<Rightarrow> run_record" where
  "sample_record i c st t = \<lparr>rc_Run = \<lparr>xr_ID = i, xr_ProfileID = [], xr_EnvironmentID = [], xr_WorkflowID = [], xr_Status = st,
       xr_EvidenceRoot = [], xr_SummaryJSON = [], xr_TestPlanMapID = [], xr_TestPlanPathID = [], xr_PlannerSummaryJSON = [],
       xr_StartedAt = t, xr_FinishedAt = t, xr_CreatedAt = t, xr_UpdatedAt = t\<rparr>, rc_CaseRun = \<lparr>kr_ID = i, kr_RunID = i, kr_CaseID = c,
     kr_Status = st, kr_RequestSummaryJSON = [], kr_AssertionSummaryJSON = [], kr_TestPlanNodeID = [],
     kr_TestPlanOperation = [], kr_PlannerSummaryJSON = [], kr_StartedAt = t, kr_FinishedAt = t, kr_CreatedAt = t\<rparr>\<rparr>"

definition sample_filter :: suite_filter where
  "sample_filter = \<lparr>sf_Filter = [], sf_NodeID = [], sf_Tags = [], sf_Status = [], sf_Owner = [], sf_Priority = []\<rparr>"

definition sample_options :: plan_options where
  "sample_options = \<lparr>po_RequestID = [], po_Actions = [], po_BaseURL = [], po_EvidenceDir = [], po_TimeoutSeconds = 30\<rparr>"

definition sample_priority :: priority_options where
  "sample_priority = \<lparr>pq_Signals = [''orders''], pq_Limit = 1, pq_RequestID = [], pq_BaseURL = [], pq_EvidenceDir = [],
     pq_TimeoutSeconds = 30\<rparr>"

definition sample_time :: time_format where
  "sample_time = \<lparr>tf_format = (\<lambda>_. []), tf_parse = (\<lambda>_. None)\<rparr>"

lemma sample_ready: "map ac_ID (filter (case_ready sample_bundle None) (bu_APICases sample_bundle)) = [''buy'']"
  by code_simp

lemma sample_records: "records_for_case_ids None is = Inr []"
  by (simp add: records_for_case_ids_def)

lemma sample_reports [simp]:
  "coverage now b None f cases \<noteq> Inl e" "inspect now b None f cases \<noteq> Inl e" "stability tf now b None f cases k \<noteq> Inl e"
  "suite_plan now b None f cases opts \<noteq> Inl e"
  by (simp_all add: coverage_def inspect_def stability_def suite_plan_def sample_records Let_def)

lemma not_Inl: "(\<And>e. x \<noteq> Inl e) \<Longrightarrow> \<exists>r. x = Inr r"
  by (cases x) blast+

lemma sample_priority_made: "priority tf now b None f cases opts \<noteq> Inl e"
  unfolding priority_def Let_def by (simp split: sum.split)

lemma sample_impact_made: "impact now b None f signals opts \<noteq> Inl e"
  unfolding impact_def Let_def by (simp split: sum.split)

theorem latest_run_of_case_witness:
  "cs_HasPassed (state_by_case [sample_record ''r2'' ''buy'' ''failed'' 20, sample_record ''r1'' ''buy'' ''passed'' 10] ''buy'') \<and>
   state_by_case [sample_record ''r1'' ''buy'' ''passed'' 10, sample_record ''r2'' ''buy'' ''failed'' 20] ''buy'' =
   state_by_case [sample_record ''r2'' ''buy'' ''failed'' 20, sample_record ''r1'' ''buy'' ''passed'' 10] ''buy''"
proof -
  have "newest_of (filter (\<lambda>r. kr_CaseID (rc_CaseRun r) = ''buy'')
        [sample_record ''r2'' ''buy'' ''failed'' 20, sample_record ''r1'' ''buy'' ''passed'' 10])
      (state_by_case [sample_record ''r2'' ''buy'' ''failed'' 20, sample_record ''r1'' ''buy'' ''passed'' 10] ''buy'') \<and>
    state_by_case [sample_record ''r1'' ''buy'' ''passed'' 10, sample_record ''r2'' ''buy'' ''failed'' 20] ''buy'' =
    state_by_case [sample_record ''r2'' ''buy'' ''failed'' 20, sample_record ''r1'' ''buy'' ''passed'' 10] ''buy''"
    by (rule latest_run_of_case) (simp_all add: run_id_def sample_record_def)
  then show ?thesis by (simp add: newest_of_def sample_record_def is_passed_status_def trim_space_def trim_left_def to_lower_def to_lower_char_def is_space_def)
qed

theorem coverage_counts_add_up_witness:
  "\<exists>r. coverage ''now'' sample_bundle None sample_filter (bu_APICases sample_bundle) = Inr r \<and> sc_NotRun (sr_Counts r) = 4"
proof -
  obtain r where r: "coverage ''now'' sample_bundle None sample_filter (bu_APICases sample_bundle) = Inr r"
    using not_Inl [OF sample_reports(1)] by blast
  have "length (bu_APICases sample_bundle) = 2" by (simp add: sample_bundle_def)
  then show ?thesis using coverage_counts_add_up [OF r] r by simp
qed

theorem plan_requests_ready_cases_witness:
  "\<exists>p. suite_plan ''now'' sample_bundle None sample_filter (bu_APICases sample_bundle) sample_options = Inr p \<and>
     bq_CaseIDs (pp_BatchRequest p) = [''buy'']"
proof -
  obtain p where p: "suite_plan ''now'' sample_bundle None sample_filter (bu_APICases sample_bundle) sample_options = Inr p"
    using not_Inl [OF sample_reports(4)] by blast
  have "wanted_action sample_options x" for x
    by (simp add: wanted_action_def sample_options_def normalize_string_list_def action_set_def)
  then show ?thesis using plan_requests_ready_cases [OF p] p sample_ready by auto
qed

theorem priority_keeps_best_witness:
  "\<exists>r. priority sample_time (\<lambda>_. ''now'') sample_bundle None sample_filter (bu_APICases sample_bundle) sample_priority = Inr r \<and>
     bq_CaseIDs (pr_BatchRequest r) = [''buy'']"
proof -
  obtain r where r: "priority sample_time (\<lambda>_. ''now'') sample_bundle None sample_filter (bu_APICases sample_bundle) sample_priority = Inr r"
    using not_Inl [OF sample_priority_made] by blast
  note best = priority_keeps_best [OF r]
  have len: "length (filter (case_ready sample_bundle None) (bu_APICases sample_bundle)) = 1"
    using arg_cong [OF sample_ready, of length] by simp
  then have "length (pr_Selected r) = 1" using best by (simp add: priority_limit_def sample_priority_def)
  then obtain x where x: "pr_Selected r = [x]" by (metis One_nat_def length_0_conv length_Suc_conv)
  have "set (map (\<lambda>x. ii_CaseID (pi_Item x)) (pr_Selected r @ pr_Skipped r)) = {''buy''}"
    using best sample_ready by (metis list.set(1,2) set_mset_mset)
  then show ?thesis using best r x by auto
qed

theorem impact_reports_direct_hits_witness:
  "\<exists>r. impact (\<lambda>_. ''now'') sample_bundle None sample_filter [''orders''] sample_options = Inr r \<and>
     ''buy'' \<in> set (map (\<lambda>x. ii_CaseID (ia_Item x)) (ie_Cases r))"
proof -
  let ?c = "sample_case ''buy'' ''orders'' ''buy.yaml''"
  obtain r where r: "impact (\<lambda>_. ''now'') sample_bundle None sample_filter [''orders''] sample_options = Inr r"
    using not_Inl [OF sample_impact_made] by blast
  have "case_matches ?c sample_filter" "directly_impacted sample_bundle (normalize_string_list [''orders'']) ?c" by code_simp+
  then have "ac_ID ?c \<in> set (map (\<lambda>x. ii_CaseID (ia_Item x)) (ie_Cases r))"
    using impact_reports_direct_hits [OF r, of ?c] by (simp add: sample_bundle_def sample_case_def blank_iff_all_space is_space_def)
  then show ?thesis using r by (simp add: sample_case_def)
qed


section \<open>Quality\<close>

lemma ball_if_set: "(\<forall>x \<in> set (if P then xs else []). Q x) \<longleftrightarrow> (P \<longrightarrow> (\<forall>x \<in> set xs. Q x))"
  "(\<forall>x \<in> set (if P then [] else xs). Q x) \<longleftrightarrow> (\<not> P \<longrightarrow> (\<forall>x \<in> set xs. Q x))"
  by (cases P; simp)+

lemma actions_of_issues:
  assumes issues: "qc_Issues q = quality_case_issues c q refs" and complete: "qc_Complete q \<longleftrightarrow> qc_Issues q = []"
  shows "case_actions q = [] \<longleftrightarrow> set (qc_Issues q) \<subseteq> {''missing-executor''}"
proof -
  have "set (qc_Issues q) \<subseteq> {''missing-executor''} \<longleftrightarrow>
      qc_Lifecycle q \<noteq> CaseLifecycleInvalid \<and> is_executable_case_lifecycle (qc_Lifecycle q) \<and> qc_HasDescription q \<and>
      qc_Tags q \<noteq> [] \<and> \<not> blank (qc_Priority q) \<and> \<not> blank (qc_Owner q) \<and> qc_HasRunnableFile q \<and> qc_HasExecutionConfig q"
    unfolding subset_eq issues quality_case_issues_def set_append ball_Un ball_if_set by simp
  moreover have "case_lifecycle_issues (qc_Issues q) = [] \<longleftrightarrow>
      qc_Lifecycle q \<noteq> CaseLifecycleInvalid \<and> is_executable_case_lifecycle (qc_Lifecycle q)"
    unfolding issues case_lifecycle_issues_def filter_empty_conv quality_case_issues_def set_append ball_Un ball_if_set by simp
  moreover have "missing_metadata_fields q = [] \<longleftrightarrow>
      qc_HasDescription q \<and> qc_Tags q \<noteq> [] \<and> \<not> blank (qc_Priority q) \<and> \<not> blank (qc_Owner q)"
    by (simp add: missing_metadata_fields_def)
  moreover have "case_actions q = [] \<longleftrightarrow> qc_Issues q = [] \<or> (case_lifecycle_issues (qc_Issues q) = [] \<and>
      missing_metadata_fields q = [] \<and> qc_HasRunnableFile q \<and> qc_HasExecutionConfig q)"
    using complete by (simp add: case_actions_def Let_def)
  moreover have "qc_Issues q = [] \<longrightarrow> set (qc_Issues q) \<subseteq> {''missing-executor''}" by simp
  ultimately show ?thesis by argo
qed

text \<open>
  C19. The quality plan proposes no action for a case exactly when the case has no issue, or only the one that its executor
  is missing: such a case stays incomplete and no action of the plan completes it.
\<close>

theorem quality_actions_silent:
  "case_actions (quality_case_row b runtime c) = [] \<longleftrightarrow> set (qc_Issues (quality_case_row b runtime c)) \<subseteq> {''missing-executor''}"
  by (rule actions_of_issues [where c = c and refs = "executor_reference_set b"])
    (simp_all add: quality_case_row_def quality_case_issues_def Let_def)

end
