(* ===== verification/Spec2Isabelle.thy ===== *)
theory Spec2Isabelle
  imports Map_Run_Outcomes Graph_Import_Facts Agent_Task_Facts Run_Preflight_Facts Release_Tags Batch_Run_Facts Case_Suite_Facts
begin

text \<open>
  A model of the planner of agent-testbench and of everything a planned run goes through.

  The program keeps API test cases, the workflows they belong to and the environments they run in
  in a store (SQLite, MySQL or PostgreSQL), and serves them through a command line and a control
  plane. Its core is the test map: a graph of request nodes with the paths through it. A map is
  validated (a directed acyclic graph), a query against it is turned into a plan of tasks, the plan
  is stored, an executor claims it with a lease, runs its tasks in waves and stores what happened, and
  a plan may be resumed or retried later. This development models that chain from end to end.

  Theories, in the order of the code:

  \<^item> \<open>TB_Prelude\<close>: Go strings, time stamps, identifier helpers, look-ups. \<open>Json\<close>:
    \<open>encoding/json\<close> as the program uses it, with the round trip of Marshal and Unmarshal.
  \<^item> \<open>Plan_Graph\<close> (\<open>internal/domain/plangraph\<close>): the graph, \<open>ValidateDAG\<close> and
    \<open>ExplainCase\<close>. The check accepts exactly the acyclic graphs for every order in
    which the runtime iterates its maps, and what a case needs before it runs.
  \<^item> \<open>Map_Planner\<close>, \<open>Map_Plan_Facts\<close> (\<open>internal/domain/mapplanner\<close>): queries, tasks,
    replay groups, fingerprints and \<open>Explain\<close>. The tasks of every plan are numbered and
    linked forward, replay groups are planned once, costs and summaries add up, which queries are
    answered, and normalisation is idempotent.
  \<^item> \<open>Graph_Import\<close>, \<open>Graph_Import_Facts\<close> (\<open>plangraph/import.go\<close>): the map that is built from
    a profile catalog. What it refers to is in it, its paths are the workflows of the catalog, and when
    the import fails.
  \<^item> \<open>Plan_Records\<close> (\<open>records.go\<close> and the preparation of rows in
    \<open>internal/store/sqlstore\<close>): the stored form of a plan, and that preparing a row twice changes nothing.
  \<^item> \<open>Map_Store\<close>, \<open>Map_Store_Facts\<close> (\<open>store_map_planner.go\<close>,
    \<open>store_map_plan_leases.go\<close>): the plan tables as a state, one function per transaction: fencing by leases under any interleaving of transactions (locale \<open>fenced_store\<close>), and
    the round trip of a plan through the tables.
  \<^item> \<open>Map_Run_Prepare\<close>, \<open>Map_Run_Facts\<close> (\<open>map_run_commands.go\<close>,
    \<open>map_run_report.go\<close> in \<open>cmd/agent-testbench\<close>): options, resuming and retrying, status
    and summary. What is replayed, what is not, and what a status means.
  \<^item> \<open>Map_Waves\<close> (\<open>mapRunTaskExecutionWaves\<close>): the schedule: it ends,
    names every task once and respects the required edges.
  \<^item> \<open>Workflow_Values\<close>, \<open>Catalog\<close>, \<open>Map_Execute\<close>, \<open>Map_Execute_Facts\<close>
    (\<open>map_run_executor.go\<close>, \<open>map_run_lease.go\<close>, \<open>map_run_materialization.go\<close>,
    \<open>map_run_case_runner.go\<close>, \<open>workflow_shared_helpers.go\<close>): the executor as a state
    machine over an arbitrary environment. The locale \<open>execution_monitor\<close> carries an invariant and
    a property of events through every function of the executor.
  \<^item> \<open>Fenced_Store\<close>: the contracts of a store whose writes are fenced by holders, as the
    locales \<open>fenced_store\<close> (plan leases) and \<open>exclusive_store\<close> (claims of agent tasks).
  \<^item> \<open>Agent_Tasks\<close>, \<open>Agent_Task_Facts\<close> (\<open>store_tasks.go\<close>, \<open>task_worker.go\<close>,
    \<open>task_runtime.go\<close>): recurring commands, their claims and the worker. A claim is exclusive, a poll is
    good for one claim, and a command whose outcome is unknown is not repeated, for every outage of the database.
  \<^item> \<open>Run_Preflight\<close>, \<open>Run_Preflight_Facts\<close> (\<open>map_run_preflight.go\<close>,
    \<open>map_run_report.go\<close>, \<open>internal/domain/commandline\<close>): the checks before a run, its report and the
    quoting of commands. Which plans pass, and that a run then asks only for cases of the catalog.
  \<^item> \<open>Go_Sort\<close>: stable sorting and the locales \<open>comparison\<close> and \<open>total_comparison\<close>.
    \<open>Release_Tags\<close> (\<open>internal/domain/updaterelease\<close>): the total order of release tags and the
    latest stable tag of a listing.
  \<^item> \<open>Map_Run_Safety\<close>, \<open>Map_Run_Outcomes\<close>: the properties of whole runs: fencing, run
    identifiers, order of dependent tasks, what a report means, what a retry loses.
  \<^item> \<open>Run_Store\<close> (\<open>internal/store/sqlstore/store_runs.go\<close>): the table of runs with its
    compare-and-swap. \<open>Batch_Report\<close>, \<open>Batch_Runner\<close> (\<open>internal/server/controlplane/api_case_batch_*.go\<close>,
    \<open>internal/runner/apicase\<close>): the report of a batch of cases with its lease, its way through JSON, and
    the run of a batch: preparation, the cases one after the other, evidence, checkpoints, completion and recovery
    after a restart. \<open>Batch_Facts\<close>, \<open>Batch_Monitor\<close> (locale \<open>batch_monitor\<close>) and
    \<open>Batch_Run_Facts\<close>: every effect of a batch happens under its lease, a batch that another process
    recovered is left alone, rows of runs only move forward, and only batches without a live lease are recovered.
  \<^item> \<open>Go_Stable\<close>: the algorithm of \<open>sort.SliceStable\<close>, for comparisons that are no strict weak
    orders. \<open>Case_Suite\<close>, \<open>Case_Quality\<close>, \<open>Case_Suite_Facts\<close> (\<open>internal/domain/casesuite\<close>):
    which cases a filter selects, which of them are ready, and the reports on them. A plan asks for exactly the
    ready cases that are wanted, a limited priority list keeps the best scores, the latest run does not depend on
    the order of the records, and where the reports fall short of their purpose.

  Bounds. The depth-first search of \<open>ValidateDAG\<close>, the JSON parser and the scheduling loop recurse on
  a bound that each definition computes from its input (the number of nodes, the length of the text, the
  number of tasks); \<open>validate_dag_correct\<close>, \<open>json_unmarshal_marshal\<close> and \<open>waves_each_once\<close> show that the bound is never reached where
  the result matters. Strings are byte strings and letters are ASCII. Go's \<open>int\<close> is an unbounded
  integer: the counters and positions of a plan are bounded by the size of the map.

  Parameters. The hashes (SHA-1, SHA-256), the clock, random identities, the HTTP request of a case
  (\<open>controlplane.RunTrustedTestKitCase\<close>), the profile catalog, the iteration order of maps, the
  order in which the goroutines of a wave start, and the commits of other connections are arguments.
  The tasks of one wave are modelled one after the other: their steps do not overlap.
  Of a batch the files, the assertions and exchanges of a case, the materialization of its fixtures and its exports
  are arguments; the heartbeat is an interleaving of renewals before the fences and checkpoints, cancellation is an
  outage like others, and the runtime store is present. A suite reads its runs through a store that is an argument,
  and its readings of the clock are numbered texts.

  Not modelled: the commands that print or render (atlas, reports, help), the restoration of environments
  (Docker, files, health checks), the control plane's HTTP routes, the assistants, the SQL text and the
  migrations, profile import and publication, and the quality gate. They are input and output around the
  chain above, and PROJECT.json lists them with the reason.
\<close>

end
